(* ===== verification/Prelude.thy ===== *)
theory Prelude
  imports Complex_Main "HOL-Library.Char_ord" "HOL-Library.List_Lexorder" "HOL-Library.Code_Target_Nat"
    "HOL-Library.Product_Lexorder" "HOL-Library.Sublist"
begin

text \<open>
  Shared vocabulary of the development: the types Go's values become, the error values the
  Go functions return, and the sequencing combinator for code of the shape
  \<^verbatim>\<open>x, err := f(); if err != nil { return err }\<close>.

  \<^item> A Go \<^verbatim>\<open>string\<close> and a Go \<^verbatim>\<open>[]byte\<close> are byte sequences; both are
    \<^typ>\<open>string\<close> here (an Isabelle \<^typ>\<open>char\<close> is one byte), ordered byte by byte as
    Go's \<^verbatim>\<open><\<close> on strings and SQLite's BLOB and BINARY orders do. A slice whose
    \<^verbatim>\<open>nil\<close> the code tells apart from empty is an option.
  \<^item> Go's \<^verbatim>\<open>int64\<close> times and row numbers are \<^typ>\<open>int\<close>.
  \<^item> \<open>err\<close> holds every error value the modelled functions return.
\<close>

named_theorems store_defs "definitions of the store's statements, for unfolding"
named_theorems inv_intros "introduction rules for invariants of the store and of the hub"
named_theorems row_simps "simplification rules for the table operations"

type_synonym ident = string
type_synonym bytes = string
type_synonym millis = int

text \<open>
  The errors: a \<open>UserError\<close> is hub.UserError (its text is shown to the person); the next
  three are the store's named errors; \<open>ErrBadID\<close> is checkID's refusal with the length it got;
  \<open>ErrConstraint\<close> is a statement refused by the schema, with the constraint; \<open>ErrInvalid\<close> is
  any other validation error built with fmt.Errorf or errors.New.
\<close>

datatype err =
    UserError string
  | ErrNameTaken
  | ErrNotFound
  | ErrPersonHasName
  | ErrBadID nat
  | ErrConstraint string
  | ErrInvalid string

section \<open>Sequencing results that may be errors\<close>

definition bindE :: "'e + 'a \<Rightarrow> ('a \<Rightarrow> 'e + 'b) \<Rightarrow> 'e + 'b" where
  "bindE m f = (case m of Inl e \<Rightarrow> Inl e | Inr a \<Rightarrow> f a)"

lemma bindE_simps [simp]:
  "bindE (Inl e) f = Inl e"
  "bindE (Inr a) f = f a"
  by (simp_all add: bindE_def)

lemma bindE_Inr_iff: "bindE m f = Inr b \<longleftrightarrow> (\<exists>a. m = Inr a \<and> f a = Inr b)"
  by (cases m) auto

lemma bindE_Inl_iff: "bindE m f = Inl e \<longleftrightarrow> m = Inl e \<or> (\<exists>a. m = Inr a \<and> f a = Inl e)"
  by (cases m) auto

lemma bindE_InrE [elim!]:
  assumes "bindE m f = Inr b"
  obtains a where "m = Inr a" and "f a = Inr b"
  using assms by (auto simp: bindE_Inr_iff)

lemma bindE_cong [fundef_cong]:
  assumes "m = m'" and "\<And>a. m' = Inr a \<Longrightarrow> f a = g a"
  shows "bindE m f = bindE m' g"
  using assms by (cases m') auto

definition requireE :: "bool \<Rightarrow> 'e \<Rightarrow> 'e + unit" where
  "requireE b e = (if b then Inr () else Inl e)"

lemma requireE_iff [simp]:
  "requireE b e = Inr u \<longleftrightarrow> b"
  "requireE b e = Inl e' \<longleftrightarrow> \<not> b \<and> e' = e"
  by (auto simp: requireE_def)

lemma requireE_simps [simp]:
  "requireE True e = Inr ()"
  "requireE False e = Inl e"
  by (simp_all add: requireE_def)

text \<open>A loop whose body may fail: Go's \<^verbatim>\<open>for _, x := range xs\<close> with an early return.\<close>

fun foldE :: "('x \<Rightarrow> 's \<Rightarrow> 'e + 's) \<Rightarrow> 'x list \<Rightarrow> 's \<Rightarrow> 'e + 's" where
  "foldE f [] s = Inr s"
| "foldE f (x # xs) s = bindE (f x s) (foldE f xs)"

lemma foldE_invariant:
  assumes "foldE f xs s = Inr s'" and "P s"
    and "\<And>x s s'. x \<in> set xs \<Longrightarrow> P s \<Longrightarrow> f x s = Inr s' \<Longrightarrow> P s'"
  shows "P s'"
  using assms
proof (induction xs arbitrary: s)
  case (Cons x xs)
  from Cons.prems(1) obtain t where t: "f x s = Inr t" "foldE f xs t = Inr s'" by auto
  have "P t" using Cons.prems(2,3) t(1) by (meson list.set_intros(1))
  with t(2) show ?case by (rule Cons.IH) (meson Cons.prems(3) list.set_intros(2))
qed simp

section \<open>Small list facts the components share\<close>

lemma find_Some_set: "find P xs = Some x \<Longrightarrow> x \<in> set xs \<and> P x"
  by (induction xs) (auto split: if_splits)

lemma find_None_set: "find P xs = None \<longleftrightarrow> (\<forall>x\<in>set xs. \<not> P x)"
  by (induction xs) auto

lemma distinct_key_eq:
  assumes "distinct (map k xs)" "x \<in> set xs" "y \<in> set xs" "k x = k y"
  shows "x = y"
  using assms by (auto simp: distinct_map inj_on_def)

lemma find_key_eq:
  assumes "distinct (map k xs)" and "x \<in> set xs"
  shows "find (\<lambda>r. k r = k x) xs = Some x"
  using assms by (induction xs) auto

lemma distinct_map_filter_key: "distinct (map k xs) \<Longrightarrow> distinct (map k (filter P xs))"
  by (induction xs) auto

end
