(* ===== verification/Tables.thy ===== *)
theory Tables
  imports Prelude
begin

text \<open>
  SQL tables as lists of rows, in rowid order. The four statement shapes the store uses are
  functions on such lists: \<open>INSERT\<close> appends, \<open>UPDATE ... WHERE\<close> maps, \<open>DELETE ... WHERE\<close>
  filters, and \<open>INSERT ... ON CONFLICT (key) DO UPDATE\<close> is \<open>upsert\<close>. A table's PRIMARY KEY or
  UNIQUE index is the invariant that its key column has no duplicates. The locale
  \<open>upsert_table\<close> is the contract of the ON CONFLICT clause: what a table guarantees when the
  conflict action leaves the key alone. Every table with such a clause interprets it.
\<close>

definition update_where :: "('r \<Rightarrow> bool) \<Rightarrow> ('r \<Rightarrow> 'r) \<Rightarrow> 'r list \<Rightarrow> 'r list" where
  "update_where P f t = map (\<lambda>r. if P r then f r else r) t"

definition delete_where :: "('r \<Rightarrow> bool) \<Rightarrow> 'r list \<Rightarrow> 'r list" where
  "delete_where P t = filter (\<lambda>r. \<not> P r) t"

definition rows_where :: "('r \<Rightarrow> bool) \<Rightarrow> 'r list \<Rightarrow> nat" where
  "rows_where P t = length (filter P t)"

definition upsert :: "('r \<Rightarrow> 'k) \<Rightarrow> ('r \<Rightarrow> 'r \<Rightarrow> 'r) \<Rightarrow> 'r \<Rightarrow> 'r list \<Rightarrow> 'r list" where
  "upsert key merge new t =
     (if key new \<in> set (map key t) then update_where (\<lambda>r. key r = key new) (merge new) t
      else t @ [new])"

definition insert_ignore :: "('r \<Rightarrow> 'k) \<Rightarrow> 'r \<Rightarrow> 'r list \<Rightarrow> 'r list" where
  "insert_ignore key new t = (if key new \<in> set (map key t) then t else t @ [new])"

text \<open>
  The row number SQLite gives a row inserted into a table whose INTEGER PRIMARY KEY is not
  AUTOINCREMENT: one more than the largest in the table, 1 in an empty table.
\<close>

definition next_rowid :: "('r \<Rightarrow> int) \<Rightarrow> 'r list \<Rightarrow> int" where
  "next_rowid key t = (case map key t of [] \<Rightarrow> 1 | k # ks \<Rightarrow> fold max ks k + 1)"

section \<open>Facts about the statements\<close>

lemma set_update_where [row_simps]:
  "set (update_where P f t) = {f r | r. r \<in> set t \<and> P r} \<union> {r \<in> set t. \<not> P r}"
  by (auto simp: update_where_def)

lemma set_delete_where [row_simps, simp]: "set (delete_where P t) = {r \<in> set t. \<not> P r}"
  by (auto simp: delete_where_def)

lemma map_key_update_where:
  assumes "\<And>r. P r \<Longrightarrow> key (f r) = key r"
  shows "map key (update_where P f t) = map key t"
  using assms by (auto simp: update_where_def)

lemma distinct_update_where:
  assumes "\<And>r. P r \<Longrightarrow> key (f r) = key r" and "distinct (map key t)"
  shows "distinct (map key (update_where P f t))"
  using assms map_key_update_where [of P key f t] by simp

lemma distinct_delete_where [simp]:
  "distinct (map key t) \<Longrightarrow> distinct (map key (delete_where P t))"
  by (simp add: delete_where_def distinct_map_filter_key)

lemma rows_where_0 [simp]: "rows_where P t = 0 \<longleftrightarrow> (\<forall>r\<in>set t. \<not> P r)"
  by (auto simp: rows_where_def filter_empty_conv)

lemma rows_where_pos: "0 < rows_where P t \<longleftrightarrow> (\<exists>r\<in>set t. P r)"
  using rows_where_0 [of P t] by (metis neq0_conv)

lemma rows_where_key_le_1:
  assumes "distinct (map key t)"
  shows "rows_where (\<lambda>r. key r = k) t \<le> 1"
proof (cases "find (\<lambda>r. key r = k) t")
  case None
  then have "filter (\<lambda>r. key r = k) t = []" by (auto simp: find_None_set filter_empty_conv)
  then show ?thesis by (simp add: rows_where_def)
next
  case (Some r)
  then have "set (filter (\<lambda>r. key r = k) t) \<subseteq> {r}"
    using assms by (auto dest!: find_Some_set dest: distinct_key_eq)
  then have "card (set (filter (\<lambda>r. key r = k) t)) \<le> 1"
    by (metis card.empty card_1_singleton_iff card_mono finite.emptyI finite_insert One_nat_def)
  moreover have "distinct (filter (\<lambda>r. key r = k) t)" using assms by (simp add: distinct_map)
  ultimately show ?thesis unfolding rows_where_def by (metis distinct_card)
qed

lemma find_delete_where:
  "find Q (delete_where P t) = find (\<lambda>r. Q r \<and> \<not> P r) t"
  by (induction t) (auto simp: delete_where_def)

lemma find_delete_key:
  "find (\<lambda>r. key r = k) (delete_where (\<lambda>r. key r = k') t) =
    (if k = k' then None else find (\<lambda>r. key r = k) t)"
  by (induction t) (auto simp: delete_where_def)

lemma find_update_where:
  assumes "\<And>r. P r \<Longrightarrow> Q (f r) = Q r"
  shows "find Q (update_where P f t) = map_option (\<lambda>r. if P r then f r else r) (find Q t)"
  using assms by (induction t) (auto simp: update_where_def)

lemma find_append: "find P (xs @ ys) = (case find P xs of None \<Rightarrow> find P ys | Some r \<Rightarrow> Some r)"
  by (induction xs) auto

lemma insert_ignore_set:
  "set (insert_ignore key new t) = (if key new \<in> key ` set t then set t else insert new (set t))"
  by (auto simp: insert_ignore_def)

lemma insert_ignore_key_set [simp]: "key ` set (insert_ignore key new t) = insert (key new) (key ` set t)"
  by (auto simp: insert_ignore_def)

lemma ball_update_where [simp]:
  "(\<forall>x\<in>set (update_where P f t). Q x) \<longleftrightarrow> (\<forall>x\<in>set t. if P x then Q (f x) else Q x)"
  by (auto simp: update_where_def)

lemma image_update_where:
  "(\<And>r. P r \<Longrightarrow> key (f r) = key r) \<Longrightarrow> key ` set (update_where P f t) = key ` set t"
  using map_key_update_where [of P key f t] by (metis list.set_map)

lemma insert_ignore_distinct [simp]:
  "distinct (map key t) \<Longrightarrow> distinct (map key (insert_ignore key new t))"
  by (auto simp: insert_ignore_def)

lemma fold_max_ge: "(k::int) \<le> fold max ks k"
proof (induction ks arbitrary: k)
  case (Cons a ks)
  have "k \<le> max a k" by simp
  also have "\<dots> \<le> fold max ks (max a k)" by (rule Cons.IH)
  finally show ?case by simp
qed simp

lemma fold_max_upper: "x \<in> set ks \<Longrightarrow> (x::int) \<le> fold max ks k"
proof (induction ks arbitrary: k)
  case (Cons a ks)
  show ?case
  proof (cases "x = a")
    case True
    then have "x \<le> max a k" by simp
    also have "\<dots> \<le> fold max ks (max a k)" by (rule fold_max_ge)
    finally show ?thesis by simp
  next
    case False
    with Cons show ?thesis by simp
  qed
qed simp

lemma fold_max_in: "fold max ks (k::int) \<in> insert k (set ks)"
proof (induction ks arbitrary: k)
  case (Cons a ks)
  from Cons.IH [of "max a k"] show ?case by (auto simp: max_def split: if_splits)
qed simp

lemma next_rowid_fresh: "r \<in> set t \<Longrightarrow> key r < next_rowid key t"
  using fold_max_ge fold_max_upper by (cases t) (fastforce simp: next_rowid_def)+

lemma next_rowid_notin: "next_rowid key t \<notin> key ` set t"
  by (auto dest: next_rowid_fresh [of _ t key])

lemma next_rowid_pos: "(\<And>r. r \<in> set t \<Longrightarrow> 0 < key r) \<Longrightarrow> 0 < next_rowid key t"
  using next_rowid_fresh [of _ t key] by (cases t) (fastforce simp: next_rowid_def)+

lemma next_rowid_empty [simp]: "next_rowid key [] = 1"
  by (simp add: next_rowid_def)

section \<open>The ON CONFLICT contract\<close>

locale upsert_table =
  fixes key :: "'r \<Rightarrow> 'k" and merge :: "'r \<Rightarrow> 'r \<Rightarrow> 'r"
  assumes merge_key: "key new = key old \<Longrightarrow> key (merge new old) = key old"
begin

lemma merge_where_key:
  "map key (update_where (\<lambda>r. key r = key new) (merge new) t) = map key t"
  by (rule map_key_update_where) (simp add: merge_key)

lemma upsert_distinct:
  "distinct (map key t) \<Longrightarrow> distinct (map key (upsert key merge new t))"
  by (auto simp: upsert_def merge_where_key)

lemma upsert_key_set:
  "key ` set (upsert key merge new t) = insert (key new) (key ` set t)"
proof -
  have "set (map key (upsert key merge new t)) = insert (key new) (set (map key t))"
    by (auto simp: upsert_def merge_where_key simp del: set_map)
  then show ?thesis by simp
qed

lemma find_merge_where_same:
  "find (\<lambda>r. key r = key new) (update_where (\<lambda>r. key r = key new) (merge new) t) =
    map_option (merge new) (find (\<lambda>r. key r = key new) t)"
  by (induction t) (auto simp: update_where_def merge_key)

lemma find_merge_where_other:
  "k \<noteq> key new \<Longrightarrow> find (\<lambda>r. key r = k) (update_where (\<lambda>r. key r = key new) (merge new) t) =
    find (\<lambda>r. key r = k) t"
  by (induction t) (auto simp: update_where_def merge_key)

lemma upsert_lookup_same:
  "find (\<lambda>r. key r = key new) (upsert key merge new t) =
    Some (case find (\<lambda>r. key r = key new) t of None \<Rightarrow> new | Some old \<Rightarrow> merge new old)"
proof (cases "find (\<lambda>r. key r = key new) t")
  case None
  then have "key new \<notin> key ` set t" by (auto simp: find_None_set)
  with None show ?thesis by (simp add: upsert_def find_append)
next
  case (Some r)
  then have "r \<in> set t" "key new = key r" by (auto dest: find_Some_set)
  then have "key new \<in> key ` set t" by blast
  with Some show ?thesis by (simp add: upsert_def find_merge_where_same)
qed

lemma upsert_lookup_other:
  "k \<noteq> key new \<Longrightarrow> find (\<lambda>r. key r = k) (upsert key merge new t) = find (\<lambda>r. key r = k) t"
  by (auto simp: upsert_def find_merge_where_other find_append split: option.split)

lemma upsert_ball:
  assumes "\<forall>x\<in>set t. P x" and "P new"
    and "\<And>old. old \<in> set t \<Longrightarrow> key old = key new \<Longrightarrow> P old \<Longrightarrow> P (merge new old)"
  shows "\<forall>x\<in>set (upsert key merge new t). P x"
  using assms by (auto simp: upsert_def set_update_where)

end

end
