(* ===== verification/GoStrings.thy ===== *)
theory GoStrings
  imports Prelude
begin

text \<open>
  The parts of Go's standard library the modelled code calls on strings: \<^verbatim>\<open>strings\<close>,
  \<^verbatim>\<open>strconv\<close>, \<^verbatim>\<open>encoding/hex\<close> and \<^verbatim>\<open>unicode/utf8\<close>. A Go string is a list of
  bytes. Runes are code points, as natural numbers; decoding and encoding follow the UTF-8 tables of
  package utf8, an invalid byte decoding to U+FFFD. The case mapping of code points beyond ASCII is
  Unicode data and stays a parameter (\<open>ulower\<close>).
\<close>

section \<open>Decimal and hexadecimal numbers\<close>

fun nat_digits :: "nat \<Rightarrow> string" where
  "nat_digits n = (if n < 10 then [char_of (48 + n)] else nat_digits (n div 10) @ [char_of (48 + n mod 10)])"

declare nat_digits.simps [simp del]

definition itoa :: "int \<Rightarrow> string" where
  "itoa k = (if k < 0 then ''-'' @ nat_digits (nat (- k)) else nat_digits (nat k))"

definition hex_digit :: "nat \<Rightarrow> char" where
  "hex_digit n = (if n < 10 then char_of (48 + n) else char_of (87 + n))"

definition hex_byte :: "char \<Rightarrow> string" where
  "hex_byte c = [hex_digit (of_char c div 16), hex_digit (of_char c mod 16)]"

text \<open>hex.EncodeToString, which is the hub's \<^verbatim>\<open>hexID\<close>.\<close>

definition hexID :: "bytes \<Rightarrow> string" where
  "hexID b = concat (map hex_byte b)"

definition hex_val :: "char \<Rightarrow> nat option" where
  "hex_val c = (let n = of_char c in
     if 48 \<le> n \<and> n \<le> 57 then Some (n - 48)
     else if 97 \<le> n \<and> n \<le> 102 then Some (n - 87)
     else if 65 \<le> n \<and> n \<le> 70 then Some (n - 55)
     else (None :: nat option))"

text \<open>hex.DecodeString: an odd length or a byte that is no digit is an error.\<close>

fun hex_decode :: "string \<Rightarrow> bytes option" where
  "hex_decode [] = Some []"
| "hex_decode [c] = None"
| "hex_decode (a # b # cs) =
     (case (hex_val a, hex_val b, hex_decode cs) of
        (Some x, Some y, Some r) \<Rightarrow> Some (char_of (16 * x + y) # r)
      | _ \<Rightarrow> None)"

section \<open>ASCII\<close>

definition byte_lower :: "char \<Rightarrow> char" where
  "byte_lower c = (let n = of_char c in if (65::nat) \<le> n \<and> n \<le> 90 then char_of (n + 32) else c)"

definition byte_upper :: "char \<Rightarrow> char" where
  "byte_upper c = (let n = of_char c in if (97::nat) \<le> n \<and> n \<le> 122 then char_of (n - 32) else c)"

text \<open>
  strings.EqualFold against a literal without \<^verbatim>\<open>k\<close> or \<^verbatim>\<open>s\<close>: no code point beyond ASCII folds to
  one of its letters, so the comparison is of ASCII letters up to case.
\<close>

definition EqualFold :: "string \<Rightarrow> string \<Rightarrow> bool" where
  "EqualFold s t \<longleftrightarrow> map byte_lower s = map byte_lower t"

section \<open>UTF-8\<close>

definition cont_byte :: "nat \<Rightarrow> nat \<Rightarrow> nat \<Rightarrow> bool" where
  "cont_byte lo hi b \<longleftrightarrow> lo \<le> b \<and> b \<le> hi"

text \<open>utf8.DecodeRune: the rune at the front and its width; an invalid byte is U+FFFD of width 1.\<close>

definition decode_rune :: "nat list \<Rightarrow> nat \<times> nat" where
  "decode_rune bs = (case bs of
     [] \<Rightarrow> (65533, 0)
   | b0 # r \<Rightarrow>
      if b0 < 128 then (b0, 1)
      else if 194 \<le> b0 \<and> b0 \<le> 223 then
        (case r of b1 # _ \<Rightarrow> if cont_byte 128 191 b1 then ((b0 - 192) * 64 + (b1 - 128), 2) else (65533, 1)
         | [] \<Rightarrow> (65533, 1))
      else if 224 \<le> b0 \<and> b0 \<le> 239 then
        (case r of b1 # b2 # _ \<Rightarrow>
            if cont_byte (if b0 = 224 then 160 else 128) (if b0 = 237 then 159 else 191) b1 \<and> cont_byte 128 191 b2
            then ((b0 - 224) * 4096 + (b1 - 128) * 64 + (b2 - 128), 3) else (65533, 1)
         | _ \<Rightarrow> (65533, 1))
      else if 240 \<le> b0 \<and> b0 \<le> 244 then
        (case r of b1 # b2 # b3 # _ \<Rightarrow>
            if cont_byte (if b0 = 240 then 144 else 128) (if b0 = 244 then 143 else 191) b1 \<and>
               cont_byte 128 191 b2 \<and> cont_byte 128 191 b3
            then ((b0 - 240) * 262144 + (b1 - 128) * 4096 + (b2 - 128) * 64 + (b3 - 128), 4) else (65533, 1)
         | _ \<Rightarrow> (65533, 1))
      else (65533, 1))"

lemma decode_rune_width: "bs \<noteq> [] \<Longrightarrow> 0 < snd (decode_rune bs)"
  by (auto simp: decode_rune_def split: list.splits)

function decode_runes :: "nat list \<Rightarrow> (nat \<times> nat) list" where
  "decode_runes bs = (if bs = [] then [] else decode_rune bs # decode_runes (drop (snd (decode_rune bs)) bs))"
  by pat_completeness auto
termination
  by (relation "measure length") (use decode_rune_width in \<open>auto simp: Suc_le_eq\<close>)

declare decode_runes.simps [simp del]

definition encode_rune :: "nat \<Rightarrow> nat list" where
  "encode_rune r =
     (if r < 128 then [r]
      else if r < 2048 then [192 + r div 64, 128 + r mod 64]
      else if (55296 \<le> r \<and> r \<le> 57343) \<or> 1114111 < r then [239, 191, 189]
      else if r < 65536 then [224 + r div 4096, 128 + r div 64 mod 64, 128 + r mod 64]
      else [240 + r div 262144, 128 + r div 4096 mod 64, 128 + r div 64 mod 64, 128 + r mod 64])"

definition bytes_of :: "string \<Rightarrow> nat list" where
  "bytes_of s = map of_char s"

definition string_of :: "nat list \<Rightarrow> string" where
  "string_of bs = map char_of bs"

definition runes :: "string \<Rightarrow> nat list" where
  "runes s = map fst (decode_runes (bytes_of s))"

definition RuneCountInString :: "string \<Rightarrow> nat" where
  "RuneCountInString s = length (runes s)"

definition ValidString :: "string \<Rightarrow> bool" where
  "ValidString s \<longleftrightarrow> (65533, 1) \<notin> set (decode_runes (bytes_of s))"

section \<open>Case, prefixes, white space\<close>

definition is_ascii :: "string \<Rightarrow> bool" where
  "is_ascii s \<longleftrightarrow> (\<forall>c\<in>set s. of_char c < (128::nat))"

definition ToLower :: "(nat \<Rightarrow> nat) \<Rightarrow> string \<Rightarrow> string" where
  "ToLower ulower s =
     (if is_ascii s then map byte_lower s
      else string_of (concat (map (\<lambda>r. encode_rune (if r < 128 then of_char (byte_lower (char_of r)) else ulower r)) (runes s))))"

definition HasPrefix :: "string \<Rightarrow> string \<Rightarrow> bool" where
  "HasPrefix s p \<longleftrightarrow> take (length p) s = p"

definition TrimPrefix :: "string \<Rightarrow> string \<Rightarrow> string" where
  "TrimPrefix s p = (if HasPrefix s p then drop (length p) s else s)"

text \<open>The UTF-8 encodings of the code points unicode.IsSpace accepts.\<close>

definition space_encodings :: "string list" where
  "space_encodings = [[CHR 0x09], [CHR 0x0A], [CHR 0x0B], [CHR 0x0C], [CHR 0x0D], [CHR 0x20], [CHR 0xC2, CHR 0x85],
     [CHR 0xC2, CHR 0xA0], [CHR 0xE1, CHR 0x9A, CHR 0x80], [CHR 0xE2, CHR 0x80, CHR 0xA8],
     [CHR 0xE2, CHR 0x80, CHR 0xA9], [CHR 0xE2, CHR 0x80, CHR 0xAF], [CHR 0xE2, CHR 0x81, CHR 0x9F],
     [CHR 0xE3, CHR 0x80, CHR 0x80], [CHR 0xE2, CHR 0x80, CHR 0x80], [CHR 0xE2, CHR 0x80, CHR 0x81],
     [CHR 0xE2, CHR 0x80, CHR 0x82], [CHR 0xE2, CHR 0x80, CHR 0x83], [CHR 0xE2, CHR 0x80, CHR 0x84],
     [CHR 0xE2, CHR 0x80, CHR 0x85], [CHR 0xE2, CHR 0x80, CHR 0x86], [CHR 0xE2, CHR 0x80, CHR 0x87],
     [CHR 0xE2, CHR 0x80, CHR 0x88], [CHR 0xE2, CHR 0x80, CHR 0x89], [CHR 0xE2, CHR 0x80, CHR 0x8A]]"

definition leading_space :: "string \<Rightarrow> string option" where
  "leading_space s = find (HasPrefix s) space_encodings"

lemma space_encodings_nonempty: "e \<in> set space_encodings \<Longrightarrow> e \<noteq> []"
  by (auto simp: space_encodings_def)

lemma leading_space_nonempty: "leading_space s = Some e \<Longrightarrow> e \<noteq> [] \<and> s \<noteq> []"
  unfolding leading_space_def
  by (drule find_Some_set) (auto simp: HasPrefix_def dest: space_encodings_nonempty)

function TrimLeftSpace :: "string \<Rightarrow> string" where
  "TrimLeftSpace s = (case leading_space s of None \<Rightarrow> s | Some e \<Rightarrow> TrimLeftSpace (drop (length e) s))"
  by pat_completeness auto
termination
  by (relation "measure length") (auto dest: leading_space_nonempty)

declare TrimLeftSpace.simps [simp del]

definition trailing_space :: "string \<Rightarrow> string option" where
  "trailing_space s = find (\<lambda>e. HasPrefix (rev s) (rev e)) space_encodings"

lemma trailing_space_nonempty: "trailing_space s = Some e \<Longrightarrow> e \<noteq> [] \<and> s \<noteq> []"
  unfolding trailing_space_def
  by (drule find_Some_set) (auto simp: HasPrefix_def dest: space_encodings_nonempty)

function TrimRightSpace :: "string \<Rightarrow> string" where
  "TrimRightSpace s = (case trailing_space s of None \<Rightarrow> s | Some e \<Rightarrow> TrimRightSpace (take (length s - length e) s))"
  by pat_completeness auto
termination
  by (relation "measure length") (auto dest: trailing_space_nonempty)

declare TrimRightSpace.simps [simp del]

text \<open>strings.TrimSpace.\<close>

definition TrimSpace :: "string \<Rightarrow> string" where
  "TrimSpace s = TrimRightSpace (TrimLeftSpace s)"

text \<open>strings.TrimRight with an ASCII cutset.\<close>

definition TrimRightSet :: "string \<Rightarrow> string \<Rightarrow> string" where
  "TrimRightSet s cutset = rev (dropWhile (\<lambda>c. c \<in> set cutset) (rev s))"

section \<open>Joining\<close>

fun Join :: "string list \<Rightarrow> string \<Rightarrow> string" where
  "Join [] sep = ''''"
| "Join [s] sep = s"
| "Join (s # t # ss) sep = s @ sep @ Join (t # ss) sep"

definition plural :: "int \<Rightarrow> string \<Rightarrow> string" where
  "plural n word = (if n = 1 then ''1 '' @ word else itoa n @ '' '' @ word @ ''s'')"

section \<open>Facts\<close>

lemma hex_val_digit [simp]: "n < 16 \<Longrightarrow> hex_val (hex_digit n) = Some n"
  by (simp add: hex_val_def hex_digit_def Let_def)

lemma hex_decode_hexID [simp]: "hex_decode (hexID b) = Some b"
proof (induction b)
  case Nil
  then show ?case by (simp add: hexID_def)
next
  case (Cons c b)
  have lt: "(of_char c :: nat) div 16 < 16" "(of_char c :: nat) mod 16 < 16"
    using nat_of_char_less_256 [of c] by (simp_all add: less_mult_imp_div_less)
  have "char_of (16 * (of_char c div 16) + of_char c mod 16 :: nat) = c" by simp
  with Cons lt show ?case by (simp add: hexID_def hex_byte_def)
qed

lemma hexID_inject [simp]: "hexID a = hexID b \<longleftrightarrow> a = b"
  by (metis hex_decode_hexID option.inject)

lemma length_hexID [simp]: "length (hexID b) = 2 * length b"
  by (induction b) (auto simp: hexID_def hex_byte_def)

lemma HasPrefix_prefix: "HasPrefix s p \<longleftrightarrow> prefix p s"
  by (auto simp: HasPrefix_def prefix_def) (metis append_take_drop_id)

end
