(* ===== verification/StoreDB.thy ===== *)
theory StoreDB
  imports Tables GoStrings
begin

text \<open>
  The store's data (internal/store): one record per table row, with the fields of the Go struct
  the code scans it into, and \<open>db\<close>, the database of schema version 4. The schema's constraints
  are the invariant \<open>db_inv\<close>, table group by table group: primary keys and unique indexes,
  foreign keys, the CHECKs the Go code relies on, and two facts no constraint states but every
  operation keeps (a person has an identity; row numbers grow along a table).
\<close>

section \<open>Enumerations\<close>

datatype LXMFMode = LXMFOn | LXMFOff | LXMFAuto

text \<open>store.Rank; the hub's own ranks are in \<open>HubRanks\<close>.\<close>

datatype stored_rank = StoredMember | StoredMod | StoredAdmin

datatype Via = ViaRRC | ViaLXMF | ViaPage | ViaImport

datatype Kind = KindMsg | KindAction

datatype Role = RoleOp | RoleVoice | RoleBan

datatype DeliveryState =
    DeliveryQueued | DeliverySent | DeliveryPropagated | DeliveryProven | DeliveryFailed

section \<open>Rows\<close>

record identity_row =
  i_ID :: ident
  i_PublicKey :: "bytes option"
  i_FirstSeen :: millis
  i_LastSeen :: millis
  i_LXMFMode :: LXMFMode
  i_LXMFMine :: bool
  i_Person :: int
  i_PersonSince :: millis

record prefs =
  ShareLXMF :: bool
  Whispers_pref :: bool
  WhispersLXMF :: bool
  PageLines :: int
  PageFlag :: bool
  PageRefresh :: int

record person_row =
  p_ID :: int
  p_CreatedAt :: millis
  p_Rank :: stored_rank
  p_RankBy :: "ident option"
  p_RankAt :: millis
  p_Prefs :: prefs

record name_row =
  n_Person :: int
  n_Name :: string
  n_Skeleton :: string
  n_ClaimedAt :: millis

record room =
  rm_Name :: string
  rm_Topic :: string
  rm_Founder :: "ident option"
  rm_Registered :: bool
  rm_Modes :: string
  rm_Key :: string
  rm_CreatedAt :: millis
  rm_LastUsed :: millis

record role_row =
  rr_Room :: string
  rr_Identity :: ident
  rr_Role :: Role
  rr_SetBy :: "ident option"
  rr_SetAt :: millis

record invite_row =
  in_Room :: string
  in_Identity :: ident
  in_ExpiresAt :: millis

record message =
  m_ID :: int
  m_Room :: string
  m_Kind :: Kind
  m_Author :: ident
  m_AuthorName :: string
  m_Body :: string
  m_Via :: Via
  m_OriginID :: "bytes option"
  m_SaidAt :: millis
  m_HubAt :: millis
  m_Ext :: "bytes option"

record cursor_row =
  c_Identity :: ident
  c_Room :: string
  c_Via :: Via
  c_MessageID :: int
  c_UpdatedAt :: millis

record member_row =
  mb_Identity :: ident
  mb_JoinedAt :: millis
  mb_AwayUntil :: millis

record delivery =
  dl_MessageID :: int
  dl_Whisper :: bool
  dl_Identity :: ident
  dl_State :: DeliveryState
  dl_Attempts :: int
  dl_PartsDone :: int
  dl_NextAt :: millis
  dl_UpdatedAt :: millis

record ban =
  b_Identity :: ident
  b_Name :: string
  b_Reason :: string
  b_BannedBy :: "ident option"
  b_BannedAt :: millis
  b_ExpiresAt :: millis

record audit_row =
  au_ID :: int
  au_At :: millis
  au_Actor :: "ident option"
  au_Action :: string
  au_Target :: string
  au_Detail :: string

record link_code =
  lc_Hash :: bytes
  lc_Person :: int
  lc_IssuedBy :: ident
  lc_IssuedAt :: millis
  lc_ExpiresAt :: millis
  lc_RedeemedBy :: "ident option"
  lc_RedeemedVia :: "Via option"

record whisper =
  w_ID :: int
  w_From :: ident
  w_FromName :: string
  w_ToPerson :: int
  w_ToName :: string
  w_Body :: string
  w_Via :: Via
  w_SaidAt :: millis
  w_RRCAt :: millis
  w_ReadAt :: millis

record ignore_row =
  ig_Person :: int
  ig_Ignored :: int
  ig_At :: millis

record db =
  identities :: "identity_row list"
  people :: "person_row list"
  names :: "name_row list"
  rooms :: "room list"
  room_roles :: "role_row list"
  invites :: "invite_row list"
  messages :: "message list"
  cursors :: "cursor_row list"
  members :: "member_row list"
  deliveries :: "delivery list"
  whisper_deliveries :: "delivery list"
  bans :: "ban list"
  audit :: "audit_row list"
  link_codes :: "link_code list"
  whispers :: "whisper list"
  ignores :: "ignore_row list"
  meta :: "(string \<times> string) list"

text \<open>The database the migrations leave behind: every table there, none with a row.\<close>

definition empty_db :: db where
  "empty_db = \<lparr>identities = [], people = [], names = [], rooms = [], room_roles = [], invites = [],
     messages = [], cursors = [], members = [], deliveries = [], whisper_deliveries = [], bans = [],
     audit = [], link_codes = [], whispers = [], ignores = [], meta = []\<rparr>"

definition IdentityLen :: nat where
  "IdentityLen = 16"

definition checkID :: "ident \<Rightarrow> err + unit" where
  "checkID i = requireE (length i = IdentityLen) (ErrBadID (length i))"

lemma checkID_Inr [simp]: "checkID i = Inr u \<longleftrightarrow> length i = 16"
  by (simp add: checkID_def IdentityLen_def)

section \<open>Preferences\<close>

definition PageLineChoices :: "int list" where
  "PageLineChoices = [10, 20, 30, 50, 100]"

definition PageRefreshChoices :: "int list" where
  "PageRefreshChoices = [0, 10, 30, 60]"

definition DefaultPrefs :: prefs where
  "DefaultPrefs = \<lparr>ShareLXMF = True, Whispers_pref = True, WhispersLXMF = True, PageLines = 30,
     PageFlag = True, PageRefresh = 30\<rparr>"

definition Prefs_Validate :: "prefs \<Rightarrow> err + unit" where
  "Prefs_Validate p =
     (if PageLines p \<notin> set PageLineChoices then Inl (ErrInvalid (''page lines '' @ itoa (PageLines p) @ '': must be one of [10 20 30 50 100]''))
      else if PageRefresh p \<notin> set PageRefreshChoices then Inl (ErrInvalid (''page refresh '' @ itoa (PageRefresh p) @ '': must be one of [0 10 30 60]''))
      else Inr ())"

definition valid_prefs :: "prefs \<Rightarrow> bool" where
  "valid_prefs p \<longleftrightarrow> PageLines p \<in> set PageLineChoices \<and> PageRefresh p \<in> set PageRefreshChoices"

lemma Prefs_Validate_Inr [simp]: "Prefs_Validate p = Inr u \<longleftrightarrow> valid_prefs p"
  by (auto simp: Prefs_Validate_def valid_prefs_def)

lemma valid_DefaultPrefs [simp]: "valid_prefs DefaultPrefs"
  by (simp add: valid_prefs_def DefaultPrefs_def PageLineChoices_def PageRefreshChoices_def)

section \<open>Keys\<close>

definition role_key :: "role_row \<Rightarrow> string \<times> ident \<times> Role" where
  "role_key r = (rr_Room r, rr_Identity r, rr_Role r)"

definition invite_key :: "invite_row \<Rightarrow> string \<times> ident" where
  "invite_key r = (in_Room r, in_Identity r)"

definition cursor_key :: "cursor_row \<Rightarrow> ident \<times> string \<times> Via" where
  "cursor_key c = (c_Identity c, c_Room c, c_Via c)"

definition delivery_key :: "delivery \<Rightarrow> int \<times> ident" where
  "delivery_key d = (dl_MessageID d, dl_Identity d)"

definition ignore_key :: "ignore_row \<Rightarrow> int \<times> int" where
  "ignore_key r = (ig_Person r, ig_Ignored r)"

definition origin_key :: "message \<Rightarrow> Via \<times> bytes option" where
  "origin_key m = (m_Via m, m_OriginID m)"

lemmas key_defs = role_key_def invite_key_def cursor_key_def delivery_key_def ignore_key_def
  origin_key_def

section \<open>The schema as an invariant\<close>

definition inv_people :: "db \<Rightarrow> bool" where
  "inv_people d \<longleftrightarrow>
     distinct (map i_ID (identities d)) \<and> distinct (map p_ID (people d)) \<and>
     (\<forall>i\<in>set (identities d). length (i_ID i) = 16 \<and> i_Person i \<in> p_ID ` set (people d)) \<and>
     (\<forall>p\<in>set (people d). 0 < p_ID p \<and> p_ID p \<in> i_Person ` set (identities d) \<and> valid_prefs (p_Prefs p))"

definition inv_names :: "db \<Rightarrow> bool" where
  "inv_names d \<longleftrightarrow>
     distinct (map n_Person (names d)) \<and> distinct (map n_Skeleton (names d)) \<and>
     (\<forall>x\<in>set (names d). n_Person x \<in> p_ID ` set (people d))"

definition inv_rooms :: "db \<Rightarrow> bool" where
  "inv_rooms d \<longleftrightarrow>
     distinct (map rm_Name (rooms d)) \<and>
     (\<forall>r\<in>set (rooms d). set (rm_Modes r) \<subseteq> set ''ikmnpt'') \<and>
     distinct (map role_key (room_roles d)) \<and> (\<forall>x\<in>set (room_roles d). rr_Room x \<in> rm_Name ` set (rooms d)) \<and>
     distinct (map invite_key (invites d)) \<and> (\<forall>x\<in>set (invites d). in_Room x \<in> rm_Name ` set (rooms d))"

definition inv_messages :: "db \<Rightarrow> bool" where
  "inv_messages d \<longleftrightarrow>
     sorted_wrt (<) (map m_ID (messages d)) \<and> (\<forall>m\<in>set (messages d). 0 < m_ID m \<and> length (m_Author m) = 16) \<and>
     distinct (map origin_key (filter (\<lambda>m. m_OriginID m \<noteq> None) (messages d))) \<and>
     distinct (map cursor_key (cursors d)) \<and> (\<forall>c\<in>set (cursors d). c_Via c \<noteq> ViaImport)"

definition inv_group :: "db \<Rightarrow> bool" where
  "inv_group d \<longleftrightarrow>
     distinct (map mb_Identity (members d)) \<and> (\<forall>x\<in>set (members d). mb_Identity x \<in> i_ID ` set (identities d)) \<and>
     distinct (map delivery_key (deliveries d)) \<and> (\<forall>x\<in>set (deliveries d). \<not> dl_Whisper x \<and> 0 \<le> dl_PartsDone x) \<and>
     distinct (map delivery_key (whisper_deliveries d)) \<and>
     (\<forall>x\<in>set (whisper_deliveries d). dl_Whisper x \<and> 0 \<le> dl_PartsDone x) \<and>
     (\<forall>x\<in>set (whisper_deliveries d). dl_MessageID x \<in> w_ID ` set (whispers d))"

definition inv_social :: "db \<Rightarrow> bool" where
  "inv_social d \<longleftrightarrow>
     sorted_wrt (<) (map w_ID (whispers d)) \<and> (\<forall>w\<in>set (whispers d). 0 < w_ID w \<and> w_Via w \<noteq> ViaImport) \<and>
     (\<forall>x\<in>set (whispers d). w_ToPerson x \<in> p_ID ` set (people d)) \<and>
     distinct (map ignore_key (ignores d)) \<and> (\<forall>x\<in>set (ignores d). ig_Person x \<noteq> ig_Ignored x) \<and>
     (\<forall>x\<in>set (ignores d). ig_Person x \<in> p_ID ` set (people d)) \<and> (\<forall>x\<in>set (ignores d). ig_Ignored x \<in> p_ID ` set (people d)) \<and>
     distinct (map lc_Hash (link_codes d)) \<and> (\<forall>x\<in>set (link_codes d). lc_Person x \<in> p_ID ` set (people d))"

definition inv_admin :: "db \<Rightarrow> bool" where
  "inv_admin d \<longleftrightarrow>
     distinct (map b_Identity (bans d)) \<and> sorted_wrt (<) (map au_ID (audit d)) \<and> distinct (map fst (meta d))"

definition db_inv :: "db \<Rightarrow> bool" where
  "db_inv d \<longleftrightarrow> inv_people d \<and> inv_names d \<and> inv_rooms d \<and> inv_messages d \<and> inv_group d \<and>
     inv_social d \<and> inv_admin d"

lemmas inv_defs = inv_people_def inv_names_def inv_rooms_def inv_messages_def inv_group_def
  inv_social_def inv_admin_def

lemma db_inv_empty: "db_inv empty_db"
  by (simp add: db_inv_def inv_defs empty_db_def)

text \<open>
  Each group reads a few tables only, so an operation has to be checked against the groups whose
  tables it writes; the simplifier carries the others over.
\<close>

lemma inv_people_other [simp]:
  "inv_people (names_update f1 d) = inv_people d"
  "inv_people (rooms_update f2 d) = inv_people d"
  "inv_people (room_roles_update f3 d) = inv_people d"
  "inv_people (invites_update f4 d) = inv_people d"
  "inv_people (messages_update f5 d) = inv_people d"
  "inv_people (cursors_update f6 d) = inv_people d"
  "inv_people (members_update f7 d) = inv_people d"
  "inv_people (deliveries_update f8 d) = inv_people d"
  "inv_people (whisper_deliveries_update f9 d) = inv_people d"
  "inv_people (bans_update f10 d) = inv_people d"
  "inv_people (audit_update f11 d) = inv_people d"
  "inv_people (link_codes_update f12 d) = inv_people d"
  "inv_people (whispers_update f13 d) = inv_people d"
  "inv_people (ignores_update f14 d) = inv_people d"
  "inv_people (meta_update f15 d) = inv_people d"
  by (simp_all add: inv_people_def)

lemma inv_names_other [simp]:
  "inv_names (identities_update f16 d) = inv_names d"
  "inv_names (rooms_update f17 d) = inv_names d"
  "inv_names (room_roles_update f18 d) = inv_names d"
  "inv_names (invites_update f19 d) = inv_names d"
  "inv_names (messages_update f20 d) = inv_names d"
  "inv_names (cursors_update f21 d) = inv_names d"
  "inv_names (members_update f22 d) = inv_names d"
  "inv_names (deliveries_update f23 d) = inv_names d"
  "inv_names (whisper_deliveries_update f24 d) = inv_names d"
  "inv_names (bans_update f25 d) = inv_names d"
  "inv_names (audit_update f26 d) = inv_names d"
  "inv_names (link_codes_update f27 d) = inv_names d"
  "inv_names (whispers_update f28 d) = inv_names d"
  "inv_names (ignores_update f29 d) = inv_names d"
  "inv_names (meta_update f30 d) = inv_names d"
  by (simp_all add: inv_names_def)

lemma inv_rooms_other [simp]:
  "inv_rooms (identities_update f31 d) = inv_rooms d"
  "inv_rooms (people_update f32 d) = inv_rooms d"
  "inv_rooms (names_update f33 d) = inv_rooms d"
  "inv_rooms (messages_update f34 d) = inv_rooms d"
  "inv_rooms (cursors_update f35 d) = inv_rooms d"
  "inv_rooms (members_update f36 d) = inv_rooms d"
  "inv_rooms (deliveries_update f37 d) = inv_rooms d"
  "inv_rooms (whisper_deliveries_update f38 d) = inv_rooms d"
  "inv_rooms (bans_update f39 d) = inv_rooms d"
  "inv_rooms (audit_update f40 d) = inv_rooms d"
  "inv_rooms (link_codes_update f41 d) = inv_rooms d"
  "inv_rooms (whispers_update f42 d) = inv_rooms d"
  "inv_rooms (ignores_update f43 d) = inv_rooms d"
  "inv_rooms (meta_update f44 d) = inv_rooms d"
  by (simp_all add: inv_rooms_def)

lemma inv_messages_other [simp]:
  "inv_messages (identities_update f45 d) = inv_messages d"
  "inv_messages (people_update f46 d) = inv_messages d"
  "inv_messages (names_update f47 d) = inv_messages d"
  "inv_messages (rooms_update f48 d) = inv_messages d"
  "inv_messages (room_roles_update f49 d) = inv_messages d"
  "inv_messages (invites_update f50 d) = inv_messages d"
  "inv_messages (members_update f51 d) = inv_messages d"
  "inv_messages (deliveries_update f52 d) = inv_messages d"
  "inv_messages (whisper_deliveries_update f53 d) = inv_messages d"
  "inv_messages (bans_update f54 d) = inv_messages d"
  "inv_messages (audit_update f55 d) = inv_messages d"
  "inv_messages (link_codes_update f56 d) = inv_messages d"
  "inv_messages (whispers_update f57 d) = inv_messages d"
  "inv_messages (ignores_update f58 d) = inv_messages d"
  "inv_messages (meta_update f59 d) = inv_messages d"
  by (simp_all add: inv_messages_def)

lemma inv_group_other [simp]:
  "inv_group (people_update f60 d) = inv_group d"
  "inv_group (names_update f61 d) = inv_group d"
  "inv_group (rooms_update f62 d) = inv_group d"
  "inv_group (room_roles_update f63 d) = inv_group d"
  "inv_group (invites_update f64 d) = inv_group d"
  "inv_group (messages_update f65 d) = inv_group d"
  "inv_group (cursors_update f66 d) = inv_group d"
  "inv_group (bans_update f67 d) = inv_group d"
  "inv_group (audit_update f68 d) = inv_group d"
  "inv_group (link_codes_update f69 d) = inv_group d"
  "inv_group (ignores_update f70 d) = inv_group d"
  "inv_group (meta_update f71 d) = inv_group d"
  by (simp_all add: inv_group_def)

lemma inv_social_other [simp]:
  "inv_social (identities_update f72 d) = inv_social d"
  "inv_social (names_update f73 d) = inv_social d"
  "inv_social (rooms_update f74 d) = inv_social d"
  "inv_social (room_roles_update f75 d) = inv_social d"
  "inv_social (invites_update f76 d) = inv_social d"
  "inv_social (messages_update f77 d) = inv_social d"
  "inv_social (cursors_update f78 d) = inv_social d"
  "inv_social (members_update f79 d) = inv_social d"
  "inv_social (deliveries_update f80 d) = inv_social d"
  "inv_social (whisper_deliveries_update f81 d) = inv_social d"
  "inv_social (bans_update f82 d) = inv_social d"
  "inv_social (audit_update f83 d) = inv_social d"
  "inv_social (meta_update f84 d) = inv_social d"
  by (simp_all add: inv_social_def)

lemma inv_admin_other [simp]:
  "inv_admin (identities_update f85 d) = inv_admin d"
  "inv_admin (people_update f86 d) = inv_admin d"
  "inv_admin (names_update f87 d) = inv_admin d"
  "inv_admin (rooms_update f88 d) = inv_admin d"
  "inv_admin (room_roles_update f89 d) = inv_admin d"
  "inv_admin (invites_update f90 d) = inv_admin d"
  "inv_admin (messages_update f91 d) = inv_admin d"
  "inv_admin (cursors_update f92 d) = inv_admin d"
  "inv_admin (members_update f93 d) = inv_admin d"
  "inv_admin (deliveries_update f94 d) = inv_admin d"
  "inv_admin (whisper_deliveries_update f95 d) = inv_admin d"
  "inv_admin (link_codes_update f96 d) = inv_admin d"
  "inv_admin (whispers_update f97 d) = inv_admin d"
  "inv_admin (ignores_update f98 d) = inv_admin d"
  by (simp_all add: inv_admin_def)

lemma db_invD:
  assumes "db_inv d"
  shows "inv_people d" "inv_names d" "inv_rooms d" "inv_messages d" "inv_group d" "inv_social d"
    "inv_admin d"
  using assms by (simp_all add: db_inv_def)

end
