(* ===== verification/StorePeople.thy ===== *)
theory StorePeople
  imports StoreDB GoStrings
begin

text \<open>
  internal/store/people.go and internal/store/persons.go: identities, the people they are part of,
  claimed names, ranks, preferences, and the one-time /link codes. Each definition is one method of
  \<^verbatim>\<open>*Tx\<close>; a method that only reads is a function of the database, one that writes returns the
  new database or the error that makes the caller roll back.
\<close>

section \<open>Identities (people.go)\<close>

definition ParseLXMFMode :: "(nat \<Rightarrow> nat) \<Rightarrow> string \<Rightarrow> LXMFMode option" where
  "ParseLXMFMode ulower s0 = (let s = ToLower ulower (TrimSpace s0) in
     (if s = ''on'' then Some LXMFOn else if s = ''off'' then Some LXMFOff
      else if s = ''auto'' then Some LXMFAuto else None))"

definition Identity :: "ident \<Rightarrow> db \<Rightarrow> identity_row option" where
  "Identity i d = find (\<lambda>r. i_ID r = i) (identities d)"

definition personID :: "ident \<Rightarrow> db \<Rightarrow> err + int" where
  "personID i d = (case Identity i d of None \<Rightarrow> Inl ErrNotFound | Some r \<Rightarrow> Inr (i_Person r))"

definition newPerson :: "millis \<Rightarrow> db \<Rightarrow> int \<times> db" where
  "newPerson now d =
     (let k = next_rowid p_ID (people d)
      in (k, d\<lparr>people := people d @ [\<lparr>p_ID = k, p_CreatedAt = now, p_Rank = StoredMember, p_RankBy = None,
            p_RankAt = 0, p_Prefs = DefaultPrefs\<rparr>]\<rparr>))"

definition key_ok :: "bytes option \<Rightarrow> bool" where
  "key_ok pk = (case pk of None \<Rightarrow> True | Some k \<Rightarrow> length k = 64)"

definition touch_row :: "bytes option \<Rightarrow> millis \<Rightarrow> identity_row \<Rightarrow> identity_row" where
  "touch_row pk now r = r\<lparr>i_LastSeen := max (i_LastSeen r) now,
     i_PublicKey := (case pk of None \<Rightarrow> i_PublicKey r | Some k \<Rightarrow> Some k)\<rparr>"

definition TouchIdentity :: "ident \<Rightarrow> bytes option \<Rightarrow> millis \<Rightarrow> db \<Rightarrow> err + db" where
  "TouchIdentity i pk now d =
     bindE (checkID i) (\<lambda>_.
     bindE (requireE (key_ok pk) (ErrConstraint ''identities.public_key'')) (\<lambda>_.
     if 0 < rows_where (\<lambda>r. i_ID r = i) (identities d)
     then Inr (d\<lparr>identities := update_where (\<lambda>r. i_ID r = i) (touch_row pk now) (identities d)\<rparr>)
     else case newPerson now d of (k, d1) \<Rightarrow>
       Inr (d1\<lparr>identities := identities d1 @ [\<lparr>i_ID = i, i_PublicKey = pk, i_FirstSeen = now, i_LastSeen = now,
              i_LXMFMode = LXMFOn, i_LXMFMine = False, i_Person = k, i_PersonSince = now\<rparr>]\<rparr>)))"

definition SetLXMFMode :: "ident \<Rightarrow> LXMFMode \<Rightarrow> db \<Rightarrow> err + db" where
  "SetLXMFMode i mode d =
     bindE (requireE (0 < rows_where (\<lambda>r. i_ID r = i) (identities d)) ErrNotFound) (\<lambda>_.
     Inr (d\<lparr>identities := update_where (\<lambda>r. i_ID r = i) (\<lambda>r. r\<lparr>i_LXMFMode := mode\<rparr>) (identities d)\<rparr>))"

definition SetLXMFMine :: "ident \<Rightarrow> bool \<Rightarrow> db \<Rightarrow> err + db" where
  "SetLXMFMine i on d =
     bindE (requireE (0 < rows_where (\<lambda>r. i_ID r = i) (identities d)) ErrNotFound) (\<lambda>_.
     Inr (d\<lparr>identities := update_where (\<lambda>r. i_ID r = i) (\<lambda>r. r\<lparr>i_LXMFMine := on\<rparr>) (identities d)\<rparr>))"

section \<open>People (persons.go)\<close>

definition PersonByID :: "int \<Rightarrow> db \<Rightarrow> person_row option" where
  "PersonByID k d = find (\<lambda>p. p_ID p = k) (people d)"

definition PersonOf :: "ident \<Rightarrow> db \<Rightarrow> person_row option" where
  "PersonOf i d = (case Identity i d of None \<Rightarrow> None | Some r \<Rightarrow> PersonByID (i_Person r) d)"

definition PersonIdentities :: "int \<Rightarrow> db \<Rightarrow> identity_row list" where
  "PersonIdentities k d =
     sort_key (\<lambda>r. (i_PersonSince r, i_ID r)) (filter (\<lambda>r. i_Person r = k) (identities d))"

definition primaryOf :: "int \<Rightarrow> db \<Rightarrow> err + ident" where
  "primaryOf k d = (case PersonIdentities k d of
      [] \<Rightarrow> Inl (ErrInvalid ''primary identity of person'') | r # _ \<Rightarrow> Inr (i_ID r))"

definition SetPrefsOfPerson :: "int \<Rightarrow> prefs \<Rightarrow> db \<Rightarrow> err + db" where
  "SetPrefsOfPerson k p d =
     bindE (Prefs_Validate p) (\<lambda>_.
     bindE (requireE (0 < rows_where (\<lambda>r. p_ID r = k) (people d)) ErrNotFound) (\<lambda>_.
     Inr (d\<lparr>people := update_where (\<lambda>r. p_ID r = k) (\<lambda>r. r\<lparr>p_Prefs := p\<rparr>) (people d)\<rparr>)))"

definition SetPrefs :: "ident \<Rightarrow> prefs \<Rightarrow> db \<Rightarrow> err + db" where
  "SetPrefs i p d =
     bindE (Prefs_Validate p) (\<lambda>_.
     bindE (personID i d) (\<lambda>k. SetPrefsOfPerson k p d))"

definition SetRank :: "ident \<Rightarrow> stored_rank \<Rightarrow> ident option \<Rightarrow> millis \<Rightarrow> db \<Rightarrow> err + db" where
  "SetRank i rank by now d =
     bindE (personID i d) (\<lambda>k.
     let byArg = (if rank = StoredMember then None else by);
         rankAt = (if rank = StoredMember then 0 else now)
     in bindE (requireE (case byArg of None \<Rightarrow> True | Some b \<Rightarrow> length b = 16) (ErrConstraint ''people.role_by'')) (\<lambda>_.
        Inr (d\<lparr>people := update_where (\<lambda>r. p_ID r = k)
               (\<lambda>r. r\<lparr>p_Rank := rank, p_RankBy := byArg, p_RankAt := rankAt\<rparr>) (people d)\<rparr>)))"

definition RankHolders :: "db \<Rightarrow> person_row list" where
  "RankHolders d =
     sort_key (\<lambda>p. (p_Rank p = StoredMod, p_RankAt p, p_ID p)) (filter (\<lambda>p. p_Rank p \<noteq> StoredMember) (people d))"

section \<open>Names (people.go)\<close>

record name_info =
  nm_Person :: int
  nm_Identity :: ident
  nm_Name :: string
  nm_Skeleton :: string
  nm_ClaimedAt :: millis

definition scanName :: "name_row option \<Rightarrow> db \<Rightarrow> err + name_info option" where
  "scanName row d = (case row of None \<Rightarrow> Inr None
     | Some n \<Rightarrow> bindE (primaryOf (n_Person n) d) (\<lambda>i.
         Inr (Some \<lparr>nm_Person = n_Person n, nm_Identity = i, nm_Name = n_Name n,
                nm_Skeleton = n_Skeleton n, nm_ClaimedAt = n_ClaimedAt n\<rparr>)))"

definition NameOf :: "ident \<Rightarrow> db \<Rightarrow> err + name_info option" where
  "NameOf i d = scanName (case Identity i d of None \<Rightarrow> None
     | Some r \<Rightarrow> find (\<lambda>n. n_Person n = i_Person r) (names d)) d"

definition NameBySkeleton :: "string \<Rightarrow> db \<Rightarrow> err + name_info option" where
  "NameBySkeleton sk d = scanName (find (\<lambda>n. n_Skeleton n = sk) (names d)) d"

definition name_merge :: "name_row \<Rightarrow> name_row \<Rightarrow> name_row" where
  "name_merge new old = old\<lparr>n_Name := n_Name new, n_Skeleton := n_Skeleton new, n_ClaimedAt := n_ClaimedAt new\<rparr>"

definition ClaimName :: "ident \<Rightarrow> string \<Rightarrow> string \<Rightarrow> millis \<Rightarrow> db \<Rightarrow> err + db" where
  "ClaimName i name sk now d =
     bindE (checkID i) (\<lambda>_.
     bindE (requireE (name \<noteq> '''' \<and> sk \<noteq> '''') (ErrInvalid ''claim name: empty name or skeleton'')) (\<lambda>_.
     bindE (personID i d) (\<lambda>k.
     bindE (NameBySkeleton sk d) (\<lambda>holder.
     bindE (requireE (case holder of None \<Rightarrow> True | Some h \<Rightarrow> nm_Person h = k) ErrNameTaken) (\<lambda>_.
     let claimedAt = (case holder of None \<Rightarrow> now | Some h \<Rightarrow> nm_ClaimedAt h) in
     bindE (requireE (\<forall>n\<in>set (names d). n_Skeleton n = sk \<longrightarrow> n_Person n = k) (ErrConstraint ''names.skeleton'')) (\<lambda>_.
     Inr (d\<lparr>names := upsert n_Person name_merge
            \<lparr>n_Person = k, n_Name = name, n_Skeleton = sk, n_ClaimedAt = claimedAt\<rparr> (names d)\<rparr>)))))))"

definition ReleaseName :: "ident \<Rightarrow> db \<Rightarrow> err + (name_info option \<times> db)" where
  "ReleaseName i d =
     bindE (NameOf i d) (\<lambda>n. case n of None \<Rightarrow> Inr (None, d)
       | Some n \<Rightarrow> Inr (Some n, d\<lparr>names := delete_where (\<lambda>r. n_Person r = nm_Person n) (names d)\<rparr>))"

section \<open>Linking (persons.go)\<close>

text \<open>
  DELETE FROM people: refused while an identity or a name refers to the row; whispers (with their
  deliveries), ignores and link codes go with it (ON DELETE CASCADE).
\<close>

definition delete_person :: "int \<Rightarrow> db \<Rightarrow> err + db" where
  "delete_person k d =
     bindE (requireE ((\<forall>i\<in>set (identities d). i_Person i \<noteq> k) \<and> (\<forall>n\<in>set (names d). n_Person n \<noteq> k))
       (ErrConstraint ''people.id'')) (\<lambda>_.
     let gone = map w_ID (filter (\<lambda>w. w_ToPerson w = k) (whispers d)) in
     Inr (d\<lparr>people := delete_where (\<lambda>p. p_ID p = k) (people d),
            link_codes := delete_where (\<lambda>c. lc_Person c = k) (link_codes d),
            whisper_deliveries := delete_where (\<lambda>x. dl_MessageID x \<in> set gone) (whisper_deliveries d),
            whispers := delete_where (\<lambda>w. w_ToPerson w = k) (whispers d),
            ignores := delete_where (\<lambda>x. ig_Person x = k \<or> ig_Ignored x = k) (ignores d)\<rparr>))"

definition merge_ignores :: "int \<Rightarrow> int \<Rightarrow> ignore_row list \<Rightarrow> ignore_row list" where
  "merge_ignores from to t0 =
     (let t1 = fold (insert_ignore ignore_key)
                 (map (\<lambda>x. x\<lparr>ig_Person := to\<rparr>) (filter (\<lambda>x. ig_Person x = from \<and> ig_Ignored x \<noteq> to) t0)) t0
      in fold (insert_ignore ignore_key)
           (map (\<lambda>x. x\<lparr>ig_Ignored := to\<rparr>) (filter (\<lambda>x. ig_Ignored x = from \<and> ig_Person x \<noteq> to) t1)) t1)"

definition LinkIdentity :: "ident \<Rightarrow> int \<Rightarrow> millis \<Rightarrow> db \<Rightarrow> err + db" where
  "LinkIdentity i to now d =
     bindE (personID i d) (\<lambda>from.
     if from = to then Inr d
     else bindE (requireE (PersonByID to d \<noteq> None) ErrNotFound) (\<lambda>_.
     let others = rows_where (\<lambda>r. i_Person r = from \<and> i_ID r \<noteq> i) (identities d) in
     bindE (requireE (\<not> (others = 0 \<and> 0 < rows_where (\<lambda>n. n_Person n = from) (names d))) ErrPersonHasName) (\<lambda>_.
     let d1 = d\<lparr>identities := update_where (\<lambda>r. i_ID r = i) (\<lambda>r. r\<lparr>i_Person := to, i_PersonSince := now\<rparr>) (identities d)\<rparr>
     in if 0 < others then Inr d1
        else delete_person from (d1\<lparr>
               whispers := update_where (\<lambda>w. w_ToPerson w = from) (\<lambda>w. w\<lparr>w_ToPerson := to\<rparr>) (whispers d1),
               ignores := merge_ignores from to (ignores d1)\<rparr>))))"

definition UnlinkIdentity :: "ident \<Rightarrow> millis \<Rightarrow> db \<Rightarrow> err + (int \<times> db)" where
  "UnlinkIdentity i now d =
     (case PersonOf i d of None \<Rightarrow> Inl ErrNotFound
      | Some p \<Rightarrow>
          if rows_where (\<lambda>r. i_Person r = p_ID p \<and> i_ID r \<noteq> i) (identities d) = 0 then Inr (p_ID p, d)
          else case newPerson now d of (fresh, d1) \<Rightarrow>
            bindE (SetPrefsOfPerson fresh (p_Prefs p) d1) (\<lambda>d2.
            Inr (fresh, d2\<lparr>identities := update_where (\<lambda>r. i_ID r = i)
                  (\<lambda>r. r\<lparr>i_Person := fresh, i_PersonSince := now\<rparr>) (identities d2)\<rparr>)))"

section \<open>Link codes (persons.go)\<close>

definition PutLinkCode :: "link_code \<Rightarrow> db \<Rightarrow> err + db" where
  "PutLinkCode c d =
     bindE (requireE (length (lc_Hash c) = 32) (ErrInvalid ''link code hash must be 32 bytes'')) (\<lambda>_.
     bindE (checkID (lc_IssuedBy c)) (\<lambda>_.
     let t = delete_where (\<lambda>r. lc_Person r = lc_Person c \<and> lc_RedeemedBy r = None) (link_codes d) in
     bindE (requireE (lc_Hash c \<notin> lc_Hash ` set t) (ErrConstraint ''link_codes.code_hash'')) (\<lambda>_.
     bindE (requireE (lc_Person c \<in> p_ID ` set (people d)) (ErrConstraint ''link_codes.person'')) (\<lambda>_.
     Inr (d\<lparr>link_codes := t @ [c\<lparr>lc_RedeemedBy := None, lc_RedeemedVia := None\<rparr>]\<rparr>)))))"

definition LinkCodeByHash :: "bytes \<Rightarrow> db \<Rightarrow> link_code option" where
  "LinkCodeByHash h d = find (\<lambda>c. lc_Hash c = h) (link_codes d)"

definition RedeemLinkCode :: "bytes \<Rightarrow> ident \<Rightarrow> Via \<Rightarrow> db \<Rightarrow> err + db" where
  "RedeemLinkCode h by via d =
     bindE (checkID by) (\<lambda>_.
     let P = (\<lambda>c. lc_Hash c = h \<and> lc_RedeemedBy c = None) in
     bindE (requireE (0 < rows_where P (link_codes d)) ErrNotFound) (\<lambda>_.
     bindE (requireE (via \<noteq> ViaImport) (ErrConstraint ''link_codes.redeemed_via'')) (\<lambda>_.
     Inr (d\<lparr>link_codes := update_where P (\<lambda>c. c\<lparr>lc_RedeemedBy := Some by, lc_RedeemedVia := Some via\<rparr>) (link_codes d)\<rparr>))))"

definition PendingLinks :: "int \<Rightarrow> millis \<Rightarrow> db \<Rightarrow> link_code list" where
  "PendingLinks k now d =
     sort_key (\<lambda>c. (lc_IssuedAt c, lc_Hash c))
       (filter (\<lambda>c. lc_Person c = k \<and> lc_RedeemedBy c \<noteq> None \<and> now < lc_ExpiresAt c) (link_codes d))"

definition DeleteLinkCode :: "bytes \<Rightarrow> db \<Rightarrow> db" where
  "DeleteLinkCode h d = d\<lparr>link_codes := delete_where (\<lambda>c. lc_Hash c = h) (link_codes d)\<rparr>"

definition PruneLinkCodes :: "millis \<Rightarrow> db \<Rightarrow> db" where
  "PruneLinkCodes now d = d\<lparr>link_codes := delete_where (\<lambda>c. lc_ExpiresAt c \<le> now) (link_codes d)\<rparr>"

section \<open>The schema is kept\<close>

interpretation nt: upsert_table n_Person name_merge
  by unfold_locales (simp add: name_merge_def)

lemma Identity_Some: "Identity i d = Some r \<Longrightarrow> r \<in> set (identities d) \<and> i_ID r = i"
  unfolding Identity_def by (drule find_Some_set) simp

lemma Identity_in:
  assumes "inv_people d" "r \<in> set (identities d)"
  shows "Identity (i_ID r) d = Some r"
  using assms by (auto simp: Identity_def inv_people_def intro: find_key_eq)

lemma personID_Inr: "personID i d = Inr k \<longleftrightarrow> (\<exists>r. Identity i d = Some r \<and> i_Person r = k)"
  by (auto simp: personID_def split: option.splits)

lemma PersonByID_Some: "PersonByID k d = Some p \<Longrightarrow> p \<in> set (people d) \<and> p_ID p = k"
  unfolding PersonByID_def by (drule find_Some_set) simp

lemma PersonByID_notNone: "PersonByID k d \<noteq> None \<longleftrightarrow> k \<in> p_ID ` set (people d)"
  by (auto simp: PersonByID_def find_None_set)

lemma PersonByID_ex [simp]: "(\<exists>p. PersonByID k d = Some p) \<longleftrightarrow> k \<in> p_ID ` set (people d)"
  using PersonByID_notNone [of k d] by simp

lemma identities_update_inv:
  assumes inv: "db_inv d"
    and f: "\<And>r. i_ID (f r) = i_ID r" "\<And>r. i_Person (f r) = i_Person r"
  shows "db_inv (d\<lparr>identities := update_where P f (identities d)\<rparr>)"
proof -
  let ?d = "d\<lparr>identities := update_where P f (identities d)\<rparr>"
  have "inv_people ?d"
    using inv f by (simp add: db_inv_def inv_people_def map_key_update_where image_update_where)
  moreover have "inv_group ?d"
    using inv f by (simp add: db_inv_def inv_group_def image_update_where)
  ultimately show ?thesis using inv by (simp add: db_inv_def)
qed

lemma people_update_inv:
  assumes inv: "db_inv d"
    and f: "\<And>p. p_ID (f p) = p_ID p" "\<And>p. valid_prefs (p_Prefs p) \<Longrightarrow> valid_prefs (p_Prefs (f p))"
  shows "db_inv (d\<lparr>people := update_where P f (people d)\<rparr>)"
proof -
  let ?d = "d\<lparr>people := update_where P f (people d)\<rparr>"
  have "inv_people ?d"
    using inv f by (simp add: db_inv_def inv_people_def map_key_update_where image_update_where)
  moreover have "inv_names ?d" "inv_social ?d"
    using inv f by (simp_all add: db_inv_def inv_names_def inv_social_def image_update_where)
  ultimately show ?thesis using inv by (simp add: db_inv_def)
qed

lemma newPerson_eq:
  "newPerson now d = (k, d1) \<Longrightarrow> k = next_rowid p_ID (people d) \<and>
    d1 = d\<lparr>people := people d @ [\<lparr>p_ID = k, p_CreatedAt = now, p_Rank = StoredMember, p_RankBy = None,
      p_RankAt = 0, p_Prefs = DefaultPrefs\<rparr>]\<rparr>"
  by (auto simp: newPerson_def Let_def)

lemma newPerson_fresh:
  assumes "inv_people d"
  shows "next_rowid p_ID (people d) \<notin> p_ID ` set (people d)" "0 < next_rowid p_ID (people d)"
    "\<forall>r\<in>set (identities d). i_Person r \<noteq> next_rowid p_ID (people d)"
proof -
  show *: "next_rowid p_ID (people d) \<notin> p_ID ` set (people d)" by (rule next_rowid_notin)
  show "0 < next_rowid p_ID (people d)"
    using assms by (intro next_rowid_pos) (auto simp: inv_people_def)
  show "\<forall>r\<in>set (identities d). i_Person r \<noteq> next_rowid p_ID (people d)"
    using assms * by (metis inv_people_def)
qed

lemma people_grow_inv:
  assumes "db_inv d" and "p_ID ` set (people d) \<subseteq> p_ID ` set (people d')"
    and "names d' = names d" "whispers d' = whispers d" "ignores d' = ignores d" "link_codes d' = link_codes d"
  shows "inv_names d'" "inv_social d'"
  using assms by (auto simp: db_inv_def inv_names_def inv_social_def subset_iff)

lemma TouchIdentity_inv [inv_intros]:
  assumes inv: "db_inv d" and t: "TouchIdentity i pk now d = Inr d'"
  shows "db_inv d'"
proof (cases "0 < rows_where (\<lambda>r. i_ID r = i) (identities d)")
  case True
  with t have "d' = d\<lparr>identities := update_where (\<lambda>r. i_ID r = i) (touch_row pk now) (identities d)\<rparr>"
    unfolding TouchIdentity_def by auto
  with inv show ?thesis by (auto simp: touch_row_def intro!: identities_update_inv)
next
  case False
  let ?k = "next_rowid p_ID (people d)"
  let ?p = "\<lparr>p_ID = ?k, p_CreatedAt = now, p_Rank = StoredMember, p_RankBy = None, p_RankAt = 0, p_Prefs = DefaultPrefs\<rparr>"
  let ?r = "\<lparr>i_ID = i, i_PublicKey = pk, i_FirstSeen = now, i_LastSeen = now, i_LXMFMode = LXMFOn,
     i_LXMFMine = False, i_Person = ?k, i_PersonSince = now\<rparr>"
  from False t have d': "d' = d\<lparr>people := people d @ [?p], identities := identities d @ [?r]\<rparr>" and "length i = 16"
    unfolding TouchIdentity_def by (auto simp: newPerson_def Let_def rows_where_pos)
  from inv have ip: "inv_people d" by (simp add: db_inv_def)
  from False have "i \<notin> i_ID ` set (identities d)" by (auto simp: rows_where_pos)
  with ip newPerson_fresh [OF ip] \<open>length i = 16\<close> have "inv_people d'"
    by (auto simp: d' inv_people_def)
  moreover have "inv_names d'" "inv_social d'"
    using people_grow_inv [OF inv, of d'] by (auto simp: d')
  moreover have "inv_group d'" using inv by (auto simp: d' db_inv_def inv_group_def)
  ultimately show ?thesis using inv by (simp add: d' db_inv_def)
qed

lemma SetLXMFMode_inv [inv_intros]: "db_inv d \<Longrightarrow> SetLXMFMode i m d = Inr d' \<Longrightarrow> db_inv d'"
  by (auto simp: SetLXMFMode_def intro!: identities_update_inv)

lemma SetLXMFMine_inv [inv_intros]: "db_inv d \<Longrightarrow> SetLXMFMine i m d = Inr d' \<Longrightarrow> db_inv d'"
  by (auto simp: SetLXMFMine_def intro!: identities_update_inv)

lemma SetPrefsOfPerson_inv [inv_intros]: "db_inv d \<Longrightarrow> SetPrefsOfPerson k p d = Inr d' \<Longrightarrow> db_inv d'"
  by (auto simp: SetPrefsOfPerson_def intro!: people_update_inv)

lemma SetPrefs_inv [inv_intros]: "db_inv d \<Longrightarrow> SetPrefs i p d = Inr d' \<Longrightarrow> db_inv d'"
  by (auto simp: SetPrefs_def intro: SetPrefsOfPerson_inv)

lemma SetRank_inv [inv_intros]: "db_inv d \<Longrightarrow> SetRank i r by now d = Inr d' \<Longrightarrow> db_inv d'"
  by (auto simp: SetRank_def Let_def intro!: people_update_inv)


section \<open>Names: reading back what was claimed\<close>

lemma set_PersonIdentities [simp]: "set (PersonIdentities k d) = {r \<in> set (identities d). i_Person r = k}"
  by (simp add: PersonIdentities_def)

lemma primaryOf_total:
  assumes "inv_people d" "k \<in> p_ID ` set (people d)"
  obtains i where "primaryOf k d = Inr i"
proof -
  from assms have "k \<in> i_Person ` set (identities d)" by (auto simp: inv_people_def)
  then have "set (PersonIdentities k d) \<noteq> {}" by auto
  then show thesis using that by (cases "PersonIdentities k d") (auto simp: primaryOf_def)
qed

definition name_view :: "db \<Rightarrow> name_row \<Rightarrow> name_info \<Rightarrow> bool" where
  "name_view d row n \<longleftrightarrow> nm_Person n = n_Person row \<and> nm_Name n = n_Name row \<and>
     nm_Skeleton n = n_Skeleton row \<and> nm_ClaimedAt n = n_ClaimedAt row \<and> primaryOf (n_Person row) d = Inr (nm_Identity n)"

lemma scanName_view: "scanName row d = Inr (Some n) \<Longrightarrow> \<exists>r. row = Some r \<and> name_view d r n"
  by (auto simp: scanName_def name_view_def split: option.splits)

lemma scanName_Inr_None: "scanName row d = Inr None \<longleftrightarrow> row = None"
  by (auto simp: scanName_def bindE_def split: option.splits sum.splits)

lemma scanName_total:
  assumes "inv_people d" "inv_names d" and "\<And>r. row = Some r \<Longrightarrow> r \<in> set (names d)"
  obtains n where "scanName row d = Inr n"
proof (cases row)
  case None
  with that show thesis by (simp add: scanName_def)
next
  case (Some r)
  with assms have "n_Person r \<in> p_ID ` set (people d)" by (auto simp: inv_names_def)
  from primaryOf_total [OF assms(1) this] obtain i where "primaryOf (n_Person r) d = Inr i" .
  with Some that show thesis by (simp add: scanName_def)
qed

lemma NameBySkeleton_total:
  assumes "inv_people d" "inv_names d"
  obtains n where "NameBySkeleton sk d = Inr n"
  using scanName_total [OF assms, of "find (\<lambda>n. n_Skeleton n = sk) (names d)"]
  unfolding NameBySkeleton_def by (metis find_Some_set)

lemma NameOf_total:
  assumes "inv_people d" "inv_names d"
  obtains n where "NameOf i d = Inr n"
  using scanName_total [OF assms, of "case Identity i d of None \<Rightarrow> None
     | Some r \<Rightarrow> find (\<lambda>n. n_Person n = i_Person r) (names d)"]
  unfolding NameOf_def by (metis (no_types, lifting) find_Some_set option.case_eq_if option.discI)

lemma NameBySkeleton_None: "NameBySkeleton sk d = Inr None \<longleftrightarrow> (\<forall>n\<in>set (names d). n_Skeleton n \<noteq> sk)"
  by (simp add: NameBySkeleton_def scanName_Inr_None find_None_set)

lemma NameBySkeleton_Some:
  assumes "NameBySkeleton sk d = Inr (Some n)"
  obtains r where "r \<in> set (names d)" "n_Skeleton r = sk" "name_view d r n"
  using assms that by (auto simp: NameBySkeleton_def dest!: scanName_view find_Some_set)

lemma NameOf_Some:
  assumes "NameOf i d = Inr (Some n)"
  obtains r w where "Identity i d = Some w" "r \<in> set (names d)" "n_Person r = i_Person w" "name_view d r n"
  using assms that by (auto simp: NameOf_def dest!: scanName_view find_Some_set split: option.splits)

text \<open>
  A name is taken exactly when another person holds its skeleton; and the UNIQUE index behind it never
  refuses what ClaimName's own check let through.
\<close>

lemma skeleton_holder:
  assumes "inv_people d" "inv_names d" "NameBySkeleton sk d = Inr holder"
  shows "(case holder of None \<Rightarrow> True | Some h \<Rightarrow> nm_Person h = k) \<longleftrightarrow>
    (\<forall>n\<in>set (names d). n_Skeleton n = sk \<longrightarrow> n_Person n = k)"
proof (cases holder)
  case None
  with assms show ?thesis by (auto simp: NameBySkeleton_None)
next
  case (Some h)
  with assms(3) obtain r where r: "r \<in> set (names d)" "n_Skeleton r = sk" "name_view d r h"
    by (auto elim: NameBySkeleton_Some)
  have "n = r" if "n \<in> set (names d)" "n_Skeleton n = sk" for n
    using assms(2) that r distinct_key_eq [of n_Skeleton "names d" n r] by (simp add: inv_names_def)
  with r(1,2) have "(\<forall>n\<in>set (names d). n_Skeleton n = sk \<longrightarrow> n_Person n = k) \<longleftrightarrow> n_Person r = k" by blast
  with r(3) Some show ?thesis by (simp add: name_view_def)
qed

lemma ClaimName_result:
  assumes inv: "db_inv d" and i: "Identity i d = Some w" and ne: "name \<noteq> ''''" "sk \<noteq> ''''"
  shows "if \<exists>n\<in>set (names d). n_Skeleton n = sk \<and> n_Person n \<noteq> i_Person w
    then ClaimName i name sk now d = Inl ErrNameTaken
    else (\<exists>since. ClaimName i name sk now d = Inr (d\<lparr>names := upsert n_Person name_merge
      \<lparr>n_Person = i_Person w, n_Name = name, n_Skeleton = sk, n_ClaimedAt = since\<rparr> (names d)\<rparr>))"
proof -
  from inv have ip: "inv_people d" "inv_names d" by (simp_all add: db_inv_def)
  from Identity_Some [OF i] ip have "length i = 16" by (auto simp: inv_people_def)
  moreover obtain holder where "NameBySkeleton sk d = Inr holder" using NameBySkeleton_total [OF ip] .
  ultimately show ?thesis
    using skeleton_holder [OF ip, of sk holder "i_Person w"] i ne
    by (auto simp: ClaimName_def personID_def checkID_def IdentityLen_def requireE_def Let_def)
qed

lemma ClaimName_eq:
  assumes "ClaimName i name sk now d = Inr d'"
  obtains w since where "Identity i d = Some w" "name \<noteq> ''''" "sk \<noteq> ''''"
    "\<forall>n\<in>set (names d). n_Skeleton n = sk \<longrightarrow> n_Person n = i_Person w"
    "d' = d\<lparr>names := upsert n_Person name_merge
      \<lparr>n_Person = i_Person w, n_Name = name, n_Skeleton = sk, n_ClaimedAt = since\<rparr> (names d)\<rparr>"
  using assms that by (auto simp: ClaimName_def personID_Inr Let_def)

lemma Identity_cong: "identities d' = identities d \<Longrightarrow> Identity i d' = Identity i d"
  by (simp add: Identity_def)

lemma primaryOf_cong: "identities d' = identities d \<Longrightarrow> primaryOf k d' = primaryOf k d"
  by (simp add: primaryOf_def PersonIdentities_def)

lemma update_where_absent: "\<forall>r\<in>set t. \<not> P r \<Longrightarrow> update_where P f t = t"
  by (simp add: update_where_def map_idI)

lemma skeleton_update:
  assumes "distinct (map n_Person t)" "distinct (map n_Skeleton t)"
    and "\<forall>n\<in>set t. n_Skeleton n = sk \<longrightarrow> n_Person n = k" and f: "\<And>r. n_Skeleton (f r) = sk"
  shows "distinct (map n_Skeleton (update_where (\<lambda>r. n_Person r = k) f t))"
  using assms(1-3)
proof (induction t)
  case (Cons a t)
  show ?case
  proof (cases "n_Person a = k")
    case True
    with Cons.prems(1) have other: "\<forall>r\<in>set t. n_Person r \<noteq> k" by (auto simp: image_iff)
    with Cons.prems(3) have "sk \<notin> n_Skeleton ` set t" by (metis image_iff list.set_intros(2))
    with Cons.prems True other show ?thesis
      using update_where_absent [of t "\<lambda>r. n_Person r = k" f] by (simp add: update_where_def f)
  next
    case False
    with Cons.prems have "n_Skeleton a \<notin> n_Skeleton ` set (update_where (\<lambda>r. n_Person r = k) f t)"
      by (auto simp: set_update_where f)
    moreover have "update_where (\<lambda>r. n_Person r = k) f (a # t) = a # update_where (\<lambda>r. n_Person r = k) f t"
      using False by (simp add: update_where_def)
    ultimately show ?thesis using Cons by simp
  qed
qed (simp add: update_where_def)

lemma skeleton_upsert:
  assumes "distinct (map n_Person t)" "distinct (map n_Skeleton t)"
    and "\<forall>n\<in>set t. n_Skeleton n = n_Skeleton new \<longrightarrow> n_Person n = n_Person new"
  shows "distinct (map n_Skeleton (upsert n_Person name_merge new t))"
proof (cases "n_Person new \<in> n_Person ` set t")
  case True
  with assms skeleton_update [of t "n_Skeleton new" "n_Person new" "name_merge new"] show ?thesis
    by (simp add: upsert_def name_merge_def)
next
  case False
  with assms(3) have "n_Skeleton new \<notin> n_Skeleton ` set t" by (auto simp: image_iff)
  with False assms(2) show ?thesis by (simp add: upsert_def)
qed

lemma ClaimName_inv [inv_intros]:
  assumes inv: "db_inv d" and c: "ClaimName i name sk now d = Inr d'"
  shows "db_inv d'"
proof -
  from c obtain w since where w: "Identity i d = Some w"
    and free: "\<forall>n\<in>set (names d). n_Skeleton n = sk \<longrightarrow> n_Person n = i_Person w"
    and d': "d' = d\<lparr>names := upsert n_Person name_merge
      \<lparr>n_Person = i_Person w, n_Name = name, n_Skeleton = sk, n_ClaimedAt = since\<rparr> (names d)\<rparr>"
    by (rule ClaimName_eq)
  from inv have ip: "inv_people d" "inv_names d" by (simp_all add: db_inv_def)
  from Identity_Some [OF w] ip have "i_Person w \<in> p_ID ` set (people d)" by (auto simp: inv_people_def)
  then have "\<forall>x\<in>set (names d'). n_Person x \<in> p_ID ` set (people d)"
    using ip(2) unfolding d' by (simp, intro nt.upsert_ball) (auto simp: inv_names_def name_merge_def)
  then have "inv_names d'"
    using ip(2) free by (auto simp: d' inv_names_def intro!: nt.upsert_distinct skeleton_upsert)
  with inv show ?thesis by (simp add: d' db_inv_def)
qed

lemma NameOf_ClaimName:
  assumes inv: "db_inv d" and c: "ClaimName i name sk now d = Inr d'"
  shows "\<exists>n. NameOf i d' = Inr (Some n) \<and> nm_Name n = name \<and> nm_Skeleton n = sk"
proof -
  from c obtain w since where w: "Identity i d = Some w"
    and d': "d' = d\<lparr>names := upsert n_Person name_merge
      \<lparr>n_Person = i_Person w, n_Name = name, n_Skeleton = sk, n_ClaimedAt = since\<rparr> (names d)\<rparr>"
    by (rule ClaimName_eq)
  let ?new = "\<lparr>n_Person = i_Person w, n_Name = name, n_Skeleton = sk, n_ClaimedAt = since\<rparr>"
  have "db_inv d'" using inv c by (rule ClaimName_inv)
  then obtain n where n: "NameOf i d' = Inr n" using NameOf_total by (metis db_invD(1,2))
  have "\<exists>r. find (\<lambda>n. n_Person n = i_Person w) (names d') = Some r \<and> n_Name r = name \<and> n_Skeleton r = sk"
    using nt.upsert_lookup_same [of ?new "names d"] by (auto simp: d' name_merge_def split: option.splits)
  moreover have "Identity i d' = Some w" using w by (simp add: d' Identity_def)
  ultimately show ?thesis using n by (auto simp: NameOf_def scanName_def)
qed

lemma NameOf_NameBySkeleton:
  assumes inv: "db_inv d" and n: "NameOf i d = Inr (Some n)" and sk: "nm_Skeleton n = sk"
  shows "NameBySkeleton sk d = Inr (Some n)"
proof -
  from n obtain r w where r: "r \<in> set (names d)" "n_Person r = i_Person w" "Identity i d = Some w" "name_view d r n"
    by (rule NameOf_Some)
  from inv have dist: "distinct (map n_Skeleton (names d))" "distinct (map n_Person (names d))"
    by (simp_all add: db_inv_def inv_names_def)
  have "n_Skeleton r = sk" using r(4) sk by (simp add: name_view_def)
  then have "find (\<lambda>x. n_Skeleton x = sk) (names d) = Some r" using find_key_eq [OF dist(1) r(1)] by simp
  moreover have "find (\<lambda>x. n_Person x = i_Person w) (names d) = Some r" using find_key_eq [OF dist(2) r(1)] r(2) by simp
  ultimately show ?thesis using n r(3) by (simp add: NameOf_def NameBySkeleton_def)
qed

lemma ReleaseName_eq:
  assumes "ReleaseName i d = Inr (n, d')"
  shows "d' = (case n of None \<Rightarrow> d | Some n \<Rightarrow> d\<lparr>names := delete_where (\<lambda>r. n_Person r = nm_Person n) (names d)\<rparr>)"
  using assms by (auto simp: ReleaseName_def split: option.splits)

lemma ReleaseName_inv [inv_intros]:
  assumes inv: "db_inv d" and c: "ReleaseName i d = Inr (n, d')"
  shows "db_inv d'"
proof -
  from inv have "inv_names (d\<lparr>names := delete_where P (names d)\<rparr>)" for P by (auto simp: db_inv_def inv_names_def)
  with inv ReleaseName_eq [OF c] show ?thesis by (auto simp: db_inv_def split: option.splits)
qed

lemma NameOf_ReleaseName:
  assumes c: "ReleaseName i d = Inr (n, d')"
  shows "NameOf i d' = Inr None"
proof (cases n)
  case None
  with c show ?thesis by (auto simp: ReleaseName_def split: option.splits)
next
  case (Some m)
  with c have m: "NameOf i d = Inr (Some m)" by (auto simp: ReleaseName_def split: option.splits)
  then obtain r w where r: "Identity i d = Some w" "n_Person r = i_Person w" "name_view d r m" by (rule NameOf_Some)
  then have "d' = d\<lparr>names := delete_where (\<lambda>r. n_Person r = i_Person w) (names d)\<rparr>"
    using ReleaseName_eq [OF c] Some by (simp add: name_view_def)
  with r(1) show ?thesis by (simp add: NameOf_def Identity_def scanName_def find_delete_key)
qed


section \<open>Linking: the schema is kept\<close>

lemma fold_insert_ignore_distinct:
  "distinct (map key t) \<Longrightarrow> distinct (map key (fold (insert_ignore key) xs t))"
  by (induction xs arbitrary: t) simp_all

lemma fold_insert_ignore_ball:
  "\<forall>x\<in>set t. Q x \<Longrightarrow> \<forall>x\<in>set xs. Q x \<Longrightarrow> \<forall>x\<in>set (fold (insert_ignore key) xs t). Q x"
proof (induction xs arbitrary: t)
  case (Cons a xs)
  then have "\<forall>x\<in>set (insert_ignore key a t). Q x" by (simp add: insert_ignore_set)
  with Cons show ?case by simp
qed simp

lemma merge_ignores_distinct: "distinct (map ignore_key t) \<Longrightarrow> distinct (map ignore_key (merge_ignores from to t))"
  by (simp add: merge_ignores_def Let_def fold_insert_ignore_distinct)

lemma merge_ignores_ball:
  assumes t: "\<forall>x\<in>set t. Q (ig_Person x) (ig_Ignored x)"
    and 1: "\<And>b. b \<noteq> to \<Longrightarrow> Q from b \<Longrightarrow> Q to b" and 2: "\<And>a. a \<noteq> to \<Longrightarrow> Q a from \<Longrightarrow> Q a to"
  shows "\<forall>x\<in>set (merge_ignores from to t). Q (ig_Person x) (ig_Ignored x)"
proof -
  let ?xs = "map (\<lambda>x. x\<lparr>ig_Person := to\<rparr>) (filter (\<lambda>x. ig_Person x = from \<and> ig_Ignored x \<noteq> to) t)"
  let ?t1 = "fold (insert_ignore ignore_key) ?xs t"
  have t1: "\<forall>x\<in>set ?t1. Q (ig_Person x) (ig_Ignored x)"
    using t 1 by (intro fold_insert_ignore_ball) auto
  have "\<forall>x\<in>set (fold (insert_ignore ignore_key)
      (map (\<lambda>x. x\<lparr>ig_Ignored := to\<rparr>) (filter (\<lambda>x. ig_Ignored x = from \<and> ig_Person x \<noteq> to) ?t1)) ?t1).
      Q (ig_Person x) (ig_Ignored x)"
    by (rule fold_insert_ignore_ball) (use t1 2 in auto)
  then show ?thesis by (simp add: merge_ignores_def Let_def)
qed

lemma delete_person_ok:
  assumes "\<forall>i\<in>set (identities d). i_Person i \<noteq> k" "\<forall>n\<in>set (names d). n_Person n \<noteq> k"
  shows "delete_person k d = Inr (d\<lparr>people := delete_where (\<lambda>p. p_ID p = k) (people d),
    link_codes := delete_where (\<lambda>c. lc_Person c = k) (link_codes d),
    whisper_deliveries := delete_where (\<lambda>x. dl_MessageID x \<in> w_ID ` {w \<in> set (whispers d). w_ToPerson w = k}) (whisper_deliveries d),
    whispers := delete_where (\<lambda>w. w_ToPerson w = k) (whispers d),
    ignores := delete_where (\<lambda>x. ig_Person x = k \<or> ig_Ignored x = k) (ignores d)\<rparr>)"
  using assms by (simp add: delete_person_def Let_def requireE_def)

text \<open>
  The person an identity leaves alone behind goes: the whispers and ignores are the other person's by
  then, nothing refers to it any more, and its DELETE is never refused.
\<close>

lemma LinkIdentity_emptied:
  assumes inv: "db_inv d" and i: "Identity i d = Some w" and ne: "i_Person w \<noteq> to"
    and to: "to \<in> p_ID ` set (people d)" and alone: "\<forall>r\<in>set (identities d). i_Person r = i_Person w \<longrightarrow> i_ID r = i"
    and unnamed: "\<forall>n\<in>set (names d). n_Person n \<noteq> i_Person w"
  shows "LinkIdentity i to now d = Inr (d\<lparr>
      identities := update_where (\<lambda>r. i_ID r = i) (\<lambda>r. r\<lparr>i_Person := to, i_PersonSince := now\<rparr>) (identities d),
      people := delete_where (\<lambda>p. p_ID p = i_Person w) (people d),
      link_codes := delete_where (\<lambda>c. lc_Person c = i_Person w) (link_codes d),
      whispers := update_where (\<lambda>x. w_ToPerson x = i_Person w) (\<lambda>x. x\<lparr>w_ToPerson := to\<rparr>) (whispers d),
      ignores := delete_where (\<lambda>x. ig_Person x = i_Person w \<or> ig_Ignored x = i_Person w)
        (merge_ignores (i_Person w) to (ignores d))\<rparr>)"
proof -
  let ?from = "i_Person w"
  let ?ws = "update_where (\<lambda>x. w_ToPerson x = ?from) (\<lambda>x. x\<lparr>w_ToPerson := to\<rparr>) (whispers d)"
  let ?d1 = "d\<lparr>identities := update_where (\<lambda>r. i_ID r = i) (\<lambda>r. r\<lparr>i_Person := to, i_PersonSince := now\<rparr>) (identities d),
    whispers := ?ws, ignores := merge_ignores ?from to (ignores d)\<rparr>"
  have "LinkIdentity i to now d = delete_person ?from ?d1"
    using i ne to alone unnamed
    by (auto simp: LinkIdentity_def personID_def Let_def rows_where_pos requireE_def)
  moreover have idn: "\<forall>r\<in>set (identities ?d1). i_Person r \<noteq> ?from" using alone ne by auto
  moreover have none: "\<forall>x\<in>set ?ws. w_ToPerson x \<noteq> ?from" using ne by simp
  then have "delete_where (\<lambda>w. w_ToPerson w = ?from) ?ws = ?ws" "{x \<in> set ?ws. w_ToPerson x = ?from} = {}"
    unfolding delete_where_def filter_id_conv by blast+
  moreover have "delete_where (\<lambda>x. False) t = t" for t :: "delivery list" by (simp add: delete_where_def)
  ultimately show ?thesis using unnamed delete_person_ok [OF idn] by (simp del: ball_update_where)
qed

lemma LinkIdentity_moved:
  assumes "Identity i d = Some w" "i_Person w \<noteq> to" "to \<in> p_ID ` set (people d)"
    and "\<exists>r\<in>set (identities d). i_Person r = i_Person w \<and> i_ID r \<noteq> i"
  shows "LinkIdentity i to now d = Inr (d\<lparr>identities := update_where (\<lambda>r. i_ID r = i)
      (\<lambda>r. r\<lparr>i_Person := to, i_PersonSince := now\<rparr>) (identities d)\<rparr>)"
proof -
  have "0 < rows_where (\<lambda>r. i_Person r = i_Person w \<and> i_ID r \<noteq> i) (identities d)"
    using assms(4) by (simp add: rows_where_pos)
  with assms(1-3) show ?thesis
    by (simp del: rows_where_0 add: LinkIdentity_def personID_def requireE_def)
qed

lemma LinkIdentity_no_person:
  "Identity i d = Some w \<Longrightarrow> i_Person w \<noteq> to \<Longrightarrow> to \<notin> p_ID ` set (people d) \<Longrightarrow> LinkIdentity i to now d = Inl ErrNotFound"
  by (simp add: LinkIdentity_def personID_def requireE_def)

lemma LinkIdentity_named:
  assumes "Identity i d = Some w" "i_Person w \<noteq> to" "to \<in> p_ID ` set (people d)"
    and "\<forall>r\<in>set (identities d). i_Person r = i_Person w \<longrightarrow> i_ID r = i" "\<exists>n\<in>set (names d). n_Person n = i_Person w"
  shows "LinkIdentity i to now d = Inl ErrPersonHasName"
proof -
  have "rows_where (\<lambda>r. i_Person r = i_Person w \<and> i_ID r \<noteq> i) (identities d) = 0"
    "0 < rows_where (\<lambda>n. n_Person n = i_Person w) (names d)"
    using assms(4,5) by (auto simp: rows_where_pos)
  with assms(1-3) show ?thesis
    by (simp del: rows_where_0 add: LinkIdentity_def personID_def requireE_def)
qed

lemma LinkIdentity_cases:
  assumes inv: "db_inv d" and l: "LinkIdentity i to now d = Inr d'"
  obtains (same) w where "Identity i d = Some w" "i_Person w = to" "d' = d"
  | (moved) w where "Identity i d = Some w" "i_Person w \<noteq> to" "to \<in> p_ID ` set (people d)"
      "\<exists>r\<in>set (identities d). i_Person r = i_Person w \<and> i_ID r \<noteq> i"
      "d' = d\<lparr>identities := update_where (\<lambda>r. i_ID r = i) (\<lambda>r. r\<lparr>i_Person := to, i_PersonSince := now\<rparr>) (identities d)\<rparr>"
  | (emptied) w where "Identity i d = Some w" "i_Person w \<noteq> to" "to \<in> p_ID ` set (people d)"
      "\<forall>r\<in>set (identities d). i_Person r = i_Person w \<longrightarrow> i_ID r = i"
      "\<forall>n\<in>set (names d). n_Person n \<noteq> i_Person w"
proof (cases "Identity i d")
  case None
  with l show thesis by (simp add: LinkIdentity_def personID_def)
next
  case w: (Some w)
  show thesis
  proof (cases "i_Person w = to")
    case True
    with l w have "d' = d" by (simp add: LinkIdentity_def personID_def)
    with w True show thesis by (rule same)
  next
    case False
    with l w have to: "to \<in> p_ID ` set (people d)" by (metis LinkIdentity_no_person sum.distinct(1))
    show thesis
    proof (cases "\<exists>r\<in>set (identities d). i_Person r = i_Person w \<and> i_ID r \<noteq> i")
      case True
      from LinkIdentity_moved [OF w False to True, of now] l have "d' = d\<lparr>identities := update_where (\<lambda>r. i_ID r = i)
          (\<lambda>r. r\<lparr>i_Person := to, i_PersonSince := now\<rparr>) (identities d)\<rparr>" by simp
      then show thesis by (rule moved [OF w False to True])
    next
      case alone: False
      then have alone: "\<forall>r\<in>set (identities d). i_Person r = i_Person w \<longrightarrow> i_ID r = i" by blast
      with l LinkIdentity_named [OF w False to alone, of now] have "\<forall>n\<in>set (names d). n_Person n \<noteq> i_Person w" by auto
      then show thesis by (rule emptied [OF w False to alone])
    qed
  qed
qed

lemma update_person_people:
  assumes ip: "inv_people d" and w: "Identity i d = Some w"
    and P: "p_ID ` set ps = insert to (p_ID ` set (people d)) - (if keep then {} else {i_Person w})"
    and dist: "distinct (map p_ID ps)" and "\<forall>p\<in>set ps. 0 < p_ID p \<and> valid_prefs (p_Prefs p)" and "i_Person w \<noteq> to"
    and keep: "keep \<longleftrightarrow> (\<exists>r\<in>set (identities d). i_Person r = i_Person w \<and> i_ID r \<noteq> i)"
  shows "inv_people (d\<lparr>people := ps, identities := update_where (\<lambda>r. i_ID r = i)
      (\<lambda>r. r\<lparr>i_Person := to, i_PersonSince := now\<rparr>) (identities d)\<rparr>)"
proof -
  let ?f = "\<lambda>r. r\<lparr>i_Person := to, i_PersonSince := now\<rparr>"
  let ?ids = "update_where (\<lambda>r. i_ID r = i) ?f (identities d)"
  have wi: "w \<in> set (identities d)" "i_ID w = i" using Identity_Some [OF w] by auto
  have "distinct (map i_ID ?ids)" using ip by (intro distinct_update_where) (auto simp: inv_people_def)
  moreover have "\<forall>r\<in>set ?ids. length (i_ID r) = 16 \<and> i_Person r \<in> p_ID ` set ps"
  proof -
    have "i_Person r \<noteq> i_Person w" if "r \<in> set (identities d)" "i_ID r \<noteq> i" "\<not> keep" for r
      using that keep by blast
    with ip P \<open>i_Person w \<noteq> to\<close> show ?thesis by (auto simp: inv_people_def)
  qed
  moreover have "p_ID p \<in> i_Person ` set ?ids" if p: "p \<in> set ps" for p
  proof (cases "p_ID p = to")
    case True
    have "?f w \<in> set ?ids" using wi by (auto simp: set_update_where)
    then have "i_Person (?f w) \<in> i_Person ` set ?ids" by (rule imageI)
    with True show ?thesis by simp
  next
    case False
    with p P have "p_ID p \<in> p_ID ` set (people d)" "keep \<or> p_ID p \<noteq> i_Person w" by (auto split: if_splits)
    with ip obtain r where r: "r \<in> set (identities d)" "i_Person r = p_ID p" by (auto simp: inv_people_def)
    have "\<exists>r\<in>set (identities d). i_Person r = p_ID p \<and> i_ID r \<noteq> i"
    proof (cases "i_ID r = i")
      case True
      then have "r = w" using Identity_in [OF ip r(1)] w by simp
      with r(2) \<open>keep \<or> p_ID p \<noteq> i_Person w\<close> keep show ?thesis by auto
    qed (use r in blast)
    then obtain r' where "r' \<in> set ?ids" "i_Person r' = p_ID p" by (auto simp: set_update_where)
    then show ?thesis by (metis imageI)
  qed
  ultimately show ?thesis using assms by (simp add: inv_people_def)
qed

lemma image_key_delete: "key ` {r \<in> S. key r \<noteq> k} = key ` S - {k}"
  by auto

lemma inv_people_cong: "inv_people d \<Longrightarrow> identities d' = identities d \<Longrightarrow> people d' = people d \<Longrightarrow> inv_people d'"
  by (simp add: inv_people_def)

lemma LinkIdentity_inv [inv_intros]:
  assumes inv: "db_inv d" and l: "LinkIdentity i to now d = Inr d'"
  shows "db_inv d'"
  using inv l
proof (cases rule: LinkIdentity_cases)
  case same
  with inv show ?thesis by simp
next
  case (moved w)
  from inv have ip: "inv_people d" by (simp add: db_inv_def)
  have "people d = people d'" using moved by simp
  have "inv_people (d\<lparr>people := people d, identities := update_where (\<lambda>r. i_ID r = i)
      (\<lambda>r. r\<lparr>i_Person := to, i_PersonSince := now\<rparr>) (identities d)\<rparr>)"
    using moved ip by (intro update_person_people [where w = w and keep = True]) (auto simp: inv_people_def)
  then have "inv_people d'" using moved by simp
  moreover have "inv_group d'" using inv moved by (simp add: db_inv_def inv_group_def image_update_where)
  ultimately show ?thesis using inv moved by (simp add: db_inv_def)
next
  case (emptied w)
  let ?from = "i_Person w"
  have d': "d' = d\<lparr>identities := update_where (\<lambda>r. i_ID r = i) (\<lambda>r. r\<lparr>i_Person := to, i_PersonSince := now\<rparr>) (identities d),
      people := delete_where (\<lambda>p. p_ID p = ?from) (people d),
      link_codes := delete_where (\<lambda>c. lc_Person c = ?from) (link_codes d),
      whispers := update_where (\<lambda>x. w_ToPerson x = ?from) (\<lambda>x. x\<lparr>w_ToPerson := to\<rparr>) (whispers d),
      ignores := delete_where (\<lambda>x. ig_Person x = ?from \<or> ig_Ignored x = ?from) (merge_ignores ?from to (ignores d))\<rparr>"
    using LinkIdentity_emptied [OF inv emptied, of now] l by simp
  from inv have ip: "inv_people d" and soc: "inv_social d" by (simp_all add: db_inv_def)
  have pd: "p_ID ` set (people d') = p_ID ` set (people d) - {?from}" by (auto simp: d')
  have "inv_people (d\<lparr>people := delete_where (\<lambda>p. p_ID p = ?from) (people d), identities := update_where (\<lambda>r. i_ID r = i)
      (\<lambda>r. r\<lparr>i_Person := to, i_PersonSince := now\<rparr>) (identities d)\<rparr>)"
    using emptied ip pd by (intro update_person_people [where w = w and keep = False]) (auto simp: inv_people_def)
  then have "inv_people d'" by (rule inv_people_cong) (simp_all add: d')
  moreover have "inv_names d'" using inv emptied by (simp add: d' db_inv_def inv_names_def image_key_delete)
  moreover have "inv_group d'" using inv by (simp add: d' db_inv_def inv_group_def image_update_where)
  moreover have "inv_social d'"
  proof -
    have mi: "\<forall>x\<in>set (merge_ignores ?from to (ignores d)). ig_Person x \<in> p_ID ` set (people d)"
      "\<forall>x\<in>set (merge_ignores ?from to (ignores d)). ig_Ignored x \<in> p_ID ` set (people d)"
      "\<forall>x\<in>set (merge_ignores ?from to (ignores d)). ig_Person x \<noteq> ig_Ignored x"
      using soc emptied merge_ignores_ball [of "ignores d" "\<lambda>a b. a \<in> p_ID ` set (people d)" to ?from]
        merge_ignores_ball [of "ignores d" "\<lambda>a b. b \<in> p_ID ` set (people d)" to ?from]
        merge_ignores_ball [of "ignores d" "\<lambda>a b. a \<noteq> b" to ?from]
      by (simp_all add: inv_social_def)
    show ?thesis
      using soc emptied mi
      by (simp add: d' inv_social_def map_key_update_where merge_ignores_distinct image_key_delete)
  qed
  ultimately show ?thesis using inv by (simp add: d' db_inv_def)
qed

lemma Identity_move:
  assumes "identities d' = update_where (\<lambda>r. i_ID r = i) (\<lambda>r. r\<lparr>i_Person := to, i_PersonSince := now\<rparr>) (identities d)"
  shows "Identity i d' = map_option (\<lambda>r. r\<lparr>i_Person := to, i_PersonSince := now\<rparr>) (Identity i d)"
    and "j \<noteq> i \<Longrightarrow> Identity j d' = Identity j d"
proof -
  have up: "Identity j d' = map_option (\<lambda>r. if i_ID r = i then r\<lparr>i_Person := to, i_PersonSince := now\<rparr> else r) (Identity j d)" for j
    unfolding Identity_def assms by (rule find_update_where) simp
  show "Identity i d' = map_option (\<lambda>r. r\<lparr>i_Person := to, i_PersonSince := now\<rparr>) (Identity i d)"
    using Identity_Some [of i d] unfolding up [of i] by (cases "Identity i d") auto
  show "Identity j d' = Identity j d" if "j \<noteq> i"
    using Identity_Some [of j d] that unfolding up [of j] by (cases "Identity j d") auto
qed

lemma LinkIdentity_identities:
  assumes inv: "db_inv d" and l: "LinkIdentity i to now d = Inr d'"
  obtains "d' = d" "personID i d = Inr to"
  | w where "Identity i d = Some w" "identities d' = update_where (\<lambda>r. i_ID r = i)
      (\<lambda>r. r\<lparr>i_Person := to, i_PersonSince := now\<rparr>) (identities d)"
  using inv l
proof (cases rule: LinkIdentity_cases)
  case (emptied w)
  with LinkIdentity_emptied [OF inv emptied, of now] l show ?thesis by (intro that(2)) auto
next
  case (moved w)
  then show ?thesis by (intro that(2)) auto
next
  case (same w)
  then show ?thesis by (intro that(1)) (auto simp: personID_def)
qed

lemma LinkIdentity_person:
  assumes inv: "db_inv d" and l: "LinkIdentity i to now d = Inr d'"
  shows "personID i d' = Inr to"
  using inv l by (rule LinkIdentity_identities) (simp_all add: personID_def Identity_move(1))

lemma LinkIdentity_others:
  assumes inv: "db_inv d" and l: "LinkIdentity i to now d = Inr d'" and "j \<noteq> i"
  shows "Identity j d' = Identity j d"
  using inv l by (rule LinkIdentity_identities) (simp_all add: Identity_move(2) [OF _ \<open>j \<noteq> i\<close>])

lemma UnlinkIdentity_eq:
  assumes inv: "db_inv d" and u: "UnlinkIdentity i now d = Inr (k, d')"
  obtains (alone) w where "Identity i d = Some w" "k = i_Person w" "d' = d"
      "\<forall>r\<in>set (identities d). i_Person r = i_Person w \<longrightarrow> i_ID r = i"
  | (split) w p where "Identity i d = Some w" "p \<in> set (people d)" "p_ID p = i_Person w"
      "\<exists>r\<in>set (identities d). i_Person r = i_Person w \<and> i_ID r \<noteq> i"
      "k = next_rowid p_ID (people d)"
      "d' = d\<lparr>people := people d @ [\<lparr>p_ID = k, p_CreatedAt = now, p_Rank = StoredMember, p_RankBy = None,
          p_RankAt = 0, p_Prefs = p_Prefs p\<rparr>],
        identities := update_where (\<lambda>r. i_ID r = i) (\<lambda>r. r\<lparr>i_Person := k, i_PersonSince := now\<rparr>) (identities d)\<rparr>"
proof (cases "PersonOf i d")
  case None
  with u show thesis by (simp add: UnlinkIdentity_def)
next
  case p: (Some p)
  then obtain w where w: "Identity i d = Some w" and "PersonByID (i_Person w) d = Some p"
    by (auto simp: PersonOf_def split: option.splits)
  then have pw: "p \<in> set (people d)" "p_ID p = i_Person w" by (auto dest: PersonByID_Some)
  show thesis
  proof (cases "\<exists>r\<in>set (identities d). i_Person r = i_Person w \<and> i_ID r \<noteq> i")
    case False
    with u p pw have "k = i_Person w" "d' = d" by (auto simp: UnlinkIdentity_def split: if_splits)
    with w False show thesis by (intro alone) auto
  next
    case True
    let ?k = "next_rowid p_ID (people d)"
    let ?new = "\<lparr>p_ID = ?k, p_CreatedAt = now, p_Rank = StoredMember, p_RankBy = None, p_RankAt = 0, p_Prefs = DefaultPrefs\<rparr>"
    from True p pw have eq:
      "UnlinkIdentity i now d = bindE (SetPrefsOfPerson ?k (p_Prefs p) (d\<lparr>people := people d @ [?new]\<rparr>)) (\<lambda>d2.
            Inr (?k, d2\<lparr>identities := update_where (\<lambda>r. i_ID r = i)
                  (\<lambda>r. r\<lparr>i_Person := ?k, i_PersonSince := now\<rparr>) (identities d2)\<rparr>))"
      by (auto simp: UnlinkIdentity_def newPerson_def Let_def)
    have "update_where (\<lambda>r. p_ID r = ?k) f (people d) = people d" for f
      using newPerson_fresh(1) [of d] inv by (intro update_where_absent) (auto simp: db_inv_def image_iff)
    then have new: "update_where (\<lambda>r. p_ID r = ?k) (\<lambda>r. r\<lparr>p_Prefs := q\<rparr>) (people d @ [?new]) = people d @ [?new\<lparr>p_Prefs := q\<rparr>]" for q
      by (simp add: update_where_def)
    show thesis using u split [OF w pw True] unfolding eq by (auto simp: SetPrefsOfPerson_def new)
  qed
qed

lemma UnlinkIdentity_inv [inv_intros]:
  assumes inv: "db_inv d" and u: "UnlinkIdentity i now d = Inr (k, d')"
  shows "db_inv d'"
  using inv u
proof (cases rule: UnlinkIdentity_eq)
  case alone
  with inv show ?thesis by simp
next
  case (split w p)
  from inv have ip: "inv_people d" by (simp add: db_inv_def)
  note fresh = newPerson_fresh [OF ip, folded split(5)]
  have "i_Person w \<noteq> k" using fresh(3) Identity_Some [OF split(1)] by auto
  moreover have "valid_prefs (p_Prefs p)" using ip split(2) by (auto simp: inv_people_def)
  ultimately have "inv_people d'"
    unfolding split(6) using ip fresh split(1-4)
    by (intro update_person_people [where w = w and keep = True]) (auto simp: inv_people_def)
  moreover have "inv_names d'" "inv_social d'"
    using people_grow_inv [OF inv, of d'] by (auto simp: split(6))
  moreover have "inv_group d'" using inv by (simp add: split(6) db_inv_def inv_group_def image_update_where)
  ultimately show ?thesis using inv by (simp add: split(6) db_inv_def)
qed

lemma PutLinkCode_inv [inv_intros]:
  assumes inv: "db_inv d" and c: "PutLinkCode c d = Inr d'"
  shows "db_inv d'"
proof -
  have d': "d' = d\<lparr>link_codes := delete_where (\<lambda>r. lc_Person r = lc_Person c \<and> lc_RedeemedBy r = None) (link_codes d) @
       [c\<lparr>lc_RedeemedBy := None, lc_RedeemedVia := None\<rparr>]\<rparr>"
    and "lc_Hash c \<notin> lc_Hash ` set (delete_where (\<lambda>r. lc_Person r = lc_Person c \<and> lc_RedeemedBy r = None) (link_codes d))"
    and "lc_Person c \<in> p_ID ` set (people d)"
    using c by (auto simp: PutLinkCode_def Let_def)
  with inv have "inv_social d'" by (auto simp: db_inv_def inv_social_def)
  with inv show ?thesis by (simp add: d' db_inv_def)
qed

lemma RedeemLinkCode_inv [inv_intros]:
  assumes inv: "db_inv d" and c: "RedeemLinkCode h by via d = Inr d'"
  shows "db_inv d'"
proof -
  have d': "d' = d\<lparr>link_codes := update_where (\<lambda>c. lc_Hash c = h \<and> lc_RedeemedBy c = None)
      (\<lambda>c. c\<lparr>lc_RedeemedBy := Some by, lc_RedeemedVia := Some via\<rparr>) (link_codes d)\<rparr>"
    using c by (auto simp: RedeemLinkCode_def Let_def)
  with inv have "inv_social d'" by (simp add: db_inv_def inv_social_def map_key_update_where)
  with inv show ?thesis by (simp add: d' db_inv_def)
qed

lemma link_codes_delete_inv: "db_inv d \<Longrightarrow> db_inv (d\<lparr>link_codes := delete_where P (link_codes d)\<rparr>)"
  by (simp add: db_inv_def inv_social_def)

lemma DeleteLinkCode_inv [inv_intros]: "db_inv d \<Longrightarrow> db_inv (DeleteLinkCode h d)"
  by (simp add: DeleteLinkCode_def link_codes_delete_inv)

lemma PruneLinkCodes_inv [inv_intros]: "db_inv d \<Longrightarrow> db_inv (PruneLinkCodes now d)"
  by (simp add: PruneLinkCodes_def link_codes_delete_inv)

text \<open>A code is redeemed once: the second time there is no row left that the UPDATE matches.\<close>

lemma RedeemLinkCode_once:
  assumes "RedeemLinkCode h by via d = Inr d'"
  shows "RedeemLinkCode h by' via' d' = Inl (if length by' = 16 then ErrNotFound else ErrBadID (length by'))"
  using assms by (auto simp: RedeemLinkCode_def Let_def checkID_def IdentityLen_def requireE_def rows_where_pos
      set_update_where split: if_splits)

end
