(* ===== verification/StoreRooms.thy ===== *)
theory StoreRooms
  imports StoreDB
begin

text \<open>
  internal/store/rooms.go: rooms with their mode letters, per-room roles and invites. Deleting a
  room takes its roles and invites along (ON DELETE CASCADE).
\<close>

definition HasMode :: "room \<Rightarrow> char \<Rightarrow> bool" where
  "HasMode r m \<longleftrightarrow> m \<in> set (rm_Modes r)"

text \<open>SetMode: the letters as a set, with one added or taken away, written back sorted.\<close>

definition SetMode :: "char \<Rightarrow> bool \<Rightarrow> room \<Rightarrow> room" where
  "SetMode m on r =
     (let others = filter (\<lambda>k. k \<noteq> m) (rm_Modes r)
      in r\<lparr>rm_Modes := sorted_list_of_set (set (if on then m # others else others))\<rparr>)"

definition Room :: "string \<Rightarrow> db \<Rightarrow> room option" where
  "Room name d = find (\<lambda>r. rm_Name r = name) (rooms d)"

definition Rooms :: "db \<Rightarrow> room list" where
  "Rooms d = sort_key rm_Name (rooms d)"

definition room_merge :: "room \<Rightarrow> room \<Rightarrow> room" where
  "room_merge new old = new\<lparr>rm_Name := rm_Name old, rm_CreatedAt := rm_CreatedAt old\<rparr>"

definition PutRoom :: "room \<Rightarrow> db \<Rightarrow> err + db" where
  "PutRoom r d =
     bindE (case rm_Founder r of None \<Rightarrow> Inr () | Some f \<Rightarrow> checkID f) (\<lambda>_.
     bindE (requireE (set (rm_Modes r) \<subseteq> set ''ikmnpt'') (ErrInvalid ''unknown mode'')) (\<lambda>_.
     Inr (d\<lparr>rooms := upsert rm_Name room_merge r (rooms d)\<rparr>)))"

definition DeleteRoom :: "string \<Rightarrow> db \<Rightarrow> db" where
  "DeleteRoom name d = d\<lparr>
     rooms := delete_where (\<lambda>r. rm_Name r = name) (rooms d),
     room_roles := delete_where (\<lambda>r. rr_Room r = name) (room_roles d),
     invites := delete_where (\<lambda>r. in_Room r = name) (invites d)\<rparr>"

definition SetRole :: "string \<Rightarrow> ident \<Rightarrow> Role \<Rightarrow> bool \<Rightarrow> ident option \<Rightarrow> millis \<Rightarrow> db \<Rightarrow> err + db" where
  "SetRole rname i role on by now d =
     bindE (checkID i) (\<lambda>_.
     if \<not> on then Inr (d\<lparr>room_roles := delete_where (\<lambda>r. role_key r = (rname, i, role)) (room_roles d)\<rparr>)
     else bindE (requireE (rname \<in> rm_Name ` set (rooms d)) (ErrConstraint ''room_roles.room'')) (\<lambda>_.
       Inr (d\<lparr>room_roles := insert_ignore role_key
         \<lparr>rr_Room = rname, rr_Identity = i, rr_Role = role, rr_SetBy = by, rr_SetAt = now\<rparr> (room_roles d)\<rparr>)))"

definition HasRole :: "string \<Rightarrow> ident \<Rightarrow> Role \<Rightarrow> db \<Rightarrow> bool" where
  "HasRole rname i role d \<longleftrightarrow> (\<exists>r\<in>set (room_roles d). role_key r = (rname, i, role))"

definition RoleHolders :: "string \<Rightarrow> Role \<Rightarrow> db \<Rightarrow> ident list" where
  "RoleHolders rname role d =
     sort (map rr_Identity (filter (\<lambda>r. rr_Room r = rname \<and> rr_Role r = role) (room_roles d)))"

definition invite_merge :: "invite_row \<Rightarrow> invite_row \<Rightarrow> invite_row" where
  "invite_merge new old = old\<lparr>in_ExpiresAt := in_ExpiresAt new\<rparr>"

definition SetInvite :: "string \<Rightarrow> ident \<Rightarrow> millis \<Rightarrow> db \<Rightarrow> err + db" where
  "SetInvite rname i expiresAt d =
     bindE (checkID i) (\<lambda>_.
     bindE (requireE (rname \<in> rm_Name ` set (rooms d)) (ErrConstraint ''invites.room'')) (\<lambda>_.
     Inr (d\<lparr>invites := upsert invite_key invite_merge
       \<lparr>in_Room = rname, in_Identity = i, in_ExpiresAt = expiresAt\<rparr> (invites d)\<rparr>)))"

definition InviteValid :: "string \<Rightarrow> ident \<Rightarrow> millis \<Rightarrow> db \<Rightarrow> bool" where
  "InviteValid rname i now d =
     (case find (\<lambda>r. invite_key r = (rname, i)) (invites d) of None \<Rightarrow> False | Some r \<Rightarrow> now < in_ExpiresAt r)"

definition Invites :: "string \<Rightarrow> millis \<Rightarrow> db \<Rightarrow> invite_row list" where
  "Invites rname now d =
     sort_key in_Identity (filter (\<lambda>r. in_Room r = rname \<and> now < in_ExpiresAt r) (invites d))"

definition DeleteInvite :: "string \<Rightarrow> ident \<Rightarrow> db \<Rightarrow> db" where
  "DeleteInvite rname i d = d\<lparr>invites := delete_where (\<lambda>r. invite_key r = (rname, i)) (invites d)\<rparr>"

definition PruneInvites :: "millis \<Rightarrow> db \<Rightarrow> db" where
  "PruneInvites now d = d\<lparr>invites := delete_where (\<lambda>r. in_ExpiresAt r \<le> now) (invites d)\<rparr>"

section \<open>The schema is kept\<close>

interpretation rt: upsert_table rm_Name room_merge
  by unfold_locales (simp add: room_merge_def)

interpretation it: upsert_table invite_key invite_merge
  by unfold_locales (simp add: invite_merge_def invite_key_def)

lemma PutRoom_inv [inv_intros]:
  assumes "db_inv d" "PutRoom r d = Inr d'"
  shows "db_inv d'"
proof -
  from assms(2) have d': "d' = d\<lparr>rooms := upsert rm_Name room_merge r (rooms d)\<rparr>"
    and modes: "set (rm_Modes r) \<subseteq> set ''ikmnpt''"
    by (auto simp: PutRoom_def)
  have ks: "rm_Name ` set (rooms d') = insert (rm_Name r) (rm_Name ` set (rooms d))"
    by (simp add: d' rt.upsert_key_set)
  have "\<forall>x\<in>set (rooms d'). set (rm_Modes x) \<subseteq> set ''ikmnpt''"
    using assms(1) modes unfolding d' by simp (rule rt.upsert_ball, auto simp: db_inv_def inv_rooms_def room_merge_def)
  with assms(1) have "inv_rooms d'"
    unfolding inv_rooms_def ks by (simp add: d' rt.upsert_distinct db_inv_def inv_rooms_def)
  with assms(1) show ?thesis by (simp add: d' db_inv_def)
qed

lemma DeleteRoom_inv [inv_intros]: "db_inv d \<Longrightarrow> db_inv (DeleteRoom name d)"
  by (auto simp: DeleteRoom_def db_inv_def inv_rooms_def)

lemma SetRole_inv [inv_intros]: "db_inv d \<Longrightarrow> SetRole rname i role on by now d = Inr d' \<Longrightarrow> db_inv d'"
  by (auto simp: SetRole_def db_inv_def inv_rooms_def insert_ignore_set split: if_splits)

lemma SetInvite_inv [inv_intros]: "db_inv d \<Longrightarrow> SetInvite rname i e d = Inr d' \<Longrightarrow> db_inv d'"
proof -
  assume inv: "db_inv d" and d': "SetInvite rname i e d = Inr d'"
  let ?new = "\<lparr>in_Room = rname, in_Identity = i, in_ExpiresAt = e\<rparr>"
  from d' have room: "rname \<in> rm_Name ` set (rooms d)"
    and eq: "d' = d\<lparr>invites := upsert invite_key invite_merge ?new (invites d)\<rparr>"
    by (auto simp: SetInvite_def)
  have "\<forall>x\<in>set (upsert invite_key invite_merge ?new (invites d)). in_Room x \<in> rm_Name ` set (rooms d)"
    using inv room by (intro it.upsert_ball) (auto simp: invite_merge_def db_inv_def inv_rooms_def)
  then show "db_inv d'"
    using inv by (simp add: eq db_inv_def inv_rooms_def it.upsert_distinct)
qed

lemma DeleteInvite_inv [inv_intros]: "db_inv d \<Longrightarrow> db_inv (DeleteInvite rname i d)"
  by (auto simp: DeleteInvite_def db_inv_def inv_rooms_def)

lemma PruneInvites_inv [inv_intros]: "db_inv d \<Longrightarrow> db_inv (PruneInvites now d)"
  by (auto simp: PruneInvites_def db_inv_def inv_rooms_def)

section \<open>What the operations do\<close>

lemma HasMode_SetMode: "HasMode (SetMode m on r) k \<longleftrightarrow> (if k = m then on else HasMode r k)"
proof -
  have fin: "set (sorted_list_of_set (set xs)) = set xs" for xs :: string by simp
  have "set (rm_Modes (SetMode m on r)) =
      set (if on then m # filter (\<lambda>k. k \<noteq> m) (rm_Modes r) else filter (\<lambda>k. k \<noteq> m) (rm_Modes r))"
    unfolding SetMode_def Let_def using fin by (simp del: sorted_list_of_set_insert_remove)
  then show ?thesis by (auto simp: HasMode_def)
qed

lemma SetMode_frame [simp]:
  "rm_Name (SetMode m on r) = rm_Name r" "rm_Topic (SetMode m on r) = rm_Topic r"
  "rm_Founder (SetMode m on r) = rm_Founder r" "rm_Registered (SetMode m on r) = rm_Registered r"
  "rm_Key (SetMode m on r) = rm_Key r" "rm_CreatedAt (SetMode m on r) = rm_CreatedAt r"
  "rm_LastUsed (SetMode m on r) = rm_LastUsed r"
  by (simp_all add: SetMode_def Let_def)

lemma Room_PutRoom:
  assumes "PutRoom r d = Inr d'"
  shows "Room name d' = (if name = rm_Name r
    then Some (case Room name d of None \<Rightarrow> r | Some old \<Rightarrow> r\<lparr>rm_CreatedAt := rm_CreatedAt old\<rparr>)
    else Room name d)"
proof (cases "name = rm_Name r")
  case True
  from assms have "rooms d' = upsert rm_Name room_merge r (rooms d)" by (auto simp: PutRoom_def)
  with True show ?thesis
    by (auto simp: Room_def rt.upsert_lookup_same room_merge_def split: option.split dest!: find_Some_set)
next
  case False
  with assms show ?thesis by (auto simp: PutRoom_def Room_def rt.upsert_lookup_other)
qed

lemma Room_DeleteRoom: "Room n (DeleteRoom name d) = (if n = name then None else Room n d)"
  by (simp add: Room_def DeleteRoom_def find_delete_key)

lemma HasRole_SetRole:
  assumes "SetRole rname i role on by now d = Inr d'"
  shows "HasRole rn j ro d' \<longleftrightarrow> (if (rn, j, ro) = (rname, i, role) then on else HasRole rn j ro d)"
  using assms
  by (cases on) (auto simp: SetRole_def HasRole_def insert_ignore_set role_key_def image_iff split: if_splits, metis)

lemma HasRole_DeleteRoom: "HasRole rn i role (DeleteRoom name d) \<longleftrightarrow> rn \<noteq> name \<and> HasRole rn i role d"
  by (auto simp: HasRole_def DeleteRoom_def role_key_def)

lemma InviteValid_SetInvite:
  assumes "SetInvite rname i e d = Inr d'"
  shows "InviteValid rn j now d' \<longleftrightarrow> (if (rn, j) = (rname, i) then now < e else InviteValid rn j now d)"
proof -
  let ?new = "\<lparr>in_Room = rname, in_Identity = i, in_ExpiresAt = e\<rparr>"
  from assms have eq: "invites d' = upsert invite_key invite_merge ?new (invites d)"
    by (auto simp: SetInvite_def)
  have key: "invite_key ?new = (rname, i)" by (simp add: invite_key_def)
  show ?thesis
    using it.upsert_lookup_same [of ?new "invites d"] it.upsert_lookup_other [of "(rn, j)" ?new "invites d"]
    by (auto simp: InviteValid_def eq key invite_merge_def split: option.split)
qed

lemma InviteValid_DeleteInvite:
  "InviteValid rn j now (DeleteInvite rname i d) \<longleftrightarrow> (rn, j) \<noteq> (rname, i) \<and> InviteValid rn j now d"
  by (simp add: InviteValid_def DeleteInvite_def find_delete_key split: option.split)

end
