(* ===== verification/StoreMessages.thy ===== *)
theory StoreMessages
  imports StoreDB
begin

text \<open>
  internal/store/messages.go: stored messages in hub order, and the read cursors per identity, room
  and way in. The catch-up of the hub rests on these queries.
\<close>

text \<open>LIMIT n: a negative n is no limit.\<close>

definition limit_rows :: "int \<Rightarrow> 'a list \<Rightarrow> 'a list" where
  "limit_rows n xs = (if n < 0 then xs else take (nat n) xs)"

definition AddMessage :: "message \<Rightarrow> db \<Rightarrow> err + (int \<times> bool \<times> db)" where
  "AddMessage m d =
     bindE (checkID (m_Author m)) (\<lambda>_.
     case (if m_OriginID m = None then None else find (\<lambda>x. origin_key x = origin_key m) (messages d)) of
       Some x \<Rightarrow> Inr (m_ID x, True, d)
     | None \<Rightarrow> let k = next_rowid m_ID (messages d)
               in Inr (k, False, d\<lparr>messages := messages d @ [m\<lparr>m_ID := k\<rparr>]\<rparr>))"

definition Message :: "int \<Rightarrow> db \<Rightarrow> message option" where
  "Message k d = find (\<lambda>m. m_ID m = k) (messages d)"

definition MessagesAfter :: "string \<Rightarrow> int \<Rightarrow> int \<Rightarrow> db \<Rightarrow> message list" where
  "MessagesAfter rname afterID n d =
     limit_rows n (sort_key m_ID (filter (\<lambda>m. m_Room m = rname \<and> afterID < m_ID m) (messages d)))"

definition LatestMessages :: "string \<Rightarrow> int \<Rightarrow> int \<Rightarrow> db \<Rightarrow> message list" where
  "LatestMessages rname beforeID n d =
     (let before = (if beforeID \<le> 0 then 2 ^ 63 - 1 else beforeID)
      in rev (limit_rows n (rev (sort_key m_ID (filter (\<lambda>m. m_Room m = rname \<and> m_ID m < before) (messages d))))))"

definition LatestMessagesByPerson :: "int \<Rightarrow> string \<Rightarrow> int \<Rightarrow> db \<Rightarrow> message list" where
  "LatestMessagesByPerson k rname n d =
     rev (limit_rows n (rev (sort_key m_ID
       (filter (\<lambda>m. m_Room m = rname \<and> (\<exists>i\<in>set (identities d). i_ID i = m_Author m \<and> i_Person i = k)) (messages d)))))"

definition delete_message :: "int \<Rightarrow> nat \<times> db \<Rightarrow> nat \<times> db" where
  "delete_message k nd = (case nd of (n, d) \<Rightarrow>
     (n + rows_where (\<lambda>x. dl_MessageID x = k \<and> dl_State x = DeliveryQueued) (deliveries d),
      d\<lparr>deliveries := delete_where (\<lambda>x. dl_MessageID x = k) (deliveries d),
        messages := delete_where (\<lambda>m. m_ID m = k) (messages d)\<rparr>))"

definition DeleteMessages :: "int list \<Rightarrow> db \<Rightarrow> nat \<times> db" where
  "DeleteMessages ks d = fold delete_message ks (0, d)"

definition CountAfter :: "string \<Rightarrow> int \<Rightarrow> db \<Rightarrow> nat" where
  "CountAfter rname afterID d = rows_where (\<lambda>m. m_Room m = rname \<and> afterID < m_ID m) (messages d)"

definition LastMessageID :: "string \<Rightarrow> db \<Rightarrow> int" where
  "LastMessageID rname d =
     (case map m_ID (filter (\<lambda>m. m_Room m = rname) (messages d)) of [] \<Rightarrow> 0 | k # ks \<Rightarrow> fold max ks k)"

definition PruneMessages :: "millis \<Rightarrow> db \<Rightarrow> db" where
  "PruneMessages cutoff d =
     (let old = map m_ID (filter (\<lambda>m. m_HubAt m < cutoff) (messages d))
      in d\<lparr>deliveries := delete_where (\<lambda>x. dl_MessageID x \<in> set old) (deliveries d),
           messages := delete_where (\<lambda>m. m_HubAt m < cutoff) (messages d)\<rparr>)"

section \<open>Cursors\<close>

definition Cursor :: "ident \<Rightarrow> string \<Rightarrow> Via \<Rightarrow> db \<Rightarrow> cursor_row option" where
  "Cursor i rname via d = find (\<lambda>c. cursor_key c = (i, rname, via)) (cursors d)"

definition cursor_merge :: "cursor_row \<Rightarrow> cursor_row \<Rightarrow> cursor_row" where
  "cursor_merge new old = old\<lparr>c_MessageID := max (c_MessageID old) (c_MessageID new), c_UpdatedAt := c_UpdatedAt new\<rparr>"

definition SetCursor :: "ident \<Rightarrow> string \<Rightarrow> Via \<Rightarrow> int \<Rightarrow> millis \<Rightarrow> db \<Rightarrow> err + db" where
  "SetCursor i rname via messageID now d =
     bindE (checkID i) (\<lambda>_.
     bindE (requireE (via \<noteq> ViaImport) (ErrConstraint ''cursors.via'')) (\<lambda>_.
     Inr (d\<lparr>cursors := upsert cursor_key cursor_merge
       \<lparr>c_Identity = i, c_Room = rname, c_Via = via, c_MessageID = messageID, c_UpdatedAt = now\<rparr> (cursors d)\<rparr>)))"

section \<open>The schema is kept\<close>

interpretation ct: upsert_table cursor_key cursor_merge
  by unfold_locales (simp add: cursor_merge_def cursor_key_def)

lemma sorted_wrt_delete_where [simp]:
  "sorted_wrt (<) (map key t) \<Longrightarrow> sorted_wrt (<) (map key (delete_where P t))"
  by (simp add: delete_where_def sorted_wrt_map sorted_wrt_filter)

lemma sorted_wrt_next_rowid:
  "sorted_wrt (<) (map key t) \<Longrightarrow> sorted_wrt (<) (map key t @ [next_rowid key t])"
  by (auto simp: sorted_wrt_append dest: next_rowid_fresh)

lemma sorted_wrt_less_distinct: "sorted_wrt (<) (xs :: int list) \<Longrightarrow> distinct xs"
  using strict_sorted_iff by blast

lemma distinct_filter_delete_where [simp]:
  assumes "distinct (map key (filter Q t))"
  shows "distinct (map key (filter Q (delete_where P t)))"
proof -
  have "filter Q (delete_where P t) = filter (\<lambda>r. \<not> P r) (filter Q t)"
    by (simp add: delete_where_def conj_commute)
  then show ?thesis using distinct_map_filter_key [OF assms] by metis
qed

lemma AddMessage_Inr:
  assumes "AddMessage m d = Inr (k, dup, d')"
  shows "length (m_Author m) = 16"
    and "dup \<Longrightarrow> d' = d \<and> (\<exists>x\<in>set (messages d). m_ID x = k \<and> origin_key x = origin_key m) \<and> m_OriginID m \<noteq> None"
    and "\<not> dup \<Longrightarrow> k = next_rowid m_ID (messages d) \<and> d' = d\<lparr>messages := messages d @ [m\<lparr>m_ID := k\<rparr>]\<rparr>
      \<and> (m_OriginID m \<noteq> None \<longrightarrow> (\<forall>x\<in>set (messages d). origin_key x \<noteq> origin_key m))"
  using assms
  by (auto simp: AddMessage_def Let_def find_None_set split: option.splits if_splits dest!: find_Some_set)

lemma AddMessage_inv [inv_intros]:
  assumes inv: "db_inv d" and add: "AddMessage m d = Inr (k, dup, d')"
  shows "db_inv d'"
proof (cases dup)
  case True
  with AddMessage_Inr(2) [OF add] inv show ?thesis by simp
next
  case False
  note new = AddMessage_Inr(3) [OF add False]
  from inv have im: "inv_messages d" by (simp add: db_inv_def)
  have pos: "0 < next_rowid m_ID (messages d)"
    using im by (intro next_rowid_pos) (auto simp: inv_messages_def)
  have "distinct (map origin_key (filter (\<lambda>m. m_OriginID m \<noteq> None) (messages d @ [m\<lparr>m_ID := k\<rparr>])))"
    using im new by (auto simp: inv_messages_def origin_key_def)
  moreover have "sorted_wrt (<) (map m_ID (messages d @ [m\<lparr>m_ID := k\<rparr>]))"
    using im new sorted_wrt_next_rowid [of m_ID "messages d"] by (simp add: inv_messages_def)
  ultimately have "inv_messages d'"
    using im new pos AddMessage_Inr(1) [OF add] by (auto simp: inv_messages_def)
  with inv new show ?thesis by (simp add: db_inv_def)
qed

lemma delete_message_inv: "db_inv (snd nd) \<Longrightarrow> db_inv (snd (delete_message k nd))"
  by (auto simp: delete_message_def db_inv_def inv_messages_def inv_group_def split: prod.splits)

lemma DeleteMessages_inv [inv_intros]: "db_inv d \<Longrightarrow> db_inv (snd (DeleteMessages ks d))"
proof -
  have "db_inv (snd nd) \<Longrightarrow> db_inv (snd (fold delete_message ks nd))" for nd
    by (induction ks arbitrary: nd) (simp_all add: delete_message_inv)
  then show "db_inv d \<Longrightarrow> ?thesis" by (simp add: DeleteMessages_def)
qed

lemma PruneMessages_inv [inv_intros]: "db_inv d \<Longrightarrow> db_inv (PruneMessages cutoff d)"
  by (auto simp: PruneMessages_def Let_def db_inv_def inv_messages_def inv_group_def)

lemma SetCursor_inv [inv_intros]:
  assumes inv: "db_inv d" and set: "SetCursor i rname via k now d = Inr d'"
  shows "db_inv d'"
proof -
  let ?new = "\<lparr>c_Identity = i, c_Room = rname, c_Via = via, c_MessageID = k, c_UpdatedAt = now\<rparr>"
  from set have d': "d' = d\<lparr>cursors := upsert cursor_key cursor_merge ?new (cursors d)\<rparr>" and via: "via \<noteq> ViaImport"
    by (auto simp: SetCursor_def)
  have "\<forall>c\<in>set (upsert cursor_key cursor_merge ?new (cursors d)). c_Via c \<noteq> ViaImport"
    using inv via by (intro ct.upsert_ball) (auto simp: db_inv_def inv_messages_def cursor_merge_def)
  with inv show ?thesis by (simp add: d' db_inv_def inv_messages_def ct.upsert_distinct)
qed

section \<open>What the operations do\<close>

lemma Cursor_SetCursor:
  assumes "SetCursor i rname via k now d = Inr d'"
  shows "Cursor j rn v d' = (if (j, rn, v) = (i, rname, via)
    then Some \<lparr>c_Identity = i, c_Room = rname, c_Via = via,
      c_MessageID = (case Cursor i rname via d of None \<Rightarrow> k | Some c \<Rightarrow> max (c_MessageID c) k), c_UpdatedAt = now\<rparr>
    else Cursor j rn v d)"
proof -
  let ?new = "\<lparr>c_Identity = i, c_Room = rname, c_Via = via, c_MessageID = k, c_UpdatedAt = now\<rparr>"
  from assms have d': "cursors d' = upsert cursor_key cursor_merge ?new (cursors d)" by (auto simp: SetCursor_def)
  have key: "cursor_key ?new = (i, rname, via)" by (simp add: cursor_key_def)
  show ?thesis
  proof (cases "(j, rn, v) = (i, rname, via)")
    case True
    then show ?thesis using ct.upsert_lookup_same [of ?new "cursors d"]
      by (auto simp: Cursor_def d' key cursor_merge_def cursor_key_def split: option.split dest!: find_Some_set)
  next
    case False
    then show ?thesis using ct.upsert_lookup_other [of "(j, rn, v)" ?new "cursors d"] by (auto simp: Cursor_def d' key)
  qed
qed

lemma sort_key_messages: "inv_messages d \<Longrightarrow> sort_key m_ID (filter P (messages d)) = filter P (messages d)"
proof -
  assume "inv_messages d"
  then have "sorted (map m_ID (filter P (messages d)))"
    by (auto simp: inv_messages_def sorted_wrt_map intro!: sorted_wrt_filter
        elim: sorted_wrt_mono_rel [rotated])
  then show ?thesis by (rule sort_key_id_if_sorted)
qed

lemma MessagesAfter_all:
  assumes "inv_messages d"
  shows "MessagesAfter rname a (int (CountAfter rname a d)) d = filter (\<lambda>m. m_Room m = rname \<and> a < m_ID m) (messages d)"
  using assms by (simp add: MessagesAfter_def CountAfter_def rows_where_def limit_rows_def sort_key_messages)

lemma LastMessageID_upper:
  "m \<in> set (messages d) \<Longrightarrow> m_Room m = rname \<Longrightarrow> m_ID m \<le> LastMessageID rname d"
proof -
  assume m: "m \<in> set (messages d)" "m_Room m = rname"
  let ?ks = "map m_ID (filter (\<lambda>m. m_Room m = rname) (messages d))"
  from m have "m_ID m \<in> set ?ks" by auto
  then show ?thesis unfolding LastMessageID_def
    by (cases ?ks) (auto simp: fold_max_ge fold_max_upper)
qed

lemma CountAfter_LastMessageID [simp]: "CountAfter rname (LastMessageID rname d) d = 0"
  using LastMessageID_upper [of _ d rname] by (force simp: CountAfter_def not_less)

lemma LatestMessages_length: "0 \<le> n \<Longrightarrow> length (LatestMessages rname b n d) \<le> nat n"
  by (simp add: LatestMessages_def limit_rows_def Let_def)

lemma find_origin:
  assumes "distinct (map origin_key (filter (\<lambda>m. m_OriginID m \<noteq> None) t))" and "x \<in> set t" and "m_OriginID x \<noteq> None"
    and "origin_key x = key"
  shows "find (\<lambda>y. origin_key y = key) t = Some x"
proof -
  have "find (\<lambda>y. origin_key y = key) t = find (\<lambda>y. origin_key y = key) (filter (\<lambda>m. m_OriginID m \<noteq> None) t)"
    using assms(3,4) by (induction t) (auto simp: origin_key_def)
  also have "\<dots> = Some x" using assms find_key_eq [of origin_key "filter (\<lambda>m. m_OriginID m \<noteq> None) t" x] by simp
  finally show ?thesis .
qed

end
