(* ===== verification/StoreGroup.thy ===== *)
theory StoreGroup
  imports StoreMessages
begin

text \<open>
  internal/store/group.go: the members of the LXMF group and the queue of LXMF deliveries, one row per
  message (or whisper) and member.
\<close>

section \<open>Members\<close>

record member =
  gm_Identity :: ident
  gm_JoinedAt :: millis
  gm_AwayUntil :: millis
  gm_LXMFMode :: LXMFMode
  gm_LXMFMine :: bool

definition AddMember :: "ident \<Rightarrow> millis \<Rightarrow> db \<Rightarrow> err + (bool \<times> db)" where
  "AddMember i now d =
     bindE (checkID i) (\<lambda>_.
     if i \<in> mb_Identity ` set (members d) then Inr (False, d)
     else bindE (requireE (i \<in> i_ID ` set (identities d)) (ErrConstraint ''members.identity'')) (\<lambda>_.
       Inr (True, d\<lparr>members := members d @ [\<lparr>mb_Identity = i, mb_JoinedAt = now, mb_AwayUntil = 0\<rparr>]\<rparr>)))"

definition RemoveMember :: "ident \<Rightarrow> db \<Rightarrow> bool \<times> db" where
  "RemoveMember i d =
     (rows_where (\<lambda>m. mb_Identity m = i) (members d) = 1,
      d\<lparr>deliveries := delete_where (\<lambda>x. dl_Identity x = i) (deliveries d),
        whisper_deliveries := delete_where (\<lambda>x. dl_Identity x = i) (whisper_deliveries d),
        members := delete_where (\<lambda>m. mb_Identity m = i) (members d)\<rparr>)"

definition IsMember :: "ident \<Rightarrow> db \<Rightarrow> bool" where
  "IsMember i d \<longleftrightarrow> (\<exists>m\<in>set (members d). mb_Identity m = i)"

text \<open>Members: joined with the identities for the LXMF settings, by join time.\<close>

definition Members :: "db \<Rightarrow> member list" where
  "Members d =
     sort_key (\<lambda>g. (gm_JoinedAt g, gm_Identity g))
       (concat (map (\<lambda>m. map (\<lambda>i. \<lparr>gm_Identity = mb_Identity m, gm_JoinedAt = mb_JoinedAt m,
            gm_AwayUntil = mb_AwayUntil m, gm_LXMFMode = i_LXMFMode i, gm_LXMFMine = i_LXMFMine i\<rparr>)
          (filter (\<lambda>i. i_ID i = mb_Identity m) (identities d))) (members d)))"

definition SetAway :: "ident \<Rightarrow> millis \<Rightarrow> db \<Rightarrow> db" where
  "SetAway i until d = d\<lparr>members := update_where (\<lambda>m. mb_Identity m = i) (\<lambda>m. m\<lparr>mb_AwayUntil := until\<rparr>) (members d)\<rparr>"

section \<open>Deliveries\<close>

definition delivery_merge :: "delivery \<Rightarrow> delivery \<Rightarrow> delivery" where
  "delivery_merge new old = old\<lparr>dl_State := dl_State new, dl_Attempts := dl_Attempts new,
     dl_PartsDone := dl_PartsDone new, dl_NextAt := dl_NextAt new, dl_UpdatedAt := dl_UpdatedAt new\<rparr>"

definition PutDelivery :: "delivery \<Rightarrow> db \<Rightarrow> err + db" where
  "PutDelivery x d =
     bindE (checkID (dl_Identity x)) (\<lambda>_.
     bindE (requireE (0 \<le> dl_PartsDone x) (ErrConstraint ''deliveries.parts_done'')) (\<lambda>_.
     if dl_Whisper x
     then bindE (requireE (dl_MessageID x \<in> w_ID ` set (whispers d)) (ErrConstraint ''whisper_deliveries.whisper_id'')) (\<lambda>_.
       Inr (d\<lparr>whisper_deliveries := upsert delivery_key delivery_merge x (whisper_deliveries d)\<rparr>))
     else Inr (d\<lparr>deliveries := upsert delivery_key delivery_merge x (deliveries d)\<rparr>)))"

text \<open>Whispers first (ORDER BY 1 DESC), then by message and identity; LIMIT over the union.\<close>

definition DueDeliveries :: "millis \<Rightarrow> int \<Rightarrow> db \<Rightarrow> delivery list" where
  "DueDeliveries now n d =
     (let due = filter (\<lambda>x. dl_State x = DeliveryQueued \<and> dl_NextAt x \<le> now)
      in limit_rows n (sort_key delivery_key (due (whisper_deliveries d)) @ sort_key delivery_key (due (deliveries d))))"

definition final_state :: "DeliveryState \<Rightarrow> bool" where
  "final_state s \<longleftrightarrow> s = DeliveryProven \<or> s = DeliveryPropagated \<or> s = DeliveryFailed"

definition FinishDeliveries :: "millis \<Rightarrow> db \<Rightarrow> db" where
  "FinishDeliveries cutoff d =
     (let P = (\<lambda>x. final_state (dl_State x) \<and> dl_UpdatedAt x < cutoff)
      in d\<lparr>deliveries := delete_where P (deliveries d), whisper_deliveries := delete_where P (whisper_deliveries d)\<rparr>)"

section \<open>The schema is kept\<close>

interpretation dt: upsert_table delivery_key delivery_merge
  by unfold_locales (simp add: delivery_merge_def delivery_key_def)

lemma AddMember_inv [inv_intros]: "db_inv d \<Longrightarrow> AddMember i now d = Inr (b, d') \<Longrightarrow> db_inv d'"
  by (auto simp: AddMember_def db_inv_def inv_group_def split: if_splits)

lemma RemoveMember_inv [inv_intros]: "db_inv d \<Longrightarrow> db_inv (snd (RemoveMember i d))"
  by (auto simp: RemoveMember_def db_inv_def inv_group_def)

lemma SetAway_inv [inv_intros]: "db_inv d \<Longrightarrow> db_inv (SetAway i u d)"
  by (auto simp: SetAway_def db_inv_def inv_group_def set_update_where distinct_update_where)

lemma PutDelivery_inv [inv_intros]:
  assumes inv: "db_inv d" and put: "PutDelivery x d = Inr d'"
  shows "db_inv d'"
proof -
  have ball: "\<forall>y\<in>set (upsert delivery_key delivery_merge x t). P y"
    if "\<forall>y\<in>set t. P y" "P x" "\<And>old. P old \<Longrightarrow> P (delivery_merge x old)" for P t
    using that by (intro dt.upsert_ball) auto
  show ?thesis
  proof (cases "dl_Whisper x")
    case True
    with put have d': "d' = d\<lparr>whisper_deliveries := upsert delivery_key delivery_merge x (whisper_deliveries d)\<rparr>"
      and x: "0 \<le> dl_PartsDone x" "dl_MessageID x \<in> w_ID ` set (whispers d)"
      by (auto simp: PutDelivery_def)
    have "\<forall>y\<in>set (upsert delivery_key delivery_merge x (whisper_deliveries d)). dl_Whisper y \<and> 0 \<le> dl_PartsDone y"
      by (rule ball) (use inv x True in \<open>auto simp: db_inv_def inv_group_def delivery_merge_def\<close>)
    moreover have "\<forall>y\<in>set (upsert delivery_key delivery_merge x (whisper_deliveries d)). dl_MessageID y \<in> w_ID ` set (whispers d)"
      by (rule ball) (use inv x in \<open>auto simp: db_inv_def inv_group_def delivery_merge_def\<close>)
    ultimately show ?thesis using inv by (simp add: d' db_inv_def inv_group_def dt.upsert_distinct)
  next
    case False
    with put have d': "d' = d\<lparr>deliveries := upsert delivery_key delivery_merge x (deliveries d)\<rparr>"
      and x: "0 \<le> dl_PartsDone x"
      by (auto simp: PutDelivery_def)
    have "\<forall>y\<in>set (upsert delivery_key delivery_merge x (deliveries d)). \<not> dl_Whisper y \<and> 0 \<le> dl_PartsDone y"
      by (rule ball) (use inv x False in \<open>auto simp: db_inv_def inv_group_def delivery_merge_def\<close>)
    then show ?thesis using inv by (simp add: d' db_inv_def inv_group_def dt.upsert_distinct)
  qed
qed

lemma FinishDeliveries_inv [inv_intros]: "db_inv d \<Longrightarrow> db_inv (FinishDeliveries c d)"
  by (auto simp: FinishDeliveries_def Let_def db_inv_def inv_group_def)

section \<open>What the operations do\<close>

lemma IsMember_AddMember:
  "AddMember i now d = Inr (b, d') \<Longrightarrow> IsMember j d' \<longleftrightarrow> j = i \<or> IsMember j d"
  by (auto simp: AddMember_def IsMember_def split: if_splits)

lemma AddMember_added:
  "AddMember i now d = Inr (b, d') \<Longrightarrow> b \<longleftrightarrow> \<not> IsMember i d"
  by (auto simp: AddMember_def IsMember_def split: if_splits)

lemma IsMember_RemoveMember [simp]: "IsMember j (snd (RemoveMember i d)) \<longleftrightarrow> j \<noteq> i \<and> IsMember j d"
  by (auto simp: RemoveMember_def IsMember_def)

lemma RemoveMember_removed: "db_inv d \<Longrightarrow> fst (RemoveMember i d) \<longleftrightarrow> IsMember i d"
proof -
  assume "db_inv d"
  then have "rows_where (\<lambda>m. mb_Identity m = i) (members d) \<le> 1"
    by (intro rows_where_key_le_1) (simp add: db_inv_def inv_group_def)
  moreover have "0 < rows_where (\<lambda>m. mb_Identity m = i) (members d) \<longleftrightarrow> IsMember i d"
    by (simp add: rows_where_pos IsMember_def)
  ultimately show ?thesis by (auto simp: RemoveMember_def)
qed

lemma set_Members:
  "g \<in> set (Members d) \<longleftrightarrow> (\<exists>m\<in>set (members d). \<exists>i\<in>set (identities d). i_ID i = mb_Identity m \<and>
     g = \<lparr>gm_Identity = mb_Identity m, gm_JoinedAt = mb_JoinedAt m, gm_AwayUntil = mb_AwayUntil m,
          gm_LXMFMode = i_LXMFMode i, gm_LXMFMine = i_LXMFMine i\<rparr>)"
  by (auto simp: Members_def)

lemma Members_IsMember:
  assumes "db_inv d"
  shows "i \<in> gm_Identity ` set (Members d) \<longleftrightarrow> IsMember i d"
proof
  assume "IsMember i d"
  then obtain m where m: "m \<in> set (members d)" "mb_Identity m = i" by (auto simp: IsMember_def)
  with assms obtain r where "r \<in> set (identities d)" "i_ID r = i"
    by (fastforce simp: db_inv_def inv_group_def)
  with m show "i \<in> gm_Identity ` set (Members d)" by (force simp: set_Members image_iff)
next
  assume "i \<in> gm_Identity ` set (Members d)"
  then show "IsMember i d" unfolding IsMember_def by (force simp: set_Members)
qed

end
