(* ===== verification/StoreSocial.thy ===== *)
theory StoreSocial
  imports StoreGroup
begin

text \<open>
  internal/store/whispers.go: whispers to a person, their LXMF copies (in \<open>StoreGroup\<close>'s queue) and
  the people someone ignores.
\<close>

definition AddWhisper :: "whisper \<Rightarrow> db \<Rightarrow> err + (int \<times> db)" where
  "AddWhisper w d =
     bindE (checkID (w_From w)) (\<lambda>_.
     bindE (requireE (w_Via w \<noteq> ViaImport) (ErrConstraint ''whispers.via'')) (\<lambda>_.
     bindE (requireE (w_ToPerson w \<in> p_ID ` set (people d)) (ErrConstraint ''whispers.to_person'')) (\<lambda>_.
     let k = next_rowid w_ID (whispers d)
     in Inr (k, d\<lparr>whispers := whispers d @ [w\<lparr>w_ID := k, w_RRCAt := 0, w_ReadAt := 0\<rparr>]\<rparr>))))"

definition Whisper :: "int \<Rightarrow> db \<Rightarrow> whisper option" where
  "Whisper k d = find (\<lambda>w. w_ID w = k) (whispers d)"

definition WhispersTo :: "int \<Rightarrow> int \<Rightarrow> db \<Rightarrow> whisper list" where
  "WhispersTo k n d = rev (limit_rows n (rev (sort_key w_ID (filter (\<lambda>w. w_ToPerson w = k) (whispers d)))))"

definition UnsentRRCWhispers :: "int \<Rightarrow> db \<Rightarrow> whisper list" where
  "UnsentRRCWhispers k d = sort_key w_ID (filter (\<lambda>w. w_ToPerson w = k \<and> w_RRCAt w = 0) (whispers d))"

definition MarkWhisperRRC :: "int \<Rightarrow> millis \<Rightarrow> db \<Rightarrow> db" where
  "MarkWhisperRRC k now d =
     d\<lparr>whispers := update_where (\<lambda>w. w_ID w = k \<and> w_RRCAt w = 0) (\<lambda>w. w\<lparr>w_RRCAt := now\<rparr>) (whispers d)\<rparr>"

definition MarkWhispersRead :: "int \<Rightarrow> int \<Rightarrow> millis \<Rightarrow> db \<Rightarrow> nat \<times> db" where
  "MarkWhispersRead k upTo now d =
     (let P = (\<lambda>w. w_ToPerson w = k \<and> w_ID w \<le> upTo \<and> w_ReadAt w = 0)
      in (rows_where P (whispers d), d\<lparr>whispers := update_where P (\<lambda>w. w\<lparr>w_ReadAt := now\<rparr>) (whispers d)\<rparr>))"

definition UnreadWhispers :: "int \<Rightarrow> db \<Rightarrow> nat" where
  "UnreadWhispers k d = rows_where (\<lambda>w. w_ToPerson w = k \<and> w_ReadAt w = 0) (whispers d)"

definition LastWhisperTo :: "int \<Rightarrow> db \<Rightarrow> whisper option" where
  "LastWhisperTo k d =
     (case rev (sort_key w_ID (filter (\<lambda>w. w_ToPerson w = k) (whispers d))) of [] \<Rightarrow> None | w # _ \<Rightarrow> Some w)"

definition PruneWhispers :: "millis \<Rightarrow> db \<Rightarrow> db" where
  "PruneWhispers cutoff d =
     (let gone = map w_ID (filter (\<lambda>w. w_SaidAt w < cutoff) (whispers d))
      in d\<lparr>whisper_deliveries := delete_where (\<lambda>x. dl_MessageID x \<in> set gone) (whisper_deliveries d),
           whispers := delete_where (\<lambda>w. w_SaidAt w < cutoff) (whispers d)\<rparr>)"

definition Ignore :: "int \<Rightarrow> int \<Rightarrow> millis \<Rightarrow> db \<Rightarrow> err + db" where
  "Ignore k ignored now d =
     bindE (requireE (k \<noteq> ignored) (ErrInvalid ''a person can't ignore themselves'')) (\<lambda>_.
     bindE (requireE (k \<in> p_ID ` set (people d) \<and> ignored \<in> p_ID ` set (people d)) (ErrConstraint ''ignores.person'')) (\<lambda>_.
     Inr (d\<lparr>ignores := insert_ignore ignore_key \<lparr>ig_Person = k, ig_Ignored = ignored, ig_At = now\<rparr> (ignores d)\<rparr>)))"

definition Unignore :: "int \<Rightarrow> int \<Rightarrow> db \<Rightarrow> bool \<times> db" where
  "Unignore k ignored d =
     (rows_where (\<lambda>x. ignore_key x = (k, ignored)) (ignores d) = 1,
      d\<lparr>ignores := delete_where (\<lambda>x. ignore_key x = (k, ignored)) (ignores d)\<rparr>)"

definition IsIgnoring :: "int \<Rightarrow> int \<Rightarrow> db \<Rightarrow> bool" where
  "IsIgnoring k ignored d \<longleftrightarrow> (\<exists>x\<in>set (ignores d). ignore_key x = (k, ignored))"

definition Ignored :: "int \<Rightarrow> db \<Rightarrow> int list" where
  "Ignored k d = map ig_Ignored (sort_key (\<lambda>x. (ig_At x, ig_Ignored x)) (filter (\<lambda>x. ig_Person x = k) (ignores d)))"

section \<open>The schema is kept\<close>

lemma AddWhisper_inv [inv_intros]:
  assumes inv: "db_inv d" and add: "AddWhisper w d = Inr (k, d')"
  shows "db_inv d'"
proof -
  from add have d': "d' = d\<lparr>whispers := whispers d @ [w\<lparr>w_ID := k, w_RRCAt := 0, w_ReadAt := 0\<rparr>]\<rparr>"
    and k: "k = next_rowid w_ID (whispers d)" "w_Via w \<noteq> ViaImport" "w_ToPerson w \<in> p_ID ` set (people d)"
    by (auto simp: AddWhisper_def Let_def)
  have pos: "0 < next_rowid w_ID (whispers d)"
    using inv by (intro next_rowid_pos) (auto simp: db_inv_def inv_social_def)
  have "inv_social d'"
    using inv k pos sorted_wrt_next_rowid [of w_ID "whispers d"] by (auto simp: d' db_inv_def inv_social_def)
  moreover have "inv_group d'" using inv by (auto simp: d' db_inv_def inv_group_def)
  ultimately show ?thesis using inv by (simp add: d' db_inv_def)
qed

lemma whispers_update_inv:
  assumes inv: "db_inv d"
    and f: "\<And>w. w_ID (f w) = w_ID w" "\<And>w. w_Via (f w) = w_Via w" "\<And>w. w_ToPerson (f w) = w_ToPerson w"
  shows "db_inv (d\<lparr>whispers := update_where P f (whispers d)\<rparr>)"
proof -
  let ?d = "d\<lparr>whispers := update_where P f (whispers d)\<rparr>"
  have "inv_group ?d"
    using inv f by (simp add: db_inv_def inv_group_def image_update_where)
  moreover have "inv_social ?d"
    using inv f by (simp add: db_inv_def inv_social_def map_key_update_where)
  ultimately show ?thesis using inv by (simp add: db_inv_def)
qed

lemma MarkWhisperRRC_inv [inv_intros]: "db_inv d \<Longrightarrow> db_inv (MarkWhisperRRC k now d)"
  unfolding MarkWhisperRRC_def by (rule whispers_update_inv) simp_all

lemma MarkWhispersRead_inv [inv_intros]: "db_inv d \<Longrightarrow> db_inv (snd (MarkWhispersRead k u now d))"
  unfolding MarkWhispersRead_def Let_def snd_conv by (rule whispers_update_inv) simp_all

lemma PruneWhispers_inv [inv_intros]: "db_inv d \<Longrightarrow> db_inv (PruneWhispers c d)"
proof -
  assume inv: "db_inv d"
  have "dl_MessageID x \<in> w_ID ` {w \<in> set (whispers d). \<not> w_SaidAt w < c}"
    if "x \<in> set (whisper_deliveries d)" "dl_MessageID x \<notin> w_ID ` {w \<in> set (whispers d). w_SaidAt w < c}" for x
    using inv that unfolding db_inv_def inv_group_def by blast
  then have "inv_group (PruneWhispers c d)"
    using inv by (auto simp: PruneWhispers_def Let_def db_inv_def inv_group_def)
  moreover have "inv_social (PruneWhispers c d)"
    using inv by (auto simp: PruneWhispers_def Let_def db_inv_def inv_social_def)
  ultimately show ?thesis using inv by (simp add: PruneWhispers_def Let_def db_inv_def)
qed

lemma Ignore_inv [inv_intros]: "db_inv d \<Longrightarrow> Ignore k i now d = Inr d' \<Longrightarrow> db_inv d'"
  by (auto simp: Ignore_def db_inv_def inv_social_def insert_ignore_set split: if_splits)

lemma Unignore_inv [inv_intros]: "db_inv d \<Longrightarrow> db_inv (snd (Unignore k i d))"
  by (auto simp: Unignore_def db_inv_def inv_social_def)

lemma IsIgnoring_key: "IsIgnoring k i d \<longleftrightarrow> (k, i) \<in> ignore_key ` set (ignores d)"
  by (auto simp: IsIgnoring_def image_iff eq_commute)

lemma IsIgnoring_Ignore: "Ignore k i now d = Inr d' \<Longrightarrow> IsIgnoring a b d' \<longleftrightarrow> (a, b) = (k, i) \<or> IsIgnoring a b d"
proof -
  assume "Ignore k i now d = Inr d'"
  then have "d' = d\<lparr>ignores := insert_ignore ignore_key \<lparr>ig_Person = k, ig_Ignored = i, ig_At = now\<rparr> (ignores d)\<rparr>"
    unfolding Ignore_def by auto
  then have "ignore_key ` set (ignores d') = insert (k, i) (ignore_key ` set (ignores d))"
    by simp (simp add: ignore_key_def)
  then show ?thesis by (simp add: IsIgnoring_key)
qed

lemma IsIgnoring_Unignore: "IsIgnoring a b (snd (Unignore k i d)) \<longleftrightarrow> (a, b) \<noteq> (k, i) \<and> IsIgnoring a b d"
  by (auto simp: Unignore_def IsIgnoring_def)

end
