(* ===== verification/StoreAdmin.thy ===== *)
theory StoreAdmin
  imports StoreMessages
begin

text \<open>internal/store/admin.go: hub-wide bans, the audit log and the key/value table.\<close>

definition ban_merge :: "ban \<Rightarrow> ban \<Rightarrow> ban" where
  "ban_merge new old = new\<lparr>b_Identity := b_Identity old\<rparr>"

definition AddBan :: "ban \<Rightarrow> db \<Rightarrow> err + db" where
  "AddBan b d = bindE (checkID (b_Identity b)) (\<lambda>_. Inr (d\<lparr>bans := upsert b_Identity ban_merge b (bans d)\<rparr>))"

definition RemoveBan :: "ident \<Rightarrow> db \<Rightarrow> bool \<times> db" where
  "RemoveBan i d = (rows_where (\<lambda>b. b_Identity b = i) (bans d) = 1, d\<lparr>bans := delete_where (\<lambda>b. b_Identity b = i) (bans d)\<rparr>)"

definition IsBanned :: "ident \<Rightarrow> db \<Rightarrow> bool" where
  "IsBanned i d \<longleftrightarrow> (\<exists>b\<in>set (bans d). b_Identity b = i)"

definition Bans :: "db \<Rightarrow> ban list" where
  "Bans d = sort_key (\<lambda>b. (- b_BannedAt b, b_Identity b)) (bans d)"

definition ExpiredBans :: "millis \<Rightarrow> db \<Rightarrow> ban list" where
  "ExpiredBans now d =
     sort_key (\<lambda>b. (b_ExpiresAt b, b_Identity b)) (filter (\<lambda>b. b_ExpiresAt b \<noteq> 0 \<and> b_ExpiresAt b \<le> now) (bans d))"

definition Audit :: "millis \<Rightarrow> ident option \<Rightarrow> string \<Rightarrow> string \<Rightarrow> string \<Rightarrow> db \<Rightarrow> db" where
  "Audit now actor action target detail d =
     d\<lparr>audit := audit d @ [\<lparr>au_ID = next_rowid au_ID (audit d), au_At = now, au_Actor = actor,
        au_Action = action, au_Target = target, au_Detail = detail\<rparr>]\<rparr>"

definition AuditLog :: "int \<Rightarrow> db \<Rightarrow> audit_row list" where
  "AuditLog n d = limit_rows n (rev (sort_key au_ID (audit d)))"

definition Meta :: "string \<Rightarrow> db \<Rightarrow> string option" where
  "Meta k d = map_of (meta d) k"

definition meta_merge :: "string \<times> string \<Rightarrow> string \<times> string \<Rightarrow> string \<times> string" where
  "meta_merge new old = (fst old, snd new)"

definition SetMeta :: "string \<Rightarrow> string \<Rightarrow> db \<Rightarrow> db" where
  "SetMeta k v d = d\<lparr>meta := upsert fst meta_merge (k, v) (meta d)\<rparr>"

section \<open>The schema is kept\<close>

interpretation bt: upsert_table b_Identity ban_merge
  by unfold_locales (simp add: ban_merge_def)

interpretation mt: upsert_table fst meta_merge
  by unfold_locales (simp add: meta_merge_def)

lemma AddBan_inv [inv_intros]: "db_inv d \<Longrightarrow> AddBan b d = Inr d' \<Longrightarrow> db_inv d'"
  by (auto simp: AddBan_def db_inv_def inv_admin_def bt.upsert_distinct)

lemma RemoveBan_inv [inv_intros]: "db_inv d \<Longrightarrow> db_inv (snd (RemoveBan i d))"
  by (auto simp: RemoveBan_def db_inv_def inv_admin_def)

lemma Audit_inv [inv_intros]: "db_inv d \<Longrightarrow> db_inv (Audit now actor action target detail d)"
  using sorted_wrt_next_rowid [of au_ID "audit d"] by (simp add: Audit_def db_inv_def inv_admin_def)

lemma SetMeta_inv [inv_intros]: "db_inv d \<Longrightarrow> db_inv (SetMeta k v d)"
  by (simp add: SetMeta_def db_inv_def inv_admin_def mt.upsert_distinct)

section \<open>What the operations do\<close>

lemma IsBanned_AddBan: "AddBan b d = Inr d' \<Longrightarrow> IsBanned i d' \<longleftrightarrow> i = b_Identity b \<or> IsBanned i d"
proof -
  assume "AddBan b d = Inr d'"
  then have "bans d' = upsert b_Identity ban_merge b (bans d)" unfolding AddBan_def by auto
  then have "b_Identity ` set (bans d') = insert (b_Identity b) (b_Identity ` set (bans d))"
    by (simp add: bt.upsert_key_set)
  moreover have "IsBanned j e \<longleftrightarrow> j \<in> b_Identity ` set (bans e)" for j e
    by (auto simp: IsBanned_def)
  ultimately show ?thesis by simp
qed

lemma IsBanned_RemoveBan [simp]: "IsBanned j (snd (RemoveBan i d)) \<longleftrightarrow> j \<noteq> i \<and> IsBanned j d"
  by (auto simp: RemoveBan_def IsBanned_def)

lemma IsBanned_Audit [simp]: "IsBanned i (Audit now actor action target detail d) = IsBanned i d"
  by (simp add: IsBanned_def Audit_def)

lemma Meta_SetMeta: "Meta k' (SetMeta k v d) = (if k' = k then Some v else Meta k' d)"
proof -
  have mof: "map_of t x = map_option snd (find (\<lambda>r. fst r = x) t)" for t :: "(string \<times> string) list" and x
    by (induction t) auto
  show ?thesis
    using mt.upsert_lookup_same [of "(k, v)" "meta d"] mt.upsert_lookup_other [of k' "(k, v)" "meta d"]
    by (auto simp: Meta_def SetMeta_def mof meta_merge_def split: option.split)
qed

end
