(* ===== verification/Store.thy ===== *)
theory Store
  imports StorePeople StoreRooms StoreSocial StoreAdmin
begin

text \<open>
  The store as a whole: every write of internal/store as a step of one transition system
  (\<open>store_step\<close>), the databases that steps lead to from the empty schema (\<open>store_reach\<close>), and the
  properties of the store that the hub relies on. A write that returns an error is no step: the
  transaction around it is rolled back.
\<close>

inductive store_step :: "db \<Rightarrow> db \<Rightarrow> bool" where
  step_TouchIdentity: "TouchIdentity i pk now d = Inr d' \<Longrightarrow> store_step d d'"
| step_SetLXMFMode: "SetLXMFMode i m d = Inr d' \<Longrightarrow> store_step d d'"
| step_SetLXMFMine: "SetLXMFMine i b d = Inr d' \<Longrightarrow> store_step d d'"
| step_SetPrefs: "SetPrefs i p d = Inr d' \<Longrightarrow> store_step d d'"
| step_SetRank: "SetRank i r by now d = Inr d' \<Longrightarrow> store_step d d'"
| step_ClaimName: "ClaimName i name sk now d = Inr d' \<Longrightarrow> store_step d d'"
| step_ReleaseName: "ReleaseName i d = Inr (n, d') \<Longrightarrow> store_step d d'"
| step_LinkIdentity: "LinkIdentity i to now d = Inr d' \<Longrightarrow> store_step d d'"
| step_UnlinkIdentity: "UnlinkIdentity i now d = Inr (k, d') \<Longrightarrow> store_step d d'"
| step_PutLinkCode: "PutLinkCode c d = Inr d' \<Longrightarrow> store_step d d'"
| step_RedeemLinkCode: "RedeemLinkCode h by via d = Inr d' \<Longrightarrow> store_step d d'"
| step_DeleteLinkCode: "store_step d (DeleteLinkCode h d)"
| step_PruneLinkCodes: "store_step d (PruneLinkCodes now d)"
| step_PutRoom: "PutRoom r d = Inr d' \<Longrightarrow> store_step d d'"
| step_DeleteRoom: "store_step d (DeleteRoom name d)"
| step_SetRole: "SetRole rname i role on by now d = Inr d' \<Longrightarrow> store_step d d'"
| step_SetInvite: "SetInvite rname i e d = Inr d' \<Longrightarrow> store_step d d'"
| step_DeleteInvite: "store_step d (DeleteInvite rname i d)"
| step_PruneInvites: "store_step d (PruneInvites now d)"
| step_AddMessage: "AddMessage m d = Inr (k, dup, d') \<Longrightarrow> store_step d d'"
| step_DeleteMessages: "store_step d (snd (DeleteMessages ks d))"
| step_PruneMessages: "store_step d (PruneMessages cutoff d)"
| step_SetCursor: "SetCursor i rname via k now d = Inr d' \<Longrightarrow> store_step d d'"
| step_AddMember: "AddMember i now d = Inr (b, d') \<Longrightarrow> store_step d d'"
| step_RemoveMember: "store_step d (snd (RemoveMember i d))"
| step_SetAway: "store_step d (SetAway i u d)"
| step_PutDelivery: "PutDelivery x d = Inr d' \<Longrightarrow> store_step d d'"
| step_FinishDeliveries: "store_step d (FinishDeliveries c d)"
| step_AddWhisper: "AddWhisper w d = Inr (k, d') \<Longrightarrow> store_step d d'"
| step_MarkWhisperRRC: "store_step d (MarkWhisperRRC k now d)"
| step_MarkWhispersRead: "store_step d (snd (MarkWhispersRead k u now d))"
| step_PruneWhispers: "store_step d (PruneWhispers cutoff d)"
| step_Ignore: "Ignore k i now d = Inr d' \<Longrightarrow> store_step d d'"
| step_Unignore: "store_step d (snd (Unignore k i d))"
| step_AddBan: "AddBan b d = Inr d' \<Longrightarrow> store_step d d'"
| step_RemoveBan: "store_step d (snd (RemoveBan i d))"
| step_Audit: "store_step d (Audit now actor action target detail d)"
| step_SetMeta: "store_step d (SetMeta key v d)"

inductive store_reach :: "db \<Rightarrow> bool" where
  reach_empty: "store_reach empty_db"
| reach_step: "store_reach d \<Longrightarrow> store_step d d' \<Longrightarrow> store_reach d'"

lemma store_step_inv: "store_step d d' \<Longrightarrow> db_inv d \<Longrightarrow> db_inv d'"
  by (induction rule: store_step.induct) (auto intro: inv_intros)

lemma reach_inv: "store_reach d \<Longrightarrow> db_inv d"
  by (induction rule: store_reach.induct) (auto intro: db_inv_empty store_step_inv)

section \<open>Example values for the witnesses\<close>

definition alice :: ident where
  "alice = replicate 16 (CHR ''a'')"

definition bob :: ident where
  "bob = replicate 16 (CHR ''b'')"

definition okE :: "'e + 'a \<Rightarrow> 'a" where
  "okE m = projr m"

definition demo_db :: db where
  "demo_db = okE (bindE (TouchIdentity alice None 10 empty_db) (TouchIdentity bob None 20))"

lemma demo_reach: "store_reach demo_db"
proof -
  let ?d1 = "okE (TouchIdentity alice None 10 empty_db)"
  have "TouchIdentity alice None 10 empty_db = Inr ?d1" by code_simp
  then have "store_reach ?d1" by (blast intro: reach_empty reach_step step_TouchIdentity)
  moreover have "TouchIdentity bob None 20 ?d1 = Inr demo_db" by code_simp
  ultimately show ?thesis by (blast intro: reach_step step_TouchIdentity)
qed

section \<open>Properties\<close>

text \<open>
  C24. Every database the store's writes can lead to satisfies the schema: keys are unique, one person
  per name skeleton and one name per person, every foreign key has its row, nobody ignores themselves,
  message and audit ids grow along their tables, and a person without an identity does not exist.
\<close>

theorem store_reach_integrity:
  assumes "store_reach d"
  shows "db_inv d"
  using assms by (rule reach_inv)

theorem store_reach_integrity_witness: "store_reach demo_db \<and> db_inv demo_db"
  using store_reach_integrity [OF demo_reach] demo_reach by simp

text \<open>
  C25. ClaimName refuses a name with ErrNameTaken exactly when another person holds its skeleton.
  Otherwise the claim goes through, the name is read back by its owner and by its skeleton, and nobody
  else's name changes.
\<close>

theorem ClaimName_correct:
  assumes inv: "db_inv d" and i: "Identity i d = Some w" and ne: "name \<noteq> ''''" "sk \<noteq> ''''"
  shows "if \<exists>n\<in>set (names d). n_Skeleton n = sk \<and> n_Person n \<noteq> i_Person w
    then ClaimName i name sk now d = Inl ErrNameTaken
    else (\<exists>d' n. ClaimName i name sk now d = Inr d' \<and> db_inv d' \<and>
      NameOf i d' = Inr (Some n) \<and> NameBySkeleton sk d' = Inr (Some n) \<and> nm_Name n = name \<and> nm_Skeleton n = sk \<and>
      (\<forall>k. k \<noteq> i_Person w \<longrightarrow> find (\<lambda>n. n_Person n = k) (names d') = find (\<lambda>n. n_Person n = k) (names d)))"
proof (cases "\<exists>n\<in>set (names d). n_Skeleton n = sk \<and> n_Person n \<noteq> i_Person w")
  case True
  with ClaimName_result [OF assms, of now] show ?thesis by simp
next
  case False
  from False obtain since where c: "ClaimName i name sk now d = Inr (d\<lparr>names := upsert n_Person name_merge
      \<lparr>n_Person = i_Person w, n_Name = name, n_Skeleton = sk, n_ClaimedAt = since\<rparr> (names d)\<rparr>)"
    using ClaimName_result [OF assms, of now] unfolding if_not_P [OF False] by blast
  let ?d = "d\<lparr>names := upsert n_Person name_merge
      \<lparr>n_Person = i_Person w, n_Name = name, n_Skeleton = sk, n_ClaimedAt = since\<rparr> (names d)\<rparr>"
  have inv': "db_inv ?d" using inv c by (rule ClaimName_inv)
  obtain n where n: "NameOf i ?d = Inr (Some n)" "nm_Name n = name" "nm_Skeleton n = sk"
    using NameOf_ClaimName [OF inv c] by blast
  have "NameBySkeleton sk ?d = Inr (Some n)"
    using n(1,3) by (rule NameOf_NameBySkeleton [OF inv'])
  moreover have "\<forall>k. k \<noteq> i_Person w \<longrightarrow> find (\<lambda>n. n_Person n = k) (names ?d) = find (\<lambda>n. n_Person n = k) (names d)"
    by (simp add: nt.upsert_lookup_other)
  ultimately show ?thesis unfolding if_not_P [OF False] using c inv' n by blast
qed

definition named_db :: db where
  "named_db = okE (ClaimName alice ''Alice'' ''alice'' 30 demo_db)"

lemma named_reach: "store_reach named_db"
proof -
  have "ClaimName alice ''Alice'' ''alice'' 30 demo_db = Inr named_db" by code_simp
  with demo_reach show ?thesis by (blast intro: reach_step step_ClaimName)
qed

definition bob_row :: identity_row where
  "bob_row = the (Identity bob named_db)"

theorem ClaimName_correct_witness:
  "db_inv named_db \<and> Identity bob named_db = Some bob_row \<and> ClaimName bob ''AIice'' ''alice'' 40 named_db = Inl ErrNameTaken"
proof -
  have i: "Identity bob named_db = Some bob_row" by code_simp
  moreover have "\<exists>n\<in>set (names named_db). n_Skeleton n = ''alice'' \<and> n_Person n \<noteq> i_Person bob_row" by code_simp
  ultimately show ?thesis
    using ClaimName_correct [OF reach_inv [OF named_reach] i, of "''AIice''" "''alice''" 40] reach_inv [OF named_reach] by simp
qed

text \<open>
  Releasing a name gives it back: its former owner has no name, and any other person the hub
  knows can claim the skeleton from that moment.
\<close>

lemma ReleaseName_frees:
  assumes inv: "db_inv d" and r: "ReleaseName i d = Inr (Some n, d')"
    and j: "Identity j d = Some w" and ne: "name \<noteq> ''''" "nm_Skeleton n \<noteq> ''''"
  shows "NameOf i d' = Inr None \<and> (\<exists>d''. ClaimName j name (nm_Skeleton n) now d' = Inr d'')"
proof -
  have inv': "db_inv d'" using inv r by (rule ReleaseName_inv)
  from r have "NameOf i d = Inr (Some n)" by (auto simp: ReleaseName_def split: option.splits)
  then obtain row v where row: "row \<in> set (names d)" "name_view d row n" by (rule NameOf_Some)
  have d': "d' = d\<lparr>names := delete_where (\<lambda>r. n_Person r = nm_Person n) (names d)\<rparr>"
    using ReleaseName_eq [OF r] by simp
  have free: "\<not> (\<exists>x\<in>set (names d'). n_Skeleton x = nm_Skeleton n \<and> n_Person x \<noteq> i_Person w)"
  proof
    assume "\<exists>x\<in>set (names d'). n_Skeleton x = nm_Skeleton n \<and> n_Person x \<noteq> i_Person w"
    then obtain x where x: "x \<in> set (names d)" "n_Person x \<noteq> nm_Person n" "n_Skeleton x = n_Skeleton row"
      using row(2) by (auto simp: d' name_view_def)
    then have "x = row"
      using inv row(1) by (auto simp: db_inv_def inv_names_def intro: distinct_key_eq)
    with x(2) row(2) show False by (simp add: name_view_def)
  qed
  moreover have "Identity j d' = Some w" using j by (simp add: d' Identity_def)
  ultimately show ?thesis
    using ClaimName_result [OF inv' _ ne, of j w now] NameOf_ReleaseName [OF r] unfolding if_not_P [OF free] by blast
qed

definition alice_name :: name_info where
  "alice_name = the (okE (NameOf alice named_db))"

definition released_db :: db where
  "released_db = snd (okE (ReleaseName alice named_db))"

lemma ReleaseName_frees_witness:
  "ReleaseName alice named_db = Inr (Some alice_name, released_db) \<and> NameOf alice released_db = Inr None \<and>
    (\<exists>d''. ClaimName bob ''alice'' (nm_Skeleton alice_name) 40 released_db = Inr d'')"
proof -
  have r: "ReleaseName alice named_db = Inr (Some alice_name, released_db)" by code_simp
  have i: "Identity bob named_db = Some bob_row" by code_simp
  have ne: "nm_Skeleton alice_name \<noteq> ''''" by code_simp
  show ?thesis using ReleaseName_frees [OF reach_inv [OF named_reach] r i _ ne, of "''alice''" 40] r by simp
qed


definition linked_db :: db where
  "linked_db = okE (LinkIdentity bob 1 50 named_db)"

lemma linked_eq: "LinkIdentity bob 1 50 named_db = Inr linked_db"
  by code_simp

lemma linked_reach: "store_reach linked_db"
proof -
  from linked_eq named_reach show ?thesis by (blast intro: reach_step step_LinkIdentity)
qed


text \<open>
  C27. An app that leaves a person who has others becomes a person of its own: a new row number, the
  preferences it had, no rank and no name, while everybody else stays who they were. An app that is
  alone in its person stays as it is.
\<close>

theorem UnlinkIdentity_correct:
  assumes inv: "db_inv d" and w: "Identity i d = Some w" and u: "UnlinkIdentity i now d = Inr (k, d')"
  shows "db_inv d' \<and> personID i d' = Inr k \<and>
    (if \<exists>r\<in>set (identities d). i_Person r = i_Person w \<and> i_ID r \<noteq> i
     then k \<notin> p_ID ` set (people d) \<and> NameOf i d' = Inr None \<and>
       (\<exists>p q. PersonOf i d = Some p \<and> PersonOf i d' = Some q \<and> p_Prefs q = p_Prefs p \<and> p_Rank q = StoredMember) \<and>
       (\<forall>j. j \<noteq> i \<longrightarrow> Identity j d' = Identity j d)
     else d' = d)"
  using inv u
proof (cases rule: UnlinkIdentity_eq)
  case (alone v)
  with w have no: "\<not> (\<exists>r\<in>set (identities d). i_Person r = i_Person w \<and> i_ID r \<noteq> i)" by auto
  show ?thesis unfolding if_not_P [OF no] using alone inv w by (simp add: personID_def)
next
  case (split v p)
  from inv have ip: "inv_people d" "inv_names d" by (simp_all add: db_inv_def)
  note fresh = newPerson_fresh [OF ip(1), folded split(5)]
  have v: "v = w" using w split(1) by simp
  have move: "identities d' = update_where (\<lambda>r. i_ID r = i) (\<lambda>r. r\<lparr>i_Person := k, i_PersonSince := now\<rparr>) (identities d)"
    by (simp add: split(6))
  have i': "Identity i d' = Some (w\<lparr>i_Person := k, i_PersonSince := now\<rparr>)" using Identity_move(1) [OF move] w by simp
  have "PersonOf i d = Some p"
    using ip(1) split(2,3) v w find_key_eq [of p_ID "people d" p] by (simp add: PersonOf_def PersonByID_def inv_people_def)
  moreover have "PersonByID k d = None" using fresh(1) by (auto simp: PersonByID_def find_None_set)
  then have "PersonOf i d' = Some \<lparr>p_ID = k, p_CreatedAt = now, p_Rank = StoredMember, p_RankBy = None, p_RankAt = 0, p_Prefs = p_Prefs p\<rparr>"
    using i' by (simp add: PersonOf_def PersonByID_def split(6) find_append)
  moreover have "find (\<lambda>n. n_Person n = k) (names d') = None"
    using ip(2) fresh(1) by (auto simp: split(6) find_None_set inv_names_def)
  then have "NameOf i d' = Inr None" using i' by (simp add: NameOf_def scanName_def)
  moreover have "personID i d' = Inr k" using i' by (simp add: personID_def)
  ultimately show ?thesis
    using UnlinkIdentity_inv [OF inv u] split(4) fresh(1) Identity_move(2) [OF move] by (auto simp: v)
qed

theorem UnlinkIdentity_correct_witness:
  "personID bob linked_db = Inr 1 \<and> personID bob (snd (okE (UnlinkIdentity bob 60 linked_db))) = Inr 2"
proof -
  have i: "Identity bob linked_db = Some (the (Identity bob linked_db))" by code_simp
  have u: "UnlinkIdentity bob 60 linked_db = Inr (2, snd (okE (UnlinkIdentity bob 60 linked_db)))" by code_simp
  have "personID bob linked_db = Inr 1" by code_simp
  with UnlinkIdentity_correct [OF reach_inv [OF linked_reach] i u] show ?thesis by blast
qed

text \<open>C28. A link code is redeemed at most once: a second redemption of the same code finds no row.\<close>

theorem RedeemLinkCode_one_time:
  assumes "RedeemLinkCode h i via d = Inr d'" and "length j = 16"
  shows "RedeemLinkCode h j via' d' = Inl ErrNotFound"
  using RedeemLinkCode_once [OF assms(1), of j via'] assms(2) by simp

definition code_db :: db where
  "code_db = okE (PutLinkCode \<lparr>lc_Hash = replicate 32 (CHR ''h''), lc_Person = 1, lc_IssuedBy = alice, lc_IssuedAt = 60,
     lc_ExpiresAt = 600060, lc_RedeemedBy = None, lc_RedeemedVia = None\<rparr> named_db)"

theorem RedeemLinkCode_one_time_witness:
  "RedeemLinkCode (replicate 32 (CHR ''h'')) alice ViaRRC (okE (RedeemLinkCode (replicate 32 (CHR ''h'')) bob ViaLXMF code_db)) =
    Inl ErrNotFound"
proof -
  have "RedeemLinkCode (replicate 32 (CHR ''h'')) bob ViaLXMF code_db =
      Inr (okE (RedeemLinkCode (replicate 32 (CHR ''h'')) bob ViaLXMF code_db))" by code_simp
  moreover have "length alice = 16" by (simp add: alice_def)
  ultimately show ?thesis by (rule RedeemLinkCode_one_time)
qed

section \<open>Messages and cursors\<close>

text \<open>
  Cursors only move forward: setting one stores the larger of the old and the new id, under exactly
  its identity, room and way in.
\<close>

lemma SetCursor_monotone:
  assumes "SetCursor i rname via k now d = Inr d'"
  shows "\<exists>c. Cursor i rname via d' = Some c \<and> k \<le> c_MessageID c \<and>
      (\<forall>old. Cursor i rname via d = Some old \<longrightarrow> c_MessageID c = max (c_MessageID old) k) \<and>
      (\<forall>j rn v. (j, rn, v) \<noteq> (i, rname, via) \<longrightarrow> Cursor j rn v d' = Cursor j rn v d)"
  using Cursor_SetCursor [OF assms] by (auto split: option.splits)

lemma SetCursor_monotone_witness:
  "\<exists>c. Cursor alice ''general'' ViaRRC (okE (SetCursor alice ''general'' ViaRRC 7 70 demo_db)) = Some c \<and> 7 \<le> c_MessageID c"
proof -
  have "SetCursor alice ''general'' ViaRRC 7 70 demo_db = Inr (okE (SetCursor alice ''general'' ViaRRC 7 70 demo_db))" by code_simp
  from SetCursor_monotone [OF this] show ?thesis by blast
qed

text \<open>
  C29. A new message is seen by everyone whose cursor is below its id: a catch-up from such a cursor
  returns what it returned before followed by the new message, in hub order, and the count the hub
  announces is the number of those messages. Ids above every stored id are what AddMessage gives.
\<close>

theorem AddMessage_catch_up:
  assumes inv: "db_inv d" and add: "AddMessage m d = Inr (k, False, d')" and a: "a < k"
  shows "MessagesAfter (m_Room m) a (-1) d' = MessagesAfter (m_Room m) a (-1) d @ [m\<lparr>m_ID := k\<rparr>] \<and>
    CountAfter (m_Room m) a d' = CountAfter (m_Room m) a d + 1 \<and>
    (\<forall>x\<in>set (messages d). m_ID x < k) \<and>
    MessagesAfter (m_Room m) a (int (CountAfter (m_Room m) a d')) d' = MessagesAfter (m_Room m) a (-1) d'"
proof -
  note new = AddMessage_Inr(3) [OF add, simplified]
  have im: "inv_messages d" "inv_messages d'" using inv AddMessage_inv [OF inv add] by (simp_all add: db_inv_def)
  have after: "MessagesAfter (m_Room m) a (-1) e = filter (\<lambda>x. m_Room x = m_Room m \<and> a < m_ID x) (messages e)"
    if "inv_messages e" for e
    using that by (simp add: MessagesAfter_def limit_rows_def sort_key_messages)
  have ms: "messages d' = messages d @ [m\<lparr>m_ID := k\<rparr>]" and k: "\<forall>x\<in>set (messages d). m_ID x < k"
    using new by (auto dest: next_rowid_fresh)
  show ?thesis
    unfolding MessagesAfter_all [OF im(2)] after [OF im(1)] after [OF im(2)]
    using a k by (simp add: ms CountAfter_def rows_where_def)
qed

definition hello :: message where
  "hello = \<lparr>m_ID = 0, m_Room = ''general'', m_Kind = KindMsg, m_Author = alice, m_AuthorName = ''Alice'', m_Body = ''hi'',
     m_Via = ViaRRC, m_OriginID = Some ''x'', m_SaidAt = 70, m_HubAt = 70, m_Ext = None\<rparr>"

definition said_db :: db where
  "said_db = snd (snd (okE (AddMessage hello demo_db)))"

theorem AddMessage_catch_up_witness:
  "AddMessage hello demo_db = Inr (1, False, said_db) \<and> MessagesAfter ''general'' 0 (-1) said_db = [hello\<lparr>m_ID := 1\<rparr>]"
proof -
  have add: "AddMessage hello demo_db = Inr (1, False, said_db)" by code_simp
  have "MessagesAfter ''general'' 0 (-1) demo_db = []" by code_simp
  with AddMessage_catch_up [OF reach_inv [OF demo_reach] add, of 0] add show ?thesis by (simp add: hello_def)
qed

text \<open>
  A message heard twice is stored once: with an origin id that came in before over the same
  transport, AddMessage reports the stored message's id and leaves the database as it was.
\<close>

lemma AddMessage_duplicate:
  assumes inv: "db_inv d" and add: "AddMessage m d = Inr (k, dup, d')" and o: "m_OriginID m \<noteq> None"
  shows "AddMessage (m\<lparr>m_Body := body, m_SaidAt := t\<rparr>) d' = Inr (k, True, d')"
proof -
  have inv': "inv_messages d'" using AddMessage_inv [OF inv add] by (simp add: db_inv_def)
  obtain x where x: "x \<in> set (messages d')" "m_ID x = k" "origin_key x = origin_key m"
    using AddMessage_Inr(2,3) [OF add] by (cases dup) (fastforce simp: origin_key_def)+
  have "find (\<lambda>y. origin_key y = origin_key m) (messages d') = Some x"
    using inv' x o by (intro find_origin) (auto simp: inv_messages_def origin_key_def)
  then show ?thesis
    using AddMessage_Inr(1) [OF add] o x(2)
    by (auto simp: AddMessage_def checkID_def IdentityLen_def origin_key_def)
qed

lemma AddMessage_duplicate_witness:
  "AddMessage (hello\<lparr>m_Body := ''hi again'', m_SaidAt := 99\<rparr>) said_db = Inr (1, True, said_db)"
proof -
  have "AddMessage hello demo_db = Inr (1, False, said_db)" by code_simp
  moreover have "m_OriginID hello \<noteq> None" by code_simp
  ultimately show ?thesis by (rule AddMessage_duplicate [OF reach_inv [OF demo_reach]])
qed

end
