(* ===== verification/HubRanks.thy ===== *)
theory HubRanks
  imports Store
begin

text \<open>
  internal/hub/ranks.go: the four ranks, what each action needs, and the rank rule \<open>may\<close> that every
  moderation command passes through (ADR 0008). Ranks are ordered as Go's integers are, through an
  instance of the class of linear orders.
\<close>

datatype Rank = RankMember | RankMod | RankAdmin | RankOwner

fun rank_no :: "Rank \<Rightarrow> nat" where
  "rank_no RankMember = 0"
| "rank_no RankMod = 1"
| "rank_no RankAdmin = 2"
| "rank_no RankOwner = 3"

lemma rank_no_inject: "rank_no a = rank_no b \<Longrightarrow> a = b"
  by (cases a; cases b) simp_all

instantiation Rank :: linorder
begin

definition less_eq_Rank :: "Rank \<Rightarrow> Rank \<Rightarrow> bool" where
  "less_eq_Rank a b \<longleftrightarrow> rank_no a \<le> rank_no b"

definition less_Rank :: "Rank \<Rightarrow> Rank \<Rightarrow> bool" where
  "less_Rank a b \<longleftrightarrow> rank_no a < rank_no b"

instance
  by standard (auto simp: less_eq_Rank_def less_Rank_def intro: rank_no_inject)

end

lemmas rank_order = less_eq_Rank_def less_Rank_def

definition Rank_String :: "Rank \<Rightarrow> string" where
  "Rank_String r = (case r of RankMod \<Rightarrow> ''mod'' | RankAdmin \<Rightarrow> ''admin'' | RankOwner \<Rightarrow> ''owner'' | RankMember \<Rightarrow> ''member'')"

definition Title :: "Rank \<Rightarrow> string" where
  "Title r = (if r = RankMember then '''' else Rank_String r)"

definition rankOf :: "stored_rank \<Rightarrow> Rank" where
  "rankOf r = (case r of StoredMod \<Rightarrow> RankMod | StoredAdmin \<Rightarrow> RankAdmin | StoredMember \<Rightarrow> RankMember)"

definition stored :: "Rank \<Rightarrow> stored_rank" where
  "stored r = (case r of RankMod \<Rightarrow> StoredMod | RankAdmin \<Rightarrow> StoredAdmin | _ \<Rightarrow> StoredMember)"

section \<open>Who has which rank\<close>

text \<open>The config file's admins are the first argument (\<open>h.cfg.Admins\<close>).\<close>

definition isOwner :: "ident list \<Rightarrow> ident \<Rightarrow> bool" where
  "isOwner admins i \<longleftrightarrow> i \<in> set admins"

definition identityRank :: "ident list \<Rightarrow> ident \<Rightarrow> stored_rank \<Rightarrow> bool \<Rightarrow> Rank" where
  "identityRank admins i r personHasOwner =
     (if isOwner admins i then RankOwner else if personHasOwner then max RankAdmin (rankOf r) else rankOf r)"

definition personRank :: "ident list \<Rightarrow> identity_row list \<Rightarrow> stored_rank \<Rightarrow> Rank" where
  "personRank admins ids r = (if \<exists>i\<in>set ids. isOwner admins (i_ID i) then RankOwner else rankOf r)"

text \<open>hub.Person: what the hub knows about an identity and the person it is part of (people.go).\<close>

record Person =
  ps_Identity :: ident
  ps_PersonID :: int
  ps_Identities :: "ident list"
  ps_Name :: string
  ps_Claimed :: bool
  ps_ClaimedAt :: millis
  ps_Rank :: Rank
  ps_PersonRank :: Rank
  ps_RankBy :: "ident option"
  ps_RankAt :: millis
  ps_Member :: bool
  ps_LXMFMode :: LXMFMode
  ps_LXMFMine :: bool
  ps_Prefs :: prefs

definition Linked :: "Person \<Rightarrow> bool" where
  "Linked p \<longleftrightarrow> 1 < length (ps_Identities p)"

definition Owns :: "Person \<Rightarrow> ident \<Rightarrow> bool" where
  "Owns p i \<longleftrightarrow> i \<in> set (ps_Identities p) \<or> ps_Identity p = i"

section \<open>The rank rule\<close>

datatype Action =
    ActKick | ActBan | ActUnban | ActListBans | ActRename | ActModlog | ActMakeMod | ActMakeAdmin
  | ActDemote | ActDevicesOf | ActUnlinkOther | ActRelease | ActStats | ActDelete

definition Action_String :: "Action \<Rightarrow> string" where
  "Action_String a = (case a of
     ActKick \<Rightarrow> ''kick'' | ActBan \<Rightarrow> ''ban'' | ActUnban \<Rightarrow> ''unban'' | ActListBans \<Rightarrow> ''list bans'' | ActRename \<Rightarrow> ''rename''
   | ActModlog \<Rightarrow> ''read the mod log'' | ActMakeMod \<Rightarrow> ''make a mod'' | ActMakeAdmin \<Rightarrow> ''make an admin'' | ActDemote \<Rightarrow> ''demote''
   | ActDevicesOf \<Rightarrow> ''see the apps of'' | ActUnlinkOther \<Rightarrow> ''unlink an app of'' | ActRelease \<Rightarrow> ''release a name''
   | ActStats \<Rightarrow> ''see hub counters'' | ActDelete \<Rightarrow> ''remove the messages of'')"

definition minRank :: "Action \<Rightarrow> Rank" where
  "minRank a = (if a \<in> {ActMakeMod, ActMakeAdmin, ActDemote} then RankAdmin
     else if a \<in> {ActRelease, ActStats} then RankOwner
     else if a \<in> {ActDevicesOf, ActUnlinkOther, ActDelete} then RankMember
     else RankMod)"

definition hasTarget :: "Action \<Rightarrow> bool" where
  "hasTarget a \<longleftrightarrow> a \<notin> {ActUnban, ActListBans, ActModlog, ActRelease, ActStats}"

definition article :: "Rank \<Rightarrow> string" where
  "article r = (if r \<in> {RankAdmin, RankOwner} then ''an '' @ Rank_String r else if r = RankMod then ''a mod'' else ''a member'')"

definition self_actions :: "Action set" where
  "self_actions = {ActDevicesOf, ActUnlinkOther, ActDelete}"

definition owner_text :: "string \<Rightarrow> string" where
  "owner_text name = name @ '' is a hub owner; that can only be changed in the hub's config file.''"

definition not_below_text :: "string \<Rightarrow> Rank \<Rightarrow> Rank \<Rightarrow> string" where
  "not_below_text name r actor = name @ '' is '' @ article r @ '', which is not below you ('' @ Rank_String actor @ '').''"

definition may :: "Person \<Rightarrow> Action \<Rightarrow> Person option \<Rightarrow> err + unit" where
  "may actor action target =
     (if ps_Rank actor < minRank action
      then Inl (UserError (''Only '' @ Rank_String (minRank action) @ ''s and up can '' @ Action_String action @ ''.''))
      else case (if hasTarget action then target else None) of
        None \<Rightarrow> Inr ()
      | Some t \<Rightarrow>
          if ps_PersonID actor \<noteq> 0 \<and> ps_PersonID actor = ps_PersonID t
          then (if action \<in> self_actions then Inr ()
                else Inl (UserError (''You can't '' @ Action_String action @ '' yourself.'')))
          else if action \<in> self_actions \<and> ps_Rank actor < RankMod
          then Inl (UserError (''Only mods and up can '' @ Action_String action @ '' someone else.''))
          else if ps_PersonRank t = RankOwner then Inl (UserError (owner_text (ps_Name t)))
          else if ps_Rank actor \<noteq> RankOwner \<and> ps_Rank actor \<le> ps_PersonRank t
          then Inl (UserError (not_below_text (ps_Name t) (ps_PersonRank t) (ps_Rank actor)))
          else Inr ())"

text \<open>The part of mayActOnRoomTarget after the target's person is loaded.\<close>

definition room_target_rule :: "Person \<Rightarrow> Person \<Rightarrow> err + unit" where
  "room_target_rule actor t =
     (if ps_PersonRank t < RankMod then Inr ()
      else if ps_PersonID actor \<noteq> 0 \<and> ps_PersonID actor = ps_PersonID t then Inr ()
      else if ps_PersonRank t = RankOwner then Inl (UserError (owner_text (ps_Name t)))
      else if ps_Rank actor \<noteq> RankOwner \<and> ps_Rank actor \<le> ps_PersonRank t
      then Inl (UserError (not_below_text (ps_Name t) (ps_PersonRank t) (ps_Rank actor)))
      else Inr ())"

section \<open>Properties\<close>

lemma rankOf_stored: "r \<noteq> RankOwner \<Longrightarrow> rankOf (stored r) = r"
  by (cases r) (simp_all add: rankOf_def stored_def)

lemma stored_rankOf [simp]: "stored (rankOf r) = r"
  by (cases r) (simp_all add: rankOf_def stored_def)

lemma rankOf_not_owner [simp]: "rankOf r \<noteq> RankOwner"
  by (cases r) (simp_all add: rankOf_def)

lemma personRank_owner: "personRank admins ids r = RankOwner \<longleftrightarrow> (\<exists>i\<in>set ids. i_ID i \<in> set admins)"
  by (simp add: personRank_def isOwner_def)

text \<open>An identity never has more than its person: the rank rule compares the actor's own rank with the target's person's.\<close>

lemma identityRank_le_personRank:
  assumes "\<exists>x\<in>set ids. i_ID x = i"
  shows "identityRank admins i r (personRank admins ids r = RankOwner) \<le> personRank admins ids r"
  using assms by (cases r) (auto simp: identityRank_def personRank_def rank_order isOwner_def rankOf_def max_def)

lemma may_no_target: "\<not> hasTarget action \<Longrightarrow> may actor action t = Inr () \<longleftrightarrow> minRank action \<le> ps_Rank actor"
  by (auto simp: may_def not_less)

lemma may_allowed:
  assumes ok: "may actor action (Some t) = Inr ()" and target: "hasTarget action"
  shows "minRank action \<le> ps_Rank actor \<and>
    (if ps_PersonID actor \<noteq> 0 \<and> ps_PersonID actor = ps_PersonID t then action \<in> self_actions
     else RankMod \<le> ps_Rank actor \<and> ps_PersonRank t < RankOwner \<and> (ps_Rank actor = RankOwner \<or> ps_PersonRank t < ps_Rank actor))"
proof -
  have "ps_PersonRank t \<noteq> RankOwner \<longleftrightarrow> ps_PersonRank t < RankOwner" by (cases "ps_PersonRank t") (simp_all add: rank_order)
  moreover have "minRank action = RankMember \<Longrightarrow> action \<in> self_actions"
    by (cases action) (simp_all add: minRank_def self_actions_def)
  then have "minRank action \<le> ps_Rank actor \<Longrightarrow> action \<notin> self_actions \<Longrightarrow> RankMod \<le> ps_Rank actor"
    by (cases "minRank action"; cases "ps_Rank actor") (auto simp: rank_order)
  ultimately show ?thesis
    using ok target by (auto simp: may_def not_less not_le split: if_splits)
qed

text \<open>
  C31. The rank rule: whenever an action on someone is allowed, the actor has the rank the action needs,
  and the target is either the actor's own person (for the three actions allowed on oneself) or a person
  who is no owner and is ranked below the actor, who is then at least a mod. Owners reach everybody but owners.
\<close>

theorem may_safe:
  assumes ok: "may actor action (Some t) = Inr ()" and target: "hasTarget action"
  shows "minRank action \<le> ps_Rank actor \<and>
    (if ps_PersonID actor \<noteq> 0 \<and> ps_PersonID actor = ps_PersonID t then action \<in> self_actions
     else RankMod \<le> ps_Rank actor \<and> ps_PersonRank t < RankOwner \<and> (ps_Rank actor = RankOwner \<or> ps_PersonRank t < ps_Rank actor))"
  using assms by (rule may_allowed)

definition some_person :: "int \<Rightarrow> Rank \<Rightarrow> Person" where
  "some_person k r = \<lparr>ps_Identity = alice, ps_PersonID = k, ps_Identities = [alice], ps_Name = ''Alice'', ps_Claimed = True,
     ps_ClaimedAt = 1, ps_Rank = r, ps_PersonRank = r, ps_RankBy = None, ps_RankAt = 0, ps_Member = False,
     ps_LXMFMode = LXMFOn, ps_LXMFMine = False, ps_Prefs = DefaultPrefs\<rparr>"

theorem may_safe_witness:
  "may (some_person 1 RankAdmin) ActBan (Some (some_person 2 RankMod)) = Inr () \<and> RankMod < RankAdmin"
proof -
  have ok: "may (some_person 1 RankAdmin) ActBan (Some (some_person 2 RankMod)) = Inr ()" by code_simp
  moreover have "hasTarget ActBan" by code_simp
  ultimately show ?thesis using may_safe [OF ok] by (simp add: some_person_def)
qed

text \<open>
  The rank rule is a strict order between people other than owners: of two different people at most
  one may act on the other with an action that is not allowed on oneself, so two moderators can never
  kick, ban or demote each other.
\<close>

lemma may_asymmetric:
  assumes "may a action (Some b) = Inr ()" and "hasTarget action"
    and "ps_Rank a \<le> ps_PersonRank a" "ps_Rank b \<le> ps_PersonRank b"
    and "ps_PersonID a \<noteq> 0" "ps_PersonID b \<noteq> 0" "action \<notin> self_actions"
  shows "may b action (Some a) \<noteq> Inr ()"
proof
  assume ba: "may b action (Some a) = Inr ()"
  note 1 = may_allowed [OF assms(1,2)] and 2 = may_allowed [OF ba assms(2)]
  have "ps_PersonRank b < RankOwner" "ps_PersonRank a < RankOwner" "ps_Rank a = RankOwner \<or> ps_PersonRank b < ps_Rank a"
      "ps_Rank b = RankOwner \<or> ps_PersonRank a < ps_Rank b"
    using 1 2 assms(5-7) by (auto split: if_splits)
  with assms(3,4) show False by (metis leD less_le_trans order_less_trans order_less_irrefl)
qed

lemma may_asymmetric_witness:
  "may (some_person 1 RankAdmin) ActKick (Some (some_person 2 RankMod)) = Inr () \<and>
    may (some_person 2 RankMod) ActKick (Some (some_person 1 RankAdmin)) \<noteq> Inr ()"
proof -
  have ok: "may (some_person 1 RankAdmin) ActKick (Some (some_person 2 RankMod)) = Inr ()" by code_simp
  have "hasTarget ActKick" "ActKick \<notin> self_actions" by (simp_all add: hasTarget_def self_actions_def)
  with ok show ?thesis using may_asymmetric [OF ok] by (simp add: some_person_def)
qed

lemma room_target_rule_safe:
  assumes "room_target_rule actor t = Inr ()"
  shows "ps_PersonRank t = RankMember \<or> (ps_PersonID actor \<noteq> 0 \<and> ps_PersonID actor = ps_PersonID t) \<or>
    (ps_PersonRank t \<noteq> RankOwner \<and> (ps_Rank actor = RankOwner \<or> ps_PersonRank t < ps_Rank actor))"
  using assms by (cases "ps_PersonRank t") (auto simp: room_target_rule_def rank_order split: if_splits)

end
