(* ===== verification/WireNames.thy ===== *)
theory WireNames
  imports GoStrings
begin

text \<open>
  rrc/wire/names.go: the wire-level checks on nicknames and room names. Room names reach the hub, the
  page paths and the log only through \<open>NormalizeRoom\<close>.
\<close>

definition DefaultMaxNickBytes :: int where
  "DefaultMaxNickBytes = 32"

definition NormalizeNick :: "string \<Rightarrow> int \<Rightarrow> string \<times> bool" where
  "NormalizeNick nick maxBytes =
     (let s = TrimSpace nick in
      if s = '''' \<or> \<not> ValidString s then ('''', False)
      else if 0 < maxBytes \<and> maxBytes < int (length s) then ('''', False)
      else if \<exists>c\<in>set s. c \<in> set [CHR 0x0D, CHR 0x0A, CHR 0x00] then ('''', False)
      else (s, True))"

definition room_char :: "char \<Rightarrow> bool" where
  "room_char c = (let n = (of_char c :: nat) in
     97 \<le> n \<and> n \<le> 122 \<or> 48 \<le> n \<and> n \<le> 57 \<or> c = CHR ''-'' \<or> c = CHR ''_'' \<or> c = CHR ''.'')"

definition NormalizeRoom :: "(nat \<Rightarrow> nat) \<Rightarrow> string \<Rightarrow> int \<Rightarrow> err + string" where
  "NormalizeRoom ulower room maxBytes =
     (let r = TrimPrefix (ToLower ulower (TrimSpace room)) ''#'' in
      if r = '''' then Inl (ErrInvalid ''room name must not be empty'')
      else if 0 < maxBytes \<and> maxBytes < int (length r)
      then Inl (ErrInvalid (''room name too long: '' @ itoa (int (length r)) @ '' bytes > '' @ itoa maxBytes @ '' bytes''))
      else if \<exists>c\<in>set r. \<not> room_char c
      then Inl (ErrInvalid (''room name may only use letters, digits, '' @ [CHR 0x27] @ ''-'' @ [CHR 0x27] @ '', '' @
        [CHR 0x27] @ ''_'' @ [CHR 0x27] @ '' and '' @ [CHR 0x27] @ ''.'' @ [CHR 0x27]))
      else Inr r)"

section \<open>Facts\<close>

lemma NormalizeRoom_Inr:
  assumes "NormalizeRoom ul room n = Inr r"
  shows "r \<noteq> ''''" "0 < n \<Longrightarrow> int (length r) \<le> n" "\<forall>c\<in>set r. room_char c"
  using assms by (auto simp: NormalizeRoom_def Let_def split: if_splits)

lemma room_char_code:
  "room_char c \<Longrightarrow> of_char c \<in> {45..46::nat} \<union> {48..57} \<union> {95} \<union> {97..122}"
  by (auto simp: room_char_def Let_def)

lemma space_encodings_heads:
  assumes "e \<in> set space_encodings" "c \<in> set e"
  shows "of_char c \<in> {9..13::nat} \<union> {32} \<union> {128..}"
proof -
  have "list_all (\<lambda>e. list_all (\<lambda>c. let n = (of_char c :: nat) in 9 \<le> n \<and> n \<le> 13 \<or> n = 32 \<or> 128 \<le> n) e) space_encodings"
    by code_simp
  with assms show ?thesis by (auto simp: list_all_iff Let_def)
qed

lemma room_char_not_space: "room_char c \<Longrightarrow> e \<in> set space_encodings \<Longrightarrow> c \<notin> set e"
  using room_char_code [of c] space_encodings_heads [of e c] by auto

lemma HasPrefix_set: "HasPrefix s p \<Longrightarrow> set p \<subseteq> set s"
  by (metis HasPrefix_def set_take_subset)

lemma TrimSpace_room:
  assumes "\<forall>c\<in>set s. room_char c"
  shows "TrimSpace s = s"
proof -
  have none: "\<not> set e \<subseteq> set s" if "e \<in> set space_encodings" for e
    using assms that room_char_not_space [of _ e] space_encodings_nonempty [of e] by (metis list.set_sel(1) subsetD)
  have "leading_space s = None"
    using none HasPrefix_set [of s] by (auto simp: leading_space_def find_None_set)
  moreover have "trailing_space s = None"
    using none HasPrefix_set [of "rev s" "rev e" for e] by (auto simp: trailing_space_def find_None_set)
  ultimately show ?thesis by (simp add: TrimSpace_def TrimLeftSpace.simps TrimRightSpace.simps)
qed

lemma ToLower_room:
  assumes "\<forall>c\<in>set s. room_char c"
  shows "ToLower ul s = s"
proof -
  have "byte_lower c = c \<and> of_char c < (128::nat)" if "c \<in> set s" for c
    using assms that room_char_code [of c] by (auto simp: byte_lower_def Let_def)
  then show ?thesis by (simp add: ToLower_def is_ascii_def map_idI)
qed

lemma NormalizeRoom_fixed:
  assumes "r \<noteq> ''''" "0 < n \<Longrightarrow> int (length r) \<le> n" "\<forall>c\<in>set r. room_char c"
  shows "NormalizeRoom ul r n = Inr r"
proof -
  have "hd r \<noteq> CHR ''#''" using assms(1,3) by (cases r) (auto simp: room_char_def Let_def)
  then have "TrimPrefix r ''#'' = r" using assms(1) by (cases r) (auto simp: TrimPrefix_def HasPrefix_def)
  with assms show ?thesis by (auto simp: NormalizeRoom_def TrimSpace_room ToLower_room Let_def)
qed

text \<open>
  C30. A normalised room name is not empty, within the byte limit, and made of lower-case letters,
  digits, '-', '_' and '.' only; normalising it again changes nothing, so every part of the hub agrees
  on the name.
\<close>

theorem NormalizeRoom_canonical:
  assumes n: "NormalizeRoom ul room n = Inr r"
  shows "r \<noteq> '''' \<and> (0 < n \<longrightarrow> int (length r) \<le> n) \<and> (\<forall>c\<in>set r. room_char c) \<and> NormalizeRoom ul r n = Inr r"
  using NormalizeRoom_Inr [OF n] NormalizeRoom_fixed [of r n ul] by blast

theorem NormalizeRoom_canonical_witness:
  "NormalizeRoom id '' #General '' 64 = Inr ''general'' \<and> NormalizeRoom id ''general'' 64 = Inr ''general''"
proof -
  have "NormalizeRoom id '' #General '' 64 = Inr ''general''" by code_simp
  with NormalizeRoom_canonical [OF this] show ?thesis by blast
qed

end
