(* ===== verification/HubConfig.thy ===== *)
theory HubConfig
  imports HubRanks WireNames
begin

text \<open>
  internal/hub/config.go: the hub's configuration, its defaults and its validation, and \<open>env\<close>, the
  parts of the world the hub's code only calls: Unicode data (golang.org/x/text and package unicode),
  the London clock for people, SHA-256, random link codes, \<^verbatim>\<open>%q\<close> quoting, and the LXMF address of an
  identity (reticulum-go). Durations are nanoseconds, as Go's time.Duration.
\<close>

record RoomConfig =
  rc_Name :: string
  rc_Topic :: string

record Config =
  HubName :: string
  Admins :: "ident list"
  cfg_Rooms :: "RoomConfig list"
  GroupRoom :: string
  GroupAddress :: string
  Retention :: int
  ReplayFirstVisit :: int
  ReplayMax :: int
  HistoryMax :: int
  HistoryCooldown :: int
  PostsPerMinute :: int
  MaxBodyBytes :: int
  MaxTopicBytes :: int
  MaxRoomNameBytes :: int
  MaxRoomsPerPerson :: int
  InviteTTL :: int
  PruneRoomsAfter :: int

record env =
  ulower :: "nat \<Rightarrow> nat"
  uupper :: "string \<Rightarrow> string"
  nfc :: "string \<Rightarrow> string"
  nfkd :: "string \<Rightarrow> string"
  isMn :: "nat \<Rightarrow> bool"
  isLatin :: "nat \<Rightarrow> bool"
  clock_text :: "int \<Rightarrow> millis \<Rightarrow> string"
  date_text :: "millis \<Rightarrow> string"
  quote :: "string \<Rightarrow> string"
  toValidUTF8 :: "string \<Rightarrow> string"
  sha256 :: "bytes \<Rightarrow> bytes"
  LXMFAddress :: "ident \<Rightarrow> bytes"

definition second_ns :: int where "second_ns = 1000000000"
definition minute_ns :: int where "minute_ns = 60 * second_ns"
definition hour_ns :: int where "hour_ns = 60 * minute_ns"
definition day_ns :: int where "day_ns = 24 * hour_ns"

lemmas ns_defs = second_ns_def minute_ns_def hour_ns_def day_ns_def

definition Defaults :: Config where
  "Defaults = \<lparr>HubName = ''ScotMesh'', Admins = [],
     cfg_Rooms = [\<lparr>rc_Name = ''scotmesh'', rc_Topic = ''ScotMesh - Scotland's Reticulum community''\<rparr>],
     GroupRoom = ''scotmesh'', GroupAddress = '''', Retention = 7 * day_ns, ReplayFirstVisit = 10, ReplayMax = 50,
     HistoryMax = 100, HistoryCooldown = 15 * second_ns, PostsPerMinute = 30, MaxBodyBytes = 2000, MaxTopicBytes = 300,
     MaxRoomNameBytes = 64, MaxRoomsPerPerson = 32, InviteTTL = 15 * minute_ns, PruneRoomsAfter = 30 * day_ns\<rparr>"

definition set_default :: "int \<Rightarrow> int \<Rightarrow> int" where
  "set_default v def = (if v \<le> 0 then def else v)"

definition fill_defaults :: "Config \<Rightarrow> Config" where
  "fill_defaults c = (let d = Defaults in c\<lparr>
     HubName := if HubName c = '''' then HubName d else HubName c,
     GroupRoom := if GroupRoom c = '''' then GroupRoom d else GroupRoom c,
     Retention := set_default (Retention c) (Retention d),
     ReplayFirstVisit := set_default (ReplayFirstVisit c) (ReplayFirstVisit d),
     ReplayMax := set_default (ReplayMax c) (ReplayMax d),
     HistoryMax := set_default (HistoryMax c) (HistoryMax d),
     HistoryCooldown := set_default (HistoryCooldown c) (HistoryCooldown d),
     PostsPerMinute := set_default (PostsPerMinute c) (PostsPerMinute d),
     MaxBodyBytes := set_default (MaxBodyBytes c) (MaxBodyBytes d),
     MaxTopicBytes := set_default (MaxTopicBytes c) (MaxTopicBytes d),
     MaxRoomNameBytes := set_default (MaxRoomNameBytes c) (MaxRoomNameBytes d),
     MaxRoomsPerPerson := set_default (MaxRoomsPerPerson c) (MaxRoomsPerPerson d),
     InviteTTL := set_default (InviteTTL c) (InviteTTL d),
     PruneRoomsAfter := set_default (PruneRoomsAfter c) (PruneRoomsAfter d),
     cfg_Rooms := if cfg_Rooms c = [] then cfg_Rooms d else cfg_Rooms c\<rparr>)"

definition norm_room_config :: "(nat \<Rightarrow> nat) \<Rightarrow> int \<Rightarrow> RoomConfig \<Rightarrow> RoomConfig \<times> err list" where
  "norm_room_config ul n r = (case NormalizeRoom ul (rc_Name r) n of
     Inl e \<Rightarrow> (r, [e]) | Inr nm \<Rightarrow> (r\<lparr>rc_Name := nm\<rparr>, []))"

definition room_listed :: "(nat \<Rightarrow> nat) \<Rightarrow> int \<Rightarrow> string \<Rightarrow> RoomConfig \<Rightarrow> bool" where
  "room_listed ul n grp r \<longleftrightarrow> NormalizeRoom ul (rc_Name r) n = Inr grp"

text \<open>validate: the configuration with defaults filled in and names normalised, and the errors (errors.Join).\<close>

definition validate :: "(nat \<Rightarrow> nat) \<Rightarrow> Config \<Rightarrow> Config \<times> err list" where
  "validate ul c0 =
     (let c = fill_defaults c0; n = MaxRoomNameBytes c;
          admin_errs = map (\<lambda>_. ErrInvalid ''identity hash must be 16 bytes'') (filter (\<lambda>a. length a \<noteq> IdentityLen) (Admins c));
          (grp, group_errs) = (case NormalizeRoom ul (GroupRoom c) n of Inl e \<Rightarrow> ('''', [e]) | Inr g \<Rightarrow> (g, []));
          rooms = map (norm_room_config ul n) (cfg_Rooms c);
          listed = (\<exists>r\<in>set (cfg_Rooms c). room_listed ul n grp r);
          list_errs = (if \<not> listed \<and> grp \<noteq> '''' then [ErrInvalid ''group room must be one of the configured rooms''] else [])
      in (c\<lparr>GroupRoom := grp, cfg_Rooms := map fst rooms\<rparr>,
          admin_errs @ group_errs @ concat (map snd rooms) @ list_errs))"

definition isDefaultRoom :: "Config \<Rightarrow> string \<Rightarrow> bool" where
  "isDefaultRoom c name \<longleftrightarrow> (\<exists>r\<in>set (cfg_Rooms c). rc_Name r = name)"

text \<open>What the hub can rely on once validate returned no error.\<close>

definition valid_config :: "(nat \<Rightarrow> nat) \<Rightarrow> Config \<Rightarrow> bool" where
  "valid_config ul c \<longleftrightarrow>
     HubName c \<noteq> '''' \<and> 0 < Retention c \<and> 0 < ReplayFirstVisit c \<and> 0 < ReplayMax c \<and> 0 < HistoryMax c \<and>
     0 < HistoryCooldown c \<and> 0 < PostsPerMinute c \<and> 0 < MaxBodyBytes c \<and> 0 < MaxTopicBytes c \<and>
     0 < MaxRoomNameBytes c \<and> 0 < MaxRoomsPerPerson c \<and> 0 < InviteTTL c \<and> 0 < PruneRoomsAfter c \<and>
     (\<forall>a\<in>set (Admins c). length a = 16) \<and> isDefaultRoom c (GroupRoom c) \<and>
     NormalizeRoom ul (GroupRoom c) (MaxRoomNameBytes c) = Inr (GroupRoom c) \<and>
     (\<forall>r\<in>set (cfg_Rooms c). NormalizeRoom ul (rc_Name r) (MaxRoomNameBytes c) = Inr (rc_Name r))"

section \<open>Properties\<close>

lemma set_default_pos: "0 < def \<Longrightarrow> 0 < set_default v def"
  by (simp add: set_default_def)

lemma fill_defaults_pos:
  "HubName (fill_defaults c) \<noteq> ''''" "0 < Retention (fill_defaults c)" "0 < ReplayFirstVisit (fill_defaults c)"
  "0 < ReplayMax (fill_defaults c)" "0 < HistoryMax (fill_defaults c)" "0 < HistoryCooldown (fill_defaults c)"
  "0 < PostsPerMinute (fill_defaults c)" "0 < MaxBodyBytes (fill_defaults c)" "0 < MaxTopicBytes (fill_defaults c)"
  "0 < MaxRoomNameBytes (fill_defaults c)" "0 < MaxRoomsPerPerson (fill_defaults c)" "0 < InviteTTL (fill_defaults c)"
  "0 < PruneRoomsAfter (fill_defaults c)" "cfg_Rooms (fill_defaults c) \<noteq> []"
  by (simp_all add: fill_defaults_def Let_def Defaults_def set_default_pos ns_defs)

lemma norm_room_ok: "snd (norm_room_config ul n r) = [] \<Longrightarrow>
    \<exists>nm. NormalizeRoom ul (rc_Name r) n = Inr nm \<and> fst (norm_room_config ul n r) = r\<lparr>rc_Name := nm\<rparr>"
  by (auto simp: norm_room_config_def split: sum.splits)

lemma NormalizeRoom_again: "NormalizeRoom ul a n = Inr b \<Longrightarrow> NormalizeRoom ul b n = Inr b"
  by (rule NormalizeRoom_fixed) (auto dest: NormalizeRoom_Inr)

text \<open>
  A configuration that validates is usable: every limit is positive, every admin is a 16-byte hash,
  every room name is in normal form, and the group room is one of the configured rooms.
\<close>

lemma validate_ok:
  assumes v: "validate ul c = (c', [])"
  shows "valid_config ul c'"
proof -
  let ?c = "fill_defaults c"
  let ?n = "MaxRoomNameBytes ?c"
  obtain grp where g: "NormalizeRoom ul (GroupRoom ?c) ?n = Inr grp"
    using v by (cases "NormalizeRoom ul (GroupRoom ?c) ?n") (auto simp: validate_def Let_def)
  have c': "c' = ?c\<lparr>GroupRoom := grp, cfg_Rooms := map (\<lambda>r. fst (norm_room_config ul ?n r)) (cfg_Rooms ?c)\<rparr>"
    and admins: "\<forall>a\<in>set (Admins ?c). length a = 16"
    and rooms: "\<forall>r\<in>set (cfg_Rooms ?c). snd (norm_room_config ul ?n r) = []"
    and listed: "\<exists>r\<in>set (cfg_Rooms ?c). room_listed ul ?n grp r"
    using v NormalizeRoom_Inr(1) [OF g]
    by (auto simp: validate_def Let_def g IdentityLen_def filter_empty_conv concat_eq_Nil_conv split: if_splits)
  have "isDefaultRoom c' grp"
    using listed by (auto simp: c' isDefaultRoom_def room_listed_def norm_room_config_def intro!: bexI [rotated])
  moreover have "\<forall>r\<in>set (cfg_Rooms c'). NormalizeRoom ul (rc_Name r) ?n = Inr (rc_Name r)"
    using rooms by (auto simp: c' dest!: norm_room_ok bspec dest: NormalizeRoom_again)
  ultimately show ?thesis
    using fill_defaults_pos [of c] admins NormalizeRoom_again [OF g] by (simp add: valid_config_def c')
qed

definition bare_config :: Config where
  "bare_config = Defaults\<lparr>HubName := '''', Retention := 0, ReplayMax := -1, GroupRoom := '' #ScotMesh''\<rparr>"

lemma validate_ok_witness:
  "validate id bare_config = (fst (validate id bare_config), []) \<and> valid_config id (fst (validate id bare_config))"
proof -
  have "validate id bare_config = (fst (validate id bare_config), [])" by code_simp
  with validate_ok [OF this] show ?thesis by blast
qed

end
