(* ===== verification/StoreCalm.thy ===== *)
theory StoreCalm
  imports Store
begin

text \<open>
  Which writes of the store can put someone on the ban list or into the LXMF group: only \<open>AddBan\<close> and
  \<open>AddMember\<close>. Every other write is calm: it bans nobody and adds nobody to the group.
\<close>

definition calm :: "db \<Rightarrow> db \<Rightarrow> bool" where
  "calm d d' \<longleftrightarrow> (\<forall>i. IsBanned i d' \<longrightarrow> IsBanned i d) \<and> (\<forall>i. IsMember i d' \<longrightarrow> IsMember i d)"

named_theorems calm_intros "writes that ban nobody and add no member"

lemma calm_same: "bans d' = bans d \<Longrightarrow> members d' = members d \<Longrightarrow> calm d d'"
  by (simp add: calm_def IsBanned_def IsMember_def)

lemma calm_refl [calm_intros, simp]: "calm d d"
  by (rule calm_same) simp_all

lemma calm_trans: "calm d d' \<Longrightarrow> calm d' d'' \<Longrightarrow> calm d d''"
  by (simp add: calm_def)

lemma newPerson_frame: "bans (snd (newPerson now d)) = bans d \<and> members (snd (newPerson now d)) = members d"
  by (simp add: newPerson_def Let_def)

lemma SetPrefsOfPerson_frame: "SetPrefsOfPerson k p d = Inr d' \<Longrightarrow> bans d' = bans d \<and> members d' = members d"
  by (auto simp: SetPrefsOfPerson_def)

lemma delete_person_frame: "delete_person k d = Inr d' \<Longrightarrow> bans d' = bans d \<and> members d' = members d"
  by (auto simp: delete_person_def Let_def)

lemma calm_people [calm_intros]:
  "TouchIdentity i pk now d = Inr d' \<Longrightarrow> calm d d'" "SetLXMFMode i m d = Inr d' \<Longrightarrow> calm d d'"
  "SetLXMFMine i b d = Inr d' \<Longrightarrow> calm d d'" "SetRank i r by now d = Inr d' \<Longrightarrow> calm d d'"
  "ClaimName i name sk now d = Inr d' \<Longrightarrow> calm d d'" "ReleaseName i d = Inr (n, d') \<Longrightarrow> calm d d'"
  "PutLinkCode c d = Inr d' \<Longrightarrow> calm d d'" "RedeemLinkCode h who via d = Inr d' \<Longrightarrow> calm d d'"
  "calm d (DeleteLinkCode h d)" "calm d (PruneLinkCodes now d)"
  by (auto simp: TouchIdentity_def SetLXMFMode_def SetLXMFMine_def SetRank_def ClaimName_def ReleaseName_def PutLinkCode_def
      RedeemLinkCode_def DeleteLinkCode_def PruneLinkCodes_def newPerson_def Let_def intro!: calm_same split: if_splits option.splits)

lemma calm_SetPrefs [calm_intros]: "SetPrefs i p d = Inr d' \<Longrightarrow> calm d d'"
  by (auto simp: SetPrefs_def dest!: SetPrefsOfPerson_frame intro!: calm_same)

lemma calm_LinkIdentity [calm_intros]: "LinkIdentity i to now d = Inr d' \<Longrightarrow> calm d d'"
  by (auto simp: LinkIdentity_def Let_def intro!: calm_same split: if_splits dest!: delete_person_frame)

lemma calm_UnlinkIdentity [calm_intros]: "UnlinkIdentity i now d = Inr (k, d') \<Longrightarrow> calm d d'"
  using newPerson_frame [of now d]
  by (auto simp: UnlinkIdentity_def intro!: calm_same split: option.splits if_splits prod.splits dest!: SetPrefsOfPerson_frame)

lemma calm_rooms [calm_intros]:
  "PutRoom r d = Inr d' \<Longrightarrow> calm d d'" "calm d (DeleteRoom name d)" "SetRole name i role on by now d = Inr d' \<Longrightarrow> calm d d'"
  "SetInvite name i e d = Inr d' \<Longrightarrow> calm d d'" "calm d (DeleteInvite name i d)" "calm d (PruneInvites now d)"
  by (auto simp: PutRoom_def DeleteRoom_def SetRole_def SetInvite_def DeleteInvite_def PruneInvites_def intro!: calm_same split: if_splits)

lemma delete_message_frame: "bans (snd (fold delete_message ks nd)) = bans (snd nd) \<and> members (snd (fold delete_message ks nd)) = members (snd nd)"
  by (induction ks arbitrary: nd) (simp_all add: delete_message_def split: prod.splits)

lemma calm_messages [calm_intros]:
  "AddMessage m d = Inr (k, dup, d') \<Longrightarrow> calm d d'" "calm d (snd (DeleteMessages ks d))" "calm d (PruneMessages cutoff d)"
  "SetCursor i name via k now d = Inr d' \<Longrightarrow> calm d d'"
  by (auto simp: AddMessage_def DeleteMessages_def delete_message_frame PruneMessages_def SetCursor_def Let_def
      intro!: calm_same split: option.splits if_splits)

lemma calm_group [calm_intros]:
  "calm d (snd (RemoveMember i d))" "calm d (SetAway i u d)" "PutDelivery x d = Inr d' \<Longrightarrow> calm d d'" "calm d (FinishDeliveries c d)"
  by (auto simp: calm_def IsMember_def IsBanned_def RemoveMember_def SetAway_def PutDelivery_def FinishDeliveries_def Let_def
      set_update_where split: if_splits)

lemma calm_social [calm_intros]:
  "AddWhisper w d = Inr (k, d') \<Longrightarrow> calm d d'" "calm d (MarkWhisperRRC k now d)" "calm d (snd (MarkWhispersRead k u now d))"
  "calm d (PruneWhispers c d)" "Ignore k i now d = Inr d' \<Longrightarrow> calm d d'" "calm d (snd (Unignore k i d))"
  by (auto simp: AddWhisper_def MarkWhisperRRC_def MarkWhispersRead_def PruneWhispers_def Ignore_def Unignore_def Let_def intro!: calm_same)

lemma calm_admin [calm_intros]:
  "calm d (snd (RemoveBan i d))" "calm d (Audit now actor action target detail d)" "calm d (SetMeta name v d)"
  by (auto simp: calm_def IsBanned_def IsMember_def RemoveBan_def Audit_def SetMeta_def)

lemma AddBan_who: "AddBan b d = Inr d' \<Longrightarrow> IsBanned i d' \<longleftrightarrow> i = b_Identity b \<or> IsBanned i d"
proof -
  assume "AddBan b d = Inr d'"
  then have "b_Identity ` set (bans d') = insert (b_Identity b) (b_Identity ` set (bans d))"
    using bt.upsert_key_set [of b "bans d"] by (auto simp: AddBan_def simp del: set_map)
  moreover have "IsBanned i x \<longleftrightarrow> i \<in> b_Identity ` set (bans x)" for x by (auto simp: IsBanned_def)
  ultimately show ?thesis by simp
qed

lemma AddMember_who: "AddMember i now d = Inr (b, d') \<Longrightarrow> (IsMember j d' \<longleftrightarrow> j = i \<or> IsMember j d) \<and> bans d' = bans d"
  by (auto simp: AddMember_def IsMember_def split: if_splits)

end
