(* ===== verification/HubCore.thy ===== *)
theory HubCore
  imports HubConfig StoreCalm
begin

text \<open>
  internal/hub/hub.go and events.go: the hub's state, its events, the transaction every request runs in
  and the delivery of events to subscribers. A handler is a function from the hub to a result or an
  error, and the hub it leaves behind: what it did to the in-memory state stays even when it fails, while
  \<open>update\<close> rolls the database back and drops the outbox then. The actions a request queues for
  after the commit (\<^verbatim>\<open>out.then\<close>) are the constructors of \<open>After\<close>.

  The hub's loop runs one request at a time, so a request is one function application; the clock is read
  once per request (\<open>now_ns\<close>). Presence, a map of maps in Go, is one table keyed by room and identity.
\<close>

section \<open>Events\<close>

datatype Event =
    MessageEvent message "ident list"
  | JoinedEvent string ident string Via
  | PartedEvent string ident string Via
  | NameEvent ident string string
  | RoomNoticeEvent string string
  | NoticeEvent ident string string bool
  | RemovedEvent string ident string
  | BannedEvent ident string
  | GroupEvent ident string bool
  | LXMFResumeEvent ident nat
  | WhisperEvent whisper "ident list"

section \<open>State\<close>

record presence_entry =
  pe_Room :: string
  pe_identity :: ident
  pe_name :: string
  pe_rrcLinks :: int

record bucket =
  bk_tokens :: rat
  bk_at :: int

record Stats =
  Posts :: nat
  Duplicates :: nat
  Refusals :: nat
  Commands :: nat
  InternalErrors :: nat

record Subscription =
  sub_name :: string
  sub_ch :: "Event list"
  sub_buf :: nat
  sub_dropped :: nat

text \<open>
  \<open>AfterJoin\<close> and \<open>AfterPart\<close> count a link in or out (rooms.go), \<open>AfterForget\<close> drops an entry
  (moderation.go), \<open>AfterRename\<close> is renamePresence, the last two are the /link limits (links.go).
\<close>

datatype After =
    AfterJoin string ident string
  | AfterPart string ident
  | AfterForget string ident
  | AfterRename ident string
  | AfterLinkIssued int "int list"
  | AfterLinkFailures string "int list"

record Reply =
  Lines :: "string list"
  Reply_Error :: bool
  Whole :: bool
  History :: "message list"
  HistoryNote :: string
  PartRoom :: string

definition no_reply :: Reply where
  "no_reply = \<lparr>Lines = [], Reply_Error = False, Whole = False, History = [], HistoryNote = '''', PartRoom = ''''\<rparr>"

record hub =
  cfg :: Config
  env :: env
  now_ns :: int
  st :: db
  presence :: "presence_entry list"
  rate :: "string \<Rightarrow> bucket option"
  historyAt :: "string \<Rightarrow> int option"
  linkIssued :: "int \<Rightarrow> int list option"
  linkFailures :: "string \<Rightarrow> int list option"
  stats :: Stats
  subs :: "Subscription list"
  out_events :: "Event list"
  out_after :: "After list"
  reply :: Reply

definition nowMS :: "hub \<Rightarrow> millis" where
  "nowMS h = now_ns h div 1000000"

definition clock :: "hub \<Rightarrow> millis \<Rightarrow> string" where
  "clock h ms = clock_text (env h) (now_ns h) ms"

section \<open>Handlers\<close>

type_synonym 'a hm = "hub \<Rightarrow> (err + 'a) \<times> hub"

definition ret :: "'a \<Rightarrow> 'a hm" where
  "ret a h = (Inr a, h)"

definition thr :: "err \<Rightarrow> 'a hm" where
  "thr e h = (Inl e, h)"

definition refuse :: "string \<Rightarrow> 'a hm" where
  "refuse text = thr (UserError text)"

definition bnd :: "'a hm \<Rightarrow> ('a \<Rightarrow> 'b hm) \<Rightarrow> 'b hm" where
  "bnd m f h = (case m h of (Inl e, h') \<Rightarrow> (Inl e, h') | (Inr a, h') \<Rightarrow> f a h')"

definition seq :: "unit hm \<Rightarrow> 'b hm \<Rightarrow> 'b hm" where
  "seq m k = bnd m (\<lambda>_. k)"

text \<open>Reading the hub and its database; writing through a statement of the store.\<close>

definition asks :: "(hub \<Rightarrow> 'a) \<Rightarrow> 'a hm" where
  "asks f h = (Inr (f h), h)"

definition query :: "(db \<Rightarrow> 'a) \<Rightarrow> 'a hm" where
  "query f h = (Inr (f (st h)), h)"

definition queryE :: "(db \<Rightarrow> err + 'a) \<Rightarrow> 'a hm" where
  "queryE f h = (f (st h), h)"

definition exec :: "(db \<Rightarrow> err + db) \<Rightarrow> unit hm" where
  "exec f h = (case f (st h) of Inl e \<Rightarrow> (Inl e, h) | Inr d \<Rightarrow> (Inr (), h\<lparr>st := d\<rparr>))"

definition execR :: "(db \<Rightarrow> err + ('a \<times> db)) \<Rightarrow> 'a hm" where
  "execR f h = (case f (st h) of Inl e \<Rightarrow> (Inl e, h) | Inr (a, d) \<Rightarrow> (Inr a, h\<lparr>st := d\<rparr>))"

definition exec' :: "(db \<Rightarrow> db) \<Rightarrow> unit hm" where
  "exec' f h = (Inr (), h\<lparr>st := f (st h)\<rparr>)"

definition execR' :: "(db \<Rightarrow> 'a \<times> db) \<Rightarrow> 'a hm" where
  "execR' f h = (Inr (fst (f (st h))), h\<lparr>st := snd (f (st h))\<rparr>)"

definition modify :: "(hub \<Rightarrow> hub) \<Rightarrow> unit hm" where
  "modify f h = (Inr (), f h)"

definition emit :: "Event \<Rightarrow> unit hm" where
  "emit e = modify (\<lambda>h. h\<lparr>out_events := out_events h @ [e]\<rparr>)"

definition after :: "After \<Rightarrow> unit hm" where
  "after a = modify (\<lambda>h. h\<lparr>out_after := out_after h @ [a]\<rparr>)"

text \<open>\<^verbatim>\<open>for _, x := range xs\<close> with early return, and the Go idiom of inspecting a UserError instead of returning it.\<close>

fun each :: "('x \<Rightarrow> unit hm) \<Rightarrow> 'x list \<Rightarrow> unit hm" where
  "each f [] = ret ()"
| "each f (x # xs) = seq (f x) (each f xs)"

definition catchUE :: "'a hm \<Rightarrow> (string \<Rightarrow> 'a hm) \<Rightarrow> 'a hm" where
  "catchUE m k h = (case m h of (Inl (UserError t), h') \<Rightarrow> k t h' | r \<Rightarrow> r)"

section \<open>After the commit\<close>

definition pe_key :: "presence_entry \<Rightarrow> string \<times> string" where
  "pe_key e = (pe_Room e, hexID (pe_identity e))"

definition presence_at :: "string \<Rightarrow> ident \<Rightarrow> presence_entry list \<Rightarrow> presence_entry option" where
  "presence_at room i ps = find (\<lambda>e. pe_key e = (room, hexID i)) ps"

definition join_merge :: "presence_entry \<Rightarrow> presence_entry \<Rightarrow> presence_entry" where
  "join_merge new old = old\<lparr>pe_name := pe_name new, pe_rrcLinks := pe_rrcLinks old + 1\<rparr>"

definition renamePresence :: "ident \<Rightarrow> string \<Rightarrow> presence_entry list \<Rightarrow> presence_entry list" where
  "renamePresence i name ps = update_where (\<lambda>e. hexID (pe_identity e) = hexID i) (\<lambda>e. e\<lparr>pe_name := name\<rparr>) ps"

definition part_presence :: "string \<Rightarrow> ident \<Rightarrow> presence_entry list \<Rightarrow> presence_entry list" where
  "part_presence room i ps =
     delete_where (\<lambda>e. pe_key e = (room, hexID i) \<and> pe_rrcLinks e \<le> 0)
       (update_where (\<lambda>e. pe_key e = (room, hexID i)) (\<lambda>e. e\<lparr>pe_rrcLinks := pe_rrcLinks e - 1\<rparr>) ps)"

definition run_after :: "After \<Rightarrow> hub \<Rightarrow> hub" where
  "run_after a h = (case a of
     AfterJoin room i name \<Rightarrow> h\<lparr>presence := upsert pe_key join_merge
       \<lparr>pe_Room = room, pe_identity = i, pe_name = name, pe_rrcLinks = 1\<rparr> (presence h)\<rparr>
   | AfterPart room i \<Rightarrow> h\<lparr>presence := part_presence room i (presence h)\<rparr>
   | AfterForget room i \<Rightarrow> h\<lparr>presence := delete_where (\<lambda>e. pe_key e = (room, hexID i)) (presence h)\<rparr>
   | AfterRename i name \<Rightarrow> h\<lparr>presence := renamePresence i name (presence h)\<rparr>
   | AfterLinkIssued k ts \<Rightarrow> h\<lparr>linkIssued := (linkIssued h)(k := Some ts)\<rparr>
   | AfterLinkFailures k ts \<Rightarrow> h\<lparr>linkFailures := (linkFailures h)(k := Some ts)\<rparr>)"

text \<open>publish: every event to every subscriber; a full queue drops it and counts it.\<close>

definition offer :: "Event \<Rightarrow> Subscription \<Rightarrow> Subscription" where
  "offer e s = (if length (sub_ch s) < sub_buf s then s\<lparr>sub_ch := sub_ch s @ [e]\<rparr> else s\<lparr>sub_dropped := sub_dropped s + 1\<rparr>)"

definition publish :: "Event list \<Rightarrow> hub \<Rightarrow> hub" where
  "publish es h = h\<lparr>subs := fold (\<lambda>e. map (offer e)) es (subs h)\<rparr>"

definition Subscribe :: "string \<Rightarrow> nat \<Rightarrow> hub \<Rightarrow> hub" where
  "Subscribe name buf h = h\<lparr>subs := subs h @ [\<lparr>sub_name = name, sub_ch = [], sub_buf = buf, sub_dropped = 0\<rparr>]\<rparr>"

definition is_user_error :: "err \<Rightarrow> bool" where
  "is_user_error e = (case e of UserError _ \<Rightarrow> True | _ \<Rightarrow> False)"

definition count_internal :: "err \<Rightarrow> hub \<Rightarrow> hub" where
  "count_internal e h = (if is_user_error e then h else h\<lparr>stats := (stats h)\<lparr>InternalErrors := InternalErrors (stats h) + 1\<rparr>\<rparr>)"

text \<open>
  update: a store transaction around the handler. On success the queued actions run and the events are
  published; on an error the database is as before and the outbox is dropped.
\<close>

definition update :: "'a hm \<Rightarrow> 'a hm" where
  "update m h0 =
     (case m (h0\<lparr>out_events := [], out_after := []\<rparr>) of
        (Inr a, h) \<Rightarrow> (Inr a, (publish (out_events h) (fold run_after (out_after h) h))\<lparr>out_events := [], out_after := []\<rparr>)
      | (Inl e, h) \<Rightarrow> (Inl e, count_internal e (h\<lparr>st := st h0, out_events := [], out_after := []\<rparr>)))"

text \<open>st.View and st.Update without the outbox; a view's database changes are nobody's.\<close>

definition view :: "'a hm \<Rightarrow> 'a hm" where
  "view m h0 = (case m h0 of (r, h) \<Rightarrow> (r, h\<lparr>st := st h0\<rparr>))"

definition storeUpdate :: "'a hm \<Rightarrow> 'a hm" where
  "storeUpdate m h0 = (case m h0 of (Inr a, h) \<Rightarrow> (Inr a, h) | (Inl e, h) \<Rightarrow> (Inl e, h\<lparr>st := st h0\<rparr>))"

definition Counters :: "hub \<Rightarrow> (string \<times> nat) list" where
  "Counters h = [(''posts'', Posts (stats h)), (''duplicates'', Duplicates (stats h)), (''refusals'', Refusals (stats h)),
     (''commands'', Commands (stats h)), (''internal_errors'', InternalErrors (stats h))] @
     map (\<lambda>s. (''dropped_'' @ sub_name s, sub_dropped s)) (subs h)"

section \<open>Reasoning about handlers\<close>

lemma bnd_simps:
  "m h = (Inl e, h') \<Longrightarrow> bnd m f h = (Inl e, h')"
  "m h = (Inr a, h') \<Longrightarrow> bnd m f h = f a h'"
  by (simp_all add: bnd_def)

lemma bnd_Inr_iff: "bnd m f h = (Inr b, h'') \<longleftrightarrow> (\<exists>a h'. m h = (Inr a, h') \<and> f a h' = (Inr b, h''))"
  by (auto simp: bnd_def split: prod.splits sum.splits)

lemma seq_Inr_iff: "seq m k h = (Inr b, h'') \<longleftrightarrow> (\<exists>h'. m h = (Inr (), h') \<and> k h' = (Inr b, h''))"
  by (auto simp: seq_def bnd_Inr_iff)

lemma bnd_InrE:
  assumes "bnd m f h = (Inr b, h'')"
  obtains a h' where "m h = (Inr a, h')" "f a h' = (Inr b, h'')"
  using assms by (auto simp: bnd_Inr_iff)

lemma handler_simps [simp]:
  fixes r :: "err + 'a" and r1 :: "err + 'b" and r2 :: "err + 'c" and r3 :: "err + 'd" and r4 :: "err + 'e" and r5 :: "err + 'f"
    and u :: "err + unit"
  shows "ret a h = (r, h') \<longleftrightarrow> r = Inr a \<and> h' = h"
    "thr e h = (r1, h') \<longleftrightarrow> r1 = Inl e \<and> h' = h"
    "refuse t h = (r2, h') \<longleftrightarrow> r2 = Inl (UserError t) \<and> h' = h"
    "asks f h = (r3, h') \<longleftrightarrow> r3 = Inr (f h) \<and> h' = h"
    "query q h = (r4, h') \<longleftrightarrow> r4 = Inr (q (st h)) \<and> h' = h"
    "queryE qe h = (r5, h') \<longleftrightarrow> r5 = qe (st h) \<and> h' = h"
    "modify g h = (u, h') \<longleftrightarrow> u = Inr () \<and> h' = g h"
    "exec' w h = (u, h') \<longleftrightarrow> u = Inr () \<and> h' = h\<lparr>st := w (st h)\<rparr>"
  by (auto simp: ret_def thr_def refuse_def asks_def query_def queryE_def modify_def exec'_def)

lemma exec_Inr: "exec w h = (Inr u, h') \<longleftrightarrow> (\<exists>d. w (st h) = Inr d \<and> h' = h\<lparr>st := d\<rparr>)"
  by (auto simp: exec_def split: sum.splits)

lemma execR_Inr: "execR w h = (Inr a, h') \<longleftrightarrow> (\<exists>d. w (st h) = Inr (a, d) \<and> h' = h\<lparr>st := d\<rparr>)"
  by (auto simp: execR_def split: sum.splits)

definition keeps :: "(hub \<Rightarrow> bool) \<Rightarrow> 'a hm \<Rightarrow> bool" where
  "keeps P m \<longleftrightarrow> (\<forall>h. P h \<longrightarrow> P (snd (m h)))"

lemma keepsI: "(\<And>h. P h \<Longrightarrow> P (snd (m h))) \<Longrightarrow> keeps P m"
  by (simp add: keeps_def)

lemma keepsD: "keeps P m \<Longrightarrow> P h \<Longrightarrow> m h = (r, h') \<Longrightarrow> P h'"
  by (metis keeps_def snd_conv)

named_theorems hub_keeps "handlers keep an invariant"

lemma keeps_pure [hub_keeps]:
  "keeps P (ret a)" "keeps P (thr e)" "keeps P (refuse t)" "keeps P (asks f)" "keeps P (query q)" "keeps P (queryE qe)"
  by (simp_all add: keeps_def ret_def thr_def refuse_def asks_def query_def queryE_def)

lemma keeps_bnd [hub_keeps]: "keeps P m \<Longrightarrow> (\<And>a. keeps P (f a)) \<Longrightarrow> keeps P (bnd m f)"
  by (auto simp: keeps_def bnd_def split: prod.splits sum.splits dest: sym)

lemma keeps_seq [hub_keeps]: "keeps P m \<Longrightarrow> keeps P k \<Longrightarrow> keeps P (seq m k)"
  unfolding seq_def by (rule keeps_bnd)

lemma keeps_if [hub_keeps]: "(b \<Longrightarrow> keeps P m) \<Longrightarrow> (\<not> b \<Longrightarrow> keeps P k) \<Longrightarrow> keeps P (if b then m else k)"
  by simp

lemma keeps_option [hub_keeps]: "keeps P m \<Longrightarrow> (\<And>a. keeps P (f a)) \<Longrightarrow> keeps P (case x of None \<Rightarrow> m | Some a \<Rightarrow> f a)"
  by (cases x) simp_all

lemma keeps_prod [hub_keeps]: "(\<And>a b. keeps P (f a b)) \<Longrightarrow> keeps P (case x of (a, b) \<Rightarrow> f a b)"
  by (cases x) simp

lemma keeps_let [hub_keeps]: "(\<And>a. keeps P (f a)) \<Longrightarrow> keeps P (let a = x in f a)"
  by simp

lemma keeps_list [hub_keeps]: "keeps P m \<Longrightarrow> (\<And>a b. keeps P (f a b)) \<Longrightarrow> keeps P (case x of [] \<Rightarrow> m | a # b \<Rightarrow> f a b)"
  by (cases x) simp_all

lemma keeps_sum [hub_keeps]: "(\<And>a. keeps P (f a)) \<Longrightarrow> (\<And>b. keeps P (g b)) \<Longrightarrow> keeps P (case x of Inl a \<Rightarrow> f a | Inr b \<Rightarrow> g b)"
  by (cases x) simp_all

lemma keeps_each [hub_keeps]: "(\<And>x. keeps P (f x)) \<Longrightarrow> keeps P (each f xs)"
  by (induction xs) (auto intro: hub_keeps)

lemma keeps_catchUE [hub_keeps]: "keeps P m \<Longrightarrow> (\<And>t. keeps P (k t)) \<Longrightarrow> keeps P (catchUE m k)"
  by (auto simp: keeps_def catchUE_def split: prod.splits sum.splits err.splits)

text \<open>
  What a handler may do to the hub before the commit: write the database through the store, queue events
  and actions, and touch the limits, the counters and its reply. A predicate that survives these is kept
  by every handler, and each handler is proved to keep it once. \<open>plain_handler\<close> is for the handlers
  that ban nobody, add nobody to the group and let nobody into a room; \<open>hub_handler\<close> is for all of them.
  A handler writes the rate limits only in a way that keeps every bucket between nothing and a minute's worth.
\<close>

definition buckets_ok :: "rat \<Rightarrow> int \<Rightarrow> (string \<rightharpoonup> bucket) \<Rightarrow> bool" where
  "buckets_ok perMin t r \<longleftrightarrow> 0 \<le> perMin \<and> (\<forall>k b. r k = Some b \<longrightarrow> 0 \<le> bk_tokens b \<and> bk_tokens b \<le> perMin \<and> bk_at b \<le> t)"

definition fair_limits :: "hub \<Rightarrow> bool" where
  "fair_limits h \<longleftrightarrow> buckets_ok (of_int (PostsPerMinute (cfg h))) (now_ns h) (rate h)"

definition plain_after :: "After \<Rightarrow> bool" where
  "plain_after a = (case a of AfterJoin _ _ _ \<Rightarrow> False | _ \<Rightarrow> True)"

lemma plain_after_simps [simp]:
  "\<not> plain_after (AfterJoin room i n)" "plain_after (AfterPart room i)" "plain_after (AfterForget room i)"
  "plain_after (AfterRename i n)" "plain_after (AfterLinkIssued k ts)" "plain_after (AfterLinkFailures key ts)"
  by (simp_all add: plain_after_def)

locale plain_handler =
  fixes P :: "hub \<Rightarrow> bool"
  assumes P_db: "P h \<Longrightarrow> db_inv (st h)"
    and P_st: "P h \<Longrightarrow> db_inv d \<Longrightarrow> calm (st h) d \<Longrightarrow> P (h\<lparr>st := d\<rparr>)"
    and P_back: "P h \<Longrightarrow> P h' \<Longrightarrow> P (h'\<lparr>st := st h\<rparr>)"
    and P_events: "P h \<Longrightarrow> P (h\<lparr>out_events := es\<rparr>)"
    and P_after: "P h \<Longrightarrow> plain_after a \<Longrightarrow> P (h\<lparr>out_after := out_after h @ [a]\<rparr>)"
    and P_rate: "P h \<Longrightarrow> (fair_limits h \<Longrightarrow> fair_limits (h\<lparr>rate := r\<rparr>)) \<Longrightarrow> P (h\<lparr>rate := r\<rparr>)"
    and P_historyAt: "P h \<Longrightarrow> P (h\<lparr>historyAt := t\<rparr>)"
    and P_linkIssued: "P h \<Longrightarrow> P (h\<lparr>linkIssued := li\<rparr>)"
    and P_linkFailures: "P h \<Longrightarrow> P (h\<lparr>linkFailures := lf\<rparr>)"
    and P_stats: "P h \<Longrightarrow> P (h\<lparr>stats := s\<rparr>)"
    and P_reply: "P h \<Longrightarrow> P (h\<lparr>reply := rp\<rparr>)"
begin

lemma keeps_emit [hub_keeps]: "keeps P (emit e)"
  by (simp add: keeps_def emit_def modify_def P_events)

lemma keeps_after: "plain_after a \<Longrightarrow> keeps P (after a)"
  by (simp add: keeps_def after_def modify_def P_after)

lemma keeps_plain_after [hub_keeps]:
  "keeps P (after (AfterPart room i))" "keeps P (after (AfterForget room i))" "keeps P (after (AfterRename i n))"
  "keeps P (after (AfterLinkIssued k ts))" "keeps P (after (AfterLinkFailures key ts))"
  by (simp_all add: keeps_after)

lemma keeps_exec:
  assumes "\<And>d d'. db_inv d \<Longrightarrow> w d = Inr d' \<Longrightarrow> db_inv d'" "\<And>d d'. w d = Inr d' \<Longrightarrow> calm d d'"
  shows "keeps P (exec w)"
  by (auto simp: keeps_def exec_def split: sum.splits intro: P_st assms P_db)

lemma keeps_execR:
  assumes "\<And>d a d'. db_inv d \<Longrightarrow> w d = Inr (a, d') \<Longrightarrow> db_inv d'" "\<And>d a d'. w d = Inr (a, d') \<Longrightarrow> calm d d'"
  shows "keeps P (execR w)"
  by (auto simp: keeps_def execR_def split: sum.splits intro: P_st assms P_db)

lemma keeps_exec':
  assumes "\<And>d. db_inv d \<Longrightarrow> db_inv (w d)" "\<And>d. calm d (w d)"
  shows "keeps P (exec' w)"
  using assms by (simp add: keeps_def exec'_def P_st P_db)

lemma keeps_execR':
  assumes "\<And>d. db_inv d \<Longrightarrow> db_inv (snd (w d))" "\<And>d. calm d (snd (w d))"
  shows "keeps P (execR' w)"
  using assms by (simp add: keeps_def execR'_def P_st P_db)

text \<open>The writes of the store, as handlers.\<close>

lemma keeps_store_people [hub_keeps]:
  "keeps P (exec (TouchIdentity i pk now))" "keeps P (exec (SetLXMFMode i m))" "keeps P (exec (SetLXMFMine i b))"
  "keeps P (exec (SetPrefs i p))" "keeps P (exec (SetRank i r by now))" "keeps P (exec (ClaimName i name sk now))"
  "keeps P (execR (ReleaseName i))" "keeps P (exec (LinkIdentity i to now))" "keeps P (execR (UnlinkIdentity i now))"
  "keeps P (exec (PutLinkCode c))" "keeps P (exec (RedeemLinkCode hash who via))" "keeps P (exec' (DeleteLinkCode hash))"
  "keeps P (exec' (PruneLinkCodes now))"
  by (rule keeps_exec keeps_execR keeps_exec'; blast intro: inv_intros calm_intros)+

lemma keeps_store_rooms [hub_keeps]:
  "keeps P (exec (PutRoom r))" "keeps P (exec' (DeleteRoom name))" "keeps P (exec (SetRole name i role on by now))"
  "keeps P (exec (SetInvite name i e))" "keeps P (exec' (DeleteInvite name i))" "keeps P (exec' (PruneInvites now))"
  by (rule keeps_exec keeps_exec'; blast intro: inv_intros calm_intros)+

lemma keeps_store_messages [hub_keeps]:
  "keeps P (execR' (DeleteMessages ks))" "keeps P (exec' (PruneMessages now))" "keeps P (exec (SetCursor i name via k now))"
  "keeps P (execR' (RemoveMember i))" "keeps P (exec' (SetAway i now))"
  "keeps P (exec (PutDelivery x))" "keeps P (exec' (FinishDeliveries now))"
  by (rule keeps_exec keeps_execR keeps_exec' keeps_execR'; blast intro: inv_intros calm_intros)+

lemma keeps_AddMessage [hub_keeps]:
  "keeps P (execR (\<lambda>d. bindE (AddMessage m d) (\<lambda>(k, dup, d'). Inr ((k, dup), d'))))"
  by (rule keeps_execR) (auto dest: AddMessage_inv intro: calm_intros)

lemma keeps_store_social [hub_keeps]:
  "keeps P (execR (AddWhisper w))" "keeps P (exec' (MarkWhisperRRC k now))" "keeps P (execR' (MarkWhispersRead k u now))"
  "keeps P (exec' (PruneWhispers now))" "keeps P (exec (Ignore k j now))" "keeps P (execR' (Unignore k j))"
  "keeps P (execR' (RemoveBan i))" "keeps P (exec' (Audit now actor action target detail))" "keeps P (exec' (SetMeta name v))"
  by (rule keeps_exec keeps_execR keeps_exec' keeps_execR'; blast intro: inv_intros calm_intros)+

end

locale hub_handler = plain_handler +
  assumes P_AddBan: "P h \<Longrightarrow> AddBan b (st h) = Inr d \<Longrightarrow> P (h\<lparr>st := d\<rparr>)"
    and P_AddMember: "P h \<Longrightarrow> AddMember i now (st h) = Inr (new, d) \<Longrightarrow> P (h\<lparr>st := d\<rparr>)"
    and P_AfterJoin: "P h \<Longrightarrow> P (h\<lparr>out_after := out_after h @ [AfterJoin room i name]\<rparr>)"
begin

lemma keeps_special [hub_keeps]:
  "keeps P (exec (AddBan b))" "keeps P (execR (AddMember i now))" "keeps P (after (AfterJoin room i name))"
  by (auto simp: keeps_def exec_def execR_def after_def modify_def split: sum.splits intro: P_AddBan P_AddMember P_AfterJoin)

end

text \<open>
  Two predicates of that kind: the schema holds; and, for a handler under way, presence, the subscribers'
  queues and the configuration are what they were, because only the commit touches them.
\<close>

interpretation db_handler: hub_handler "\<lambda>h. db_inv (st h)"
  by unfold_locales (auto intro: inv_intros)

definition frame :: "Config \<Rightarrow> env \<Rightarrow> int \<Rightarrow> presence_entry list \<Rightarrow> Subscription list \<Rightarrow> hub \<Rightarrow> bool" where
  "frame c e t ps ss h \<longleftrightarrow>
     db_inv (st h) \<and> cfg h = c \<and> env h = e \<and> now_ns h = t \<and> presence h = ps \<and> subs h = ss"

interpretation frame_handler: hub_handler "frame c e t ps ss" for c e t ps ss
  by unfold_locales (auto simp: frame_def intro: inv_intros)

section \<open>The hub's invariant\<close>

definition presence_ok :: "presence_entry list \<Rightarrow> bool" where
  "presence_ok ps \<longleftrightarrow> distinct (map pe_key ps) \<and> (\<forall>e\<in>set ps. 0 < pe_rrcLinks e)"

definition queues_ok :: "Subscription list \<Rightarrow> bool" where
  "queues_ok ss \<longleftrightarrow> (\<forall>s\<in>set ss. length (sub_ch s) \<le> sub_buf s)"

definition hub_inv :: "hub \<Rightarrow> bool" where
  "hub_inv h \<longleftrightarrow> db_inv (st h) \<and> presence_ok (presence h) \<and> queues_ok (subs h)"

interpretation pt: upsert_table pe_key join_merge
  by unfold_locales (simp add: join_merge_def pe_key_def)

lemma pe_key_update [simp]:
  "pe_key (e\<lparr>pe_rrcLinks := k\<rparr>) = pe_key e" "pe_key (e\<lparr>pe_name := n\<rparr>) = pe_key e"
  by (simp_all add: pe_key_def)

lemma presence_ok_join:
  assumes "presence_ok ps"
  shows "presence_ok (upsert pe_key join_merge \<lparr>pe_Room = room, pe_identity = i, pe_name = name, pe_rrcLinks = 1\<rparr> ps)"
  unfolding presence_ok_def
proof
  show "distinct (map pe_key (upsert pe_key join_merge \<lparr>pe_Room = room, pe_identity = i, pe_name = name, pe_rrcLinks = 1\<rparr> ps))"
    using assms by (intro pt.upsert_distinct) (simp add: presence_ok_def)
  show "\<forall>e\<in>set (upsert pe_key join_merge \<lparr>pe_Room = room, pe_identity = i, pe_name = name, pe_rrcLinks = 1\<rparr> ps). 0 < pe_rrcLinks e"
    using assms by (intro pt.upsert_ball) (auto simp: presence_ok_def join_merge_def)
qed

lemma presence_ok_part:
  assumes "presence_ok ps"
  shows "presence_ok (part_presence room i ps)"
proof -
  let ?f = "\<lambda>e. e\<lparr>pe_rrcLinks := pe_rrcLinks e - 1\<rparr>"
  have "distinct (map pe_key (update_where (\<lambda>e. pe_key e = (room, hexID i)) ?f ps))"
    using assms by (intro distinct_update_where) (simp_all add: presence_ok_def pe_key_def)
  then show ?thesis
    using assms by (auto simp: presence_ok_def part_presence_def set_update_where)
qed

lemma presence_ok_rename: "presence_ok ps \<Longrightarrow> presence_ok (renamePresence i name ps)"
  by (simp add: presence_ok_def renamePresence_def map_key_update_where pe_key_def)

lemma run_after_inv: "presence_ok (presence h) \<Longrightarrow> presence_ok (presence (run_after a h))"
  by (cases a) (auto simp: run_after_def presence_ok_join presence_ok_part presence_ok_rename,
      simp add: presence_ok_def)

lemma run_after_frame [simp]:
  "st (run_after a h) = st h" "subs (run_after a h) = subs h" "cfg (run_after a h) = cfg h" "env (run_after a h) = env h"
  "now_ns (run_after a h) = now_ns h" "stats (run_after a h) = stats h" "rate (run_after a h) = rate h"
  by (cases a; simp add: run_after_def)+

lemma fold_run_after_frame [simp]:
  "st (fold run_after as h) = st h" "subs (fold run_after as h) = subs h" "cfg (fold run_after as h) = cfg h"
  "env (fold run_after as h) = env h" "now_ns (fold run_after as h) = now_ns h"
  by (induction as arbitrary: h) simp_all

lemma fold_run_after_inv: "presence_ok (presence h) \<Longrightarrow> presence_ok (presence (fold run_after as h))"
  by (induction as arbitrary: h) (simp_all add: run_after_inv)

lemma offer_ok: "length (sub_ch s) \<le> sub_buf s \<Longrightarrow> length (sub_ch (offer e s)) \<le> sub_buf (offer e s)"
  by (simp add: offer_def)

lemma fold_offer_map: "fold (\<lambda>e. map (offer e)) es ss = map (fold offer es) ss"
  by (induction es arbitrary: ss) simp_all

lemma fold_offer_facts:
  "sub_buf (fold offer es s) = sub_buf s" "sub_name (fold offer es s) = sub_name s"
  "length (sub_ch (fold offer es s)) + sub_dropped (fold offer es s) = length (sub_ch s) + sub_dropped s + length es"
  by (induction es arbitrary: s) (simp_all add: offer_def)

lemma fold_offer_queue:
  "sub_ch (fold offer es s) = sub_ch s @ take (sub_buf s - length (sub_ch s)) es"
proof (induction es arbitrary: s)
  case (Cons e es)
  show ?case
  proof (cases "length (sub_ch s) < sub_buf s")
    case True
    then have "sub_buf s - length (sub_ch s) = Suc (sub_buf s - Suc (length (sub_ch s)))" by simp
    with True show ?thesis using Cons.IH [of "offer e s"] by (simp add: offer_def)
  next
    case False
    then show ?thesis using Cons.IH [of "offer e s"] by (simp add: offer_def)
  qed
qed simp

lemma fold_offer_ok: "length (sub_ch s) \<le> sub_buf s \<Longrightarrow> length (sub_ch (fold offer es s)) \<le> sub_buf s"
  by (simp add: fold_offer_queue)

lemma queues_ok_publish: "queues_ok (subs h) \<Longrightarrow> queues_ok (subs (publish es h))"
  by (auto simp: queues_ok_def publish_def fold_offer_map fold_offer_ok fold_offer_facts)

text \<open>A handler of the hub: it keeps the frame whatever the frame is.\<close>

definition handler :: "'a hm \<Rightarrow> bool" where
  "handler m \<longleftrightarrow> (\<forall>c e t ps ss. keeps (frame c e t ps ss) m)"

lemma handlerI: "(\<And>c e t ps ss. keeps (frame c e t ps ss) m) \<Longrightarrow> handler m"
  by (simp add: handler_def)

lemma handler_frame:
  assumes "handler m" "db_inv (st h)" "m h = (r, h')"
  shows "db_inv (st h') \<and> cfg h' = cfg h \<and> env h' = env h \<and> now_ns h' = now_ns h \<and> presence h' = presence h \<and> subs h' = subs h"
proof -
  have "frame (cfg h) (env h) (now_ns h) (presence h) (subs h) h" using assms(2) by (simp add: frame_def)
  moreover have "keeps (frame (cfg h) (env h) (now_ns h) (presence h) (subs h)) m" using assms(1) by (simp add: handler_def)
  ultimately have "frame (cfg h) (env h) (now_ns h) (presence h) (subs h) h'"
    using assms(3) by (metis keeps_def snd_conv)
  then show ?thesis by (simp add: frame_def)
qed

lemma update_hub_inv:
  assumes m: "handler m" and inv: "hub_inv h" and u: "update m h = (r, h')"
  shows "hub_inv h' \<and> cfg h' = cfg h \<and> env h' = env h \<and> now_ns h' = now_ns h"
proof -
  let ?h0 = "h\<lparr>out_events := [], out_after := []\<rparr>"
  obtain q h1 where run: "m ?h0 = (q, h1)" by (cases "m ?h0")
  have fr: "db_inv (st h1) \<and> cfg h1 = cfg h \<and> env h1 = env h \<and> now_ns h1 = now_ns h \<and> presence h1 = presence h \<and> subs h1 = subs h"
    using handler_frame [OF m _ run] inv by (simp add: hub_inv_def)
  show ?thesis
  proof (cases q)
    case (Inl e)
    with run u fr inv show ?thesis by (auto simp: update_def hub_inv_def count_internal_def)
  next
    case (Inr a)
    with run u have h': "h' = (publish (out_events h1) (fold run_after (out_after h1) h1))\<lparr>out_events := [], out_after := []\<rparr>"
      by (simp add: update_def)
    have "queues_ok (subs (publish (out_events h1) (fold run_after (out_after h1) h1)))"
      using inv fr by (intro queues_ok_publish) (simp add: hub_inv_def)
    then show ?thesis
      using inv fr fold_run_after_inv [of h1 "out_after h1"] by (simp add: h' hub_inv_def publish_def)
  qed
qed

lemma update_error_atomic:
  assumes m: "handler m" and inv: "db_inv (st h)" and u: "update m h = (Inl e, h')"
  shows "st h' = st h \<and> presence h' = presence h \<and> subs h' = subs h"
proof -
  let ?h0 = "h\<lparr>out_events := [], out_after := []\<rparr>"
  obtain q h1 where run: "m ?h0 = (q, h1)" by (cases "m ?h0")
  have "presence h1 = presence h \<and> subs h1 = subs h" using handler_frame [OF m _ run] inv by simp
  with run u show ?thesis by (cases q) (auto simp: update_def count_internal_def)
qed

lemma update_Inr:
  assumes "update m h = (Inr a, h')"
  obtains h1 where "m (h\<lparr>out_events := [], out_after := []\<rparr>) = (Inr a, h1)" "st h' = st h1"
    "presence h' = presence (fold run_after (out_after h1) h1)" "subs h' = map (fold offer (out_events h1)) (subs h1)"
  using assms
  by (cases "m (h\<lparr>out_events := [], out_after := []\<rparr>)") (auto simp: update_def publish_def fold_offer_map split: sum.splits)

text \<open>
  Publishing never blocks and never loses count: every subscriber's queue stays within its buffer,
  takes the events in order as far as there is room, and each event that finds it full is counted as
  dropped, so queued plus dropped grows by exactly the number of events.
\<close>

lemma publish_accounts:
  assumes "queues_ok (subs h)"
  shows "queues_ok (subs (publish es h)) \<and>
    list_all2 (\<lambda>s s'. sub_name s' = sub_name s \<and> sub_buf s' = sub_buf s \<and>
        sub_ch s' = sub_ch s @ take (sub_buf s - length (sub_ch s)) es \<and>
        length (sub_ch s') + sub_dropped s' = length (sub_ch s) + sub_dropped s + length es)
      (subs h) (subs (publish es h))"
  using queues_ok_publish [OF assms, of es] fold_offer_facts [of es] fold_offer_queue [of es]
  unfolding publish_def by (simp add: fold_offer_map list_all2_map2 list_all2_same del: length_append)

definition one_sub :: Subscription where
  "one_sub = \<lparr>sub_name = ''rrc'', sub_ch = [], sub_buf = 1, sub_dropped = 0\<rparr>"

definition zero_stats :: Stats where
  "zero_stats = \<lparr>Posts = 0, Duplicates = 0, Refusals = 0, Commands = 0, InternalErrors = 0\<rparr>"

text \<open>An environment and a hub for the witnesses: ASCII only, no Unicode tables.\<close>

definition ascii_env :: env where
  "ascii_env = \<lparr>ulower = id, uupper = map byte_upper, nfc = id, nfkd = id, isMn = (\<lambda>_. False), isLatin = (\<lambda>_. False),
     clock_text = (\<lambda>_ ms. itoa ms), date_text = itoa, quote = (\<lambda>s. [CHR 0x22] @ s @ [CHR 0x22]), toValidUTF8 = id,
     sha256 = (\<lambda>b. take 32 (b @ replicate 32 (CHR ''0''))), LXMFAddress = id\<rparr>"

definition demo_hub :: hub where
  "demo_hub = \<lparr>cfg = Defaults, env = ascii_env, now_ns = 100000000, st = named_db, presence = [], rate = Map.empty,
     historyAt = Map.empty, linkIssued = Map.empty, linkFailures = Map.empty, stats = zero_stats, subs = [one_sub],
     out_events = [], out_after = [], reply = no_reply\<rparr>"

lemma demo_hub_inv: "hub_inv demo_hub"
  using reach_inv [OF named_reach] by (simp add: hub_inv_def demo_hub_def presence_ok_def queues_ok_def one_sub_def)

lemma publish_accounts_witness:
  "sub_ch (hd (subs (publish [BannedEvent alice ''a'', BannedEvent bob ''b''] demo_hub))) = [BannedEvent alice ''a''] \<and>
    sub_dropped (hd (subs (publish [BannedEvent alice ''a'', BannedEvent bob ''b''] demo_hub))) = 1"
proof -
  have "queues_ok (subs demo_hub)" using demo_hub_inv by (simp add: hub_inv_def)
  from publish_accounts [OF this, of "[BannedEvent alice ''a'', BannedEvent bob ''b'']"] show ?thesis
    by (auto simp: demo_hub_def one_sub_def list_all2_Cons1)
qed

end
