(* ===== verification/HubNames.thy ===== *)
theory HubNames
  imports HubCore
begin

text \<open>
  internal/hub/names.go: the rules for names (ADR 0005), the skeleton that decides whether two names are
  the same, and guest names. Unicode normalisation and the character classes are the environment's.
\<close>

definition NameMinRunes :: nat where "NameMinRunes = 2"
definition NameMaxRunes :: nat where "NameMaxRunes = 24"
definition NameMaxBytes :: nat where "NameMaxBytes = 32"

definition reserved :: "string list" where
  "reserved = [''admin'', ''administrator'', ''bridge'', ''everyone'', ''guest'', ''here'', ''hub'', ''moderator'', ''nobody'',
     ''notice'', ''op'', ''operator'', ''root'', ''rrc'', ''scotmesh'', ''server'', ''system'', ''you'']"

text \<open>unicode.IsSpace.\<close>

definition IsSpace :: "nat \<Rightarrow> bool" where
  "IsSpace r \<longleftrightarrow> r \<in> set [9, 10, 11, 12, 13, 32, 133, 160, 5760, 8232, 8233, 8239, 8287, 12288] \<or> 8192 \<le> r \<and> r \<le> 8202"

definition ascii_letter :: "nat \<Rightarrow> bool" where
  "ascii_letter r \<longleftrightarrow> 97 \<le> r \<and> r \<le> 122 \<or> 65 \<le> r \<and> r \<le> 90"

definition isLatinLetter :: "env \<Rightarrow> nat \<Rightarrow> bool" where
  "isLatinLetter v r = isLatin v r"

text \<open>The loop over the decomposition: the base runes are those that are no combining mark; there has to be exactly one, an ASCII letter.\<close>

definition isPlainLatinLetter :: "env \<Rightarrow> nat \<Rightarrow> bool" where
  "isPlainLatinLetter v r \<longleftrightarrow> r = 223 \<or>
     (case filter (\<lambda>d. \<not> isMn v d) (runes (nfkd v (string_of (encode_rune r)))) of [b] \<Rightarrow> ascii_letter b | _ \<Rightarrow> False)"

definition rune_lower :: "env \<Rightarrow> nat \<Rightarrow> nat" where
  "rune_lower v r = (if r < 128 then (if 65 \<le> r \<and> r \<le> 90 then r + 32 else r) else ulower v r)"

text \<open>What the Skeleton loop writes for one rune of the decomposed name.\<close>

definition fold_rune :: "env \<Rightarrow> nat \<Rightarrow> nat list" where
  "fold_rune v r0 = (if isMn v r0 then [] else
     (let r = rune_lower v r0 in
      if r \<in> {45, 95, 46, 32} then []
      else if r \<in> {49, 105, 124, 33} then [108]
      else if r = 48 then [111]
      else if r = 53 then [115]
      else if r = 223 then [115, 115]
      else encode_rune r))"

text \<open>strings.ReplaceAll with a two-byte pattern and a one-byte replacement.\<close>

fun replace2 :: "char \<Rightarrow> char \<Rightarrow> char \<Rightarrow> string \<Rightarrow> string" where
  "replace2 a b c (x # y # s) = (if x = a \<and> y = b then c # replace2 a b c s else x # replace2 a b c (y # s))"
| "replace2 a b c s = s"

definition Skeleton :: "env \<Rightarrow> string \<Rightarrow> string" where
  "Skeleton v name =
     (let s = string_of (concat (map (fold_rune v) (runes (nfkd v name))))
      in replace2 (CHR ''v'') (CHR ''v'') (CHR ''w'') (replace2 (CHR ''r'') (CHR ''n'') (CHR ''m'') s))"

definition name_char :: "env \<Rightarrow> nat \<Rightarrow> bool" where
  "name_char v r \<longleftrightarrow> isPlainLatinLetter v r \<or> 48 \<le> r \<and> r \<le> 57 \<or> r \<in> {45, 95, 46}"

text \<open>CleanName: \<open>Inl\<close> is a NameError with its reason.\<close>

definition CleanName :: "env \<Rightarrow> string \<Rightarrow> string + (string \<times> string)" where
  "CleanName v name =
     (let n = nfc v (TrimSpace name); rs = runes n in
      if n = '''' then Inl ''a name can't be empty''
      else if length rs < NameMinRunes then Inl ''a name needs at least 2 characters''
      else if NameMaxRunes < length rs \<or> NameMaxBytes < length n then Inl ''a name can be at most 24 characters''
      else if \<not> isPlainLatinLetter v (hd rs) then Inl ''a name has to start with a letter''
      else case find (\<lambda>r. \<not> name_char v r) rs of
        Some r \<Rightarrow> Inl (if IsSpace r then ''a name can't contain spaces''
                       else ''a name can use letters, digits, '' @ [CHR 0x27] @ ''-'' @ [CHR 0x27] @ '', '' @ [CHR 0x27] @ ''_'' @
                         [CHR 0x27] @ '' and '' @ [CHR 0x27] @ ''.'' @ [CHR 0x27] @ '' only'')
      | None \<Rightarrow> (let sk = Skeleton v n in
          if HasPrefix sk ''guest'' then Inl (''names starting with '' @ [CHR 0x22] @ ''guest'' @ [CHR 0x22] @ '' are kept for people without a name'')
          else if \<exists>w\<in>set reserved. sk = Skeleton v w then Inl ([CHR 0x22] @ n @ [CHR 0x22] @ '' is reserved'')
          else Inr (n, sk)))"

definition GuestName :: "ident \<Rightarrow> string" where
  "GuestName i = ''guest-'' @ take 4 (hexID i)"

definition capitalise :: "env \<Rightarrow> string \<Rightarrow> string" where
  "capitalise v s = (if s = '''' then s else uupper v (take 1 s) @ drop 1 s)"

section \<open>Properties\<close>

lemma CleanName_Inr:
  assumes "CleanName v name = Inr (n, sk)"
  shows "n = nfc v (TrimSpace name)" "n \<noteq> ''''" "2 \<le> length (runes n)" "length (runes n) \<le> 24" "length n \<le> 32"
    "isPlainLatinLetter v (hd (runes n))" "\<forall>r\<in>set (runes n). name_char v r" "sk = Skeleton v n"
    "\<not> HasPrefix sk ''guest''" "\<forall>w\<in>set reserved. sk \<noteq> Skeleton v w"
  using assms
  by (auto simp: CleanName_def Let_def NameMinRunes_def NameMaxRunes_def NameMaxBytes_def find_None_set
      split: if_splits option.splits)

text \<open>
  A name that passes CleanName keeps the rules: 2 to 24 characters in at most 32 bytes, a letter first,
  letters, digits, '-', '_' and '.' only, and a skeleton that is neither a reserved word's nor a guest's.
\<close>

lemma CleanName_rules:
  assumes "CleanName v name = Inr (n, sk)"
  shows "2 \<le> length (runes n) \<and> length (runes n) \<le> 24 \<and> length n \<le> 32 \<and> isPlainLatinLetter v (hd (runes n)) \<and>
    (\<forall>r\<in>set (runes n). isPlainLatinLetter v r \<or> 48 \<le> r \<and> r \<le> 57 \<or> r = 45 \<or> r = 95 \<or> r = 46) \<and>
    sk = Skeleton v n \<and> \<not> HasPrefix sk ''guest'' \<and> sk \<notin> Skeleton v ` set reserved"
  using CleanName_Inr [OF assms] by (auto simp: name_char_def)

lemma CleanName_rules_witness:
  "CleanName ascii_env '' Al-ex '' = Inr (''Al-ex'', ''alex'') \<and> Skeleton ascii_env ''A1.ex'' = ''alex'' \<and>
    \<not> HasPrefix ''alex'' ''guest''"
proof -
  have "CleanName ascii_env '' Al-ex '' = Inr (''Al-ex'', ''alex'')" by code_simp
  moreover have "Skeleton ascii_env ''A1.ex'' = ''alex''" by code_simp
  ultimately show ?thesis using CleanName_rules [of ascii_env "'' Al-ex ''"] by blast
qed

end
