(* ===== verification/HubPeople.thy ===== *)
theory HubPeople
  imports HubNames
begin

text \<open>
  internal/hub/people.go with the parts of rooms.go, ranks.go and links.go it needs: who a person is,
  claiming and forgetting names, joining and leaving the LXMF group, the LXMF modes and the cursor a pause
  leaves behind. A definition whose name ends in \<open>_db\<close> is the part of a method that only reads
  the database.
\<close>

section \<open>Who is who\<close>

definition base_person :: "ident list \<Rightarrow> ident \<Rightarrow> Person" where
  "base_person admins i = \<lparr>ps_Identity = i, ps_PersonID = 0, ps_Identities = [i], ps_Name = GuestName i, ps_Claimed = False,
     ps_ClaimedAt = 0, ps_Rank = identityRank admins i StoredMember False, ps_PersonRank = identityRank admins i StoredMember False,
     ps_RankBy = None, ps_RankAt = 0, ps_Member = False, ps_LXMFMode = LXMFOn, ps_LXMFMine = False, ps_Prefs = DefaultPrefs\<rparr>"

definition with_person :: "ident list \<Rightarrow> ident \<Rightarrow> db \<Rightarrow> Person \<Rightarrow> Person" where
  "with_person admins i d p = (case PersonOf i d of None \<Rightarrow> p
     | Some sp \<Rightarrow> let ids = PersonIdentities (p_ID sp) d; pr = personRank admins ids (p_Rank sp) in
         p\<lparr>ps_PersonID := p_ID sp, ps_Prefs := p_Prefs sp, ps_RankBy := p_RankBy sp, ps_RankAt := p_RankAt sp,
           ps_Identities := map i_ID ids, ps_PersonRank := pr, ps_Rank := identityRank admins i (p_Rank sp) (pr = RankOwner)\<rparr>)"

definition person_db :: "ident list \<Rightarrow> ident \<Rightarrow> db \<Rightarrow> err + Person" where
  "person_db admins i d = (case Identity i d of None \<Rightarrow> Inr (base_person admins i)
     | Some r \<Rightarrow>
        let p = with_person admins i d ((base_person admins i)\<lparr>ps_LXMFMode := i_LXMFMode r, ps_LXMFMine := i_LXMFMine r\<rparr>) in
        bindE (NameOf i d) (\<lambda>n.
        let p1 = (case n of None \<Rightarrow> p | Some n \<Rightarrow> p\<lparr>ps_Name := nm_Name n, ps_Claimed := True, ps_ClaimedAt := nm_ClaimedAt n\<rparr>)
        in Inr (p1\<lparr>ps_Member := IsMember i d\<rparr>)))"

definition person :: "ident \<Rightarrow> Person hm" where
  "person i = bnd (asks (\<lambda>h. Admins (cfg h))) (\<lambda>admins. queryE (person_db admins i))"

definition rank :: "ident \<Rightarrow> Rank hm" where
  "rank i = bnd (asks (\<lambda>h. Admins (cfg h))) (\<lambda>admins.
     if isOwner admins i then ret RankOwner else bnd (person i) (\<lambda>p. ret (ps_Rank p)))"

definition displayName_db :: "ident \<Rightarrow> db \<Rightarrow> err + string" where
  "displayName_db i d = bindE (NameOf i d) (\<lambda>n. Inr (case n of None \<Rightarrow> GuestName i | Some n \<Rightarrow> nm_Name n))"

definition displayName :: "ident \<Rightarrow> string hm" where
  "displayName i = queryE (displayName_db i)"

definition identitiesOf_db :: "ident \<Rightarrow> db \<Rightarrow> ident list" where
  "identitiesOf_db i d = (case PersonOf i d of None \<Rightarrow> [i] | Some p \<Rightarrow> map i_ID (PersonIdentities (p_ID p) d))"

definition identitiesOf :: "ident \<Rightarrow> ident list hm" where
  "identitiesOf i = query (identitiesOf_db i)"

definition samePerson_db :: "ident \<Rightarrow> ident \<Rightarrow> db \<Rightarrow> bool" where
  "samePerson_db a b d = (if a = b then True else case PersonOf a d of None \<Rightarrow> False
     | Some pa \<Rightarrow> (case PersonOf b d of None \<Rightarrow> False | Some pb \<Rightarrow> p_ID pa = p_ID pb))"

text \<open>mayActOnRoomTarget of ranks.go.\<close>

definition mayActOnRoomTarget :: "Person \<Rightarrow> ident \<Rightarrow> unit hm" where
  "mayActOnRoomTarget actor target = bnd (person target) (\<lambda>t.
     case room_target_rule actor t of Inl e \<Rightarrow> thr e | Inr _ \<Rightarrow> ret ())"

section \<open>Checks the requests share (people.go, rooms.go)\<close>

definition checkHubBan :: "ident \<Rightarrow> unit hm" where
  "checkHubBan i = bnd (query (IsBanned i)) (\<lambda>b. if b then refuse ''you are banned from this hub'' else ret ())"

definition checkRoomBan :: "string \<Rightarrow> ident \<Rightarrow> unit hm" where
  "checkRoomBan room i = bnd (query (HasRole room i RoleBan)) (\<lambda>b. if b then refuse ''banned from room'' else ret ())"

definition touch :: "ident \<Rightarrow> unit hm" where
  "touch i = bnd (asks nowMS) (\<lambda>t. exec (TouchIdentity i None t))"

definition Audit_now :: "ident option \<Rightarrow> string \<Rightarrow> string \<Rightarrow> string \<Rightarrow> unit hm" where
  "Audit_now actor action target detail = bnd (asks nowMS) (\<lambda>t. exec' (Audit t actor action target detail))"

text \<open>normRoom: rrcd's wording as a refusal.\<close>

definition err_text :: "err \<Rightarrow> string" where
  "err_text e = (case e of UserError t \<Rightarrow> t | ErrInvalid t \<Rightarrow> t | _ \<Rightarrow> '''')"

definition normRoom :: "string \<Rightarrow> string hm" where
  "normRoom name = bnd (asks (\<lambda>h. NormalizeRoom (ulower (env h)) name (MaxRoomNameBytes (cfg h)))) (\<lambda>r.
     case r of Inl e \<Rightarrow> refuse (err_text e) | Inr n \<Rightarrow> ret n)"

definition rrcPresent :: "string \<Rightarrow> ident \<Rightarrow> hub \<Rightarrow> bool" where
  "rrcPresent room i h = (case presence_at room i (presence h) of None \<Rightarrow> False | Some e \<Rightarrow> 0 < pe_rrcLinks e)"

definition roomsOf :: "ident \<Rightarrow> hub \<Rightarrow> string list" where
  "roomsOf i h = sort (map pe_Room (filter (\<lambda>e. hexID (pe_identity e) = hexID i \<and> 0 < pe_rrcLinks e) (presence h)))"

section \<open>Identify, PersonOf\<close>

definition Identify :: "ident \<Rightarrow> bytes option \<Rightarrow> Person hm" where
  "Identify i publicKey = update (seq (checkHubBan i)
     (bnd (asks nowMS) (\<lambda>t. seq (exec (TouchIdentity i publicKey t)) (person i))))"

definition hub_PersonOf :: "ident \<Rightarrow> Person hm" where
  "hub_PersonOf i = view (person i)"

section \<open>Names\<close>

definition stillCalled :: "Person \<Rightarrow> string" where
  "stillCalled p = (if ps_Claimed p then ''You are still '' @ ps_Name p @ ''.''
     else ''You are shown as '' @ ps_Name p @ '' until you choose a free name with /nick.'')"

definition rename_after :: "ident \<Rightarrow> string \<Rightarrow> string \<Rightarrow> unit hm" where
  "rename_after i old new = seq (emit (NameEvent i old new)) (after (AfterRename i new))"

definition claim :: "ident \<Rightarrow> string \<Rightarrow> string \<Rightarrow> Person \<Rightarrow> unit hm" where
  "claim i clean sk before = bnd (asks nowMS) (\<lambda>t. bnd (query (ClaimName i clean sk t)) (\<lambda>r. bnd (asks env) (\<lambda>v.
     case r of
       Inl e \<Rightarrow> if e = ErrNameTaken then refuse (quote v clean @ '' is taken by someone else. '' @ stillCalled before) else thr e
     | Inr _ \<Rightarrow> exec (ClaimName i clean sk t))))"

definition claimName :: "ident \<Rightarrow> string \<Rightarrow> Person hm" where
  "claimName i want = bnd (person i) (\<lambda>before. bnd (asks env) (\<lambda>v.
     case CleanName v want of
       Inl reason \<Rightarrow> refuse (capitalise v reason @ ''. '' @ stillCalled before)
     | Inr (clean, sk) \<Rightarrow>
         if ps_Claimed before \<and> ps_Name before = clean then ret before
         else seq (claim i clean sk before) (bnd (person i) (\<lambda>now.
           seq (if ps_Name now \<noteq> ps_Name before then rename_after i (ps_Name before) (ps_Name now) else ret ())
             (ret now)))))"

definition hub_ClaimName :: "ident \<Rightarrow> string \<Rightarrow> Person hm" where
  "hub_ClaimName i want = update (seq (touch i) (claimName i want))"

section \<open>Leaving the group, forgetting (people.go; unlinkAll of links.go)\<close>

definition leaveGroup :: "ident \<Rightarrow> bool hm" where
  "leaveGroup i = bnd (person i) (\<lambda>p. if \<not> ps_Member p then ret False
     else bnd (execR' (RemoveMember i)) (\<lambda>_. seq (emit (GroupEvent i (ps_Name p) False)) (ret True)))"

definition LeaveGroup :: "ident \<Rightarrow> bool hm" where
  "LeaveGroup i = update (leaveGroup i)"

definition unlink_other :: "ident \<Rightarrow> unit hm" where
  "unlink_other other = bnd (displayName other) (\<lambda>before. bnd (asks nowMS) (\<lambda>t.
     bnd (execR (UnlinkIdentity other t)) (\<lambda>_.
     let guest = GuestName other in
     seq (emit (NameEvent other before guest)) (seq (after (AfterRename other guest))
       (emit (NoticeEvent other '''' (before @ '' was forgotten from another app, so this app is '' @ guest @ '' now.'') False))))))"

definition unlinkAll :: "ident \<Rightarrow> unit hm" where
  "unlinkAll i = bnd (identitiesOf i) (\<lambda>ids. each (\<lambda>other. if other = i then ret () else unlink_other other) ids)"

definition forget :: "ident \<Rightarrow> Person hm" where
  "forget i = bnd (person i) (\<lambda>before.
     seq (unlinkAll i)
     (seq (if ps_Member before then bnd (execR' (RemoveMember i)) (\<lambda>_. emit (GroupEvent i (ps_Name before) False)) else ret ())
     (seq (if ps_Claimed before then bnd (execR (ReleaseName i)) (\<lambda>_.
             seq (rename_after i (ps_Name before) (GuestName i)) (Audit_now (Some i) ''forget'' (ps_Name before) '''')) else ret ())
     (person i))))"

definition Forget :: "ident \<Rightarrow> Person hm" where
  "Forget i = update (forget i)"

section \<open>LXMF delivery: modes and pauses\<close>

definition personOnRRC :: "ident \<Rightarrow> string \<Rightarrow> ident option \<Rightarrow> bool hm" where
  "personOnRRC i room except = bnd (identitiesOf i) (\<lambda>ids.
     asks (\<lambda>h. \<exists>j\<in>set ids. Some j \<noteq> except \<and> rrcPresent room j h))"

definition lxmfPaused :: "LXMFMode \<Rightarrow> ident \<Rightarrow> bool hm" where
  "lxmfPaused mode i = (case mode of LXMFOff \<Rightarrow> ret True
     | LXMFAuto \<Rightarrow> bnd (asks (\<lambda>h. GroupRoom (cfg h))) (\<lambda>room. personOnRRC i room None)
     | LXMFOn \<Rightarrow> ret False)"

definition mark_lxmf_cursor :: "ident \<Rightarrow> unit hm" where
  "mark_lxmf_cursor i = bnd (asks (\<lambda>h. GroupRoom (cfg h))) (\<lambda>room. bnd (query (LastMessageID room)) (\<lambda>last.
     bnd (asks nowMS) (\<lambda>t. exec (SetCursor i room ViaLXMF last t))))"

definition lxmfPauseChanged :: "ident \<Rightarrow> bool \<Rightarrow> bool \<Rightarrow> unit hm" where
  "lxmfPauseChanged i was now =
     (if \<not> was \<and> now then mark_lxmf_cursor i
      else if was \<and> \<not> now then
        bnd (asks (\<lambda>h. GroupRoom (cfg h))) (\<lambda>room. bnd (query (Cursor i room ViaLXMF)) (\<lambda>c.
          case c of None \<Rightarrow> ret ()
          | Some c \<Rightarrow> bnd (query (CountAfter room (c_MessageID c))) (\<lambda>missed.
              seq (mark_lxmf_cursor i) (if 0 < missed then emit (LXMFResumeEvent i missed) else ret ()))))
      else ret ())"

definition autoPauseChanged :: "ident \<Rightarrow> bool \<Rightarrow> unit hm" where
  "autoPauseChanged i paused = bnd (identitiesOf i) (\<lambda>ids. each (\<lambda>j. bnd (person j) (\<lambda>p.
     if ps_Member p \<and> ps_LXMFMode p = LXMFAuto then lxmfPauseChanged j (\<not> paused) paused else ret ())) ids)"

definition setLXMFMode :: "ident \<Rightarrow> LXMFMode \<Rightarrow> Person hm" where
  "setLXMFMode i mode = seq (touch i) (bnd (person i) (\<lambda>before.
     bnd (lxmfPaused (ps_LXMFMode before) i) (\<lambda>wasPaused.
     seq (exec (SetLXMFMode i mode))
     (bnd (lxmfPaused mode i) (\<lambda>nowPaused.
     seq (if ps_Member before then lxmfPauseChanged i wasPaused nowPaused else ret ())
     (person i))))))"

definition hub_SetLXMFMode :: "ident \<Rightarrow> LXMFMode \<Rightarrow> Person hm" where
  "hub_SetLXMFMode i mode = update (setLXMFMode i mode)"

definition hub_SetLXMFMine :: "ident \<Rightarrow> bool \<Rightarrow> Person hm" where
  "hub_SetLXMFMine i on = update (seq (touch i) (seq (exec (SetLXMFMine i on)) (person i)))"

section \<open>The LXMF group\<close>

text \<open>A refused name does not stop the join: it comes back as a note.\<close>

definition claim_note :: "ident \<Rightarrow> string \<Rightarrow> string hm" where
  "claim_note i name = (if name = '''' then ret ''''
     else catchUE (bnd (claimName i name) (\<lambda>_. ret '''')) (\<lambda>t. ret t))"

definition joinGroup :: "ident \<Rightarrow> string \<Rightarrow> (Person \<times> string) hm" where
  "joinGroup i name =
     seq (checkHubBan i) (bnd (asks (\<lambda>h. GroupRoom (cfg h))) (\<lambda>room. seq (checkRoomBan room i) (seq (touch i)
     (bnd (claim_note i name) (\<lambda>note. bnd (asks nowMS) (\<lambda>t. bnd (execR (AddMember i t)) (\<lambda>added.
     bnd (person i) (\<lambda>p.
     if added then seq (exec (SetLXMFMode i LXMFOn)) (seq (exec (SetLXMFMine i True))
       (bnd (person i) (\<lambda>p. seq (emit (GroupEvent i (ps_Name p) True)) (ret (p, note)))))
     else ret (p, note)))))))))"

definition JoinGroup :: "ident \<Rightarrow> string \<Rightarrow> (Person \<times> string) hm" where
  "JoinGroup i name = update (joinGroup i name)"

section \<open>Cursors\<close>

definition MarkRead :: "ident \<Rightarrow> string \<Rightarrow> Via \<Rightarrow> int \<Rightarrow> unit hm" where
  "MarkRead i room via k = update (seq (touch i) (bnd (asks nowMS) (\<lambda>t. exec (SetCursor i room via k t))))"

definition ReadCursor :: "ident \<Rightarrow> string \<Rightarrow> Via \<Rightarrow> cursor_row option hm" where
  "ReadCursor i room via = view (query (Cursor i room via))"

definition hub_Room :: "string \<Rightarrow> room option hm" where
  "hub_Room name = view (query (Room name))"

section \<open>Every handler keeps the invariants\<close>

context plain_handler
begin

lemma person_keeps [hub_keeps]: "keeps P (person i)"
  unfolding person_def by (intro hub_keeps)

lemma rank_keeps [hub_keeps]: "keeps P (rank i)"
  unfolding rank_def by (intro hub_keeps)

lemma reads_keep [hub_keeps]:
  "keeps P (displayName i)" "keeps P (identitiesOf i)" "keeps P (mayActOnRoomTarget actor i)"
  "keeps P (checkHubBan i)" "keeps P (checkRoomBan room i)" "keeps P (normRoom name)" "keeps P (personOnRRC i room except)"
  unfolding displayName_def identitiesOf_def mayActOnRoomTarget_def checkHubBan_def checkRoomBan_def normRoom_def personOnRRC_def
  by (intro hub_keeps)+

lemma writes_keep [hub_keeps]:
  "keeps P (touch i)" "keeps P (Audit_now actor action target detail)" "keeps P (rename_after i old new)"
  unfolding touch_def Audit_now_def rename_after_def by (intro hub_keeps)+

lemma claimName_keeps [hub_keeps]: "keeps P (claimName i want)"
  unfolding claimName_def claim_def by (intro hub_keeps)

lemma leaveGroup_keeps [hub_keeps]: "keeps P (leaveGroup i)"
  unfolding leaveGroup_def by (intro hub_keeps)

lemma unlinkAll_keeps [hub_keeps]: "keeps P (unlinkAll i)"
  unfolding unlinkAll_def unlink_other_def by (intro hub_keeps)

lemma forget_keeps [hub_keeps]: "keeps P (forget i)"
  unfolding forget_def by (intro hub_keeps)

lemma lxmfPaused_keeps [hub_keeps]: "keeps P (lxmfPaused mode i)"
  unfolding lxmfPaused_def by (cases mode) (auto intro!: hub_keeps)

lemma lxmfPauseChanged_keeps [hub_keeps]: "keeps P (lxmfPauseChanged i was now)"
  unfolding lxmfPauseChanged_def mark_lxmf_cursor_def by (intro hub_keeps)

lemma autoPauseChanged_keeps [hub_keeps]: "keeps P (autoPauseChanged i paused)"
  unfolding autoPauseChanged_def by (intro hub_keeps)

lemma setLXMFMode_keeps [hub_keeps]: "keeps P (setLXMFMode i mode)"
  unfolding setLXMFMode_def by (intro hub_keeps)

lemma joinGroup_keeps_if: "(\<And>t. keeps P (execR (AddMember i t))) \<Longrightarrow> keeps P (joinGroup i name)"
  unfolding joinGroup_def claim_note_def by (intro hub_keeps)

end

context hub_handler
begin

lemma joinGroup_keeps [hub_keeps]: "keeps P (joinGroup i name)"
  by (intro joinGroup_keeps_if hub_keeps)

end

end
