(* ===== verification/HubRooms.thy ===== *)
theory HubRooms
  imports HubPeople
begin

text \<open>
  internal/hub/rooms.go: joining and leaving rooms over RRC, who is present, who may read a room, the
  catch-up a joiner gets, and the cursors saved for everyone present; and ensureDefaultRooms of config.go.
  Go iterates over its presence maps in no fixed order; here the order is the table's, and every
  result that depends on it is sorted by the code.
\<close>

section \<open>Permissions in a room\<close>

definition isRoomOp :: "room \<Rightarrow> ident \<Rightarrow> bool hm" where
  "isRoomOp r i = (if rm_Founder r = Some i then ret True
     else bnd (rank i) (\<lambda>k. if RankMod \<le> k then ret True else query (HasRole (rm_Name r) i RoleOp)))"

definition mayReadRoom :: "room \<Rightarrow> ident \<Rightarrow> bool hm" where
  "mayReadRoom r i = (if \<not> HasMode r (CHR ''p'') \<and> \<not> HasMode r (CHR ''i'') \<and> rm_Key r = '''' then ret True
     else bnd (asks (rrcPresent (rm_Name r) i)) (\<lambda>here. if here then ret True
     else bnd (isRoomOp r i) (\<lambda>op. if op then ret True
     else bnd (asks nowMS) (\<lambda>t. query (InviteValid (rm_Name r) i t)))))"

definition isVoiced :: "room \<Rightarrow> ident \<Rightarrow> bool hm" where
  "isVoiced r i = bnd (isRoomOp r i) (\<lambda>op. if op then ret True else query (HasRole (rm_Name r) i RoleVoice))"

section \<open>Who is present\<close>

record Member =
  me_Identity :: ident
  me_Name :: string
  me_RRC :: bool
  me_LXMF :: bool

definition sortMembers :: "Member list \<Rightarrow> Member list" where
  "sortMembers ms = sort_key (\<lambda>m. (me_Name m, me_Identity m)) ms"

definition rrc_members :: "string \<Rightarrow> hub \<Rightarrow> Member list" where
  "rrc_members room h = map (\<lambda>e. \<lparr>me_Identity = pe_identity e, me_Name = pe_name e, me_RRC = True, me_LXMF = False\<rparr>)
     (filter (\<lambda>e. pe_Room e = room \<and> 0 < pe_rrcLinks e) (presence h))"

text \<open>A group member whose delivery is not paused is present too; an error while reading one is only logged.\<close>

definition add_group_member :: "member \<Rightarrow> Member list \<Rightarrow> Member list hm" where
  "add_group_member gm ms = bnd (lxmfPaused (gm_LXMFMode gm) (gm_Identity gm)) (\<lambda>paused.
     if paused then ret ms
     else if \<exists>m\<in>set ms. me_Identity m = gm_Identity gm
     then ret (update_where (\<lambda>m. me_Identity m = gm_Identity gm) (\<lambda>m. m\<lparr>me_LXMF := True\<rparr>) ms)
     else bnd (query (displayName_db (gm_Identity gm))) (\<lambda>n.
       let name = (case n of Inl _ \<Rightarrow> GuestName (gm_Identity gm) | Inr s \<Rightarrow> s) in
       ret (ms @ [\<lparr>me_Identity = gm_Identity gm, me_Name = name, me_RRC = False, me_LXMF = True\<rparr>])))"

fun add_group :: "member list \<Rightarrow> Member list \<Rightarrow> Member list hm" where
  "add_group [] ms = ret ms"
| "add_group (g # gs) ms = bnd (add_group_member g ms) (add_group gs)"

text \<open>One entry per person: apps of the same person are merged, under the smallest identity.\<close>

definition merge_member :: "Member \<Rightarrow> Member \<Rightarrow> Member" where
  "merge_member m old = old\<lparr>me_RRC := me_RRC old \<or> me_RRC m, me_LXMF := me_LXMF old \<or> me_LXMF m,
     me_Identity := if me_Identity m < me_Identity old then me_Identity m else me_Identity old\<rparr>"

definition add_by_person :: "db \<Rightarrow> Member \<Rightarrow> (int option \<times> Member) list \<Rightarrow> (int option \<times> Member) list" where
  "add_by_person d m acc = (case PersonOf (me_Identity m) d of None \<Rightarrow> acc @ [(None, m)]
     | Some sp \<Rightarrow> upsert fst (\<lambda>new old. (fst old, merge_member (snd new) (snd old))) (Some (p_ID sp), m) acc)"

text \<open>
  The upsert keys on \<open>Some person\<close>; people the hub has no row for all carry \<open>None\<close> and are
  appended, never merged.
\<close>

definition by_person :: "db \<Rightarrow> Member list \<Rightarrow> Member list" where
  "by_person d ms = map snd (fold (add_by_person d) ms [])"

definition hub_members :: "string \<Rightarrow> Member list hm" where
  "hub_members room = bnd (asks (rrc_members room)) (\<lambda>here.
     bnd (asks (\<lambda>h. GroupRoom (cfg h))) (\<lambda>grp.
     bnd (if room = grp then bnd (query Members) (\<lambda>gs. add_group gs here) else ret here) (\<lambda>ms.
     query (\<lambda>d. sortMembers (by_person d ms)))))"

definition membersAfterJoin :: "string \<Rightarrow> ident \<Rightarrow> string \<Rightarrow> Member list hm" where
  "membersAfterJoin room i name = bnd (hub_members room) (\<lambda>ms.
     if \<exists>m\<in>set ms. me_Identity m = i
     then ret (update_where (\<lambda>m. me_Identity m = i) (\<lambda>m. m\<lparr>me_RRC := True\<rparr>) ms)
     else ret (sortMembers (ms @ [\<lparr>me_Identity = i, me_Name = name, me_RRC = True, me_LXMF = False\<rparr>])))"

definition hub_Members :: "string \<Rightarrow> Member list hm" where
  "hub_Members room = view (hub_members room)"

section \<open>Catch-up\<close>

definition dash :: string where
  "dash = [CHR 0xE2, CHR 0x80, CHR 0x94]"

definition catchUp :: "ident \<Rightarrow> string \<Rightarrow> (message list \<times> string) hm" where
  "catchUp i room = bnd (asks cfg) (\<lambda>c. bnd (query (Cursor i room ViaRRC)) (\<lambda>cur.
     case cur of
       None \<Rightarrow> bnd (query (LatestMessages room 0 (ReplayFirstVisit c))) (\<lambda>msgs.
         if msgs = [] then ret ([], '''')
         else ret (msgs, dash @ '' the last '' @ plural (int (length msgs)) ''message'' @ '' in #'' @ room @ '' '' @ dash))
     | Some cr \<Rightarrow> bnd (query (CountAfter room (c_MessageID cr))) (\<lambda>missed.
         if missed = 0 then ret ([], '''')
         else bnd (asks (\<lambda>h. clock h (c_UpdatedAt cr))) (\<lambda>since.
           if ReplayMax c < int missed
           then bnd (query (LatestMessages room 0 (ReplayMax c))) (\<lambda>msgs.
             ret (msgs, dash @ '' '' @ itoa (int missed) @ '' messages since you were here ('' @ since @ ''); the latest '' @
               itoa (int (length msgs)) @ '' follow, /history '' @ itoa (min (int missed) (HistoryMax c)) @ '' shows more '' @ dash))
           else bnd (query (MessagesAfter room (c_MessageID cr) (int missed))) (\<lambda>msgs.
             ret (msgs, dash @ '' '' @ plural (int (length msgs)) ''message'' @ '' since you were here ('' @ since @ '') '' @ dash))))))"

section \<open>Join\<close>

record JoinRequest =
  jr_Identity :: ident
  jr_Room :: string
  jr_Key :: string

record JoinResult =
  js_Room :: room
  js_FirstLink :: bool
  js_Members :: "Member list"
  js_Replay :: "message list"
  js_ReplayNote :: string
  js_SeenUpTo :: int

text \<open>The checks on a room that exists: invite-only, then the key; the result says whether the joiner is invited.\<close>

definition join_checks :: "room \<Rightarrow> ident \<Rightarrow> string \<Rightarrow> bool hm" where
  "join_checks r i key = bnd (isRoomOp r i) (\<lambda>op. bnd (asks nowMS) (\<lambda>t. bnd (query (InviteValid (rm_Name r) i t)) (\<lambda>invited.
     if HasMode r (CHR ''i'') \<and> \<not> op \<and> \<not> invited then refuse ''invite-only (+i)''
     else if rm_Key r \<noteq> '''' \<and> \<not> op \<and> \<not> invited \<and> key \<noteq> rm_Key r then refuse ''bad key (+k)''
     else ret invited)))"

definition new_room :: "string \<Rightarrow> ident \<Rightarrow> millis \<Rightarrow> room" where
  "new_room room i t = \<lparr>rm_Name = room, rm_Topic = '''', rm_Founder = Some i, rm_Registered = False, rm_Modes = '''', rm_Key = '''',
     rm_CreatedAt = t, rm_LastUsed = t\<rparr>"

text \<open>The first link of an identity: what it missed, its cursor, and the pause of LXMF delivery on auto.\<close>

definition first_link :: "ident \<Rightarrow> string \<Rightarrow> string \<Rightarrow> (message list \<times> string \<times> int) hm" where
  "first_link i room name = bnd (catchUp i room) (\<lambda>(replay, note).
     bnd (query (LastMessageID room)) (\<lambda>last. bnd (asks nowMS) (\<lambda>t.
     seq (exec (SetCursor i room ViaRRC last t)) (bnd (asks (\<lambda>h. GroupRoom (cfg h))) (\<lambda>grp.
     seq (if room = grp then bnd (personOnRRC i room None) (\<lambda>on. if on then ret () else autoPauseChanged i True) else ret ())
     (seq (emit (JoinedEvent room i name ViaRRC)) (ret (replay, note, last))))))))"

definition enter_room :: "string \<Rightarrow> ident \<Rightarrow> room \<Rightarrow> bool \<Rightarrow> bool \<Rightarrow> JoinResult hm" where
  "enter_room room i r invited already =
     seq (touch i) (seq (exec (PutRoom r)) (seq (if invited then exec' (DeleteInvite room i) else ret ())
     (bnd (displayName i) (\<lambda>name. bnd (if already then ret ([], '''', 0) else first_link i room name) (\<lambda>(replay, note, seen).
     seq (after (AfterJoin room i name)) (bnd (membersAfterJoin room i name) (\<lambda>ms.
     ret \<lparr>js_Room = r, js_FirstLink = \<not> already, js_Members = ms, js_Replay = replay, js_ReplayNote = note, js_SeenUpTo = seen\<rparr>)))))))"

definition join_room :: "string \<Rightarrow> JoinRequest \<Rightarrow> bool \<Rightarrow> JoinResult hm" where
  "join_room room req already = (let i = jr_Identity req in
     bnd (asks nowMS) (\<lambda>t. bnd (query (Room room)) (\<lambda>found.
     bnd (case found of None \<Rightarrow> ret False | Some r \<Rightarrow> join_checks r i (jr_Key req)) (\<lambda>invited.
     seq (checkRoomBan room i)
       (enter_room room i (case found of None \<Rightarrow> new_room room i t | Some r \<Rightarrow> r\<lparr>rm_LastUsed := t\<rparr>) invited already)))))"

definition join :: "JoinRequest \<Rightarrow> JoinResult hm" where
  "join req = (let i = jr_Identity req in
     if jr_Room req = '''' then refuse ''JOIN requires room name''
     else bnd (normRoom (jr_Room req)) (\<lambda>room. seq (checkHubBan i)
     (bnd (asks (rrcPresent room i)) (\<lambda>already. bnd (asks (\<lambda>h. int (length (roomsOf i h)) \<ge> MaxRoomsPerPerson (cfg h))) (\<lambda>full.
     if \<not> already \<and> full then refuse ''too many rooms'' else join_room room req already)))))"

definition Join_request :: "JoinRequest \<Rightarrow> JoinResult hm" where
  "Join_request req = update (join req)"

section \<open>Part\<close>

definition forgetEmptyRoom :: "string \<Rightarrow> ident \<Rightarrow> unit hm" where
  "forgetEmptyRoom room leaving =
     bnd (asks (\<lambda>h. \<exists>e\<in>set (presence h). pe_Room e = room \<and> hexID (pe_identity e) \<noteq> hexID leaving \<and> 0 < pe_rrcLinks e)) (\<lambda>others.
     if others then ret ()
     else bnd (query (Room room)) (\<lambda>found. case found of None \<Rightarrow> ret ()
       | Some r \<Rightarrow> bnd (asks (\<lambda>h. isDefaultRoom (cfg h) room)) (\<lambda>default. bnd (asks nowMS) (\<lambda>t.
           if rm_Registered r \<or> default then exec (PutRoom (r\<lparr>rm_LastUsed := t\<rparr>))
           else exec' (DeleteRoom room)))))"

definition last_link :: "ident \<Rightarrow> string \<Rightarrow> string \<Rightarrow> unit hm" where
  "last_link i room name = bnd (query (LastMessageID room)) (\<lambda>last. bnd (asks nowMS) (\<lambda>t.
     seq (exec (SetCursor i room ViaRRC last t)) (seq (emit (PartedEvent room i name ViaRRC))
     (bnd (asks (\<lambda>h. GroupRoom (cfg h))) (\<lambda>grp.
     seq (if room = grp then bnd (personOnRRC i room (Some i)) (\<lambda>still. if still then ret () else autoPauseChanged i False) else ret ())
     (forgetEmptyRoom room i))))))"

definition part :: "ident \<Rightarrow> string \<Rightarrow> unit hm" where
  "part i room = bnd (asks (\<lambda>h. presence_at room i (presence h))) (\<lambda>e. case e of None \<Rightarrow> ret ()
     | Some e \<Rightarrow> if pe_rrcLinks e = 0 then ret ()
         else seq (if pe_rrcLinks e = 1 then last_link i room (pe_name e) else ret ()) (after (AfterPart room i)))"

definition Part :: "ident \<Rightarrow> string \<Rightarrow> string hm" where
  "Part i room = update (if room = '''' then refuse ''PART requires room name''
     else bnd (normRoom room) (\<lambda>r. seq (part i r) (ret r)))"

definition Disconnect :: "ident \<Rightarrow> string list \<Rightarrow> unit hm" where
  "Disconnect i rs = update (each (part i) rs)"

section \<open>Maintenance of cursors, and the rooms that always exist\<close>

definition saveAllCursors :: "unit hm" where
  "saveAllCursors = storeUpdate (bnd (asks presence) (\<lambda>ps. bnd (asks nowMS) (\<lambda>t. each (\<lambda>e.
     bnd (query (LastMessageID (pe_Room e))) (\<lambda>last.
     if 0 < pe_rrcLinks e then exec (SetCursor (pe_identity e) (pe_Room e) ViaRRC last t) else ret ())) ps)))"

definition default_room :: "RoomConfig \<Rightarrow> millis \<Rightarrow> room option \<Rightarrow> room" where
  "default_room rc t found =
     (let r = (case found of Some r \<Rightarrow> r | None \<Rightarrow> (new_room (rc_Name rc) '''' t)\<lparr>rm_Founder := None, rm_LastUsed := 0\<rparr>)
      in (SetMode (CHR ''t'') True (r\<lparr>rm_Topic := rc_Topic rc, rm_Founder := None\<rparr>))\<lparr>rm_Registered := True, rm_LastUsed := t\<rparr>)"

definition ensureDefaultRooms :: "unit hm" where
  "ensureDefaultRooms = storeUpdate (bnd (asks (\<lambda>h. cfg_Rooms (cfg h))) (\<lambda>rs. bnd (asks nowMS) (\<lambda>t. each (\<lambda>rc.
     bnd (query (Room (rc_Name rc))) (\<lambda>found.
     if (case found of Some r \<Rightarrow> rm_Registered r | None \<Rightarrow> False) then ret () else exec (PutRoom (default_room rc t found)))) rs)))"

section \<open>Every handler keeps the invariants\<close>

context plain_handler
begin

lemma isRoomOp_keeps [hub_keeps]: "keeps P (isRoomOp r i)"
  unfolding isRoomOp_def by (intro hub_keeps)

lemma room_reads_keep [hub_keeps]:
  "keeps P (mayReadRoom r i)" "keeps P (isVoiced r i)" "keeps P (catchUp i room)" "keeps P (join_checks r i key)"
  unfolding mayReadRoom_def isVoiced_def catchUp_def join_checks_def by (intro hub_keeps)+

lemma add_group_keeps [hub_keeps]: "keeps P (add_group gs ms)"
  by (induction gs arbitrary: ms) (auto simp: add_group_member_def intro!: hub_keeps)

lemma members_keep [hub_keeps]: "keeps P (hub_members room)" "keeps P (membersAfterJoin room i name)"
  unfolding membersAfterJoin_def hub_members_def by (intro hub_keeps)+

lemma first_link_keeps [hub_keeps]: "keeps P (first_link i room name)"
  unfolding first_link_def by (intro hub_keeps)

lemma join_keeps_if: "(\<And>room name. keeps P (after (AfterJoin room (jr_Identity req) name))) \<Longrightarrow> keeps P (join req)"
  unfolding join_def join_room_def enter_room_def Let_def by (intro hub_keeps)

lemma forgetEmptyRoom_keeps [hub_keeps]: "keeps P (forgetEmptyRoom room i)"
  unfolding forgetEmptyRoom_def by (intro hub_keeps)

lemma part_keeps [hub_keeps]: "keeps P (part i room)"
  unfolding part_def last_link_def by (intro hub_keeps)

end

context hub_handler
begin

lemma join_keeps [hub_keeps]: "keeps P (join req)"
  by (intro join_keeps_if hub_keeps)

end

end
