(* ===== verification/HubPost.thy ===== *)
theory HubPost
  imports HubRooms
begin

text \<open>
  internal/hub/post.go: saying something in a room, with the rate limit, the deliveries queued for the LXMF
  group, and history. The token bucket's float64 is a rational here, so its arithmetic is exact.
\<close>

record PostRequest =
  pr_Via :: Via
  pr_Identity :: ident
  pr_Room :: string
  pr_Action :: bool
  pr_Body :: string
  pr_OriginID :: "bytes option"
  pr_SaidAt :: millis
  pr_Ext :: "bytes option"

record PostResult =
  po_Message :: message
  po_Duplicate :: bool

section \<open>The rate limit\<close>

text \<open>One step of the bucket: refill by the time passed, then take a token if there is one.\<close>

definition refill :: "rat \<Rightarrow> int \<Rightarrow> bucket \<Rightarrow> bucket" where
  "refill perMin t b = \<lparr>bk_tokens = min perMin (bk_tokens b + of_int (t - bk_at b) / of_int minute_ns * perMin), bk_at = t\<rparr>"

definition take_token :: "bucket \<Rightarrow> bool \<times> bucket" where
  "take_token b = (if bk_tokens b < 1 then (False, b) else (True, b\<lparr>bk_tokens := bk_tokens b - 1\<rparr>))"

definition bucket_step :: "rat \<Rightarrow> int \<Rightarrow> bucket option \<Rightarrow> bool \<times> bucket" where
  "bucket_step perMin t b = take_token (refill perMin t (case b of None \<Rightarrow> \<lparr>bk_tokens = perMin, bk_at = t\<rparr> | Some b \<Rightarrow> b))"

definition allowPost :: "ident \<Rightarrow> bool hm" where
  "allowPost i h = (case bucket_step (of_int (PostsPerMinute (cfg h))) (now_ns h) (rate h (hexID i)) of (ok, b) \<Rightarrow>
     (Inr ok, h\<lparr>rate := (rate h)(hexID i := Some b)\<rparr>))"

section \<open>Who gets a message by LXMF\<close>

definition wants_lxmf :: "ident \<Rightarrow> Via \<Rightarrow> member \<Rightarrow> bool hm" where
  "wants_lxmf author via m = bnd (lxmfPaused (gm_LXMFMode m) (gm_Identity m)) (\<lambda>paused.
     if paused then ret False
     else if gm_Identity m = author \<and> via = ViaLXMF then ret False
     else bnd (query (samePerson_db (gm_Identity m) author)) (\<lambda>same.
       if \<not> gm_LXMFMine m \<and> same then ret False
       else bnd (query (IsBanned (gm_Identity m))) (\<lambda>banned. ret (\<not> banned))))"

fun filterM :: "('x \<Rightarrow> bool hm) \<Rightarrow> 'x list \<Rightarrow> 'x list hm" where
  "filterM f [] = ret []"
| "filterM f (x # xs) = bnd (f x) (\<lambda>b. bnd (filterM f xs) (\<lambda>ys. ret (if b then x # ys else ys)))"

definition lxmfRecipients :: "ident \<Rightarrow> Via \<Rightarrow> ident list hm" where
  "lxmfRecipients author via = bnd (query Members) (\<lambda>ms. bnd (filterM (wants_lxmf author via) ms) (\<lambda>to. ret (map gm_Identity to)))"

section \<open>Post\<close>

definition check_body :: "string \<Rightarrow> unit hm" where
  "check_body body = bnd (asks (\<lambda>h. MaxBodyBytes (cfg h))) (\<lambda>n.
     if TrimSpace body = '''' then refuse ''message is empty''
     else if \<not> ValidString body then refuse ''message is not valid text''
     else if n < int (length body) then refuse (''message too large: '' @ itoa (int (length body)) @ '' bytes > '' @ itoa n @ '' bytes'')
     else ret ())"

definition check_way_in :: "Via \<Rightarrow> ident \<Rightarrow> string \<Rightarrow> room \<Rightarrow> unit hm" where
  "check_way_in via i room r = bnd (asks (\<lambda>h. GroupRoom (cfg h))) (\<lambda>grp. case via of
     ViaRRC \<Rightarrow> bnd (asks (rrcPresent room i)) (\<lambda>here. if \<not> here \<and> HasMode r (CHR ''n'') then refuse ''no outside messages (+n)'' else ret ())
   | ViaLXMF \<Rightarrow> bnd (query (IsMember i)) (\<lambda>m. if \<not> m then refuse ''send /join first to take part in the group''
       else if room \<noteq> grp then refuse (''the group only carries #'' @ grp) else ret ())
   | ViaPage \<Rightarrow> if room \<noteq> grp then refuse (''the page only carries #'' @ grp) else ret ()
   | ViaImport \<Rightarrow> ret ())"

definition check_voice :: "room \<Rightarrow> ident \<Rightarrow> unit hm" where
  "check_voice r i = (if HasMode r (CHR ''m'') then bnd (isVoiced r i) (\<lambda>v. if v then ret () else refuse ''room is moderated (+m)'') else ret ())"

definition queued_delivery :: "int \<Rightarrow> bool \<Rightarrow> millis \<Rightarrow> ident \<Rightarrow> delivery" where
  "queued_delivery k whisper t to = \<lparr>dl_MessageID = k, dl_Whisper = whisper, dl_Identity = to, dl_State = DeliveryQueued,
     dl_Attempts = 0, dl_PartsDone = 0, dl_NextAt = t, dl_UpdatedAt = t\<rparr>"

definition count_stats :: "(Stats \<Rightarrow> Stats) \<Rightarrow> unit hm" where
  "count_stats f = modify (\<lambda>h. h\<lparr>stats := f (stats h)\<rparr>)"

definition AddMessage_tx :: "message \<Rightarrow> (int \<times> bool) hm" where
  "AddMessage_tx m = execR (\<lambda>d. bindE (AddMessage m d) (\<lambda>(k, dup, d'). Inr ((k, dup), d')))"

definition the_message :: "message \<Rightarrow> message option \<Rightarrow> message" where
  "the_message e0 m = (case m of None \<Rightarrow> e0 | Some m \<Rightarrow> m)"

definition no_message :: message where
  "no_message = \<lparr>m_ID = 0, m_Room = '''', m_Kind = KindMsg, m_Author = '''', m_AuthorName = '''', m_Body = '''', m_Via = ViaRRC,
     m_OriginID = None, m_SaidAt = 0, m_HubAt = 0, m_Ext = None\<rparr>"

text \<open>Storing a message that passed every check: the room's last use, the deliveries, the event.\<close>

definition message_to :: "message \<Rightarrow> ident list hm" where
  "message_to m = bnd (asks (\<lambda>h. GroupRoom (cfg h))) (\<lambda>grp. if m_Room m = grp then lxmfRecipients (m_Author m) (m_Via m) else ret [])"

definition announce :: "message \<Rightarrow> millis \<Rightarrow> ident list \<Rightarrow> PostResult hm" where
  "announce m t to = seq (each (\<lambda>i. exec (PutDelivery (queued_delivery (m_ID m) False t i))) to)
     (seq (emit (MessageEvent m to)) (seq (count_stats (\<lambda>s. s\<lparr>Posts := Posts s + 1\<rparr>)) (ret \<lparr>po_Message = m, po_Duplicate = False\<rparr>)))"

definition store_new :: "room \<Rightarrow> message \<Rightarrow> PostResult hm" where
  "store_new r m = bnd (asks nowMS) (\<lambda>t. seq (exec (PutRoom (r\<lparr>rm_LastUsed := t\<rparr>))) (bnd (message_to m) (announce m t)))"

definition store_message :: "room \<Rightarrow> message \<Rightarrow> PostResult hm" where
  "store_message r m = bnd (AddMessage_tx m) (\<lambda>(k, dup).
     if dup then seq (count_stats (\<lambda>s. s\<lparr>Duplicates := Duplicates s + 1\<rparr>))
       (bnd (query (Message k)) (\<lambda>old. ret \<lparr>po_Message = the_message no_message old, po_Duplicate = True\<rparr>))
     else store_new r (m\<lparr>m_ID := k\<rparr>))"

definition trimmed :: "PostRequest \<Rightarrow> string" where
  "trimmed req = TrimRightSet (pr_Body req) [CHR '' '', CHR 0x09, CHR 0x0D, CHR 0x0A]"

definition said :: "PostRequest \<Rightarrow> string \<Rightarrow> string \<Rightarrow> millis \<Rightarrow> message" where
  "said req room name t = \<lparr>m_ID = 0, m_Room = room, m_Kind = (if pr_Action req then KindAction else KindMsg), m_Author = pr_Identity req,
     m_AuthorName = name, m_Body = trimmed req, m_Via = pr_Via req, m_OriginID = pr_OriginID req,
     m_SaidAt = (if pr_SaidAt req \<le> 0 then t else pr_SaidAt req), m_HubAt = t, m_Ext = pr_Ext req\<rparr>"

definition say_in_room :: "PostRequest \<Rightarrow> string \<Rightarrow> room \<Rightarrow> PostResult hm" where
  "say_in_room req room r = (let i = pr_Identity req in
     bnd (allowPost i) (\<lambda>ok. if \<not> ok then refuse ''rate limited'' else
     seq (touch i) (bnd (displayName i) (\<lambda>name. bnd (asks nowMS) (\<lambda>t. store_message r (said req room name t))))))"

definition post :: "PostRequest \<Rightarrow> PostResult hm" where
  "post req = (let i = pr_Identity req in
     bnd (asks (\<lambda>h. GroupRoom (cfg h))) (\<lambda>grp. bnd (normRoom (if pr_Room req = '''' then grp else pr_Room req)) (\<lambda>room.
     seq (check_body (trimmed req)) (seq (checkHubBan i) (bnd (query (Room room)) (\<lambda>found. case found of
       None \<Rightarrow> refuse ''no such room''
     | Some r \<Rightarrow> seq (check_way_in (pr_Via req) i room r) (seq (checkRoomBan room i) (seq (check_voice r i) (say_in_room req room r)))))))))"

definition Post :: "PostRequest \<Rightarrow> PostResult hm" where
  "Post req h = (case update (post req) h of
     (Inl e, h') \<Rightarrow> (Inl e, h'\<lparr>stats := (stats h')\<lparr>Refusals := Refusals (stats h') + 1\<rparr>\<rparr>) | (Inr a, h') \<Rightarrow> (Inr a, h'))"

definition MayNotice :: "ident \<Rightarrow> string \<Rightarrow> unit hm" where
  "MayNotice i room0 = bnd (normRoom room0) (\<lambda>room. seq (view (seq (checkHubBan i) (bnd (query (Room room)) (\<lambda>found. case found of
       None \<Rightarrow> refuse ''no such room''
     | Some r \<Rightarrow> seq (checkRoomBan room i) (check_voice r i)))))
     (bnd (allowPost i) (\<lambda>ok. if ok then ret () else refuse ''rate limited'')))"

section \<open>History\<close>

definition ceil_seconds :: "int \<Rightarrow> int" where
  "ceil_seconds ns = - ((- ns) div second_ns)"

definition history_wait :: "ident \<Rightarrow> hub \<Rightarrow> int option" where
  "history_wait i h = (case historyAt h (hexID i) of None \<Rightarrow> None
     | Some prev \<Rightarrow> if now_ns h - prev < HistoryCooldown (cfg h) then Some (HistoryCooldown (cfg h) - (now_ns h - prev)) else None)"

definition history :: "ident \<Rightarrow> string \<Rightarrow> int \<Rightarrow> int \<Rightarrow> message list hm" where
  "history i room0 n0 beforeID = bnd (asks cfg) (\<lambda>c. bnd (normRoom (if room0 = '''' then GroupRoom c else room0)) (\<lambda>room.
     bnd (asks (history_wait i)) (\<lambda>wait.
     case wait of Some w \<Rightarrow> refuse (''please wait '' @ itoa (ceil_seconds w) @ '' seconds before asking for history again'')
     | None \<Rightarrow> bnd (query (Room room)) (\<lambda>found. case found of None \<Rightarrow> refuse ''no such room''
       | Some r \<Rightarrow> seq (checkRoomBan room i) (bnd (mayReadRoom r i) (\<lambda>ok.
           if \<not> ok then refuse (''room '' @ room @ '' is private'')
           else seq (modify (\<lambda>h. h\<lparr>historyAt := (historyAt h)(hexID i := Some (now_ns h))\<rparr>))
             (query (LatestMessages room beforeID (min (if n0 \<le> 0 then 20 else n0) (HistoryMax c))))))))))"

definition hub_History :: "ident \<Rightarrow> string \<Rightarrow> int \<Rightarrow> int \<Rightarrow> message list hm" where
  "hub_History i room n beforeID = update (history i room n beforeID)"

definition Recent :: "string \<Rightarrow> int \<Rightarrow> int \<Rightarrow> message list hm" where
  "Recent room n beforeID = view (query (LatestMessages room beforeID n))"

section \<open>Every handler keeps the invariants\<close>

lemma bucket_step_ok:
  assumes ok: "buckets_ok perMin t r" and step: "bucket_step perMin t (r k) = (allowed, b)"
  shows "buckets_ok perMin t (r(k \<mapsto> b))"
proof -
  have pos: "0 \<le> perMin" using ok by (simp add: buckets_ok_def)
  define b0 where "b0 = refill perMin t (case r k of None \<Rightarrow> \<lparr>bk_tokens = perMin, bk_at = t\<rparr> | Some b \<Rightarrow> b)"
  have "0 \<le> bk_tokens b0 \<and> bk_tokens b0 \<le> perMin \<and> bk_at b0 = t"
    using ok pos by (auto simp: b0_def refill_def buckets_ok_def ns_defs split: option.splits intro!: add_nonneg_nonneg)
  moreover have "take_token b0 = (allowed, b)" using step by (simp add: b0_def bucket_step_def)
  ultimately have "0 \<le> bk_tokens b \<and> bk_tokens b \<le> perMin \<and> bk_at b = t"
    by (auto simp: take_token_def split: if_splits)
  with ok show ?thesis by (auto simp: buckets_ok_def)
qed

lemma keeps_Via [hub_keeps]:
  "keeps P a \<Longrightarrow> keeps P b \<Longrightarrow> keeps P c \<Longrightarrow> keeps P d \<Longrightarrow>
    keeps P (case via of ViaRRC \<Rightarrow> a | ViaLXMF \<Rightarrow> b | ViaPage \<Rightarrow> c | ViaImport \<Rightarrow> d)"
  by (cases via) simp_all

context plain_handler
begin

lemma allowPost_keeps [hub_keeps]: "keeps P (allowPost i)"
  by (auto simp: keeps_def allowPost_def fair_limits_def split: prod.splits intro!: P_rate intro: bucket_step_ok)

lemma count_stats_keeps [hub_keeps]: "keeps P (count_stats f)"
  by (simp add: keeps_def count_stats_def modify_def P_stats)

lemma filterM_keeps [hub_keeps]: "(\<And>x. keeps P (f x)) \<Longrightarrow> keeps P (filterM f xs)"
  by (induction xs) (auto intro!: hub_keeps)

lemma lxmfRecipients_keeps [hub_keeps]: "keeps P (lxmfRecipients author via)"
  unfolding lxmfRecipients_def wants_lxmf_def by (intro hub_keeps)

lemma AddMessage_tx_keeps [hub_keeps]: "keeps P (AddMessage_tx m)"
  unfolding AddMessage_tx_def by (rule keeps_AddMessage)

lemma post_checks_keep [hub_keeps]:
  "keeps P (check_body body)" "keeps P (check_way_in via i room r)" "keeps P (check_voice r i)"
  unfolding check_body_def check_voice_def check_way_in_def by (intro hub_keeps)+

lemma store_message_keeps [hub_keeps]: "keeps P (store_message r m)"
  unfolding store_message_def store_new_def message_to_def announce_def by (intro hub_keeps)

lemma post_keeps [hub_keeps]: "keeps P (post req)"
  unfolding post_def say_in_room_def by (intro hub_keeps)

lemma keeps_historyAt [hub_keeps]: "keeps P (modify (\<lambda>h. h\<lparr>historyAt := f h\<rparr>))"
  by (simp add: keeps_def modify_def P_historyAt)

lemma history_keeps [hub_keeps]: "keeps P (history i room n b)"
  unfolding history_def by (intro hub_keeps)

end

end
