(* ===== verification/HubCmd.thy ===== *)
theory HubCmd
  imports HubPost
begin

text \<open>
  The ground the commands stand on (commands.go and the helpers of cmd_rooms.go): a running command with
  its arguments and its reply, the room or group a command is about, and how a command's argument names
  a person. The reply is part of the hub record while the command runs, as c.reply is a pointer.
\<close>

section \<open>strings.Fields, strconv.Atoi and friends\<close>

function fields_from :: "string \<Rightarrow> string \<Rightarrow> string list" where
  "fields_from acc s = (let flush = (if acc = [] then [] else [rev acc]) in
     if s = [] then flush
     else case leading_space s of Some e \<Rightarrow> flush @ fields_from [] (drop (length e) s)
       | None \<Rightarrow> fields_from (hd s # acc) (tl s))"
  by pat_completeness auto
termination
  by (relation "measure (\<lambda>(acc, s). length s)") (auto dest: leading_space_nonempty)

declare fields_from.simps [simp del]

definition Fields :: "string \<Rightarrow> string list" where
  "Fields s = fields_from [] s"

definition digit_val :: "char \<Rightarrow> int option" where
  "digit_val c = (let n = (of_char c :: nat) in if 48 \<le> n \<and> n \<le> 57 then Some (int n - 48) else None)"

fun digits_val :: "int \<Rightarrow> string \<Rightarrow> int option" where
  "digits_val acc [] = Some acc"
| "digits_val acc (c # cs) = (case digit_val c of None \<Rightarrow> None | Some v \<Rightarrow> digits_val (10 * acc + v) cs)"

definition Atoi :: "string \<Rightarrow> int option" where
  "Atoi s = (let neg = HasPrefix s ''-''; ds = (if HasPrefix s ''-'' \<or> HasPrefix s ''+'' then drop 1 s else s) in
     if ds = [] then None
     else case digits_val 0 ds of None \<Rightarrow> None
       | Some v \<Rightarrow> let x = (if neg then - v else v) in if - (2 ^ 63) \<le> x \<and> x < 2 ^ 63 then Some x else None)"

function Split_lines :: "string \<Rightarrow> string list" where
  "Split_lines s = (let l = takeWhile (\<lambda>c. c \<noteq> CHR 0x0A) s; r = dropWhile (\<lambda>c. c \<noteq> CHR 0x0A) s in
     if r = [] then [l] else l # Split_lines (tl r))"
  by pat_completeness auto
termination
proof (relation "measure length", simp)
  fix s :: string and x xa
  assume "x = takeWhile (\<lambda>c. c \<noteq> CHR 0x0A) s" and r: "xa = dropWhile (\<lambda>c. c \<noteq> CHR 0x0A) s" "xa \<noteq> []"
  have "length xa \<le> length s" by (simp add: r(1) length_dropWhile_le)
  with r(2) show "(tl xa, s) \<in> measure length" by (cases xa) auto
qed

declare Split_lines.simps [simp del]

definition quoted :: "string \<Rightarrow> string" where
  "quoted s = [CHR 0x27] @ s @ [CHR 0x27]"

section \<open>A running command\<close>

record cmd =
  cm_Via :: Via
  cm_Identity :: ident
  cm_Room :: string
  cm_name :: string
  cm_usage :: string
  cm_me :: Person

definition say :: "string \<Rightarrow> unit hm" where
  "say text = modify (\<lambda>h. h\<lparr>reply := (reply h)\<lparr>Lines := Lines (reply h) @ [text]\<rparr>\<rparr>)"

definition sayLines :: "string \<Rightarrow> unit hm" where
  "sayLines text = modify (\<lambda>h. h\<lparr>reply := (reply h)\<lparr>Lines := Lines (reply h) @ Split_lines text\<rparr>\<rparr>)"

definition mark_error :: "unit hm" where
  "mark_error = modify (\<lambda>h. h\<lparr>reply := (reply h)\<lparr>Reply_Error := True\<rparr>\<rparr>)"

definition fail :: "string \<Rightarrow> unit hm" where
  "fail text = seq mark_error (say text)"

definition usage :: "cmd \<Rightarrow> unit hm" where
  "usage c = fail (TrimSpace (''usage: /'' @ cm_name c @ '' '' @ cm_usage c))"

definition here :: "cmd \<Rightarrow> string hm" where
  "here c = bnd (asks (\<lambda>h. GroupRoom (cfg h))) (\<lambda>grp. ret (if cm_Via c = ViaRRC \<and> cm_Room c \<noteq> '''' then cm_Room c else grp))"

record target =
  tg_room :: string
  tg_lxmf :: bool
  tg_given :: bool

text \<open>takeTarget: the target and the arguments left, or \<open>None\<close> when the command has failed already.\<close>

definition bare_room :: "string \<Rightarrow> string option hm" where
  "bare_room a = bnd (asks (\<lambda>h. NormalizeRoom (ulower (env h)) a (MaxRoomNameBytes (cfg h)))) (\<lambda>n. case n of Inl _ \<Rightarrow> ret None
     | Inr r \<Rightarrow> bnd (query (Room r)) (\<lambda>found. ret (if found = None then None else Some r)))"

definition takeTarget :: "cmd \<Rightarrow> bool \<Rightarrow> string list \<Rightarrow> (target \<times> string list) option hm" where
  "takeTarget c bareRooms args = bnd (here c) (\<lambda>room. bnd (asks (\<lambda>h. GroupRoom (cfg h))) (\<lambda>grp.
     let nothing = ret (Some (\<lparr>tg_room = room, tg_lxmf = False, tg_given = False\<rparr>, args)) in
     case args of [] \<Rightarrow> nothing
     | a # rest \<Rightarrow>
        if EqualFold a ''lxmf'' then ret (Some (\<lparr>tg_room = grp, tg_lxmf = True, tg_given = True\<rparr>, rest))
        else if HasPrefix a ''#'' then
          catchUE (bnd (normRoom a) (\<lambda>r. ret (Some (\<lparr>tg_room = r, tg_lxmf = False, tg_given = True\<rparr>, rest))))
            (\<lambda>t. seq (fail (''bad room: '' @ t)) (ret None))
        else if bareRooms then bnd (bare_room a) (\<lambda>found. case found of None \<Rightarrow> nothing
          | Some r \<Rightarrow> ret (Some (\<lparr>tg_room = r, tg_lxmf = False, tg_given = True\<rparr>, rest)))
        else nothing))"

section \<open>Who a command names\<close>

definition isHex :: "string \<Rightarrow> bool" where
  "isHex s \<longleftrightarrow> (\<forall>c\<in>set s. let n = (of_char c :: nat) in 48 \<le> n \<and> n \<le> 57 \<or> 97 \<le> n \<and> n \<le> 102)"

definition prefix_matches :: "string \<Rightarrow> ident list \<Rightarrow> ident list" where
  "prefix_matches pre ids = fold (\<lambda>i acc. if HasPrefix (hexID i) pre \<and> i \<notin> set acc then acc @ [i] else acc) ids []"

definition known_identities :: "hub \<Rightarrow> ident list" where
  "known_identities h = map pe_identity (presence h) @ map gm_Identity (Members (st h)) @ map b_Identity (Bans (st h))"

definition not_found :: "string \<Rightarrow> string" where
  "not_found token = ''target '' @ quoted token @ '' not found''"

definition ambiguous :: "string \<Rightarrow> ident list \<Rightarrow> db \<Rightarrow> string" where
  "ambiguous token ms d = Join ([''ambiguous: '' @ quoted token @ '' matches '' @ itoa (int (length ms)) @ '' identities:''] @
     map (\<lambda>m. ''  - '' @ take 16 (hexID m) @ '' '' @ (case displayName_db m d of Inl _ \<Rightarrow> GuestName m | Inr n \<Rightarrow> n)) (sort_key hexID ms) @
     [''Use full or longer identity hash to disambiguate.'']) [CHR 0x0A]"

definition resolve_prefix :: "string \<Rightarrow> ident hm" where
  "resolve_prefix token = bnd (asks (\<lambda>h. ulower (env h))) (\<lambda>ul.
     let pre = TrimPrefix (ToLower ul (TrimPrefix token ''0x'')) ''guest-'' in
     if length pre < 4 \<or> \<not> isHex pre \<or> (length pre < 6 \<and> \<not> HasPrefix (ToLower ul token) ''guest-'')
     then refuse (not_found token)
     else bnd (asks known_identities) (\<lambda>ids. case prefix_matches pre ids of
         [] \<Rightarrow> refuse (not_found token)
       | [i] \<Rightarrow> ret i
       | ms \<Rightarrow> bnd (query (ambiguous token ms)) refuse))"

definition by_name :: "string \<Rightarrow> name_info option hm" where
  "by_name token = bnd (asks env) (\<lambda>v. case CleanName v token of Inl _ \<Rightarrow> ret None | Inr (_, sk) \<Rightarrow> queryE (NameBySkeleton sk))"

definition resolve :: "string \<Rightarrow> ident hm" where
  "resolve token0 = (let token = TrimSpace token0 in
     case hex_decode (TrimPrefix token ''0x'') of
       Some b \<Rightarrow> if length b = IdentityLen then ret b
         else bnd (by_name token) (\<lambda>n. case n of Some n \<Rightarrow> ret (nm_Identity n) | None \<Rightarrow> resolve_prefix token)
     | None \<Rightarrow> bnd (by_name token) (\<lambda>n. case n of Some n \<Rightarrow> ret (nm_Identity n) | None \<Rightarrow> resolve_prefix token))"

definition resolveOrFail :: "string \<Rightarrow> ident option hm" where
  "resolveOrFail token = catchUE (bnd (resolve token) (\<lambda>i. ret (Some i))) (\<lambda>t. seq mark_error (seq (sayLines t) (ret None)))"

text \<open>targetPerson of moderation.go: resolve, load, and ask the rank rule.\<close>

definition targetPerson :: "cmd \<Rightarrow> string \<Rightarrow> Action \<Rightarrow> Person option hm" where
  "targetPerson c token action = bnd (resolveOrFail token) (\<lambda>found. case found of None \<Rightarrow> ret None
     | Some i \<Rightarrow> bnd (person i) (\<lambda>p. case may (cm_me c) action (Some p) of
         Inl e \<Rightarrow> seq (fail (err_text e)) (ret None) | Inr _ \<Rightarrow> ret (Some p)))"

section \<open>Every handler keeps the invariants\<close>

context plain_handler
begin

lemma say_keeps [hub_keeps]: "keeps P (say t)" "keeps P (sayLines t)" "keeps P mark_error"
  by (simp_all add: keeps_def say_def sayLines_def mark_error_def modify_def P_reply)

lemma fail_keeps [hub_keeps]: "keeps P (fail t)" "keeps P (usage c)" "keeps P (here c)"
  unfolding fail_def usage_def here_def by (intro hub_keeps)+

lemma takeTarget_keeps [hub_keeps]: "keeps P (takeTarget c bare args)"
  unfolding takeTarget_def bare_room_def Let_def by (intro hub_keeps)

lemma by_name_keeps [hub_keeps]: "keeps P (by_name token)"
  unfolding by_name_def by (intro hub_keeps)

lemma resolve_keeps [hub_keeps]: "keeps P (resolve token)"
  unfolding resolve_def resolve_prefix_def by (intro hub_keeps)

lemma resolveOrFail_keeps [hub_keeps]: "keeps P (resolveOrFail token)"
  unfolding resolveOrFail_def by (intro hub_keeps)

lemma targetPerson_keeps [hub_keeps]: "keeps P (targetPerson c token action)"
  unfolding targetPerson_def by (intro hub_keeps)

end

end
