(* ===== verification/HubLinks.thy ===== *)
theory HubLinks
  imports HubCmd
begin

text \<open>
  internal/hub/links.go: linking another app to a name with a one-time code (ADR 0007). The random code is
  an argument of the command that issues one; its hash comes from the environment.
\<close>

definition linkCodeTTL :: int where "linkCodeTTL = 10 * minute_ns"
definition linkCodesPerHour :: nat where "linkCodesPerHour = 3"
definition linkGuessesAllowed :: nat where "linkGuessesAllowed = 5"
definition linkLockout :: int where "linkLockout = 10 * minute_ns"
definition maxAppsPerPerson :: nat where "maxAppsPerPerson = 5"

definition code_char :: "char \<Rightarrow> string" where
  "code_char c = (if c = CHR ''-'' \<or> c = CHR '' '' then [] else if c = CHR ''0'' then ''O'' else if c = CHR ''1'' then ''I''
     else if c = CHR ''8'' then ''B'' else [c])"

definition normaliseLinkCode :: "env \<Rightarrow> string \<Rightarrow> string" where
  "normaliseLinkCode v s = uupper v (concat (map code_char s))"

definition linkCodeHash :: "env \<Rightarrow> string \<Rightarrow> bytes" where
  "linkCodeHash v code = sha256 v (''scotmesh-chat/link/'' @ normaliseLinkCode v code)"

definition takeRecent :: "int list \<Rightarrow> int \<Rightarrow> int \<Rightarrow> int list" where
  "takeRecent ts now window = filter (\<lambda>t. now - t < window) ts"

definition recent_of :: "int list option \<Rightarrow> int \<Rightarrow> int \<Rightarrow> int list" where
  "recent_of ts now window = takeRecent (case ts of None \<Rightarrow> [] | Some ts \<Rightarrow> ts) now window"

definition via_text :: "Via \<Rightarrow> string" where
  "via_text via = (case via of ViaRRC \<Rightarrow> ''rrc'' | ViaLXMF \<Rightarrow> ''lxmf'' | ViaPage \<Rightarrow> ''page'' | ViaImport \<Rightarrow> ''import'')"

definition notice :: "ident \<Rightarrow> string \<Rightarrow> unit hm" where
  "notice i text = emit (NoticeEvent i '''' text False)"

section \<open>Issuing a code\<close>

definition linkIssue :: "cmd \<Rightarrow> string \<Rightarrow> unit hm" where
  "linkIssue c code = (let me = cm_me c; k = ps_PersonID me in
     if maxAppsPerPerson \<le> length (ps_Identities me)
     then fail (ps_Name me @ '' already has '' @ itoa (int maxAppsPerPerson) @ '' apps, the most one name can have. /unlink one first.'')
     else bnd (asks (\<lambda>h. (now_ns h, recent_of (linkIssued h k) (now_ns h) hour_ns))) (\<lambda>(t, issued).
       if linkCodesPerHour \<le> length issued
       then seq (modify (\<lambda>h. h\<lparr>linkIssued := (linkIssued h)(k := Some issued)\<rparr>))
         (fail (''That's '' @ itoa (int linkCodesPerHour) @ '' codes this hour; try again later.''))
       else bnd (asks (\<lambda>h. linkCodeHash (env h) code)) (\<lambda>hash. bnd (asks nowMS) (\<lambda>ms.
         let expires = (t + linkCodeTTL) div 1000000 in
         seq (exec (PutLinkCode \<lparr>lc_Hash = hash, lc_Person = k, lc_IssuedBy = cm_Identity c, lc_IssuedAt = ms, lc_ExpiresAt = expires,
               lc_RedeemedBy = None, lc_RedeemedVia = None\<rparr>))
         (seq (after (AfterLinkIssued k (issued @ [t]))) (bnd (asks (\<lambda>h. clock h expires)) (\<lambda>until.
         seq (say (''On your other app, send /link '' @ code @ '' (or !link '' @ code @
               '') to the group, in the room, or on the chat page. It works once, until '' @ until @ ''.''))
         (if RankMod \<le> ps_PersonRank me
          then say (''As you're '' @ article (ps_PersonRank me) @ '', you'll be asked to approve the new app from one of your apps before it's linked.'')
          else ret ()))))))))"

section \<open>Linking\<close>

definition link :: "ident \<Rightarrow> Person \<Rightarrow> Via \<Rightarrow> unit hm" where
  "link i target via = bnd (person i) (\<lambda>before.
     seq (if length (ps_Identities before) = 1 \<and> ps_Claimed before then bnd (execR (ReleaseName i)) (\<lambda>_. ret ()) else ret ())
     (bnd (asks nowMS) (\<lambda>t. seq (exec (LinkIdentity i (ps_PersonID target) t)) (bnd (person i) (\<lambda>now.
     seq (if ps_Name now \<noteq> ps_Name before then rename_after i (ps_Name before) (ps_Name now) else ret ())
     (let short = take 4 (hexID i) in
     seq (each (\<lambda>other. notice other (''A new app was linked to your name: '' @ short @ '' (via '' @ via_text via @
           ''). Not you? Send /unlink '' @ short @ ''.'')) (ps_Identities target))
     (if RankMod \<le> ps_PersonRank target then Audit_now (Some i) ''link'' (ps_Name target) (hexID i) else ret ())))))))"

definition personByID :: "int \<Rightarrow> ident \<Rightarrow> Person hm" where
  "personByID k known = bnd (query (PersonIdentities k)) (\<lambda>ids.
     if known \<in> set (map i_ID ids) then person known
     else case ids of [] \<Rightarrow> thr ErrNotFound | r # _ \<Rightarrow> person (i_ID r))"

section \<open>Redeeming\<close>

definition badCode :: "cmd \<Rightarrow> unit hm" where
  "badCode c = (let key = hexID (cm_Identity c) in
     bnd (asks (\<lambda>h. recent_of (linkFailures h key) (now_ns h) linkLockout @ [now_ns h])) (\<lambda>fails.
     seq (after (AfterLinkFailures key fails))
     (fail ''That code doesn't work. Codes last 10 minutes and work once; ask for a new one with /link on your other app.'')))"

definition await_approval :: "cmd \<Rightarrow> link_code \<Rightarrow> Person \<Rightarrow> unit hm" where
  "await_approval c lc target = (let me = cm_me c; short = take 4 (hexID (cm_Identity c)) in
     seq (exec (RedeemLinkCode (lc_Hash lc) (cm_Identity c) (cm_Via c))) (bnd (asks (\<lambda>h. clock h (lc_ExpiresAt lc))) (\<lambda>until.
     seq (each (\<lambda>i. notice i (''Approve linking '' @ ps_Name me @ '' ('' @ short @ '', via '' @ via_text (cm_Via c) @ '') to '' @
           ps_Name target @ '', with your '' @ Rank_String (ps_PersonRank target) @ '' role? Send /link approve '' @ short @
           '' or /link deny '' @ short @ ''. It expires at '' @ until @ ''.'')) (ps_Identities target))
     (say (''Waiting for approval from one of '' @ ps_Name target @ '''s apps, as '' @ ps_Name target @ '' is '' @
           article (ps_PersonRank target) @ ''. It expires at '' @ until @ ''.'')))))"

definition redeem_valid :: "cmd \<Rightarrow> string \<Rightarrow> bool \<Rightarrow> link_code \<Rightarrow> unit hm" where
  "redeem_valid c code confirmed lc = (let me = cm_me c in
     if lc_Person lc = ps_PersonID me then fail (''This app is already part of '' @ ps_Name me @ ''.'')
     else bnd (personByID (lc_Person lc) (lc_IssuedBy lc)) (\<lambda>target. bnd (asks (\<lambda>h. isOwner (Admins (cfg h)) (cm_Identity c))) (\<lambda>owner.
     if owner then fail ''This is a hub owner's own identity, which can't join anyone else. Send /link here instead, and redeem the code on the other app.''
     else if ps_PersonRank target < ps_PersonRank me
     then fail (''This app is '' @ article (ps_PersonRank me) @ '' and '' @ ps_Name target @ '' isn't. Ask for the code on this app and redeem it on the other.'')
     else if maxAppsPerPerson \<le> length (ps_Identities target)
     then fail (ps_Name target @ '' already has '' @ itoa (int maxAppsPerPerson) @ '' apps, the most one name can have.'')
     else if ps_Claimed me \<and> length (ps_Identities me) = 1 \<and> \<not> confirmed
     then fail (''This app is '' @ ps_Name me @ ''. Linking frees '' @ ps_Name me @ '' and makes this app '' @ ps_Name target @
       ''. To go ahead, send /link '' @ code @ '' confirm.'')
     else if RankMod \<le> ps_PersonRank target then await_approval c lc target
     else seq (link (cm_Identity c) target (cm_Via c)) (seq (exec' (DeleteLinkCode (lc_Hash lc)))
       (say (''This app is now '' @ ps_Name target @ ''. /devices lists your apps; /unlink takes this one out again.''))))))"

definition linkRedeem :: "cmd \<Rightarrow> string \<Rightarrow> bool \<Rightarrow> unit hm" where
  "linkRedeem c code confirmed = (let key = hexID (cm_Identity c) in
     bnd (asks (\<lambda>h. recent_of (linkFailures h key) (now_ns h) linkLockout)) (\<lambda>fails.
     if linkGuessesAllowed \<le> length fails
     then seq (modify (\<lambda>h. h\<lparr>linkFailures := (linkFailures h)(key := Some fails)\<rparr>))
       (fail ''Too many codes that didn't work; try again in 10 minutes.'')
     else bnd (asks (\<lambda>h. linkCodeHash (env h) code)) (\<lambda>hash. bnd (asks nowMS) (\<lambda>ms.
       bnd (query (LinkCodeByHash hash)) (\<lambda>found. case found of None \<Rightarrow> badCode c
       | Some lc \<Rightarrow> if lc_ExpiresAt lc \<le> ms \<or> lc_RedeemedBy lc \<noteq> None then badCode c
           else bnd (query (IsBanned (lc_IssuedBy lc))) (\<lambda>banned. if banned then badCode c else redeem_valid c code confirmed lc))))))"

section \<open>Approving and denying\<close>

definition linkDecide :: "cmd \<Rightarrow> bool \<Rightarrow> string \<Rightarrow> unit hm" where
  "linkDecide c approve who = (let me = cm_me c in
     bnd (asks nowMS) (\<lambda>ms. bnd (query (PendingLinks (ps_PersonID me) ms)) (\<lambda>pending. bnd (asks (\<lambda>h. ulower (env h))) (\<lambda>ul.
     let pre = ToLower ul (TrimPrefix who ''guest-'');
         matching = filter (\<lambda>lc. 4 \<le> length pre \<and> HasPrefix (hexID (the (lc_RedeemedBy lc))) pre) pending in
     case matching of
       [] \<Rightarrow> fail (''Nothing is waiting for approval as '' @ who @ ''.'')
     | _ # _ # _ \<Rightarrow> fail (who @ '' matches more than one app waiting; use more of its identity.'')
     | [lc] \<Rightarrow> let redeemer = the (lc_RedeemedBy lc) in
         seq (exec' (DeleteLinkCode (lc_Hash lc))) (bnd (displayName redeemer) (\<lambda>name.
         if \<not> approve
         then seq (notice redeemer (ps_Name me @ '''s app didn't approve linking this app.''))
           (seq (exec' (Audit ms (Some (cm_Identity c)) ''link-deny'' (ps_Name me) (hexID redeemer)))
           (say (''Denied: '' @ name @ '' ('' @ take 8 (hexID redeemer) @ '') is not linked.'')))
         else bnd (query (IsBanned redeemer)) (\<lambda>banned.
           if banned then fail (name @ '' is banned and can't be linked.'')
           else seq (link redeemer me (the (lc_RedeemedVia lc)))
             (seq (notice redeemer (''Approved: this app is now '' @ ps_Name me @ ''.''))
             (say (''Approved: '' @ name @ '' ('' @ take 8 (hexID redeemer) @ '') is now one of '' @ ps_Name me @ '''s apps.''))))))))))"

definition cmdLink :: "string \<Rightarrow> cmd \<Rightarrow> string list \<Rightarrow> unit hm" where
  "cmdLink code c args = (case args of
     [] \<Rightarrow> linkIssue c code
   | [a] \<Rightarrow> linkRedeem c a False
   | [a, b] \<Rightarrow> if EqualFold a ''approve'' \<or> EqualFold a ''deny'' then linkDecide c (EqualFold a ''approve'') b
       else if EqualFold b ''confirm'' then linkRedeem c a True else usage c
   | _ \<Rightarrow> usage c)"

section \<open>Devices, unlinking\<close>

definition middot :: string where
  "middot = [CHR 0xC2, CHR 0xB7]"

definition device_line :: "cmd \<Rightarrow> identity_row \<Rightarrow> unit hm" where
  "device_line c r = bnd (asks (roomsOf (i_ID r))) (\<lambda>rs. bnd (query (IsMember (i_ID r))) (\<lambda>member.
     bnd (asks (\<lambda>h. clock h (i_LastSeen r))) (\<lambda>seen.
     let notes = (if i_ID r = cm_Identity c then [''this app''] else []) @
           (if rs \<noteq> [] then [''RRC in #'' @ Join rs '', #''] else []) @
           (if member then [''LXMF group''] else []) @ (if 0 < i_LastSeen r then [''seen '' @ seen] else [])
     in say (''  '' @ take 8 (hexID (i_ID r)) @ '' '' @ dash @ '' '' @ Join notes ('' '' @ middot @ '' '')))))"

definition unseen_identity :: "ident \<Rightarrow> identity_row" where
  "unseen_identity i = \<lparr>i_ID = i, i_PublicKey = None, i_FirstSeen = 0, i_LastSeen = 0, i_LXMFMode = LXMFOn, i_LXMFMine = False,
     i_Person = 0, i_PersonSince = 0\<rparr>"

definition list_devices :: "cmd \<Rightarrow> Person \<Rightarrow> unit hm" where
  "list_devices c p = bnd (query (PersonIdentities (ps_PersonID p))) (\<lambda>rows.
     let ids = (if rows = [] then [unseen_identity (ps_Identity p)] else rows) in
     seq (say (ps_Name p @ '' has '' @ plural (int (length ids)) ''app'' @ '':''))
     (seq (each (device_line c) ids)
     (if 1 < length ids then say (''/unlink '' @ take 4 (hexID (i_ID (last ids))) @ '' takes one out.'')
      else if ps_PersonID p = ps_PersonID (cm_me c) then say ''/link gives a code to link another app.''
      else ret ())))"

definition cmdDevices :: "cmd \<Rightarrow> string list \<Rightarrow> unit hm" where
  "cmdDevices c args = (case args of [] \<Rightarrow> list_devices c (cm_me c)
     | [a] \<Rightarrow> bnd (targetPerson c a ActDevicesOf) (\<lambda>p. case p of None \<Rightarrow> ret () | Some p \<Rightarrow> list_devices c p)
     | _ \<Rightarrow> usage c)"

definition own_app :: "(nat \<Rightarrow> nat) \<Rightarrow> Person \<Rightarrow> string \<Rightarrow> ident option" where
  "own_app ul me a = (let pre = ToLower ul (TrimPrefix a ''guest-'') in
     find (\<lambda>i. 4 \<le> length pre \<and> HasPrefix (hexID i) pre) (rev (ps_Identities me)))"

definition unlink :: "cmd \<Rightarrow> ident \<Rightarrow> unit hm" where
  "unlink c i = bnd (person i) (\<lambda>p. case may (cm_me c) ActUnlinkOther (Some p) of Inl e \<Rightarrow> fail (err_text e)
     | Inr _ \<Rightarrow>
       if \<not> Linked p then fail (ps_Name p @ '' ('' @ take 8 (hexID i) @ '') isn't linked to another app.'')
       else bnd (asks (\<lambda>h. isOwner (Admins (cfg h)) i)) (\<lambda>owner.
       if owner \<and> i \<noteq> cm_Identity c then fail ''That's a hub owner's own identity; only it can unlink itself.''
       else bnd (asks nowMS) (\<lambda>t. bnd (execR (UnlinkIdentity i t)) (\<lambda>_. bnd (person i) (\<lambda>now.
       seq (if ps_Name now \<noteq> ps_Name p then rename_after i (ps_Name p) (ps_Name now) else ret ())
       (seq (each (\<lambda>other. if other \<noteq> i \<and> other \<noteq> cm_Identity c
               then notice other (''App '' @ take 4 (hexID i) @ '' was unlinked from '' @ ps_Name p @ ''.'') else ret ()) (ps_Identities p))
       (seq (if i \<noteq> cm_Identity c then notice i (''This app was unlinked from '' @ ps_Name p @ '' and is '' @ ps_Name now @ '' now.'') else ret ())
       (seq (if RankMod \<le> ps_PersonRank p \<or> ps_PersonID (cm_me c) \<noteq> ps_PersonID p
             then exec' (Audit t (Some (cm_Identity c)) ''unlink'' (ps_Name p) (hexID i)) else ret ())
       (if i = cm_Identity c then say (''This app is no longer part of '' @ ps_Name p @ ''; you're '' @ ps_Name now @ '' here now.'')
        else say (''Unlinked '' @ take 8 (hexID i) @ '' from '' @ ps_Name p @ ''.''))))))))))"

definition cmdUnlink :: "cmd \<Rightarrow> string list \<Rightarrow> unit hm" where
  "cmdUnlink c args = (case args of [] \<Rightarrow> unlink c (cm_Identity c)
     | [a] \<Rightarrow> bnd (asks (\<lambda>h. ulower (env h))) (\<lambda>ul. case own_app ul (cm_me c) a of Some i \<Rightarrow> unlink c i
         | None \<Rightarrow> bnd (resolveOrFail a) (\<lambda>f. case f of None \<Rightarrow> ret () | Some i \<Rightarrow> unlink c i))
     | _ \<Rightarrow> usage c)"

section \<open>The settings page\<close>

record App =
  ap_Identity :: ident
  ap_LastSeen :: millis
  ap_RRC :: bool
  ap_LXMF :: bool
  ap_Via :: "Via option"
  ap_ExpiresAt :: millis

record LinkedApps_info =
  la_Apps :: "App list"
  la_Pending :: "App list"

definition LinkedApps :: "ident \<Rightarrow> LinkedApps_info hm" where
  "LinkedApps i = view (bnd (query (PersonOf i)) (\<lambda>p. case p of
     None \<Rightarrow> ret \<lparr>la_Apps = [\<lparr>ap_Identity = i, ap_LastSeen = 0, ap_RRC = False, ap_LXMF = False, ap_Via = None, ap_ExpiresAt = 0\<rparr>], la_Pending = []\<rparr>
   | Some p \<Rightarrow> asks (\<lambda>h. \<lparr>
       la_Apps = map (\<lambda>r. \<lparr>ap_Identity = i_ID r, ap_LastSeen = i_LastSeen r, ap_RRC = (roomsOf (i_ID r) h \<noteq> []),
           ap_LXMF = IsMember (i_ID r) (st h), ap_Via = None, ap_ExpiresAt = 0\<rparr>) (PersonIdentities (p_ID p) (st h)),
       la_Pending = map (\<lambda>lc. \<lparr>ap_Identity = the (lc_RedeemedBy lc), ap_LastSeen = 0, ap_RRC = False, ap_LXMF = False,
           ap_Via = lc_RedeemedVia lc, ap_ExpiresAt = lc_ExpiresAt lc\<rparr>) (PendingLinks (p_ID p) (nowMS h) (st h))\<rparr>)))"

section \<open>Every handler keeps the invariants\<close>

context plain_handler
begin

lemma notice_keeps [hub_keeps]: "keeps P (notice i t)"
  unfolding notice_def by (intro hub_keeps)

lemma keeps_link_limits [hub_keeps]:
  "keeps P (modify (\<lambda>h. h\<lparr>linkIssued := f h\<rparr>))" "keeps P (modify (\<lambda>h. h\<lparr>linkFailures := g h\<rparr>))"
  by (simp_all add: keeps_def modify_def P_linkIssued P_linkFailures)

lemma linkIssue_keeps [hub_keeps]: "keeps P (linkIssue c code)"
  unfolding linkIssue_def by (intro hub_keeps)

lemma link_keeps [hub_keeps]: "keeps P (link i target via)"
  unfolding link_def by (intro hub_keeps)

lemma linkRedeem_keeps [hub_keeps]: "keeps P (linkRedeem c code b)"
  unfolding linkRedeem_def redeem_valid_def badCode_def await_approval_def personByID_def by (intro hub_keeps)

lemma linkDecide_keeps [hub_keeps]: "keeps P (linkDecide c b who)"
  unfolding linkDecide_def by (intro hub_keeps)

lemma cmdLink_keeps [hub_keeps]: "keeps P (cmdLink code c args)"
  unfolding cmdLink_def by (intro hub_keeps)

lemma cmdDevices_keeps [hub_keeps]: "keeps P (cmdDevices c args)"
  unfolding cmdDevices_def list_devices_def device_line_def by (intro hub_keeps)

lemma cmdUnlink_keeps [hub_keeps]: "keeps P (cmdUnlink c args)"
  unfolding cmdUnlink_def unlink_def by (intro hub_keeps)

end

end
