(* ===== verification/HubModeration.thy ===== *)
theory HubModeration
  imports HubLinks
begin

text \<open>
  internal/hub/moderation.go: kicks, bans and their end, renames, ranks, the mod log and the removal of
  messages. Every command that acts on someone goes through \<open>targetPerson\<close> and so through the rank rule.
\<close>

section \<open>Putting someone out\<close>

definition forgetPresence :: "string \<Rightarrow> ident \<Rightarrow> unit hm" where
  "forgetPresence room i = bnd (asks (\<lambda>h. presence_at room i (presence h))) (\<lambda>e. case e of None \<Rightarrow> ret ()
     | Some e \<Rightarrow> seq (emit (PartedEvent room i (pe_name e) ViaRRC)) (after (AfterForget room i)))"

definition remove_app :: "Person \<Rightarrow> string \<Rightarrow> bool \<Rightarrow> ident \<Rightarrow> unit hm" where
  "remove_app target why banned i = bnd (execR' (RemoveMember i)) (\<lambda>wasMember.
     seq (if wasMember then emit (GroupEvent i (ps_Name target) False) else ret ())
     (bnd (asks (roomsOf i)) (\<lambda>rs.
     seq (each (\<lambda>room. seq (if \<not> banned then emit (RemovedEvent room i why) else ret ()) (forgetPresence room i)) rs)
     (seq (emit (NoticeEvent i '''' why wasMember)) (if banned then emit (BannedEvent i why) else ret ())))))"

definition removeEverywhere :: "Person \<Rightarrow> string \<Rightarrow> bool \<Rightarrow> unit hm" where
  "removeEverywhere target why banned =
     seq (each (remove_app target why banned) (ps_Identities target))
     (seq (unlinkAll (ps_Identity target))
     (seq (if ps_Claimed target then bnd (execR (ReleaseName (ps_Identity target))) (\<lambda>_.
             rename_after (ps_Identity target) (ps_Name target) (GuestName (ps_Identity target))) else ret ())
     (if ps_PersonRank target = RankMod \<or> ps_PersonRank target = RankAdmin
      then bnd (asks nowMS) (\<lambda>t. exec (SetRank (ps_Identity target) StoredMember None t)) else ret ())))"

definition with_reason :: "string \<Rightarrow> string" where
  "with_reason reason = (if reason \<noteq> '''' then '': '' @ reason else '''')"

definition cmdKick :: "cmd \<Rightarrow> string list \<Rightarrow> unit hm" where
  "cmdKick c args = (case args of [] \<Rightarrow> usage c
     | a # rest \<Rightarrow> bnd (targetPerson c a ActKick) (\<lambda>t. case t of None \<Rightarrow> ret ()
       | Some target \<Rightarrow> bnd (asks (\<lambda>h. HubName (cfg h))) (\<lambda>hub.
         let reason = Join rest '' '';
             why = ''You were kicked from '' @ hub @ '' by '' @ ps_Name (cm_me c) @ with_reason reason @
               ''. Your name is free again; you can come back as a guest.'' in
         seq (removeEverywhere target why False) (seq (Audit_now (Some (cm_Identity c)) ''kick'' (ps_Name target) reason)
         (say (''Kicked '' @ ps_Name target @ ''. Their name is free.''))))))"

definition isLegacyRoomKick :: "string list \<Rightarrow> bool hm" where
  "isLegacyRoomKick args = (case args of [a, b] \<Rightarrow> if HasPrefix a ''#'' then ret True
       else bnd (bare_room a) (\<lambda>r. if r = None then ret False
         else (\<lambda>h. case resolve b h of (Inl _, h') \<Rightarrow> (Inr False, h') | (Inr _, h') \<Rightarrow> (Inr True, h')))
     | _ \<Rightarrow> ret False)"

section \<open>Bans\<close>

text \<open>The pattern \<^verbatim>\<open>^(\d{1,4})([mhd])$\<close> on the lower-cased word.\<close>

definition parseBanLength :: "(nat \<Rightarrow> nat) \<Rightarrow> string \<Rightarrow> int option" where
  "parseBanLength ul s0 = (if EqualFold s0 ''perm'' then Some 0
     else let s = ToLower ul s0; ds = butlast s in
       if s = '''' \<or> ds = '''' \<or> 4 < length ds then None
       else case digits_val 0 ds of None \<Rightarrow> None
         | Some n \<Rightarrow> if n = 0 then None
             else if last s = CHR ''m'' then Some (n * minute_ns) else if last s = CHR ''h'' then Some (n * hour_ns)
             else if last s = CHR ''d'' then Some (n * day_ns) else None)"

definition isListOp :: "(nat \<Rightarrow> nat) \<Rightarrow> string \<Rightarrow> bool" where
  "isListOp ul s \<longleftrightarrow> ToLower ul s \<in> {''add'', ''del'', ''list''}"

definition isLegacyRoomBan :: "(nat \<Rightarrow> nat) \<Rightarrow> string list \<Rightarrow> bool" where
  "isLegacyRoomBan ul args = (case args of [] \<Rightarrow> False | a # rest \<Rightarrow> isListOp ul a \<or> (case rest of [] \<Rightarrow> False | b # _ \<Rightarrow> isListOp ul b))"

definition ban_length :: "(nat \<Rightarrow> nat) \<Rightarrow> string list \<Rightarrow> int \<times> string list" where
  "ban_length ul rest = (case rest of [] \<Rightarrow> (0, [])
     | w # ws \<Rightarrow> (case parseBanLength ul w of Some d \<Rightarrow> (d, ws) | None \<Rightarrow> (0, rest)))"

text \<open>The part of cmdBan after the target and the length are known.\<close>

definition ban_person :: "cmd \<Rightarrow> Person \<Rightarrow> string \<Rightarrow> millis \<Rightarrow> string \<Rightarrow> unit hm" where
  "ban_person c target reason expires until = bnd (asks (\<lambda>h. (HubName (cfg h), nowMS h))) (\<lambda>(hub, ms).
     let why = ''You were banned from '' @ hub @ '' by '' @ ps_Name (cm_me c) @ '', '' @ until @ with_reason reason @ ''.'' in
     seq (each (\<lambda>i. exec (AddBan \<lparr>b_Identity = i, b_Name = ps_Name target, b_Reason = reason, b_BannedBy = Some (cm_Identity c),
           b_BannedAt = ms, b_ExpiresAt = expires\<rparr>)) (ps_Identities target))
     (seq (removeEverywhere target why True)
     (seq (Audit_now (Some (cm_Identity c)) ''ban'' (ps_Name target) (until @ with_reason reason))
     (say (''Banned '' @ ps_Name target @ '' ('' @ plural (int (length (ps_Identities target))) ''app'' @ ''), '' @ until @
       ''. Their name is free.'')))))"

definition ban_until :: "int \<Rightarrow> (millis \<times> string) hm" where
  "ban_until length_ns = asks (\<lambda>h. if 0 < length_ns then (let e = nowMS h + length_ns div 1000000 in (e, ''until '' @ clock h e)) else (0, ''for good''))"

definition cmdBan :: "cmd \<Rightarrow> string list \<Rightarrow> unit hm" where
  "cmdBan c args = (case args of [] \<Rightarrow> usage c
     | a # rest0 \<Rightarrow> bnd (targetPerson c a ActBan) (\<lambda>t. case t of None \<Rightarrow> ret ()
       | Some target \<Rightarrow> bnd (asks (\<lambda>h. ban_length (ulower (env h)) rest0)) (\<lambda>(length_ns, rest).
         bnd (ban_until length_ns) (\<lambda>(expires, until). ban_person c target (Join rest '' '') expires until))))"

text \<open>Which bans /unban lifts: those of the name with the same skeleton, else those of the identity named.\<close>

definition bans_named :: "env \<Rightarrow> string \<Rightarrow> ban list \<Rightarrow> ban list" where
  "bans_named v token bs = (case CleanName v token of Inl _ \<Rightarrow> []
     | Inr (_, sk) \<Rightarrow> filter (\<lambda>b. b_Name b \<noteq> '''' \<and> (case CleanName v (b_Name b) of Inl _ \<Rightarrow> False | Inr (_, bsk) \<Rightarrow> bsk = sk)) bs)"

definition ban_name :: "ban \<Rightarrow> string" where
  "ban_name b = (if b_Name b = '''' then take 8 (hexID (b_Identity b)) else b_Name b)"

definition lift_bans :: "cmd \<Rightarrow> ban list \<Rightarrow> unit hm" where
  "lift_bans c bs = seq (each (\<lambda>b. bnd (execR' (RemoveBan (b_Identity b))) (\<lambda>_. ret ())) bs)
     (let name = ban_name (hd bs) in seq (Audit_now (Some (cm_Identity c)) ''unban'' name '''')
       (say (''Unbanned '' @ name @ '' ('' @ plural (int (length bs)) ''app'' @ '').'')))"

definition cmdUnban :: "cmd \<Rightarrow> string list \<Rightarrow> unit hm" where
  "cmdUnban c args = (case args of [token] \<Rightarrow> (case may (cm_me c) ActUnban None of Inl e \<Rightarrow> fail (err_text e)
       | Inr _ \<Rightarrow> bnd (query Bans) (\<lambda>bs. bnd (asks env) (\<lambda>v.
         case bans_named v token bs of b # bs1 \<Rightarrow> lift_bans c (b # bs1)
         | [] \<Rightarrow> bnd (resolveOrFail token) (\<lambda>f. case f of None \<Rightarrow> ret ()
           | Some i \<Rightarrow> (case filter (\<lambda>b. b_Identity b = i) bs of [] \<Rightarrow> fail (token @ '' isn't banned.'')
               | b # bs1 \<Rightarrow> lift_bans c (b # bs1))))))
     | _ \<Rightarrow> usage c)"

text \<open>One line per ban, however many apps it covers.\<close>

definition ban_group_key :: "ban \<Rightarrow> string" where
  "ban_group_key b = (if b_Name b = '''' then hexID (b_Identity b)
     else b_Name b @ ''|'' @ itoa (b_BannedAt b) @ ''|'' @ hexID (case b_BannedBy b of None \<Rightarrow> '''' | Some i \<Rightarrow> i))"

definition ban_groups :: "ban list \<Rightarrow> (ban \<times> nat) list" where
  "ban_groups bs = map snd (fold (\<lambda>b. upsert fst (\<lambda>_ old. (fst old, fst (snd old), snd (snd old) + 1)) (ban_group_key b, b, 1)) bs [])"

definition ban_line :: "ban \<times> nat \<Rightarrow> unit hm" where
  "ban_line g = (case g of (b, apps) \<Rightarrow>
     bnd (case b_BannedBy b of None \<Rightarrow> ret ''the hub'' | Some i \<Rightarrow> displayName i) (\<lambda>by_name. bnd (asks clock) (\<lambda>ck.
     say (''  '' @ ban_name b @ '' ('' @ plural (int apps) ''app'' @ '')'' @
       (if b_Reason b \<noteq> '''' then '' '' @ dash @ '' '' @ b_Reason b else '''') @ '' '' @ dash @ '' by '' @ by_name @ '', '' @ ck (b_BannedAt b) @
       (if b_ExpiresAt b \<noteq> 0 then '', until '' @ ck (b_ExpiresAt b) else ''''))))) "

definition cmdBans :: "cmd \<Rightarrow> string list \<Rightarrow> unit hm" where
  "cmdBans c args = (if args \<noteq> [] then usage c else case may (cm_me c) ActListBans None of Inl e \<Rightarrow> fail (err_text e)
     | Inr _ \<Rightarrow> bnd (query Bans) (\<lambda>bs. if bs = [] then say ''Nobody is banned.''
         else let gs = ban_groups bs in seq (say (''Banned ('' @ itoa (int (length gs)) @ ''):'')) (each ban_line gs)))"

definition kline_verb :: "cmd \<Rightarrow> string \<Rightarrow> string list \<Rightarrow> unit hm" where
  "kline_verb c op rest = (if op = ''add'' then cmdBan c rest else if op = ''del'' then cmdUnban c rest else cmdBans c rest)"

definition kline_hint :: "string \<Rightarrow> string list \<Rightarrow> unit hm" where
  "kline_hint op rest = bnd (asks (\<lambda>h. Reply_Error (reply h))) (\<lambda>bad. if bad then ret ()
     else say (''(next time: /'' @ (if op = ''add'' then ''ban'' else if op = ''del'' then ''unban'' else ''bans'') @
       TrimRightSet ('' '' @ Join rest '' '') '' '' @ '')''))"

definition cmdKline :: "cmd \<Rightarrow> string list \<Rightarrow> unit hm" where
  "cmdKline c args = bnd (asks (\<lambda>h. ulower (env h))) (\<lambda>ul. case args of
     [] \<Rightarrow> fail ''usage: /kline add|del|list [name|hashprefix|hash]''
   | a # rest \<Rightarrow> if \<not> isListOp ul a then fail ''usage: /kline add|del|list [name|hashprefix|hash]''
       else seq (kline_verb c (ToLower ul a) rest) (kline_hint (ToLower ul a) rest))"

text \<open>liftExpiredBans: the audit log gets one line per name.\<close>

fun lift_expired :: "millis \<Rightarrow> string list \<Rightarrow> ban list \<Rightarrow> unit hm" where
  "lift_expired t lifted [] = ret ()"
| "lift_expired t lifted (b # bs) = bnd (execR' (RemoveBan (b_Identity b))) (\<lambda>_.
     seq (if ban_name b \<in> set lifted then ret () else exec' (Audit t None ''unban'' (ban_name b) ''the ban ran out''))
     (lift_expired t (ban_name b # lifted) bs))"

definition liftExpiredBans :: "millis \<Rightarrow> unit hm" where
  "liftExpiredBans t = bnd (query (ExpiredBans t)) (lift_expired t [])"

section \<open>Names and ranks\<close>

definition first_sentence :: "string \<Rightarrow> string" where
  "first_sentence t = (case find (\<lambda>n. HasPrefix (drop n t) ''. '') [0..<length t] of None \<Rightarrow> t | Some n \<Rightarrow> take n t)"

definition cmdRename :: "cmd \<Rightarrow> string list \<Rightarrow> unit hm" where
  "cmdRename c args = (case args of [who, want] \<Rightarrow> bnd (targetPerson c who ActRename) (\<lambda>t. case t of None \<Rightarrow> ret ()
       | Some target \<Rightarrow> catchUE (bnd (claimName (ps_Identity target) want) (\<lambda>now.
           seq (each (\<lambda>i. notice i (ps_Name (cm_me c) @ '' renamed you from '' @ ps_Name target @ '' to '' @ ps_Name now @ ''.'')) (ps_Identities target))
           (seq (Audit_now (Some (cm_Identity c)) ''rename'' (ps_Name target) (ps_Name now))
           (say (''Renamed '' @ ps_Name target @ '' to '' @ ps_Name now @ ''.'')))))
         (\<lambda>text. fail (first_sentence text @ ''.'')))
     | _ \<Rightarrow> usage c)"

definition cmdMakeRank :: "cmd \<Rightarrow> Rank \<Rightarrow> Action \<Rightarrow> string list \<Rightarrow> unit hm" where
  "cmdMakeRank c r action args = (case args of [who] \<Rightarrow> bnd (targetPerson c who action) (\<lambda>t. case t of None \<Rightarrow> ret ()
       | Some target \<Rightarrow> if ps_PersonRank target = r then fail (ps_Name target @ '' is already '' @ article r @ ''.'')
         else bnd (asks (\<lambda>h. (nowMS h, HubName (cfg h)))) (\<lambda>(ms, hub).
           seq (exec (SetRank (ps_Identity target) (stored r) (Some (cm_Identity c)) ms))
           (seq (each (\<lambda>i. notice i (ps_Name (cm_me c) @ '' made you '' @ article r @ '' of '' @ hub @ ''. /help shows what you can do now.'')) (ps_Identities target))
           (seq (Audit_now (Some (cm_Identity c)) (Rank_String r) (ps_Name target) '''')
           (say (ps_Name target @ '' is '' @ article r @ '' now.''))))))
     | _ \<Rightarrow> usage c)"

definition cmdMod :: "cmd \<Rightarrow> string list \<Rightarrow> unit hm" where
  "cmdMod c args = cmdMakeRank c RankMod ActMakeMod args"

definition cmdAdmin :: "cmd \<Rightarrow> string list \<Rightarrow> unit hm" where
  "cmdAdmin c args = cmdMakeRank c RankAdmin ActMakeAdmin args"

definition cmdDemote :: "cmd \<Rightarrow> string list \<Rightarrow> unit hm" where
  "cmdDemote c args = (case args of [who] \<Rightarrow> bnd (targetPerson c who ActDemote) (\<lambda>t. case t of None \<Rightarrow> ret ()
       | Some target \<Rightarrow> if ps_PersonRank target = RankMember then fail (ps_Name target @ '' has no role to take away.'')
         else bnd (asks nowMS) (\<lambda>ms. seq (exec (SetRank (ps_Identity target) StoredMember None ms))
           (seq (each (\<lambda>i. notice i (ps_Name (cm_me c) @ '' took away your '' @ Rank_String (ps_PersonRank target) @ '' role.'')) (ps_Identities target))
           (seq (Audit_now (Some (cm_Identity c)) ''demote'' (ps_Name target) (Rank_String (ps_PersonRank target)))
           (say (ps_Name target @ '' is a member again.''))))))
     | _ \<Rightarrow> usage c)"

section \<open>The mod log\<close>

definition modlog_line :: "audit_row \<Rightarrow> unit hm" where
  "modlog_line e = bnd (case au_Actor e of None \<Rightarrow> ret ''the hub'' | Some i \<Rightarrow> displayName i) (\<lambda>by_name. bnd (asks clock) (\<lambda>ck.
     say (''  '' @ ck (au_At e) @ '' '' @ middot @ '' '' @ by_name @ '' '' @ middot @ '' '' @ au_Action e @
       (if au_Target e \<noteq> '''' then '' '' @ au_Target e else '''') @ (if au_Detail e \<noteq> '''' then '' '' @ dash @ '' '' @ au_Detail e else ''''))))"

definition modlog_count :: "string list \<Rightarrow> int option" where
  "modlog_count args = (case args of [] \<Rightarrow> Some 10
     | [a] \<Rightarrow> (case Atoi a of None \<Rightarrow> None | Some v \<Rightarrow> if v \<le> 0 then None else Some (min v 50)) | _ \<Rightarrow> None)"

definition cmdModlog :: "cmd \<Rightarrow> string list \<Rightarrow> unit hm" where
  "cmdModlog c args = (if 1 < length args then usage c else case may (cm_me c) ActModlog None of Inl e \<Rightarrow> fail (err_text e)
     | Inr _ \<Rightarrow> (case modlog_count args of None \<Rightarrow> usage c
       | Some n \<Rightarrow> bnd (query (AuditLog n)) (\<lambda>es. if es = [] then say ''The mod log is empty.''
           else seq (say (''The last '' @ plural (int (length es)) ''action'' @ '', newest first:'')) (each modlog_line es))))"

section \<open>Removing messages\<close>

definition deleteMessages :: "Person \<Rightarrow> Person \<Rightarrow> message list \<Rightarrow> unit hm" where
  "deleteMessages actor target msgs = bnd (execR' (DeleteMessages (map m_ID msgs))) (\<lambda>cancelled.
     let room = m_Room (hd msgs); what = (if 1 < length msgs then itoa (int (length msgs)) @ '' messages'' else ''message'') in
     seq (if ps_PersonID actor = ps_PersonID target
          then emit (RoomNoticeEvent room (ps_Name target @ '' removed their last '' @ what @ ''.''))
          else emit (RoomNoticeEvent room (ps_Name target @ '''s last '' @ what @ '' removed by '' @ ps_Name actor @ ''.'')))
     (bnd (asks env) (\<lambda>v.
     let body = m_Body (last msgs);
         excerpt = (if 60 < length body then toValidUTF8 v (take 60 body) @ [CHR 0xE2, CHR 0x80, CHR 0xA6] else body) in
     seq (Audit_now (Some (ps_Identity actor)) ''delete'' (ps_Name target) (what @ '' in #'' @ room @ '': '' @ quote v excerpt))
     (seq (say (''Removed '' @ ps_Name target @ '''s last '' @ what @ '' in #'' @ room @
           '' from history and the chat page. Copies already delivered stay in people's apps.''))
     (if 0 < cancelled then say (plural (int cancelled) ''copy'' @ '' by LXMF not sent yet won't be.'') else ret ())))))"

definition delete_count :: "string list \<Rightarrow> int option" where
  "delete_count rest = (case rest of [] \<Rightarrow> Some 1 | a # _ \<Rightarrow> (case Atoi a of None \<Rightarrow> None | Some v \<Rightarrow> if v < 1 \<or> 20 < v then None else Some v))"

definition cmdDelete :: "cmd \<Rightarrow> string list \<Rightarrow> unit hm" where
  "cmdDelete c args = (case args of [] \<Rightarrow> usage c
     | a # rest \<Rightarrow> if 1 < length rest then usage c
       else case delete_count rest of None \<Rightarrow> fail ''usage: /delete <name> [n], with n from 1 to 20''
       | Some n \<Rightarrow> bnd (targetPerson c a ActDelete) (\<lambda>t. case t of None \<Rightarrow> ret ()
         | Some target \<Rightarrow> bnd (here c) (\<lambda>room. bnd (query (LatestMessagesByPerson (ps_PersonID target) room n)) (\<lambda>msgs.
             if msgs = [] then fail (ps_Name target @ '' has no messages in #'' @ room @ '' to remove.'')
             else deleteMessages (cm_me c) target msgs))))"

text \<open>The replies of Command and DeleteMessage: a refusal becomes the reply, the error stays internal.\<close>

definition with_reply :: "unit hm \<Rightarrow> Reply hm" where
  "with_reply m h0 = (case update (seq (modify (\<lambda>h. h\<lparr>reply := no_reply\<rparr>)) m) h0 of
     (Inr _, h) \<Rightarrow> (Inr (reply h), h)
   | (Inl (UserError t), h) \<Rightarrow> (Inr (no_reply\<lparr>Lines := [t], Reply_Error := True\<rparr>), h)
   | (Inl e, h) \<Rightarrow> (Inl e, h))"

definition delete_one :: "ident \<Rightarrow> int \<Rightarrow> unit hm" where
  "delete_one actor k = seq (checkHubBan actor) (bnd (person actor) (\<lambda>me. bnd (query (Message k)) (\<lambda>found. case found of
       None \<Rightarrow> refuse ''That message is already gone.''
     | Some m \<Rightarrow> bnd (person (m_Author m)) (\<lambda>target. case may me ActDelete (Some target) of Inl e \<Rightarrow> thr e
         | Inr _ \<Rightarrow> deleteMessages me target [m]))))"

definition DeleteMessage :: "ident \<Rightarrow> int \<Rightarrow> Reply hm" where
  "DeleteMessage actor k = with_reply (delete_one actor k)"

section \<open>Every handler keeps the invariants\<close>

context plain_handler
begin

lemma keeps_reply [hub_keeps]: "keeps P (modify (\<lambda>h. h\<lparr>reply := f h\<rparr>))"
  by (simp add: keeps_def modify_def P_reply)

lemma removeEverywhere_keeps [hub_keeps]: "keeps P (removeEverywhere target why banned)"
  unfolding removeEverywhere_def remove_app_def forgetPresence_def by (intro hub_keeps)

lemma cmdKick_keeps [hub_keeps]: "keeps P (cmdKick c args)"
  unfolding cmdKick_def by (intro hub_keeps)

lemma isLegacyRoomKick_keeps [hub_keeps]: "keeps P (isLegacyRoomKick args)"
proof -
  have "keeps P (\<lambda>h. case resolve b h of (Inl _, h') \<Rightarrow> (Inr False, h') | (Inr _, h') \<Rightarrow> (Inr True, h'))" for b
    using resolve_keeps [of b] by (auto simp: keeps_def split: prod.splits sum.splits)
  then show ?thesis unfolding isLegacyRoomKick_def bare_room_def by (intro hub_keeps)
qed

lemma cmdBan_keeps_if: "(\<And>b. keeps P (exec (AddBan b))) \<Longrightarrow> keeps P (cmdBan c args)"
  unfolding cmdBan_def ban_person_def ban_until_def by (intro hub_keeps)

lemma cmdUnban_keeps [hub_keeps]: "keeps P (cmdUnban c args)"
  unfolding cmdUnban_def lift_bans_def by (intro hub_keeps)

lemma cmdBans_keeps [hub_keeps]: "keeps P (cmdBans c args)"
  unfolding cmdBans_def ban_line_def by (intro hub_keeps)

lemma cmdKline_keeps_if: "(\<And>args. keeps P (cmdBan c args)) \<Longrightarrow> keeps P (cmdKline c args)"
  unfolding cmdKline_def kline_verb_def kline_hint_def by (intro hub_keeps)

lemma liftExpiredBans_keeps [hub_keeps]: "keeps P (liftExpiredBans t)"
proof -
  have "keeps P (lift_expired t lifted bs)" for lifted bs
    by (induction bs arbitrary: lifted) (auto intro!: hub_keeps)
  then show ?thesis unfolding liftExpiredBans_def by (intro hub_keeps)
qed

lemma cmdRename_keeps [hub_keeps]: "keeps P (cmdRename c args)"
  unfolding cmdRename_def by (intro hub_keeps)

lemma cmdMakeRank_keeps [hub_keeps]: "keeps P (cmdMakeRank c r action args)"
  unfolding cmdMakeRank_def by (intro hub_keeps)

lemma rank_commands_keep [hub_keeps]: "keeps P (cmdMod c args)" "keeps P (cmdAdmin c args)" "keeps P (cmdDemote c args)"
  unfolding cmdMod_def cmdAdmin_def cmdDemote_def by (intro hub_keeps)+

lemma cmdModlog_keeps [hub_keeps]: "keeps P (cmdModlog c args)"
  unfolding cmdModlog_def modlog_line_def by (intro hub_keeps)

lemma deleteMessages_keeps [hub_keeps]: "keeps P (deleteMessages actor target msgs)"
  unfolding deleteMessages_def by (intro hub_keeps)

lemma delete_commands_keep [hub_keeps]: "keeps P (cmdDelete c args)" "keeps P (delete_one i k)"
  unfolding cmdDelete_def delete_one_def by (intro hub_keeps)+

end

context hub_handler
begin

lemma cmdBan_keeps [hub_keeps]: "keeps P (cmdBan c args)" "keeps P (cmdKline c args)"
  by (intro cmdBan_keeps_if cmdKline_keeps_if hub_keeps)+

end

end
