(* ===== verification/HubMaintain.thy ===== *)
theory HubMaintain
  imports HubModeration
begin

text \<open>
  internal/hub/deliveries.go and maintain.go: the LXMF deliveries that are due and what an attempt did to
  one, and the housekeeping the hub does every minute.
\<close>

section \<open>Deliveries\<close>

datatype DeliveryOutcome = Delivered | RetryAt | GaveUp

record PendingDelivery =
  pd_Delivery :: delivery
  pd_Message :: message
  pd_Whisper :: "whisper option"
  pd_AwayUntil :: millis

definition away_until :: "ident \<Rightarrow> db \<Rightarrow> millis" where
  "away_until i d = (case find (\<lambda>m. gm_Identity m = i) (rev (Members d)) of None \<Rightarrow> 0 | Some m \<Rightarrow> gm_AwayUntil m)"

definition pending_of :: "db \<Rightarrow> delivery \<Rightarrow> PendingDelivery option" where
  "pending_of d x = (if dl_Whisper x
     then (case Whisper (dl_MessageID x) d of None \<Rightarrow> None
       | Some w \<Rightarrow> Some \<lparr>pd_Delivery = x, pd_Message = no_message, pd_Whisper = Some w, pd_AwayUntil = away_until (dl_Identity x) d\<rparr>)
     else (case Message (dl_MessageID x) d of None \<Rightarrow> None
       | Some m \<Rightarrow> Some \<lparr>pd_Delivery = x, pd_Message = m, pd_Whisper = None, pd_AwayUntil = away_until (dl_Identity x) d\<rparr>))"

definition hub_DueDeliveries :: "int \<Rightarrow> PendingDelivery list hm" where
  "hub_DueDeliveries limit = view (asks (\<lambda>h. List.map_filter (pending_of (st h)) (DueDeliveries (nowMS h) limit (st h))))"

definition LXMFLine :: "message \<Rightarrow> string" where
  "LXMFLine m = (if m_Kind m = KindAction then ''* '' @ m_AuthorName m @ '' '' @ m_Body m else m_AuthorName m @ '': '' @ m_Body m)"

definition WhisperText :: "whisper \<Rightarrow> string" where
  "WhisperText w = w_FromName w @ '' whispers: '' @ w_Body w"

definition PendingDelivery_Text :: "PendingDelivery \<Rightarrow> string" where
  "PendingDelivery_Text p = (case pd_Whisper p of Some w \<Rightarrow> WhisperText w | None \<Rightarrow> LXMFLine (pd_Message p))"

definition PendingDelivery_SaidAt :: "PendingDelivery \<Rightarrow> millis" where
  "PendingDelivery_SaidAt p = (case pd_Whisper p of Some w \<Rightarrow> w_SaidAt w | None \<Rightarrow> m_HubAt (pd_Message p))"

definition after_attempt :: "DeliveryOutcome \<Rightarrow> bool \<Rightarrow> millis \<Rightarrow> millis \<Rightarrow> delivery \<Rightarrow> delivery" where
  "after_attempt outcome propagated retryAt now x = (let x = x\<lparr>dl_UpdatedAt := now\<rparr> in case outcome of
     Delivered \<Rightarrow> x\<lparr>dl_State := if propagated then DeliveryPropagated else DeliveryProven\<rparr>
   | RetryAt \<Rightarrow> x\<lparr>dl_State := DeliveryQueued, dl_NextAt := retryAt\<rparr>
   | GaveUp \<Rightarrow> x\<lparr>dl_State := DeliveryFailed\<rparr>)"

text \<open>awayUntil is \<open>None\<close> for Go's zero time.\<close>

definition record_delivery :: "delivery \<Rightarrow> DeliveryOutcome \<Rightarrow> bool \<Rightarrow> millis \<Rightarrow> millis option \<Rightarrow> unit hm" where
  "record_delivery x outcome propagated retryAt awayUntil = bnd (asks nowMS) (\<lambda>t.
     seq (exec (PutDelivery (after_attempt outcome propagated retryAt t x)))
     (case awayUntil of Some u \<Rightarrow> exec' (SetAway (dl_Identity x) u)
      | None \<Rightarrow> if outcome = Delivered \<and> \<not> propagated then exec' (SetAway (dl_Identity x) 0) else ret ()))"

definition RecordDelivery :: "delivery \<Rightarrow> DeliveryOutcome \<Rightarrow> bool \<Rightarrow> millis \<Rightarrow> millis option \<Rightarrow> unit hm" where
  "RecordDelivery x outcome propagated retryAt awayUntil = update (record_delivery x outcome propagated retryAt awayUntil)"

section \<open>Housekeeping\<close>

definition WhisperRetention :: int where
  "WhisperRetention = 7 * day_ns"

definition prunable :: "hub \<Rightarrow> room \<Rightarrow> bool" where
  "prunable h r \<longleftrightarrow> \<not> (isDefaultRoom (cfg h) (rm_Name r) \<or> (\<exists>e\<in>set (presence h). pe_Room e = rm_Name r) \<or>
     (now_ns h - PruneRoomsAfter (cfg h)) div 1000000 \<le> rm_LastUsed r)"

definition pruneRooms :: "unit hm" where
  "pruneRooms = bnd (query Rooms) (\<lambda>rs. each (\<lambda>r. bnd (asks (\<lambda>h. prunable h r)) (\<lambda>p. if p
     then seq (exec' (DeleteRoom (rm_Name r))) (Audit_now None ''prune-room'' (rm_Name r) ''unused'') else ret ())) rs)"

definition maintain_store :: "unit hm" where
  "maintain_store = bnd (asks now_ns) (\<lambda>t. bnd (asks cfg) (\<lambda>c.
     seq (exec' (PruneMessages ((t - Retention c) div 1000000)))
     (seq (exec' (PruneInvites (t div 1000000)))
     (seq (exec' (FinishDeliveries ((t - day_ns) div 1000000)))
     (seq (exec' (PruneLinkCodes (t div 1000000)))
     (seq (liftExpiredBans (t div 1000000))
     (seq (exec' (PruneWhispers ((t - WhisperRetention) div 1000000))) pruneRooms)))))))"

text \<open>The limits of people who have been quiet long enough are forgotten.\<close>

definition expire_limits :: "hub \<Rightarrow> hub" where
  "expire_limits h = (let t = now_ns h in h\<lparr>
     rate := (\<lambda>k. case rate h k of None \<Rightarrow> None | Some b \<Rightarrow> if minute_ns < t - bk_at b then None else Some b),
     historyAt := (\<lambda>k. case historyAt h k of None \<Rightarrow> None | Some a \<Rightarrow> if HistoryCooldown (cfg h) < t - a then None else Some a),
     linkIssued := (\<lambda>k. case linkIssued h k of None \<Rightarrow> None | Some ts \<Rightarrow> if takeRecent ts t hour_ns = [] then None else Some ts),
     linkFailures := (\<lambda>k. case linkFailures h k of None \<Rightarrow> None | Some ts \<Rightarrow> if takeRecent ts t linkLockout = [] then None else Some ts)\<rparr>)"

text \<open>maintain never fails: an error of one of the two transactions is logged.\<close>

definition maintain :: "hub \<Rightarrow> hub" where
  "maintain h = expire_limits (snd (storeUpdate maintain_store (snd (saveAllCursors h))))"

context plain_handler
begin

lemma record_delivery_keeps [hub_keeps]: "keeps P (record_delivery x outcome propagated retryAt awayUntil)"
  unfolding record_delivery_def by (intro hub_keeps)

lemma pruneRooms_keeps [hub_keeps]: "keeps P pruneRooms"
  unfolding pruneRooms_def by (intro hub_keeps)

lemma maintain_store_keeps [hub_keeps]: "keeps P maintain_store"
  unfolding maintain_store_def by (intro hub_keeps)

lemma keeps_storeUpdate [hub_keeps]: "keeps P m \<Longrightarrow> keeps P (storeUpdate m)"
  by (auto simp: keeps_def storeUpdate_def split: prod.splits sum.splits) (metis P_back snd_conv)

lemma saveAllCursors_keeps [hub_keeps]: "keeps P saveAllCursors"
  unfolding saveAllCursors_def by (intro hub_keeps)

lemma ensureDefaultRooms_keeps [hub_keeps]: "keeps P ensureDefaultRooms"
  unfolding ensureDefaultRooms_def by (intro hub_keeps)

lemma maintain_keeps: "P h \<Longrightarrow> P (maintain h)"
proof -
  assume "P h"
  then have "P (snd (storeUpdate maintain_store (snd (saveAllCursors h))))"
    using saveAllCursors_keeps keeps_storeUpdate [OF maintain_store_keeps] by (simp add: keeps_def)
  then show "P (maintain h)"
    unfolding maintain_def expire_limits_def Let_def
    by (intro P_rate P_historyAt P_linkIssued P_linkFailures) (auto simp: fair_limits_def buckets_ok_def split: option.splits if_splits)
qed

end

end
