(* ===== verification/HubWhispers.thy ===== *)
theory HubWhispers
  imports HubMaintain
begin

text \<open>
  internal/hub/whispers.go: messages to one person, and the people someone ignores.
\<close>

section \<open>Whispering\<close>

definition all_unbanned :: "ident list \<Rightarrow> db \<Rightarrow> bool" where
  "all_unbanned ids d \<longleftrightarrow> (\<forall>i\<in>set ids. \<not> IsBanned i d)"

definition queue_whisper :: "int \<Rightarrow> ident list \<Rightarrow> unit hm" where
  "queue_whisper k apps = bnd (asks nowMS) (\<lambda>t. each (\<lambda>i. bnd (query (IsMember i)) (\<lambda>m.
     if m then exec (PutDelivery (queued_delivery k True t i)) else ret ())) apps)"

definition send_whisper :: "cmd \<Rightarrow> Person \<Rightarrow> string \<Rightarrow> unit hm" where
  "send_whisper c to body = bnd (asks nowMS) (\<lambda>t.
     let w = \<lparr>w_ID = 0, w_From = cm_Identity c, w_FromName = ps_Name (cm_me c), w_ToPerson = ps_PersonID to, w_ToName = ps_Name to,
       w_Body = body, w_Via = cm_Via c, w_SaidAt = t, w_RRCAt = 0, w_ReadAt = 0\<rparr> in
     bnd (execR (AddWhisper w)) (\<lambda>k. bnd (asks (\<lambda>h. \<exists>i\<in>set (ps_Identities to). roomsOf i h \<noteq> [])) (\<lambda>onRRC.
     bnd (query (\<lambda>d. WhispersLXMF (ps_Prefs to) \<and> (\<exists>i\<in>set (ps_Identities to). IsMember i d))) (\<lambda>queued.
     seq (if WhispersLXMF (ps_Prefs to) then queue_whisper k (ps_Identities to) else ret ())
     (seq (emit (WhisperEvent (w\<lparr>w_ID := k\<rparr>) (ps_Identities to)))
     (let places = (if onRRC then [''on RRC now''] else []) @ (if queued then [''by LXMF''] else []) in
     if places = [] then say (''Whispered to '' @ ps_Name to @ ''. They'll see it when they're next on.'')
     else say (''Whispered to '' @ ps_Name to @ '' ('' @ Join places ''; '' @ '').'')))))))"

text \<open>Banned, ignoring the sender, or unknown: one answer, so a whisper never tells which.\<close>

definition whisper_reachable :: "Person \<Rightarrow> int \<Rightarrow> db \<Rightarrow> bool" where
  "whisper_reachable to from d \<longleftrightarrow>
     ps_PersonID to \<noteq> 0 \<and> all_unbanned (ps_Identities to) d \<and> \<not> IsIgnoring (ps_PersonID to) from d"

definition whisperTo :: "cmd \<Rightarrow> string \<Rightarrow> string \<Rightarrow> unit hm" where
  "whisperTo c token body0 = (let body = TrimSpace body0 in
     bnd (asks (\<lambda>h. MaxBodyBytes (cfg h))) (\<lambda>n.
     if \<not> ValidString body then fail ''Not whispered: the message is not valid text.''
     else if n < int (length body)
     then fail (''Not whispered: message too large: '' @ itoa (int (length body)) @ '' bytes > '' @ itoa n @ '' bytes'')
     else bnd (catchUE (bnd (resolve token) (\<lambda>i. ret (Some i))) (\<lambda>t. seq (fail t) (ret None))) (\<lambda>found. case found of None \<Rightarrow> ret ()
     | Some i \<Rightarrow> bnd (person i) (\<lambda>to.
       if ps_PersonID to \<noteq> 0 \<and> ps_PersonID to = ps_PersonID (cm_me c) then fail ''You can't whisper to yourself.''
       else bnd (query (whisper_reachable to (ps_PersonID (cm_me c)))) (\<lambda>reachable.
       if \<not> reachable then fail (not_found token)
       else if \<not> Whispers_pref (ps_Prefs to) then fail (ps_Name to @ '' isn't taking whispers.'')
       else bnd (allowPost (cm_Identity c)) (\<lambda>ok. if \<not> ok then fail ''Not whispered: rate limited'' else send_whisper c to body))))))"

definition cmdWhisper :: "cmd \<Rightarrow> string list \<Rightarrow> unit hm" where
  "cmdWhisper c args = (if length args < 2 then usage c else whisperTo c (hd args) (Join (tl args) '' ''))"

definition cmdReply :: "cmd \<Rightarrow> string list \<Rightarrow> unit hm" where
  "cmdReply c args = (if args = [] then usage c
     else bnd (query (LastWhisperTo (ps_PersonID (cm_me c)))) (\<lambda>w. case w of
       None \<Rightarrow> fail ''Nobody has whispered to you lately, so there's nobody to reply to.''
     | Some w \<Rightarrow> whisperTo c (hexID (w_From w)) (Join args '' '')))"

text \<open>MayNotifyDirect: a view, then the rate limit, outside any transaction.\<close>

definition may_notify :: "ident \<Rightarrow> ident \<Rightarrow> unit hm" where
  "may_notify from to = bnd (person to) (\<lambda>toP.
     if ps_PersonID toP = 0 then refuse ''destination not connected''
     else bnd (query (all_unbanned (ps_Identities toP))) (\<lambda>ok. if \<not> ok then refuse ''destination not connected''
     else bnd (person from) (\<lambda>fromP. bnd (query (IsIgnoring (ps_PersonID toP) (ps_PersonID fromP))) (\<lambda>ign.
       if ign \<or> \<not> Whispers_pref (ps_Prefs toP) then refuse ''destination not connected'' else ret ()))))"

definition MayNotifyDirect :: "ident \<Rightarrow> ident \<Rightarrow> unit hm" where
  "MayNotifyDirect from to = seq (view (may_notify from to))
     (bnd (allowPost from) (\<lambda>ok. if ok then ret () else refuse ''rate limited''))"

section \<open>Preferences and ignoring\<close>

definition isOnOff :: "string \<Rightarrow> bool" where
  "isOnOff s \<longleftrightarrow> EqualFold s ''on'' \<or> EqualFold s ''off''"

definition on_off :: "bool \<Rightarrow> string" where
  "on_off b = (if b then ''on'' else ''off'')"

definition set_whispers :: "cmd \<Rightarrow> prefs \<Rightarrow> string \<Rightarrow> unit hm" where
  "set_whispers c p text = seq (exec (SetPrefs (cm_Identity c) p)) (say text)"

definition cmdWhispers :: "cmd \<Rightarrow> string list \<Rightarrow> unit hm" where
  "cmdWhispers c args = (let p = ps_Prefs (cm_me c) in case args of
       [] \<Rightarrow> bnd (query (UnreadWhispers (ps_PersonID (cm_me c)))) (\<lambda>unread.
         say (''Whispers: '' @ on_off (Whispers_pref p) @ ''; to your LXMF app: '' @ on_off (WhispersLXMF p) @ ''. '' @
           plural (int unread) ''whisper'' @ '' unread on the chat page. Change it with /whispers on|off or /whispers lxmf on|off.''))
     | [a] \<Rightarrow> if \<not> isOnOff a then usage c
         else set_whispers c (p\<lparr>Whispers_pref := EqualFold a ''on''\<rparr>)
           (if EqualFold a ''on'' then ''Whispers are on: people can whisper to you.'' else ''Whispers are off: nobody can whisper to you.'')
     | [a, b] \<Rightarrow> if \<not> (EqualFold a ''lxmf'' \<and> isOnOff b) then usage c
         else set_whispers c (p\<lparr>WhispersLXMF := EqualFold b ''on''\<rparr>)
           (if EqualFold b ''on'' then ''Whispers will come to your LXMF app too, even while group delivery is off.''
            else ''Whispers won't come to your LXMF app; you'll see them on RRC and the chat page.'')
     | _ \<Rightarrow> usage c)"

definition cmdIgnore :: "cmd \<Rightarrow> string list \<Rightarrow> unit hm" where
  "cmdIgnore c args = (case args of [a] \<Rightarrow> bnd (resolveOrFail a) (\<lambda>found. case found of None \<Rightarrow> ret ()
       | Some i \<Rightarrow> bnd (person i) (\<lambda>them.
         if ps_PersonID them = ps_PersonID (cm_me c) \<or> ps_PersonID them = 0 then fail ''You can't ignore yourself.''
         else bnd (asks nowMS) (\<lambda>t. seq (exec (Ignore (ps_PersonID (cm_me c)) (ps_PersonID them) t))
           (say (''Ignoring '' @ ps_Name them @ '': their whispers won't reach you, and they aren't told. /unignore '' @ ps_Name them @ '' undoes it.'')))))
     | _ \<Rightarrow> usage c)"

definition cmdUnignore :: "cmd \<Rightarrow> string list \<Rightarrow> unit hm" where
  "cmdUnignore c args = (case args of [a] \<Rightarrow> bnd (resolveOrFail a) (\<lambda>found. case found of None \<Rightarrow> ret ()
       | Some i \<Rightarrow> bnd (person i) (\<lambda>them. bnd (execR' (Unignore (ps_PersonID (cm_me c)) (ps_PersonID them))) (\<lambda>removed.
         if \<not> removed then fail (''You weren't ignoring '' @ ps_Name them @ ''.'')
         else say (''No longer ignoring '' @ ps_Name them @ ''.''))))
     | _ \<Rightarrow> usage c)"

definition personName :: "int \<Rightarrow> string hm" where
  "personName k = bnd (query (PersonIdentities k)) (\<lambda>ids. case ids of [] \<Rightarrow> ret (''person '' @ itoa k) | r # _ \<Rightarrow> displayName (i_ID r))"

fun mapM :: "('x \<Rightarrow> 'y hm) \<Rightarrow> 'x list \<Rightarrow> 'y list hm" where
  "mapM f [] = ret []"
| "mapM f (x # xs) = bnd (f x) (\<lambda>y. bnd (mapM f xs) (\<lambda>ys. ret (y # ys)))"

definition cmdIgnored :: "cmd \<Rightarrow> string list \<Rightarrow> unit hm" where
  "cmdIgnored c args = (if args \<noteq> [] then usage c
     else bnd (query (Ignored (ps_PersonID (cm_me c)))) (\<lambda>ks. if ks = [] then say ''You aren't ignoring anyone.''
       else bnd (mapM personName ks) (\<lambda>ns. say (''Ignoring: '' @ Join ns '', '' @ ''.''))))"

section \<open>Delivery to RRC and the page's inbox\<close>

definition hub_UnsentRRCWhispers :: "ident \<Rightarrow> whisper list hm" where
  "hub_UnsentRRCWhispers i = view (query (\<lambda>d. case PersonOf i d of None \<Rightarrow> [] | Some p \<Rightarrow> UnsentRRCWhispers (p_ID p) d))"

definition WhisperSentRRC :: "int \<Rightarrow> unit hm" where
  "WhisperSentRRC k = update (bnd (asks nowMS) (\<lambda>t. exec' (MarkWhisperRRC k t)))"

record Ignored_person =
  ign_Name :: string
  ign_Identity :: ident

record WhisperInbox =
  wi_Whispers :: "whisper list"
  wi_Unread :: nat
  wi_Ignored :: "Ignored_person list"

definition ignored_entry :: "int \<Rightarrow> Ignored_person list hm" where
  "ignored_entry k = bnd (query (PersonIdentities k)) (\<lambda>ids. case ids of [] \<Rightarrow> ret []
     | r # _ \<Rightarrow> bnd (displayName (i_ID r)) (\<lambda>name. ret [\<lparr>ign_Name = name, ign_Identity = i_ID r\<rparr>]))"

definition Whispers_inbox :: "ident \<Rightarrow> int \<Rightarrow> WhisperInbox hm" where
  "Whispers_inbox i limit = bnd (query (PersonOf i)) (\<lambda>found. case found of
       None \<Rightarrow> ret \<lparr>wi_Whispers = [], wi_Unread = 0, wi_Ignored = []\<rparr>
     | Some p \<Rightarrow> bnd (query (UnreadWhispers (p_ID p))) (\<lambda>unread. bnd (query (Ignored (p_ID p))) (\<lambda>ks. bnd (mapM ignored_entry ks) (\<lambda>igs.
         bnd (query (WhispersTo (p_ID p) limit)) (\<lambda>ws. bnd (asks nowMS) (\<lambda>t.
         seq (if ws = [] then ret () else bnd (execR' (MarkWhispersRead (p_ID p) (w_ID (last ws)) t)) (\<lambda>_. ret ()))
           (ret \<lparr>wi_Whispers = ws, wi_Unread = unread, wi_Ignored = concat igs\<rparr>)))))))"

definition Whispers :: "ident \<Rightarrow> int \<Rightarrow> WhisperInbox hm" where
  "Whispers i limit = update (Whispers_inbox i limit)"

section \<open>Every handler keeps the invariants\<close>

context plain_handler
begin

lemma send_whisper_keeps [hub_keeps]: "keeps P (send_whisper c to body)"
  unfolding send_whisper_def queue_whisper_def by (intro hub_keeps)

lemma whisperTo_keeps [hub_keeps]: "keeps P (whisperTo c token body)"
  unfolding whisperTo_def by (intro hub_keeps)

lemma cmdWhisper_keeps [hub_keeps]: "keeps P (cmdWhisper c args)" "keeps P (cmdReply c args)"
  unfolding cmdWhisper_def cmdReply_def by (intro hub_keeps)+

lemma may_notify_keeps [hub_keeps]: "keeps P (may_notify i j)"
  unfolding may_notify_def by (intro hub_keeps)

lemma cmdWhispers_keeps [hub_keeps]: "keeps P (cmdWhispers c args)"
  unfolding cmdWhispers_def set_whispers_def by (intro hub_keeps)

lemma cmdIgnore_keeps [hub_keeps]: "keeps P (cmdIgnore c args)" "keeps P (cmdUnignore c args)"
  unfolding cmdIgnore_def cmdUnignore_def by (intro hub_keeps)+

lemma personName_keeps [hub_keeps]: "keeps P (personName k)"
  unfolding personName_def by (intro hub_keeps)

lemma mapM_keeps [hub_keeps]: "(\<And>x. keeps P (f x)) \<Longrightarrow> keeps P (mapM f xs)"
  by (induction xs) (auto intro: hub_keeps)

lemma cmdIgnored_keeps [hub_keeps]: "keeps P (cmdIgnored c args)"
  unfolding cmdIgnored_def by (intro hub_keeps)

lemma Whispers_inbox_keeps [hub_keeps]: "keeps P (Whispers_inbox i n)"
  unfolding Whispers_inbox_def ignored_entry_def by (intro hub_keeps)

end

end
