(* ===== verification/HubProfile.thy ===== *)
theory HubProfile
  imports HubWhispers
begin

text \<open>
  internal/hub/profile.go: what anyone sees of a person, whether their LXMF address is shown, the
  preferences of the chat page, and which actions a viewer may take on someone.
\<close>

section \<open>Profiles\<close>

record Profile =
  pf_Person :: Person
  pf_Here :: "string list"
  pf_LastSeen :: millis
  pf_Shared :: bool
  pf_ForcedShare :: bool
  pf_Addresses :: "bytes list"
  pf_Derived :: bool
  pf_Recent :: "message list"

definition profile_rooms :: "ident list \<Rightarrow> hub \<Rightarrow> string list" where
  "profile_rooms ids h = sorted_list_of_set (\<Union>i\<in>set ids. set (roomsOf i h))"

definition last_seen :: "ident list \<Rightarrow> db \<Rightarrow> millis" where
  "last_seen ids d = fold (\<lambda>i t. case Identity i d of None \<Rightarrow> t | Some r \<Rightarrow> if t < i_LastSeen r then i_LastSeen r else t) ids 0"

definition profile_of :: "hub \<Rightarrow> Person \<Rightarrow> int \<Rightarrow> Profile" where
  "profile_of h p recent = (let ids = ps_Identities p; rs = profile_rooms ids h; ms = filter (\<lambda>i. IsMember i (st h)) ids;
       forced = RankMod \<le> ps_PersonRank p; addr = LXMFAddress (env h) in
     \<lparr>pf_Person = p,
      pf_Here = (if rs \<noteq> [] then [''RRC in #'' @ Join rs '', #''] else []) @ (if ms \<noteq> [] then [''the LXMF group''] else []),
      pf_LastSeen = last_seen ids (st h),
      pf_Shared = (ShareLXMF (ps_Prefs p) \<or> forced), pf_ForcedShare = forced,
      pf_Addresses = (if ms = [] then [addr (hd ids)] else map addr ms), pf_Derived = (ms = []),
      pf_Recent = (if 0 < recent \<and> ps_PersonID p \<noteq> 0
        then LatestMessagesByPerson (ps_PersonID p) (GroupRoom (cfg h)) recent (st h) else [])\<rparr>)"

definition profile :: "ident \<Rightarrow> int \<Rightarrow> Profile hm" where
  "profile i recent = bnd (person i) (\<lambda>p. asks (\<lambda>h. profile_of h p recent))"

definition ProfileOf :: "ident \<Rightarrow> Profile hm" where
  "ProfileOf i = view (profile i 5)"

definition say_profile :: "Profile \<Rightarrow> unit hm" where
  "say_profile p = (let who = pf_Person p; t = Title (ps_PersonRank who) in
     bnd (asks (\<lambda>h. (env h, clock h (pf_LastSeen p)))) (\<lambda>(v, seen).
     seq (say (ps_Name who @ (if t \<noteq> '''' then '' '' @ middot @ '' '' @ t else '''')))
     (seq (if ps_Claimed who then say (''Name held since '' @ date_text v (ps_ClaimedAt who) @ ''.'')
           else say ''No name claimed; shown by the start of their identity.'')
     (seq (if pf_Here p \<noteq> [] then say (''Here now: '' @ Join (pf_Here p) '' and '' @ ''.'')
           else if 0 < pf_LastSeen p then say (''Last seen '' @ seen @ ''.'') else ret ())
     (if pf_Shared p
      then say ((if pf_Derived p then ''LXMF, if they use it with this identity: '' else ''LXMF: '') @ Join (map hexID (pf_Addresses p)) '', '')
      else say ''Their LXMF address isn't shared.'')))))"

definition cmdProfile :: "cmd \<Rightarrow> string list \<Rightarrow> unit hm" where
  "cmdProfile c args = (case args of
       [] \<Rightarrow> bnd (profile (cm_Identity c) 0) say_profile
     | [a] \<Rightarrow> bnd (resolveOrFail a) (\<lambda>found. case found of None \<Rightarrow> ret () | Some i \<Rightarrow> bnd (profile i 0) say_profile)
     | _ \<Rightarrow> usage c)"

section \<open>Preferences\<close>

definition share_state :: "Person \<Rightarrow> string" where
  "share_state me = (if RankMod \<le> ps_PersonRank me
       then ''Your LXMF address is shown on your profile: it always is for mods and up, so people can reach you.''
     else if ShareLXMF (ps_Prefs me) then ''Your LXMF address is shown on your profile, so people can message you. /share off hides it.''
     else ''Your LXMF address isn't shown on your profile. /share on shows it.'')"

definition cmdShare :: "cmd \<Rightarrow> string list \<Rightarrow> unit hm" where
  "cmdShare c args = (let me = cm_me c in case args of
       [] \<Rightarrow> say (share_state me)
     | [a] \<Rightarrow> if \<not> isOnOff a then usage c
         else let on = EqualFold a ''on'' in
           seq (exec (SetPrefs (cm_Identity c) ((ps_Prefs me)\<lparr>ShareLXMF := on\<rparr>)))
           (seq (say (if on then ''Your LXMF address is shown on your profile now, so people can message you.''
                      else ''Your LXMF address is hidden from your profile now.''))
           (if \<not> on \<and> RankMod \<le> ps_PersonRank me
            then say (''Saved, but as '' @ article (ps_PersonRank me) @ '' your address is shown anyway, so people can reach you.'')
            else ret ()))
     | _ \<Rightarrow> usage c)"

text \<open>SetPrefs: what the page's buttons change is a function on the preferences.\<close>

definition change_prefs :: "ident \<Rightarrow> (prefs \<Rightarrow> prefs) \<Rightarrow> Person hm" where
  "change_prefs i change = seq (touch i) (bnd (person i) (\<lambda>before. let p = change (ps_Prefs before) in
     case Prefs_Validate p of Inl e \<Rightarrow> refuse (err_text e) | Inr _ \<Rightarrow> seq (exec (SetPrefs i p)) (person i)))"

definition hub_SetPrefs :: "ident \<Rightarrow> (prefs \<Rightarrow> prefs) \<Rightarrow> Person hm" where
  "hub_SetPrefs i change = update (change_prefs i change)"

definition refreshText :: "int \<Rightarrow> string" where
  "refreshText s = (if s = 0 then ''only when you reload'' else ''every '' @ itoa s @ '' seconds'')"

definition TrimSuffix :: "string \<Rightarrow> string \<Rightarrow> string" where
  "TrimSuffix s suf = (if HasPrefix (rev s) (rev suf) then take (length s - length suf) s else s)"

text \<open>A setting's new value: a refusal text, a usage error, or the preferences with it.\<close>

datatype page_setting = PageFail string | PageUsage | PageSet prefs

definition page_lines :: "prefs \<Rightarrow> string \<Rightarrow> page_setting" where
  "page_lines p value = (case Atoi value of
       Some n \<Rightarrow> if n \<in> set PageLineChoices then PageSet (p\<lparr>PageLines := n\<rparr>) else PageFail ''The chat page can show 10, 20, 30, 50 or 100 messages.''
     | None \<Rightarrow> PageFail ''The chat page can show 10, 20, 30, 50 or 100 messages.'')"

definition page_refresh :: "prefs \<Rightarrow> string \<Rightarrow> page_setting" where
  "page_refresh p value = (if value = ''off'' \<or> value = ''0'' then PageSet (p\<lparr>PageRefresh := 0\<rparr>)
     else case Atoi (TrimSuffix value ''s'') of
       Some n \<Rightarrow> if n = 0 \<or> n \<notin> set PageRefreshChoices then PageFail ''The chat page can refresh every 10, 30 or 60 seconds, or not at all (off).''
         else PageSet (p\<lparr>PageRefresh := n\<rparr>)
     | None \<Rightarrow> PageFail ''The chat page can refresh every 10, 30 or 60 seconds, or not at all (off).'')"

definition page_change :: "prefs \<Rightarrow> string \<Rightarrow> string \<Rightarrow> page_setting" where
  "page_change p setting value = (if setting = ''lines'' then page_lines p value
     else if setting = ''flag'' then (if isOnOff value then PageSet (p\<lparr>PageFlag := (value = ''on'')\<rparr>) else PageUsage)
     else if setting = ''refresh'' then page_refresh p value
     else PageUsage)"

definition page_state :: "prefs \<Rightarrow> string" where
  "page_state p = ''Chat page: '' @ itoa (PageLines p) @ '' messages, flag '' @ (if PageFlag p then ''shown'' else ''hidden'') @
     '', refresh '' @ (if 0 < PageRefresh p then ''every '' @ itoa (PageRefresh p) @ ''s'' else ''off'') @
     ''. Change it with /page lines 10|20|30|50|100, /page flag on|off or /page refresh off|10|30|60.''"

definition cmdPage :: "cmd \<Rightarrow> string list \<Rightarrow> unit hm" where
  "cmdPage c args = (let p = ps_Prefs (cm_me c) in case args of
       [] \<Rightarrow> say (page_state p)
     | [a, b] \<Rightarrow> bnd (asks (\<lambda>h. ulower (env h))) (\<lambda>ul. case page_change p (ToLower ul a) (ToLower ul b) of
           PageFail t \<Rightarrow> fail t
         | PageUsage \<Rightarrow> usage c
         | PageSet q \<Rightarrow> seq (exec (SetPrefs (cm_Identity c) q))
             (say (''Saved: the chat page now shows '' @ itoa (PageLines q) @ '' messages, the flag '' @ on_off (PageFlag q) @
               '', and refreshes '' @ refreshText (PageRefresh q) @ ''.'')))
     | _ \<Rightarrow> usage c)"

section \<open>Permissions\<close>

definition all_actions :: "Action list" where
  "all_actions = [ActKick, ActBan, ActUnban, ActListBans, ActRename, ActModlog, ActMakeMod, ActMakeAdmin, ActDemote, ActDevicesOf,
     ActUnlinkOther, ActRelease, ActStats, ActDelete]"

definition Permissions :: "ident \<Rightarrow> ident \<Rightarrow> (Action \<times> bool) list hm" where
  "Permissions viewer target = view (bnd (person viewer) (\<lambda>me. bnd (person target) (\<lambda>them.
     ret (map (\<lambda>a. (a, may me a (Some them) = Inr ())) all_actions))))"

section \<open>Every handler keeps the invariants\<close>

lemma keeps_page_change [hub_keeps]:
  "(\<And>t. keeps P (f t)) \<Longrightarrow> keeps P g \<Longrightarrow> (\<And>q. keeps P (k q)) \<Longrightarrow>
    keeps P (case x of PageFail t \<Rightarrow> f t | PageUsage \<Rightarrow> g | PageSet q \<Rightarrow> k q)"
  by (cases x) simp_all

context plain_handler
begin

lemma profile_keeps [hub_keeps]: "keeps P (profile i n)" "keeps P (say_profile p)"
  unfolding profile_def say_profile_def by (intro hub_keeps)+

lemma cmdProfile_keeps [hub_keeps]: "keeps P (cmdProfile c args)" "keeps P (cmdShare c args)" "keeps P (cmdPage c args)"
  unfolding cmdProfile_def cmdShare_def cmdPage_def by (intro hub_keeps)+

lemma change_prefs_keeps [hub_keeps]: "keeps P (change_prefs i change)"
  unfolding change_prefs_def by (intro hub_keeps)

end

end
