(* ===== verification/HubCmdRooms.thy ===== *)
theory HubCmdRooms
  imports HubProfile
begin

text \<open>
  internal/hub/cmd_rooms.go: the commands about rooms (/who, /list, /history, /topic) and rrcd's room
  operator commands, in the /room form and in the older top-level form.
\<close>

section \<open>Reading\<close>

definition member_part :: "Member \<Rightarrow> string" where
  "member_part m = me_Name m @ '' ('' @ take 12 (hexID (me_Identity m)) @ '')''"

definition say_members :: "string \<Rightarrow> Member list \<Rightarrow> unit hm" where
  "say_members room ms = (if ms = [] then say (''members in '' @ room @ '': (none)'')
     else let rrc = map me_Name (filter me_RRC ms); lxmf = map me_Name (filter me_LXMF ms);
            places = (if rrc \<noteq> [] then [''on RRC: '' @ Join rrc '', ''] else []) @
                     (if lxmf \<noteq> [] then [''in the LXMF group: '' @ Join lxmf '', ''] else []) in
       seq (say (''members in '' @ room @ '': '' @ Join (map member_part ms) '', ''))
         (say (Join places ('' '' @ middot @ '' ''))))"

definition cmdWho :: "cmd \<Rightarrow> string list \<Rightarrow> unit hm" where
  "cmdWho c args0 = bnd (takeTarget c True args0) (\<lambda>t. case t of None \<Rightarrow> ret ()
     | Some (t, args) \<Rightarrow> if args \<noteq> [] then usage c
       else let room = tg_room t in bnd (query (Room room)) (\<lambda>found.
         bnd (case found of None \<Rightarrow> ret True | Some r \<Rightarrow> mayReadRoom r (cm_Identity c)) (\<lambda>ok.
         if \<not> ok then fail (''room '' @ room @ '' is private'') else bnd (hub_members room) (say_members room))))"

definition room_line :: "room \<Rightarrow> string" where
  "room_line r = (if rm_Topic r \<noteq> '''' then ''  '' @ rm_Name r @ '' - '' @ rm_Topic r else ''  '' @ rm_Name r)"

definition listed :: "room \<Rightarrow> bool" where
  "listed r \<longleftrightarrow> rm_Registered r \<and> \<not> HasMode r (CHR ''p'')"

definition cmdList :: "cmd \<Rightarrow> string list \<Rightarrow> unit hm" where
  "cmdList c args = (if args \<noteq> [] then usage c
     else bnd (query (\<lambda>d. map room_line (filter listed (Rooms d)))) (\<lambda>ls. if ls = [] then say ''No public rooms registered''
       else seq (modify (\<lambda>h. h\<lparr>reply := (reply h)\<lparr>Whole := True\<rparr>\<rparr>))
         (sayLines (''Registered public rooms:'' @ [CHR 0x0A] @ Join ls [CHR 0x0A]))))"

definition history_count :: "string list \<Rightarrow> int option" where
  "history_count args = (case args of [] \<Rightarrow> Some 20
     | [a] \<Rightarrow> (case Atoi a of None \<Rightarrow> None | Some v \<Rightarrow> if v \<le> 0 then None else Some v) | _ \<Rightarrow> None)"

definition show_history :: "string \<Rightarrow> message list \<Rightarrow> unit hm" where
  "show_history room ms = (if ms = [] then say (''No messages in #'' @ room @ '' yet.'')
     else modify (\<lambda>h. h\<lparr>reply := (reply h)\<lparr>History := ms,
       HistoryNote := dash @ '' the last '' @ plural (int (length ms)) ''message'' @ '' in #'' @ room @ '' '' @ dash\<rparr>\<rparr>))"

definition cmdHistory :: "cmd \<Rightarrow> string list \<Rightarrow> unit hm" where
  "cmdHistory c args0 = bnd (takeTarget c True args0) (\<lambda>t. case t of None \<Rightarrow> ret ()
     | Some (t, args) \<Rightarrow> (case history_count args of None \<Rightarrow> usage c
       | Some n \<Rightarrow> bnd (catchUE (bnd (history (cm_Identity c) (tg_room t) n 0) (\<lambda>ms. ret (Some ms))) (\<lambda>e. seq (fail e) (ret None))) (\<lambda>r.
           case r of None \<Rightarrow> ret () | Some ms \<Rightarrow> show_history (tg_room t) ms)))"

definition set_topic :: "cmd \<Rightarrow> room \<Rightarrow> string \<Rightarrow> unit hm" where
  "set_topic c r topic = bnd (asks (\<lambda>h. MaxTopicBytes (cfg h))) (\<lambda>n.
     if n < int (length topic) then fail (''topic too long: '' @ itoa (int (length topic)) @ '' bytes > '' @ itoa n @ '' bytes'')
     else let text = ''topic for '' @ rm_Name r @ '' is now: '' @ topic in
       seq (exec (PutRoom (r\<lparr>rm_Topic := topic\<rparr>))) (seq (emit (RoomNoticeEvent (rm_Name r) text)) (say text)))"

definition cmdTopic :: "cmd \<Rightarrow> string list \<Rightarrow> unit hm" where
  "cmdTopic c args0 = bnd (takeTarget c True args0) (\<lambda>t. case t of None \<Rightarrow> ret ()
     | Some (t, args) \<Rightarrow> let room = tg_room t in bnd (query (Room room)) (\<lambda>found.
       if args = [] then say (''topic for '' @ room @ '': '' @
         (case found of None \<Rightarrow> ''(none)'' | Some r \<Rightarrow> if rm_Topic r = '''' then ''(none)'' else rm_Topic r))
       else case found of None \<Rightarrow> fail ''no such room''
       | Some r \<Rightarrow> seq (checkRoomBan room (cm_Identity c))
           (bnd (if HasMode r (CHR ''t'') then isRoomOp r (cm_Identity c) else ret True) (\<lambda>ok.
           if \<not> ok then fail ''not authorized (+t)'' else set_topic c r (Join args '' '')))))"

section \<open>Room operators\<close>

definition person_arg :: string where
  "person_arg = ''<name|hashprefix|hash>''"

definition roomUsage :: "string \<Rightarrow> string option" where
  "roomUsage verb = map_of [(''kick'', person_arg), (''ban'', person_arg), (''unban'', person_arg), (''bans'', ''''),
     (''invite'', person_arg), (''uninvite'', person_arg), (''invites'', ''''), (''op'', person_arg), (''deop'', person_arg),
     (''voice'', person_arg), (''devoice'', person_arg), (''mode'', ''<flag> [arg]''), (''register'', ''''), (''unregister'', '''')] verb"

definition roomUsageFail :: "string \<Rightarrow> unit hm" where
  "roomUsageFail verb = fail (''usage: /room '' @ verb @ '' [#room]'' @
     (case roomUsage verb of None \<Rightarrow> '''' | Some a \<Rightarrow> if a \<noteq> '''' then '' '' @ a else ''''))"

definition opRoom :: "cmd \<Rightarrow> string \<Rightarrow> room option hm" where
  "opRoom c room = bnd (query (Room room)) (\<lambda>found. case found of None \<Rightarrow> seq (fail ''no such room'') (ret None)
     | Some r \<Rightarrow> bnd (isRoomOp r (cm_Identity c)) (\<lambda>op. if op then ret (Some r) else seq (fail ''not authorized'') (ret None)))"

text \<open>An operator's command on someone: the room and the identity, when there are both.\<close>

definition opTarget :: "cmd \<Rightarrow> string \<Rightarrow> string \<Rightarrow> (room \<times> ident) option hm" where
  "opTarget c room token = bnd (opRoom c room) (\<lambda>r. case r of None \<Rightarrow> ret None
     | Some r \<Rightarrow> bnd (resolveOrFail token) (\<lambda>i. ret (map_option (Pair r) i)))"

definition leave_group_quietly :: "ident \<Rightarrow> string \<Rightarrow> string \<Rightarrow> bool hm" where
  "leave_group_quietly i name room = bnd (asks (\<lambda>h. GroupRoom (cfg h))) (\<lambda>grp. if room \<noteq> grp then ret False
     else bnd (execR' (RemoveMember i)) (\<lambda>m. seq (if m then emit (GroupEvent i name False) else ret ()) (ret m)))"

definition put_out :: "string \<Rightarrow> ident \<Rightarrow> string \<Rightarrow> unit hm" where
  "put_out room i why = seq (emit (RemovedEvent room i why)) (forgetPresence room i)"

definition roomKick :: "cmd \<Rightarrow> string list \<Rightarrow> string \<Rightarrow> string \<Rightarrow> unit hm" where
  "roomKick c args verb room = (case args of [a] \<Rightarrow> bnd (opTarget c room a) (\<lambda>t. case t of None \<Rightarrow> ret ()
       | Some (r, target) \<Rightarrow> seq (mayActOnRoomTarget (cm_me c) target) (bnd (displayName target) (\<lambda>name.
         bnd (asks (rrcPresent (rm_Name r) target)) (\<lambda>inRoom. bnd (leave_group_quietly target name (rm_Name r)) (\<lambda>member.
         if \<not> inRoom \<and> \<not> member then fail ''target not in room''
         else seq (if inRoom then put_out (rm_Name r) target (''kicked from '' @ rm_Name r) else ret ())
           (seq (Audit_now (Some (cm_Identity c)) ''kick'' name (rm_Name r)) (say (''kicked '' @ a @ '' from '' @ rm_Name r))))))))
     | _ \<Rightarrow> roomUsageFail verb)"

definition list_room_bans :: "string \<Rightarrow> unit hm" where
  "list_room_bans room = bnd (query (\<lambda>d. map (\<lambda>b. (case displayName_db b d of Inl _ \<Rightarrow> GuestName b | Inr n \<Rightarrow> n) @ '' ('' @ hexID b @ '')'')
       (RoleHolders room RoleBan d))) (\<lambda>parts.
     if parts = [] then say (''no bans in '' @ room) else say (''bans in '' @ room @ '': '' @ Join parts '', ''))"

definition room_unban :: "cmd \<Rightarrow> string \<Rightarrow> ident \<Rightarrow> string \<Rightarrow> unit hm" where
  "room_unban c room target name = bnd (asks nowMS) (\<lambda>t. seq (exec (SetRole room target RoleBan False None t))
     (seq (Audit_now (Some (cm_Identity c)) ''unban'' name room) (say (''ban removed in '' @ room))))"

definition room_ban :: "cmd \<Rightarrow> string \<Rightarrow> ident \<Rightarrow> string \<Rightarrow> unit hm" where
  "room_ban c room target name = seq (mayActOnRoomTarget (cm_me c) target) (seq (touch target) (bnd (asks nowMS) (\<lambda>t.
     seq (exec (SetRole room target RoleBan True (Some (cm_Identity c)) t))
     (bnd (asks (rrcPresent room target)) (\<lambda>inRoom.
     seq (if inRoom then put_out room target (''banned from '' @ room) else ret ())
     (bnd (leave_group_quietly target name room) (\<lambda>_.
     seq (Audit_now (Some (cm_Identity c)) ''ban'' name room) (say (''ban added in '' @ room)))))))))"

definition roomBan :: "cmd \<Rightarrow> string list \<Rightarrow> string \<Rightarrow> string \<Rightarrow> unit hm" where
  "roomBan c args verb room = bnd (query (Room room)) (\<lambda>found. case found of None \<Rightarrow> fail ''no such room''
     | Some r \<Rightarrow> if verb = ''bans'' then (if args \<noteq> [] then roomUsageFail verb else list_room_bans room)
       else case args of [a] \<Rightarrow> bnd (isRoomOp r (cm_Identity c)) (\<lambda>op. if \<not> op then fail ''not authorized''
           else bnd (resolveOrFail a) (\<lambda>t. case t of None \<Rightarrow> ret ()
             | Some target \<Rightarrow> bnd (displayName target) (\<lambda>name.
               if verb = ''unban'' then room_unban c room target name else room_ban c room target name)))
         | _ \<Rightarrow> roomUsageFail verb)"

definition list_invites :: "string \<Rightarrow> unit hm" where
  "list_invites room = bnd (asks nowMS) (\<lambda>t. bnd (query (Invites room t)) (\<lambda>inv.
     if inv = [] then say (''invites in '' @ room @ '': (none)'')
     else say (''invites in '' @ room @ '': '' @
       Join (map (\<lambda>x. hexID (in_Identity x) @ '' expires_in='' @ itoa ((in_ExpiresAt x - t) div 1000) @ ''s'') inv) '', '')))"

definition invite :: "cmd \<Rightarrow> room \<Rightarrow> ident \<Rightarrow> string \<Rightarrow> unit hm" where
  "invite c r target a = seq (touch target)
     (seq (emit (NoticeEvent target (rm_Name r) (''You have been invited to join '' @ rm_Name r @ ''.'' @
        (if rm_Key r \<noteq> '''' then '' This invite allows joining without the key (+k).'' else '''')) False))
     (if HasMode r (CHR ''i'') \<or> rm_Key r \<noteq> ''''
      then bnd (asks (\<lambda>h. (nowMS h, InviteTTL (cfg h)))) (\<lambda>(t, ttl).
        seq (exec (SetInvite (rm_Name r) target (t + ttl div 1000000)))
          (say (''invite added in '' @ rm_Name r @ '' (expires in '' @ itoa (ttl div second_ns) @ ''s)'')))
      else say (''invite sent to '' @ a @ '' for '' @ rm_Name r)))"

definition roomInvite :: "cmd \<Rightarrow> string list \<Rightarrow> string \<Rightarrow> string \<Rightarrow> unit hm" where
  "roomInvite c args verb room = (if (verb = ''invites'') \<noteq> (args = []) \<or> 1 < length args then roomUsageFail verb
     else bnd (opRoom c room) (\<lambda>r. case r of None \<Rightarrow> ret ()
       | Some r \<Rightarrow> (case args of [] \<Rightarrow> list_invites (rm_Name r)
         | a # _ \<Rightarrow> bnd (resolveOrFail a) (\<lambda>t. case t of None \<Rightarrow> ret ()
             | Some target \<Rightarrow> if verb = ''uninvite''
                 then seq (exec' (DeleteInvite (rm_Name r) target)) (say (''invite removed in '' @ rm_Name r))
                 else invite c r target a))))"

section \<open>Roles and modes\<close>

definition may_deop :: "cmd \<Rightarrow> room \<Rightarrow> ident \<Rightarrow> bool hm" where
  "may_deop c r target = (if rm_Founder r = Some target \<and> ps_Rank (cm_me c) \<noteq> RankOwner
     then seq (fail ''cannot deop founder'') (ret False)
     else seq (mayActOnRoomTarget (cm_me c) target) (ret True))"

definition role_of_verb :: "string \<Rightarrow> Role \<times> bool \<times> string" where
  "role_of_verb verb = (if verb = ''deop'' then (RoleOp, False, ''op removed in '')
     else if verb = ''voice'' then (RoleVoice, True, ''voice granted in '')
     else if verb = ''devoice'' then (RoleVoice, False, ''voice removed in '')
     else (RoleOp, True, ''op granted in ''))"

definition setRole :: "cmd \<Rightarrow> room \<Rightarrow> string \<Rightarrow> ident \<Rightarrow> unit hm" where
  "setRole c r verb target = bnd (if verb = ''deop'' then may_deop c r target else ret True) (\<lambda>ok. if \<not> ok then ret ()
     else case role_of_verb verb of (role, on, msg) \<Rightarrow>
       seq (touch target) (bnd (asks nowMS) (\<lambda>t. seq (exec (SetRole (rm_Name r) target role on (Some (cm_Identity c)) t))
         (say (msg @ rm_Name r)))))"

definition roomRole :: "cmd \<Rightarrow> string list \<Rightarrow> string \<Rightarrow> string \<Rightarrow> unit hm" where
  "roomRole c args verb room = (case args of [a] \<Rightarrow> bnd (opTarget c room a) (\<lambda>t. case t of None \<Rightarrow> ret ()
       | Some (r, target) \<Rightarrow> setRole c r verb target)
     | _ \<Rightarrow> roomUsageFail verb)"

definition mode_char :: "room \<Rightarrow> char \<Rightarrow> bool" where
  "mode_char r m \<longleftrightarrow> m = CHR ''k'' \<and> rm_Key r \<noteq> '''' \<or> m = CHR ''r'' \<and> rm_Registered r \<or>
     m \<noteq> CHR ''k'' \<and> m \<noteq> CHR ''r'' \<and> HasMode r m"

definition modeString :: "room \<Rightarrow> string" where
  "modeString r = (let b = filter (mode_char r) ''ikmnprt'' in if b = '''' then ''(none)'' else ''+'' @ b)"

definition mode_notice :: "room \<Rightarrow> string \<Rightarrow> unit hm" where
  "mode_notice r what = (let text = ''mode for '' @ rm_Name r @ '' is now: '' @ what in
     seq (emit (RoomNoticeEvent (rm_Name r) text)) (say text))"

definition save_mode :: "room \<Rightarrow> unit hm" where
  "save_mode r = seq (exec (PutRoom r)) (mode_notice r (modeString r))"

text \<open>The mode form of op and voice: setRole's own line is taken back and the mode line said instead.\<close>

definition role_mode :: "cmd \<Rightarrow> room \<Rightarrow> string \<Rightarrow> ident \<Rightarrow> unit hm" where
  "role_mode c r flag target = (let verb = the (map_of [(''+o'', ''op''), (''-o'', ''deop''), (''+v'', ''voice''), (''-v'', ''devoice'')] flag) in
     bnd (asks (\<lambda>h. length (Lines (reply h)))) (\<lambda>before. seq (setRole c r verb target)
     (bnd (asks (\<lambda>h. Reply_Error (reply h))) (\<lambda>failed. if failed then ret ()
     else seq (modify (\<lambda>h. h\<lparr>reply := (reply h)\<lparr>Lines := take before (Lines (reply h))\<rparr>\<rparr>))
       (mode_notice r (flag @ '' '' @ take 12 (hexID target)))))))"

definition roomMode :: "cmd \<Rightarrow> string list \<Rightarrow> string \<Rightarrow> unit hm" where
  "roomMode c args room = (case args of [] \<Rightarrow> fail ''usage: /room mode [#room] (+m|-m|+i|-i|+k <key>|-k|+t|-t|+n|-n|+p|-p|+o|-o|+v|-v <name>)''
     | a # rest \<Rightarrow> bnd (opRoom c room) (\<lambda>r. case r of None \<Rightarrow> ret ()
       | Some r \<Rightarrow> bnd (asks (\<lambda>h. ToLower (ulower (env h)) a)) (\<lambda>flag.
         if flag \<in> {''+m'', ''-m'', ''+i'', ''-i'', ''+t'', ''-t'', ''+n'', ''-n'', ''+p'', ''-p''}
         then save_mode (SetMode (flag ! 1) (flag ! 0 = CHR ''+'') r)
         else if flag = ''+k'' then (if rest = [] then fail ''usage: /room mode [#room] +k <key>'' else save_mode (r\<lparr>rm_Key := Join rest '' ''\<rparr>))
         else if flag = ''-k'' then save_mode (r\<lparr>rm_Key := ''''\<rparr>)
         else if flag \<in> {''+r'', ''-r''} then fail ''use /room register or /room unregister to change +r''
         else if flag \<in> {''+o'', ''-o'', ''+v'', ''-v''}
         then (case rest of [b] \<Rightarrow> bnd (resolveOrFail b) (\<lambda>t. case t of None \<Rightarrow> ret () | Some target \<Rightarrow> role_mode c r flag target)
               | _ \<Rightarrow> fail ''usage: /room mode [#room] (+o|-o|+v|-v) <name|hashprefix|hash>'')
         else fail ''supported modes: +m -m +i -i +k -k +t -t +n -n +p -p +r -r +o -o +v -v'')))"

section \<open>Registration\<close>

definition register_room :: "room \<Rightarrow> unit hm" where
  "register_room r = bnd (asks nowMS) (\<lambda>t. let r' = SetMode (CHR ''t'') True (SetMode (CHR ''n'') True (r\<lparr>rm_Registered := True\<rparr>)) in
     seq (exec (SetRole (rm_Name r) (the (rm_Founder r)) RoleOp True (rm_Founder r) t))
     (seq (exec (PutRoom r')) (say (''registered room '' @ rm_Name r))))"

definition unregister_room :: "room \<Rightarrow> unit hm" where
  "unregister_room r = bnd (asks (\<lambda>h. isDefaultRoom (cfg h) (rm_Name r))) (\<lambda>def.
     if def then fail (''room '' @ rm_Name r @ '' is one of the hub's own rooms and stays registered'')
     else if \<not> rm_Registered r then fail (''room '' @ rm_Name r @ '' is not registered'')
     else seq (exec (PutRoom (r\<lparr>rm_Registered := False\<rparr>))) (say (''unregistered room '' @ rm_Name r)))"

definition roomRegister :: "cmd \<Rightarrow> string list \<Rightarrow> string \<Rightarrow> string \<Rightarrow> unit hm" where
  "roomRegister c args verb room = (if args \<noteq> [] then roomUsageFail verb
     else bnd (asks (rrcPresent room (cm_Identity c))) (\<lambda>here.
       if cm_Room c \<noteq> room \<or> \<not> here then fail (''must be present in the room to '' @ verb @ '' it'')
       else bnd (query (Room room)) (\<lambda>found. case found of None \<Rightarrow> ret ()
         | Some r \<Rightarrow> if rm_Founder r \<noteq> Some (cm_Identity c) then fail (''only the room founder can '' @ verb)
           else if verb = ''register'' then register_room r else unregister_room r)))"

section \<open>/room and the older forms\<close>

definition roomVerb :: "cmd \<Rightarrow> string list \<Rightarrow> string \<Rightarrow> string \<Rightarrow> unit hm" where
  "roomVerb c args verb room = (if verb = ''kick'' then roomKick c args verb room
     else if verb \<in> {''ban'', ''unban'', ''bans''} then roomBan c args verb room
     else if verb \<in> {''invite'', ''uninvite'', ''invites''} then roomInvite c args verb room
     else if verb \<in> {''op'', ''deop'', ''voice'', ''devoice''} then roomRole c args verb room
     else if verb = ''mode'' then roomMode c args room
     else roomRegister c args verb room)"

definition cmdRoom :: "cmd \<Rightarrow> string list \<Rightarrow> unit hm" where
  "cmdRoom c args0 = (case args0 of [] \<Rightarrow> usage c
     | a # rest \<Rightarrow> bnd (asks (\<lambda>h. ToLower (ulower (env h)) a)) (\<lambda>verb.
       if roomUsage verb = None then fail (''There's no /room '' @ verb @ ''. The verbs are kick, ban, unban, bans, invite, uninvite, invites, op, deop, voice, devoice, mode, register and unregister.'')
       else bnd (takeTarget c False rest) (\<lambda>t. case t of None \<Rightarrow> ret ()
         | Some (t, args) \<Rightarrow> if tg_lxmf t then roomUsageFail verb else roomVerb c args verb (tg_room t))))"

text \<open>What an older form says: the verb of /room, the room word (if any) and the arguments; \<open>None\<close> is a usage error.\<close>

definition list_verb :: "string \<Rightarrow> string \<Rightarrow> string option" where
  "list_verb verb op = (if verb = ''ban'' then map_of [(''add'', ''ban''), (''del'', ''unban''), (''list'', ''bans'')] op
     else map_of [(''add'', ''invite''), (''del'', ''uninvite''), (''list'', ''invites'')] op)"

definition legacy_form :: "(nat \<Rightarrow> nat) \<Rightarrow> string \<Rightarrow> string list \<Rightarrow> (string \<times> string \<times> string list) option" where
  "legacy_form ul verb args =
     (if verb \<in> {''kick'', ''op'', ''deop'', ''voice'', ''devoice''}
      then Some (if length args = 2 then (verb, hd args, tl args) else (verb, '''', args))
      else if verb \<in> {''ban'', ''invite''}
      then (case (if args \<noteq> [] \<and> \<not> isListOp ul (hd args) then (hd args, tl args) else ('''', args)) of
          (room, []) \<Rightarrow> None
        | (room, op # rest) \<Rightarrow> map_option (\<lambda>v. (v, room, rest)) (list_verb verb (ToLower ul op)))
      else if verb = ''mode''
      then Some (if args \<noteq> [] \<and> \<not> HasPrefix (hd args) ''+'' \<and> \<not> HasPrefix (hd args) ''-'' then (verb, hd args, tl args) else (verb, '''', args))
      else Some (if length args = 1 then (verb, hd args, []) else (verb, '''', args)))"

definition legacy_room_name :: "cmd \<Rightarrow> string \<Rightarrow> string option hm" where
  "legacy_room_name c room = (if room = '''' then bnd (here c) (\<lambda>r. ret (Some r))
     else catchUE (bnd (normRoom room) (\<lambda>r. ret (Some r))) (\<lambda>e. seq (fail (''bad room: '' @ e)) (ret None)))"

definition legacyRoom :: "cmd \<Rightarrow> string list \<Rightarrow> string \<Rightarrow> unit hm" where
  "legacyRoom c args0 verb0 = bnd (asks (\<lambda>h. legacy_form (ulower (env h)) verb0 args0)) (\<lambda>form. case form of
       None \<Rightarrow> fail (''usage: /'' @ verb0 @ '' '' @ cm_usage c)
     | Some (verb, room0, args) \<Rightarrow> bnd (legacy_room_name c room0) (\<lambda>r. case r of None \<Rightarrow> ret ()
       | Some room \<Rightarrow> seq (roomVerb c args verb room) (bnd (asks (\<lambda>h. Reply_Error (reply h))) (\<lambda>failed. if failed then ret ()
         else say (''(next time: /room '' @ verb @ '' #'' @ room @ TrimRightSet ('' '' @ Join args '' '') '' '' @ '')'')))))"

section \<open>Every handler keeps the invariants\<close>

context plain_handler
begin

lemma say_members_keeps [hub_keeps]: "keeps P (say_members room ms)" "keeps P (show_history room msgs)" "keeps P (set_topic c r t)"
  unfolding say_members_def show_history_def set_topic_def by (intro hub_keeps)+

lemma room_reading_keeps [hub_keeps]: "keeps P (cmdWho c args)" "keeps P (cmdList c args)" "keeps P (cmdHistory c args)" "keeps P (cmdTopic c args)"
  unfolding cmdWho_def cmdList_def cmdHistory_def cmdTopic_def by (intro hub_keeps)+

lemma opTarget_keeps [hub_keeps]: "keeps P (roomUsageFail v)" "keeps P (opRoom c room)" "keeps P (opTarget c room a)"
  unfolding roomUsageFail_def opRoom_def opTarget_def by (intro hub_keeps)+

lemma put_out_keeps [hub_keeps]: "keeps P (leave_group_quietly i name room)" "keeps P (put_out room i why)"
  unfolding leave_group_quietly_def put_out_def forgetPresence_def by (intro hub_keeps)+

lemma roomKick_keeps [hub_keeps]: "keeps P (roomKick c args verb room)"
  unfolding roomKick_def by (intro hub_keeps)

lemma roomBan_keeps [hub_keeps]: "keeps P (roomBan c args verb room)"
  unfolding roomBan_def list_room_bans_def room_unban_def room_ban_def by (intro hub_keeps)

lemma roomInvite_keeps [hub_keeps]: "keeps P (roomInvite c args verb room)"
  unfolding roomInvite_def list_invites_def invite_def by (intro hub_keeps)

lemma setRole_keeps [hub_keeps]: "keeps P (setRole c r verb i)"
  unfolding setRole_def may_deop_def by (intro hub_keeps)

lemma roomRole_keeps [hub_keeps]: "keeps P (roomRole c args verb room)"
  unfolding roomRole_def by (intro hub_keeps)

lemma save_mode_keeps [hub_keeps]: "keeps P (save_mode r)" "keeps P (role_mode c r flag i)"
  unfolding save_mode_def role_mode_def mode_notice_def by (intro hub_keeps)+

lemma roomMode_keeps [hub_keeps]: "keeps P (roomMode c args room)"
  unfolding roomMode_def by (intro hub_keeps)

lemma roomRegister_keeps [hub_keeps]: "keeps P (roomRegister c args verb room)"
  unfolding roomRegister_def register_room_def unregister_room_def by (intro hub_keeps)

lemma roomVerb_keeps [hub_keeps]: "keeps P (roomVerb c args verb room)"
  unfolding roomVerb_def by (intro hub_keeps)

lemma cmdRoom_keeps [hub_keeps]: "keeps P (cmdRoom c args)"
  unfolding cmdRoom_def by (intro hub_keeps)

lemma legacyRoom_keeps [hub_keeps]: "keeps P (legacyRoom c args verb)"
  unfolding legacyRoom_def legacy_room_name_def by (intro hub_keeps)

end

end
