(* ===== verification/HubCmdPeople.thy ===== *)
theory HubCmdPeople
  imports HubCmdRooms
begin

text \<open>
  internal/hub/cmd_people.go and cmd_owners.go: the commands about oneself (/join, /leave, /forget,
  /nick, /me, /whoami, /lxmf) and the hub owners' commands (/release, /stats).
\<close>

section \<open>Joining and leaving\<close>

definition groupAddress :: "hub \<Rightarrow> string" where
  "groupAddress h = (if GroupAddress (cfg h) \<noteq> '''' then GroupAddress (cfg h) else ''the '' @ HubName (cfg h) @ '' group'')"

definition lxmfJoinHowTo :: "unit hm" where
  "lxmfJoinHowTo = bnd (asks groupAddress) (\<lambda>a. say (''To get the chat by LXMF, send /join to '' @ a @
     '' from your LXMF app (Sideband, MeshChatX, Columba). Joining needs your LXMF address, which the hub only learns from a message.''))"

definition join_rrc :: "target \<Rightarrow> string list \<Rightarrow> unit hm" where
  "join_rrc t args = (if tg_lxmf t then lxmfJoinHowTo
     else let room = TrimPrefix (if \<not> tg_given t \<and> length args = 1 then hd args else tg_room t) ''#'' in
       say (''Join rooms from your RRC app: in MeshChatX, type '' @ room @ '' in the room name box under the hub; in NomadNet, send /join '' @ room @ ''.''))"

definition join_page :: "target \<Rightarrow> string \<Rightarrow> unit hm" where
  "join_page t grp = (if tg_lxmf t \<or> \<not> tg_given t then lxmfJoinHowTo
     else if tg_room t = grp then say (''You're reading #'' @ grp @ '' here already; post with Say.'')
     else say (''The chat page carries #'' @ grp @ '' only. Other rooms are joined over RRC.''))"

definition say_welcome :: "bool \<Rightarrow> Person \<Rightarrow> string \<Rightarrow> unit hm" where
  "say_welcome was p note = bnd (asks cfg) (\<lambda>k.
     seq (if was then say (''You're already in the group, as '' @ ps_Name p @ ''.'')
          else seq (say (''Welcome to '' @ HubName k @ '', '' @ ps_Name p @ ''. Everyone in #'' @ GroupRoom k @
                 '' on RRC and on the chat page sees what you send here.''))
               (say ''You'll get every message, your own from RRC and the page included. /lxmf auto pauses it while you're on RRC; /lxmf mine off stops your own.''))
     (seq (if note \<noteq> '''' then say note
           else if \<not> ps_Claimed p then say ''Pick a name with /nick YourName so people know who you are.'' else ret ())
     (if \<not> was then say ''/help lists the commands.'' else ret ())))"

definition join_lxmf :: "cmd \<Rightarrow> target \<Rightarrow> string list \<Rightarrow> string \<Rightarrow> unit hm" where
  "join_lxmf c t args grp = (if tg_given t \<and> \<not> tg_lxmf t \<and> tg_room t \<noteq> grp
     then fail (''The LXMF group carries #'' @ grp @ '' only. Other rooms are joined over RRC.'')
     else if 1 < length args then fail ''A name can't contain spaces.''
     else bnd (catchUE (bnd (joinGroup (cm_Identity c) (if args = [] then '''' else hd args)) (\<lambda>r. ret (Some r)))
         (\<lambda>e. seq (fail e) (ret None))) (\<lambda>r. case r of None \<Rightarrow> ret ()
       | Some (p, note) \<Rightarrow> say_welcome (ps_Member (cm_me c)) p note))"

definition cmdJoin :: "cmd \<Rightarrow> string list \<Rightarrow> unit hm" where
  "cmdJoin c args0 = bnd (takeTarget c True args0) (\<lambda>t. case t of None \<Rightarrow> ret ()
     | Some (t, args) \<Rightarrow> bnd (asks (\<lambda>h. GroupRoom (cfg h))) (\<lambda>grp.
       if cm_Via c = ViaRRC then join_rrc t args else if cm_Via c = ViaPage then join_page t grp else join_lxmf c t args grp))"

definition leave_rrc :: "cmd \<Rightarrow> string \<Rightarrow> unit hm" where
  "leave_rrc c room = bnd (asks (rrcPresent room (cm_Identity c))) (\<lambda>here.
     if \<not> here then fail (''You're not in #'' @ room @ ''.'')
     else seq (modify (\<lambda>h. h\<lparr>reply := (reply h)\<lparr>PartRoom := room\<rparr>\<rparr>)) (say (''You've left #'' @ room @ ''.'')))"

definition leave_lxmf :: "cmd \<Rightarrow> unit hm" where
  "leave_lxmf c = bnd (leaveGroup (cm_Identity c)) (\<lambda>left. bnd (asks groupAddress) (\<lambda>a.
     if \<not> left then fail ''You're not in the LXMF group.''
     else say (''You've left the LXMF group; nothing more comes to you by LXMF. Your name stays yours (/forget frees it). To come back, send /join to '' @
       a @ '' from your LXMF app.'')))"

definition cmdLeave :: "cmd \<Rightarrow> string list \<Rightarrow> unit hm" where
  "cmdLeave c args0 = bnd (takeTarget c False args0) (\<lambda>t. case t of None \<Rightarrow> ret ()
     | Some (t, args) \<Rightarrow> if args \<noteq> [] then usage c
       else bnd (asks (\<lambda>h. GroupRoom (cfg h))) (\<lambda>grp.
         if cm_Via c = ViaRRC \<and> \<not> tg_lxmf t then leave_rrc c (tg_room t)
         else if tg_given t \<and> \<not> tg_lxmf t \<and> tg_room t \<noteq> grp
         then fail (''The LXMF group carries #'' @ grp @ '' only. Leave other rooms from your RRC app.'')
         else leave_lxmf c))"

section \<open>Names and actions\<close>

definition cmdForget :: "cmd \<Rightarrow> string list \<Rightarrow> unit hm" where
  "cmdForget c args = (let me = cm_me c in if args \<noteq> [] then usage c
     else if \<not> ps_Claimed me \<and> \<not> ps_Member me then say ''You have no name and aren't in the group, so there's nothing to forget.''
     else bnd (forget (cm_Identity c)) (\<lambda>p.
       say (''Done: '' @ Join ((if ps_Claimed me then [ps_Name me @ '' is free again and you are shown as '' @ ps_Name p] else []) @
         (if ps_Member me then [''you have left the LXMF group''] else [])) '', and '' @ ''.'')))"

definition cmdNick :: "cmd \<Rightarrow> string list \<Rightarrow> unit hm" where
  "cmdNick c args = (let me = cm_me c in case args of [] \<Rightarrow> usage c
     | [a] \<Rightarrow> bnd (catchUE (bnd (claimName (cm_Identity c) a) (\<lambda>p. ret (Some p))) (\<lambda>e. seq (fail e) (ret None))) (\<lambda>r.
         case r of None \<Rightarrow> ret ()
         | Some p \<Rightarrow> if ps_Claimed me \<and> ps_Name me \<noteq> ps_Name p
             then say (''You are now '' @ ps_Name p @ ''. '' @ ps_Name me @ '' is free for anyone.'')
             else say (''You are now '' @ ps_Name p @ ''. The name is yours on RRC, the LXMF group and the page until you /forget it.''))
     | _ \<Rightarrow> fail ''A name can't contain spaces.'')"

definition cmdMe :: "cmd \<Rightarrow> string list \<Rightarrow> unit hm" where
  "cmdMe c args = (if args = [] then usage c
     else bnd (here c) (\<lambda>room. catchUE (bnd (post \<lparr>pr_Via = cm_Via c, pr_Identity = cm_Identity c, pr_Room = room, pr_Action = True,
         pr_Body = Join args '' '', pr_OriginID = None, pr_SaidAt = 0, pr_Ext = None\<rparr>) (\<lambda>_. ret ()))
       (\<lambda>e. fail (''Not sent: '' @ e))))"

section \<open>Settings\<close>

definition describeMode :: "Person \<Rightarrow> string hm" where
  "describeMode p = (case ps_LXMFMode p of LXMFOff \<Rightarrow> ret ''off'' | LXMFOn \<Rightarrow> ret ''on''
     | LXMFAuto \<Rightarrow> bnd (asks (\<lambda>h. GroupRoom (cfg h))) (\<lambda>grp. bnd (personOnRRC (ps_Identity p) grp None) (\<lambda>on.
         ret (if on then ''auto, paused while you're on RRC'' else ''auto, on''))))"

definition cmdWhoami :: "cmd \<Rightarrow> string list \<Rightarrow> unit hm" where
  "cmdWhoami c args = (let me = cm_me c in bnd (asks (\<lambda>h. (env h, roomsOf (ps_Identity me) h))) (\<lambda>(v, rs).
     let places = (if rs \<noteq> [] then [''RRC in #'' @ Join rs '', #''] else []) @ (if ps_Member me then [''the LXMF group''] else []) in
     seq (say (''You are '' @ ps_Name me @ (if ps_Claimed me then '' (yours since '' @ date_text v (ps_ClaimedAt me) @ '')''
           else '' (no name claimed yet: /nick YourName)'') @ ''.''))
     (seq (say (''Identity '' @ hexID (ps_Identity me) @ ''.''))
     (seq (if places = [] then say ''You're not in any room or the group right now.'' else say (''Here via '' @ Join places '' and '' @ ''.''))
     (seq (if ps_Member me then bnd (describeMode me) (\<lambda>m.
             say (''LXMF delivery: '' @ m @ ''; your own messages: '' @ on_off (ps_LXMFMine me) @ ''.'')) else ret ())
     (seq (if Linked me then say (ps_Name me @ '' shares your name with '' @ plural (int (length (ps_Identities me)) - 1) ''other app'' @ '' (/devices).'')
           else ret ())
     (if RankMember < ps_Rank me then say (''You are '' @ article (ps_Rank me) @ '' of this hub.'') else ret ())))))))"

definition notMemberYet :: "bool \<Rightarrow> unit hm" where
  "notMemberYet member = (if member then ret ()
     else say ''Saved, but you're not in the LXMF group. Joining it turns delivery on, your own messages included; change it again after you /join if you like.'')"

definition lxmf_mine :: "cmd \<Rightarrow> string \<Rightarrow> unit hm" where
  "lxmf_mine c word = (if \<not> isOnOff word then usage c
     else let on = EqualFold word ''on'' in seq (exec (SetLXMFMine (cm_Identity c) on))
       (seq (say (if on then ''Your own messages from RRC and the chat page will now come to you by LXMF too, so your LXMF conversation shows everything you say. (Ones you send from your LXMF app aren't repeated; it already shows them.)''
          else ''Your own messages from RRC and the chat page won't be sent to you by LXMF any more.''))
       (notMemberYet (ps_Member (cm_me c)))))"

definition lxmf_mode :: "cmd \<Rightarrow> LXMFMode \<Rightarrow> unit hm" where
  "lxmf_mode c mode = bnd (setLXMFMode (cm_Identity c) mode) (\<lambda>p. seq (case mode of
       LXMFOff \<Rightarrow> say ''LXMF delivery is off. You stay in the group; /lxmf on starts it again.''
     | LXMFOn \<Rightarrow> say ''LXMF delivery is on.''
     | LXMFAuto \<Rightarrow> bnd (describeMode p) (\<lambda>m. bnd (asks (\<lambda>h. GroupRoom (cfg h))) (\<lambda>grp.
         say (''LXMF delivery is '' @ m @ '': it pauses while you're in #'' @ grp @ '' over RRC.''))))
     (notMemberYet (ps_Member p)))"

definition cmdLXMF :: "cmd \<Rightarrow> string list \<Rightarrow> unit hm" where
  "cmdLXMF c args = (let me = cm_me c in
     if length args = 2 \<and> EqualFold (hd args) ''mine'' then lxmf_mine c (args ! 1)
     else case args of
       [] \<Rightarrow> bnd (describeMode me) (\<lambda>m. say (''LXMF delivery is '' @ m @ '', and your own messages from RRC and the page: '' @
         on_off (ps_LXMFMine me) @ ''. Change it with /lxmf on, /lxmf off, /lxmf auto, or /lxmf mine on|off.''))
     | [a] \<Rightarrow> bnd (asks (\<lambda>h. ParseLXMFMode (ulower (env h)) a)) (\<lambda>mode. case mode of None \<Rightarrow> usage c | Some mode \<Rightarrow> lxmf_mode c mode)
     | _ \<Rightarrow> usage c)"

section \<open>Hub owners\<close>

definition release_held :: "cmd \<Rightarrow> name_info \<Rightarrow> unit hm" where
  "release_held c n = (let i = nm_Identity n; guest = GuestName i in
     bnd (execR (ReleaseName i)) (\<lambda>_. seq (rename_after i (nm_Name n) guest)
     (seq (emit (NoticeEvent i '''' (''A hub operator has released the name '' @ nm_Name n @ ''. You are shown as '' @ guest @
        '' until you choose another with /nick.'') False))
     (seq (Audit_now (Some (cm_Identity c)) ''release'' (nm_Name n) (hexID i))
     (say (''released '' @ nm_Name n @ '' (held by '' @ hexID i @ '')''))))))"

definition cmdRelease :: "cmd \<Rightarrow> string list \<Rightarrow> unit hm" where
  "cmdRelease c args = (case args of [a] \<Rightarrow> bnd (asks env) (\<lambda>v. case CleanName v a of
       Inl _ \<Rightarrow> fail (a @ '' isn't a name anyone could hold'')
     | Inr (_, sk) \<Rightarrow> bnd (queryE (NameBySkeleton sk)) (\<lambda>n. case n of None \<Rightarrow> fail (''nobody holds '' @ a) | Some n \<Rightarrow> release_held c n))
     | _ \<Rightarrow> usage c)"

definition stat_text :: "Stats \<Rightarrow> string" where
  "stat_text s = ''posts='' @ itoa (int (Posts s)) @ '' duplicates='' @ itoa (int (Duplicates s)) @ '' refusals='' @ itoa (int (Refusals s)) @
     '' commands='' @ itoa (int (Commands s)) @ '' internal_errors='' @ itoa (int (InternalErrors s))"

definition cmdStats :: "cmd \<Rightarrow> string list \<Rightarrow> unit hm" where
  "cmdStats c args = bnd (asks (\<lambda>h. h)) (\<lambda>h.
     seq (say (stat_text (stats h)))
     (seq (say (''rooms_with_people='' @ itoa (int (card (pe_Room ` set (presence h)))) @ '' rrc_presences='' @
        itoa (int (length (presence h))) @ '' group_members='' @ itoa (int (length (Members (st h))))))
     (each (\<lambda>s. say (''subscriber '' @ sub_name s @ '': queued='' @ itoa (int (length (sub_ch s))) @ '' dropped='' @ itoa (int (sub_dropped s)))) (subs h))))"

section \<open>Every handler keeps the invariants\<close>

lemma keeps_LXMFMode [hub_keeps]:
  "keeps P a \<Longrightarrow> keeps P b \<Longrightarrow> keeps P c \<Longrightarrow> keeps P (case m of LXMFOn \<Rightarrow> a | LXMFOff \<Rightarrow> b | LXMFAuto \<Rightarrow> c)"
  by (cases m) simp_all

context plain_handler
begin

lemma join_how_keeps [hub_keeps]: "keeps P lxmfJoinHowTo" "keeps P (join_rrc t args)" "keeps P (join_page t grp)" "keeps P (say_welcome b p note)"
  unfolding join_rrc_def join_page_def say_welcome_def lxmfJoinHowTo_def by (intro hub_keeps)+

lemma cmdJoin_keeps_if: "(\<And>name. keeps P (joinGroup (cm_Identity c) name)) \<Longrightarrow> keeps P (cmdJoin c args)"
  unfolding cmdJoin_def join_lxmf_def by (intro hub_keeps)

lemma cmdLeave_keeps [hub_keeps]: "keeps P (cmdLeave c args)"
  unfolding cmdLeave_def leave_rrc_def leave_lxmf_def by (intro hub_keeps)

lemma cmdNick_keeps [hub_keeps]: "keeps P (cmdForget c args)" "keeps P (cmdNick c args)" "keeps P (cmdMe c args)"
  unfolding cmdForget_def cmdNick_def cmdMe_def by (intro hub_keeps)+

lemma describeMode_keeps [hub_keeps]: "keeps P (describeMode p)" "keeps P (notMemberYet b)"
  unfolding describeMode_def notMemberYet_def by (intro hub_keeps)+

lemma cmdWhoami_keeps [hub_keeps]: "keeps P (cmdWhoami c args)"
  unfolding cmdWhoami_def by (intro hub_keeps)

lemma cmdLXMF_keeps [hub_keeps]: "keeps P (cmdLXMF c args)"
  unfolding cmdLXMF_def lxmf_mine_def lxmf_mode_def by (intro hub_keeps)

lemma cmdRelease_keeps [hub_keeps]: "keeps P (cmdRelease c args)" "keeps P (cmdStats c args)"
  unfolding cmdRelease_def release_held_def cmdStats_def Let_def by (intro hub_keeps)+

end

context hub_handler
begin

lemma cmdJoin_keeps [hub_keeps]: "keeps P (cmdJoin c args)"
  by (intro cmdJoin_keeps_if hub_keeps)

end

end
