(* ===== verification/HubHelp.thy ===== *)
theory HubHelp
  imports HubCmdPeople
begin

text \<open>
  The command table of internal/hub/commands.go (with legacyRoomCommands of cmd_rooms.go), the tests for
  what is a command and what is an action, and /help: the pages it packs, each within one LXMF packet.
  A command's \<^verbatim>\<open>run\<close> function is named by a constructor of \<open>runner\<close>; \<open>HubCommands\<close>
  dispatches on it.
\<close>

section \<open>The table\<close>

datatype access = anyone | mods | admins | owners

definition access_rank :: "access \<Rightarrow> Rank" where
  "access_rank a = (case a of mods \<Rightarrow> RankMod | admins \<Rightarrow> RankAdmin | owners \<Rightarrow> RankOwner | anyone \<Rightarrow> RankMember)"

datatype runner =
    RunHelp | RunJoin | RunLeave | RunNick | RunMe | RunWho | RunList | RunHistory | RunTopic
  | RunWhoami | RunLXMF | RunNothing | RunShare | RunWhispers | RunIgnore | RunUnignore | RunIgnored | RunPage
  | RunForget | RunWhisper | RunReply | RunProfile | RunLink | RunDevices | RunUnlink | RunRoom | RunKick
  | RunBan | RunUnban | RunBans | RunRename | RunDelete | RunModlog | RunMod | RunAdmin | RunDemote
  | RunKline | RunRelease | RunStats
  | RunLegacy string

datatype old_form = NoOldForm | OldKick | OldBan

record command =
  cd_name :: string
  cd_aliases :: "string list"
  cd_args :: string
  cd_short :: string
  cd_help :: string
  cd_page :: nat
  cd_access :: access
  cd_run :: runner
  cd_expand :: string
  cd_oldForm :: old_form

definition entry :: "string \<Rightarrow> string list \<Rightarrow> string \<Rightarrow> string \<Rightarrow> nat \<Rightarrow> access \<Rightarrow> runner \<Rightarrow> string \<Rightarrow> command" where
  "entry name aliases args short page acc run help = \<lparr>cd_name = name, cd_aliases = aliases, cd_args = args, cd_short = short,
     cd_help = help, cd_page = page, cd_access = acc, cd_run = run, cd_expand = '''', cd_oldForm = NoOldForm\<rparr>"

definition ellipsis :: string where
  "ellipsis = [CHR 0xE2, CHR 0x80, CHR 0xA6]"

definition roomHelp :: string where
  "roomHelp = ''room operator commands, for the room you're in unless you name one. /room kick [#room] <name>; /room ban|unban [#room] <name>; /room bans [#room]; /room invite|uninvite [#room] <name>; /room invites [#room]; /room op|deop|voice|devoice [#room] <name>; /room mode [#room] <+m|-m|+i|-i|+k key|-k|+t|-t|+n|-n|+p|-p|+o|-o|+v|-v name>; /room register|unregister [#room]''"

definition legacy_entry :: "string \<times> string \<Rightarrow> command" where
  "legacy_entry p = entry (fst p) [] (snd p) '''' 0 anyone (RunLegacy (fst p))
     (''rrcd's form of /room '' @ fst p @ '', kept for now: '' @ roomHelp)"

definition legacyRoomCommands :: "command list" where
  "legacyRoomCommands = map legacy_entry
    [(''invite'', ''[room] add|del|list [name|hashprefix|hash]''), (''op'', ''[room] <name|hashprefix|hash>''),
     (''deop'', ''[room] <name|hashprefix|hash>''), (''voice'', ''[room] <name|hashprefix|hash>''),
     (''devoice'', ''[room] <name|hashprefix|hash>''), (''mode'', ''[room] <flag> [arg]''),
     (''register'', ''[room]''), (''unregister'', ''[room]'')]"

definition own_commands :: "command list" where
  "own_commands =
    [entry ''help'' [] ''[page|command]'' '''' 0 anyone RunHelp
       ''commands a page at a time (/help 2), or one command explained (/help nick)'',
     entry ''join'' [] ''[#room|lxmf]'' ''join'' 1 anyone RunJoin
       ''join a room, or the LXMF group. Rooms are joined from your RRC app; the group is joined by sending /join from your LXMF app. Over LXMF, /join Name also picks your name.'',
     entry ''leave'' [] ''[#room|lxmf]'' ''leave'' 1 anyone RunLeave
       ''leave the room you're in over RRC, or the LXMF group from LXMF or the page; /leave lxmf leaves the group from anywhere. Your name stays yours (see /forget).'',
     entry ''nick'' [] ''<name>'' ''take a name'' 1 anyone RunNick
       ''take a name, the same on RRC, the LXMF group and the page; your old name is freed'',
     entry ''me'' [] ''<action>'' ''an action'' 1 anyone RunMe
       ''say an action: /me waves shows as * Name waves'',
     entry ''who'' [''names''] ''[#room]'' ''who's here'' 1 anyone RunWho
       ''who is in a room, on RRC and in the LXMF group'',
     entry ''list'' [] '''' ''rooms'' 1 anyone RunList
       ''the registered public rooms'',
     entry ''history'' [] ''[#room] [n]'' ''older messages'' 1 anyone RunHistory
       ''the last n messages in a room (20 if you don't say)'',
     entry ''topic'' [] ''[#room] [text]'' ''the topic'' 1 anyone RunTopic
       ''show a room's topic, or set it (room operators, in +t rooms). /topic #room text sets a topic that starts with a room's name.'',
     entry ''whoami'' [] '''' ''your name and settings'' 2 anyone RunWhoami
       ''your name, identity, where you're connected and your settings'',
     entry ''lxmf'' [] ''on|off|auto|mine on|off'' ''LXMF delivery'' 2 anyone RunLXMF
       ''LXMF delivery: on (every message), off (none; you stay in the group), auto (paused while you're in the room over RRC). /lxmf mine on also sends you your own messages from RRC and the page.'',
     (entry ''pause'' [] '''' '''' 0 anyone RunNothing
       ''the same as /lxmf off'')\<lparr>cd_expand := ''lxmf off''\<rparr>,
     (entry ''resume'' [] '''' '''' 0 anyone RunNothing
       ''the same as /lxmf on'')\<lparr>cd_expand := ''lxmf on''\<rparr>,
     entry ''share'' [] ''on|off'' ''show your LXMF address'' 2 anyone RunShare
       ''show your LXMF address on your profile (on, the default) or hide it (off); it's always shown for mods and up'',
     entry ''whispers'' [] ''[on|off|lxmf on|off]'' ''whisper settings'' 3 anyone RunWhispers
       ''whether people can whisper to you (on, the default), and whether whispers come to your LXMF app (on, even while group delivery is off)'',
     entry ''ignore'' [] ''<name>'' ''block their whispers'' 3 anyone RunIgnore
       ''stop someone's whispers reaching you; they aren't told'',
     entry ''unignore'' [] ''<name>'' ''undo /ignore'' 3 anyone RunUnignore
       ''let someone whisper to you again'',
     entry ''ignored'' [] '''' ''who you ignore'' 3 anyone RunIgnored
       ''the people you're ignoring'',
     entry ''page'' [] (''[lines|flag|refresh '' @ ellipsis @ '']'') ''chat page view'' 2 anyone RunPage
       ''how the chat page looks for you: /page lines 10|20|30|50|100, /page flag on|off (the banner), /page refresh off|10|30|60 (seconds)'',
     entry ''forget'' [] '''' ''free your name, leave all'' 2 anyone RunForget
       ''free your name for anyone and leave the LXMF group. Messages you've sent keep your name.'',
     entry ''whisper'' [''w'', ''msg'', ''tell''] ''<name> <text>'' ''only they see it'' 3 anyone RunWhisper
       ''say something only one person sees: on RRC, in their LXMF app and on the chat page, now or when they're next on. Also /w, /msg and /tell.'',
     entry ''r'' [] ''<text>'' ''reply to a whisper'' 3 anyone RunReply
       ''whisper back to whoever whispered to you last'',
     entry ''profile'' [''whois''] ''[name]'' ''someone's profile'' 4 anyone RunProfile
       ''a person's profile: their name, whether they're here, and their LXMF address if they share it'',
     entry ''link'' [] ''[code [confirm]|approve|deny <app>]'' ''link another app'' 4 anyone RunLink
       ''share your name with another app: /link here gives a code, /link CODE on the other app links it. People with a role approve with /link approve <app>.'',
     entry ''devices'' [] ''[name]'' ''your apps'' 4 anyone RunDevices
       ''the apps sharing your name, or (mods and up) someone else's'',
     entry ''unlink'' [] ''[app]'' ''unlink an app'' 4 anyone RunUnlink
       ''take this app, or another of yours (by the start of its identity), out of your name'',
     entry ''room'' [] (''<verb> [#room] '' @ ellipsis) ''for room operators'' 4 anyone RunRoom
       roomHelp,
     (entry ''kick'' [] ''<name> [reason]'' ''put out, name freed'' 5 mods RunKick
       ''put someone out of every room and the group; their name is freed and their apps unlinked, and they can come back as a guest'')\<lparr>cd_oldForm := OldKick\<rparr>,
     (entry ''ban'' [] ''<name> [1h|1d|7d|perm] [reason]'' ''ban, name freed'' 5 mods RunBan
       ''ban every app of someone from the hub, for a while (30m, 1h, 1d, 7d) or for good (perm, the default); their name is freed'')\<lparr>cd_oldForm := OldBan\<rparr>,
     entry ''unban'' [] ''<name|hash>'' ''lift a ban'' 5 mods RunUnban
       ''lift a ban, by the name they had or their identity'',
     entry ''bans'' [] '''' ''who's banned'' 5 mods RunBans
       ''current bans, with the reason, who banned them and until when'',
     entry ''rename'' [] ''<name> <new name>'' ''change a name'' 5 mods RunRename
       ''change someone's name; the usual name rules apply'',
     entry ''delete'' [] ''<name> [n]'' ''remove messages'' 2 anyone RunDelete
       ''remove someone's last n messages (1 if you don't say) in the room you're in, from history and the chat page. Anyone can remove their own; mods and up can remove others'. Copies already delivered stay in people's apps.'',
     entry ''modlog'' [] ''[n]'' ''recent actions'' 5 mods RunModlog
       ''the last n moderation actions, newest first'',
     entry ''mod'' [] ''<name>'' ''make a mod'' 6 admins RunMod
       ''make someone a mod: they can kick, ban, rename and remove messages'',
     entry ''admin'' [] ''<name>'' ''make an admin'' 6 admins RunAdmin
       ''make someone an admin: a mod who can also make mods and admins'',
     entry ''demote'' [] ''<name>'' ''take a role away'' 6 admins RunDemote
       ''take away someone's mod or admin role'',
     entry ''kline'' [] ''add|del|list [name|hashprefix|hash]'' '''' 0 mods RunKline
       ''rrcd's form of /ban, /unban and /bans, kept for now'',
     entry ''release'' [] ''<name>'' ''free a name'' 7 owners RunRelease
       ''free a name someone holds'',
     entry ''stats'' [] '''' ''hub counters'' 7 owners RunStats
       ''hub counters'']"

definition commandTable :: "command list" where
  "commandTable = own_commands @ legacyRoomCommands"

definition lookupCommand :: "string \<Rightarrow> command option" where
  "lookupCommand name = find (\<lambda>c. cd_name c = name \<or> name \<in> set (cd_aliases c)) commandTable"

section \<open>What is a command\<close>

definition IsCommand :: "(nat \<Rightarrow> nat) \<Rightarrow> string \<Rightarrow> bool" where
  "IsCommand ul text = (let t = TrimSpace text in
     if HasPrefix t ''/'' then True
     else if HasPrefix t ''!'' then lookupCommand (ToLower ul (takeWhile (\<lambda>c. c \<noteq> CHR '' '') (tl t))) \<noteq> None
     else False)"

definition action_after :: "string \<Rightarrow> string \<Rightarrow> string option" where
  "action_after t pre = (let action = TrimSpace (drop (length pre) t) in
     if length pre < length t \<and> EqualFold (take (length pre) t) pre \<and> action \<noteq> '''' then Some action else None)"

definition ActionText :: "string \<Rightarrow> string option" where
  "ActionText text = (let t = TrimSpace text in
     case action_after t ''/me '' of Some a \<Rightarrow> Some a | None \<Rightarrow> action_after t ''!me '')"

section \<open>Help pages\<close>

definition OnePacketText :: nat where
  "OnePacketText = 280"

function ReplaceAll :: "string \<Rightarrow> string \<Rightarrow> string \<Rightarrow> string" where
  "ReplaceAll old new s = (if old = [] \<or> s = [] then s
     else if HasPrefix s old then new @ ReplaceAll old new (drop (length old) s)
     else hd s # ReplaceAll old new (tl s))"
  by pat_completeness auto
termination
  by (relation "measure (\<lambda>(old, new, s). length s)") (auto simp: HasPrefix_def)

declare ReplaceAll.simps [simp del]

definition compactArgs :: "string \<Rightarrow> string" where
  "compactArgs args = fold (\<lambda>(old, new) s. ReplaceAll old new s)
     [(''name|hashprefix|hash'', ''name''), (''[code [confirm]|approve|deny <app>]'', ''[code]''), (''[1h|1d|7d|perm] '', ''[time] ''),
      (''on|off|auto|mine on|off'', ''on|off|auto|mine''), (''[lines|flag|refresh '' @ ellipsis @ '']'', ''[lines|flag|refresh]''),
      (''[on|off|lxmf on|off]'', ''[on|off|lxmf]''), (''add|del|list [name]'', ''add|del|list'')] args"

record helpPage =
  hp_title :: string
  hp_lines :: "string list"

definition helpLine :: "command \<Rightarrow> string" where
  "helpLine def = ''/'' @ cd_name def @ (if cd_args def \<noteq> '''' then '' '' @ compactArgs (cd_args def) else '''') @ '' '' @ dash @ '' '' @ cd_short def"

definition details_line :: string where
  "details_line = ''Details: /help <command> '' @ middot @ '' ! works in place of /''"

definition renderHelpPage :: "helpPage list \<Rightarrow> nat \<Rightarrow> string list" where
  "renderHelpPage pages n = (let page = pages ! (n - 1) in
     [''Help '' @ itoa (int n) @ ''/'' @ itoa (int (length pages)) @ '' '' @ middot @ '' '' @ hp_title page] @ hp_lines page @
     [if n < length pages then ''More: /help '' @ itoa (int n + 1) else details_line])"

definition helpPageBytes :: "string \<Rightarrow> string list \<Rightarrow> bool \<Rightarrow> nat" where
  "helpPageBytes title lns lst = length (''Help 10/10 '' @ middot @ '' '') + length title + sum_list (map (\<lambda>l. 1 + length l) lns) + 1 +
     length (if lst then details_line else ''More: /help 10'')"

definition helpSections :: "string list" where
  "helpSections = [''chatting'', ''you'', ''whispers'', ''people and rooms'', ''moderation'', ''ranks'', ''running the hub'']"

text \<open>One section: its lines packed in order, a new page when the next line would not fit.\<close>

fun pack :: "string \<Rightarrow> string list \<Rightarrow> string list \<Rightarrow> helpPage list" where
  "pack title cur [] = (if cur = [] then [] else [\<lparr>hp_title = title, hp_lines = cur\<rparr>])"
| "pack title cur (l # ls) =
     (if cur \<noteq> [] \<and> helpPageBytes title (cur @ [l]) False \<le> OnePacketText then pack title (cur @ [l]) ls
      else (if cur = [] then [] else [\<lparr>hp_title = title, hp_lines = cur\<rparr>]) @ pack title [l] ls)"

definition section_lines :: "Rank \<Rightarrow> nat \<Rightarrow> string list" where
  "section_lines r n = map helpLine (filter (\<lambda>def. cd_page def = n \<and> access_rank (cd_access def) \<le> r) commandTable)"

text \<open>The last page ends with the longer Details line: its last command moves to a page of its own if need be.\<close>

function settle_last :: "helpPage list \<Rightarrow> helpPage list" where
  "settle_last pages = (if pages = [] then []
     else let lst = last pages; ls = hp_lines lst in
       if length ls < 2 \<or> helpPageBytes (hp_title lst) ls True \<le> OnePacketText then pages
       else settle_last (butlast pages @ [lst\<lparr>hp_lines := butlast ls\<rparr>, \<lparr>hp_title = hp_title lst, hp_lines = [last ls]\<rparr>]))"
  by pat_completeness auto
termination
  by (relation "measure (\<lambda>ps. length (hp_lines (last ps)))") auto

declare settle_last.simps [simp del]

definition helpPages :: "Rank \<Rightarrow> helpPage list" where
  "helpPages r = settle_last (concat (map (\<lambda>n. pack (helpSections ! (n - 1)) [] (section_lines r n)) [1..<8]))"

definition helpOne :: "string \<Rightarrow> unit hm" where
  "helpOne name0 = bnd (asks (\<lambda>h. ToLower (ulower (env h)) (dropWhile (\<lambda>c. c \<in> set ''/!'') name0))) (\<lambda>name.
     case lookupCommand name of None \<Rightarrow> fail (''There's no /'' @ name @ ''. Send /help for the commands.'')
     | Some def \<Rightarrow> say (''/'' @ cd_name def @ (if cd_args def \<noteq> '''' then '' '' @ cd_args def else '''') @ '' '' @ dash @ '' '' @ cd_help def))"

definition show_page :: "cmd \<Rightarrow> int \<Rightarrow> unit hm" where
  "show_page c n = (let pages = helpPages (ps_Rank (cm_me c)); k = itoa (int (length pages)) in
     if n < 1 \<or> int (length pages) < n then fail (''There are '' @ k @ '' help pages: /help 1 to /help '' @ k @ ''.'')
     else modify (\<lambda>h. h\<lparr>reply := (reply h)\<lparr>Lines := Lines (reply h) @ renderHelpPage pages (nat n)\<rparr>\<rparr>))"

definition cmdHelp :: "cmd \<Rightarrow> string list \<Rightarrow> unit hm" where
  "cmdHelp c args = (case args of [] \<Rightarrow> show_page c 1
     | [a] \<Rightarrow> (case Atoi a of None \<Rightarrow> helpOne a | Some n \<Rightarrow> show_page c n)
     | _ \<Rightarrow> usage c)"

context plain_handler
begin

lemma cmdHelp_keeps [hub_keeps]: "keeps P (cmdHelp c args)"
  unfolding cmdHelp_def show_page_def helpOne_def Let_def by (intro hub_keeps)

end

section \<open>Every page fits one packet\<close>

lemma pack_lines: "concat (map hp_lines (pack title cur ls)) = cur @ ls"
  by (induction title cur ls rule: pack.induct) auto

lemma pack_title: "pg \<in> set (pack title cur ls) \<Longrightarrow> hp_title pg = title"
  by (induction title cur ls rule: pack.induct) (auto split: if_splits)

definition page_ok :: "helpPage \<Rightarrow> bool" where
  "page_ok pg \<longleftrightarrow> hp_lines pg \<noteq> [] \<and> helpPageBytes (hp_title pg) (hp_lines pg) False \<le> OnePacketText"

definition line_fits :: "string \<Rightarrow> string \<Rightarrow> bool" where
  "line_fits title l \<longleftrightarrow> helpPageBytes title [l] True \<le> OnePacketText"

lemma bytes_le_last: "helpPageBytes title ls False \<le> helpPageBytes title ls True"
  by (simp add: helpPageBytes_def details_line_def middot_def)

lemma bytes_snoc: "helpPageBytes title (butlast ls) b \<le> helpPageBytes title ls b"
  by (cases ls rule: rev_cases) (simp_all add: helpPageBytes_def)

lemma pack_fits:
  assumes "\<forall>l\<in>set ls. line_fits title l" "cur \<noteq> [] \<longrightarrow> helpPageBytes title cur False \<le> OnePacketText"
  shows "\<forall>pg\<in>set (pack title cur ls). page_ok pg"
  using assms
proof (induction title cur ls rule: pack.induct)
  case (2 title cur l ls)
  have "helpPageBytes title [l] False \<le> OnePacketText"
    using 2(3) bytes_le_last [of title "[l]"] by (auto simp: line_fits_def)
  with 2 show ?case by (auto simp: page_ok_def)
qed (simp add: page_ok_def)

lemma settle_last_step:
  "settle_last pages = (if pages = [] then [] else let lst = last pages; ls = hp_lines lst in
     if length ls < 2 \<or> helpPageBytes (hp_title lst) ls True \<le> OnePacketText then pages
     else butlast pages @ [lst\<lparr>hp_lines := butlast ls\<rparr>, \<lparr>hp_title = hp_title lst, hp_lines = [last ls]\<rparr>])"
proof -
  have one: "settle_last (ps @ [\<lparr>hp_title = t, hp_lines = [l]\<rparr>]) = ps @ [\<lparr>hp_title = t, hp_lines = [l]\<rparr>]" for ps t l
    by (subst settle_last.simps) simp
  show ?thesis
    by (subst settle_last.simps) (auto simp: Let_def one [of "butlast pages @ [x]" for x, simplified])
qed

lemma lines_fit: "\<forall>def\<in>set commandTable. line_fits ''people and rooms'' (helpLine def)"
  by code_simp

lemma line_fits_title: "length t \<le> length t' \<Longrightarrow> line_fits t' l \<Longrightarrow> line_fits t l"
  by (simp add: line_fits_def helpPageBytes_def)

definition pages_ok :: "helpPage list \<Rightarrow> bool" where
  "pages_ok ps \<longleftrightarrow> (\<forall>pg\<in>set ps. page_ok pg \<and> (\<forall>l\<in>set (hp_lines pg). line_fits (hp_title pg) l))"

lemma settle_last_ok:
  assumes "pages_ok ps"
  shows "pages_ok (settle_last ps) \<and> concat (map hp_lines (settle_last ps)) = concat (map hp_lines ps) \<and>
    (settle_last ps \<noteq> [] \<longrightarrow>
      helpPageBytes (hp_title (last (settle_last ps))) (hp_lines (last (settle_last ps))) True \<le> OnePacketText)"
proof (cases ps rule: rev_cases)
  case Nil
  then show ?thesis by (simp add: settle_last_step pages_ok_def)
next
  case (snoc init lst)
  let ?ls = "hp_lines lst"
  from assms have lst: "page_ok lst" "\<forall>l\<in>set ?ls. line_fits (hp_title lst) l" and init: "pages_ok init"
    by (auto simp: pages_ok_def snoc)
  show ?thesis
  proof (cases "length ?ls < 2 \<or> helpPageBytes (hp_title lst) ?ls True \<le> OnePacketText")
    case True
    have "helpPageBytes (hp_title lst) ?ls True \<le> OnePacketText" if "length ?ls < 2"
    proof -
      from that lst(1) obtain l where "?ls = [l]" by (cases ?ls) (auto simp: page_ok_def)
      with lst(2) show ?thesis by (simp add: line_fits_def)
    qed
    with True assms snoc show ?thesis by (auto simp: settle_last_step)
  next
    case False
    then have ne: "?ls \<noteq> []" "butlast ?ls \<noteq> []" by (cases ?ls rule: rev_cases; auto)+
    have s: "settle_last ps = init @ [lst\<lparr>hp_lines := butlast ?ls\<rparr>, \<lparr>hp_title = hp_title lst, hp_lines = [last ?ls]\<rparr>]"
      using False by (simp add: settle_last_step snoc Let_def)
    have small: "helpPageBytes (hp_title lst) (butlast ?ls) False \<le> OnePacketText"
      using lst(1) bytes_snoc [of "hp_title lst" ?ls False] by (simp add: page_ok_def)
    have "line_fits (hp_title lst) (last ?ls)" using lst(2) ne by simp
    moreover from this have "helpPageBytes (hp_title lst) [last ?ls] False \<le> OnePacketText"
      using bytes_le_last [of "hp_title lst" "[last ?ls]"] by (simp add: line_fits_def)
    ultimately show ?thesis
      unfolding s using init lst ne small by (auto simp: snoc pages_ok_def page_ok_def line_fits_def dest: in_set_butlastD)
  qed
qed

lemma sections_total:
  "distinct ns \<Longrightarrow> sum_list (map (\<lambda>n. length (filter (\<lambda>x. f x = n \<and> Q x) xs)) ns) \<le> length xs"
proof (induction xs)
  case (Cons x xs)
  have "sum_list (map (\<lambda>n. length (filter (\<lambda>y. f y = n \<and> Q y) (x # xs))) ns) =
      sum_list (map (\<lambda>n. of_bool (f x = n \<and> Q x) + length (filter (\<lambda>y. f y = n \<and> Q y) xs)) ns)"
    by (intro arg_cong [where f = sum_list]) auto
  also have "\<dots> \<le> 1 + length xs"
  proof -
    have "sum_list (map (\<lambda>n. of_bool (f x = n \<and> Q x)) ns) \<le> (1::nat)"
      using Cons.prems by (induction ns) auto
    with Cons show ?thesis by (simp add: sum_list_addf)
  qed
  finally show ?case by simp
qed simp

lemma itoa_short: "\<forall>n\<in>set [0..99]. length (itoa n) \<le> 2"
  by code_simp

lemma length_Join: "length (Join (l # ls) [x]) = length l + sum_list (map (\<lambda>l. 1 + length l) ls)"
  by (induction ls arbitrary: l) auto

lemma table_size: "length commandTable = 48"
  by code_simp

lemma titles: "\<forall>n\<in>set [1..<8]. length (helpSections ! (n - 1)) \<le> length ''people and rooms''"
  by code_simp
definition first_pages :: "Rank \<Rightarrow> helpPage list" where
  "first_pages r = concat (map (\<lambda>n. pack (helpSections ! (n - 1)) [] (section_lines r n)) [1..<8])"

lemma first_pages_lines: "concat (map hp_lines (first_pages r)) = concat (map (section_lines r) [1..<8])"
proof -
  have "concat (map hp_lines (concat (map f ns))) = concat (map (\<lambda>n. concat (map hp_lines (f n))) ns)" for f :: "nat \<Rightarrow> helpPage list" and ns
    by (induction ns) simp_all
  then show ?thesis by (simp only: first_pages_def pack_lines append_Nil)
qed

lemma first_pages_ok: "pages_ok (first_pages r)"
  unfolding pages_ok_def
proof
  fix pg assume "pg \<in> set (first_pages r)"
  then obtain n where n: "n \<in> set [1..<8]" and pg: "pg \<in> set (pack (helpSections ! (n - 1)) [] (section_lines r n))"
    by (auto simp: first_pages_def)
  have "line_fits (helpSections ! (n - 1)) l" if "l \<in> set (section_lines r n)" for l
  proof (rule line_fits_title)
    show "length (helpSections ! (n - 1)) \<le> length ''people and rooms''" by (rule bspec [OF titles n])
    from that obtain def where "def \<in> set commandTable" "l = helpLine def" by (auto simp: section_lines_def)
    then show "line_fits ''people and rooms'' l" using lines_fit by blast
  qed
  moreover have "l \<in> set (section_lines r n)" if "l \<in> set (hp_lines pg)" for l
  proof -
    from that pg have "l \<in> set (concat (map hp_lines (pack (helpSections ! (n - 1)) [] (section_lines r n))))" by auto
    then show ?thesis by (simp only: pack_lines append_Nil)
  qed
  ultimately show "page_ok pg \<and> (\<forall>l\<in>set (hp_lines pg). line_fits (hp_title pg) l)"
    using bspec [OF pack_fits [of "section_lines r n" "helpSections ! (n - 1)" "[]"] pg] pack_title [OF pg] by simp
qed

lemmas helpPages_ok = settle_last_ok [OF first_pages_ok, folded helpPages_def [folded first_pages_def], unfolded first_pages_lines]

lemma pages_le_lines: "\<forall>pg\<in>set ps. hp_lines pg \<noteq> [] \<Longrightarrow> length ps \<le> length (concat (map hp_lines ps))"
proof (induction ps)
  case (Cons pg ps)
  then have "Suc 0 \<le> length (hp_lines pg)" by (cases "hp_lines pg") auto
  with Cons show ?case by simp
qed simp

lemma helpPages_count: "length (helpPages r) \<le> 48"
proof -
  have "length (helpPages r) \<le> length (concat (map (section_lines r) [1..<8]))"
    using helpPages_ok [of r] pages_le_lines [of "helpPages r"] by (simp add: pages_ok_def page_ok_def)
  also have "\<dots> = sum_list (map (\<lambda>n. length (filter (\<lambda>def. cd_page def = n \<and> access_rank (cd_access def) \<le> r) commandTable)) [1..<8])"
    by (simp add: length_concat o_def section_lines_def)
  also have "\<dots> \<le> length commandTable" by (rule sections_total) simp
  finally show ?thesis by (simp add: table_size)
qed

lemma itoa_two: "0 \<le> n \<Longrightarrow> n \<le> 99 \<Longrightarrow> length (itoa n) \<le> 2"
  using itoa_short by simp

lemma render_size:
  assumes "1 \<le> n" "n \<le> length pages" "length pages \<le> 48"
  shows "length (Join (renderHelpPage pages n) [CHR 0x0A]) \<le>
    helpPageBytes (hp_title (pages ! (n - 1))) (hp_lines (pages ! (n - 1))) (n = length pages)"
proof -
  have "length (itoa (int n)) \<le> 2" "length (itoa (int (length pages))) \<le> 2" "length (itoa (int n + 1)) \<le> 2"
    using assms by (auto intro!: itoa_two)
  with assms show ?thesis
    by (auto simp: renderHelpPage_def helpPageBytes_def Let_def length_Join middot_def)
qed


end
