(* ===== verification/HubCommands.thy ===== *)
theory HubCommands
  imports HubHelp
begin

text \<open>
  internal/hub/commands.go: running a command. \<open>Command\<close> looks the word up in the table, refuses the
  banned, checks the rank the table asks for, and runs the command in one transaction; a refusal becomes
  the reply. The random code of /link (crypto/rand in links.go) is the first argument.
\<close>

record CommandRequest =
  cr_Via :: Via
  cr_Identity :: ident
  cr_Room :: string
  cr_Text :: string

definition run_command :: "string \<Rightarrow> runner \<Rightarrow> cmd \<Rightarrow> string list \<Rightarrow> unit hm" where
  "run_command code r c args = (case r of
     RunHelp \<Rightarrow> cmdHelp c args | RunJoin \<Rightarrow> cmdJoin c args | RunLeave \<Rightarrow> cmdLeave c args | RunNick \<Rightarrow> cmdNick c args
   | RunMe \<Rightarrow> cmdMe c args | RunWho \<Rightarrow> cmdWho c args | RunList \<Rightarrow> cmdList c args | RunHistory \<Rightarrow> cmdHistory c args
   | RunTopic \<Rightarrow> cmdTopic c args | RunWhoami \<Rightarrow> cmdWhoami c args | RunLXMF \<Rightarrow> cmdLXMF c args | RunNothing \<Rightarrow> ret ()
   | RunShare \<Rightarrow> cmdShare c args | RunWhispers \<Rightarrow> cmdWhispers c args | RunIgnore \<Rightarrow> cmdIgnore c args
   | RunUnignore \<Rightarrow> cmdUnignore c args | RunIgnored \<Rightarrow> cmdIgnored c args | RunPage \<Rightarrow> cmdPage c args
   | RunForget \<Rightarrow> cmdForget c args | RunWhisper \<Rightarrow> cmdWhisper c args | RunReply \<Rightarrow> cmdReply c args
   | RunProfile \<Rightarrow> cmdProfile c args | RunLink \<Rightarrow> cmdLink code c args | RunDevices \<Rightarrow> cmdDevices c args
   | RunUnlink \<Rightarrow> cmdUnlink c args | RunRoom \<Rightarrow> cmdRoom c args | RunKick \<Rightarrow> cmdKick c args | RunBan \<Rightarrow> cmdBan c args
   | RunUnban \<Rightarrow> cmdUnban c args | RunBans \<Rightarrow> cmdBans c args | RunRename \<Rightarrow> cmdRename c args | RunDelete \<Rightarrow> cmdDelete c args
   | RunModlog \<Rightarrow> cmdModlog c args | RunMod \<Rightarrow> cmdMod c args | RunAdmin \<Rightarrow> cmdAdmin c args | RunDemote \<Rightarrow> cmdDemote c args
   | RunKline \<Rightarrow> cmdKline c args | RunRelease \<Rightarrow> cmdRelease c args | RunStats \<Rightarrow> cmdStats c args
   | RunLegacy verb \<Rightarrow> legacyRoom c args verb)"

definition is_old_form :: "old_form \<Rightarrow> string list \<Rightarrow> bool hm" where
  "is_old_form f args = (case f of NoOldForm \<Rightarrow> ret False | OldKick \<Rightarrow> isLegacyRoomKick args
     | OldBan \<Rightarrow> asks (\<lambda>h. isLegacyRoomBan (ulower (env h)) args))"

definition error_reply :: "string \<Rightarrow> unit hm" where
  "error_reply text = modify (\<lambda>h. h\<lparr>reply := (reply h)\<lparr>Reply_Error := True, Lines := [text]\<rparr>\<rparr>)"

text \<open>The words of a command line, and the table's entry with the arguments, shortcuts expanded.\<close>

definition command_fields :: "string \<Rightarrow> string list" where
  "command_fields text0 = (let text = TrimSpace text0 in
     if text \<noteq> '''' \<and> (hd text = CHR ''/'' \<or> hd text = CHR ''!'') then Fields (tl text) else [])"

definition expand_shortcut :: "command \<Rightarrow> string list \<Rightarrow> (command \<times> string list) option" where
  "expand_shortcut def args = (if cd_expand def = '''' then Some (def, args)
     else case Fields (cd_expand def) @ args of [] \<Rightarrow> None
       | name # args' \<Rightarrow> map_option (\<lambda>d. (d, args')) (lookupCommand name))"

definition run_def :: "string \<Rightarrow> CommandRequest \<Rightarrow> command \<Rightarrow> string list \<Rightarrow> unit hm" where
  "run_def code req def args = seq (checkHubBan (cr_Identity req)) (seq (touch (cr_Identity req)) (bnd (person (cr_Identity req)) (\<lambda>me.
     let c = \<lparr>cm_Via = cr_Via req, cm_Identity = cr_Identity req, cm_Room = cr_Room req, cm_name = cd_name def, cm_usage = cd_args def, cm_me = me\<rparr> in
     bnd (is_old_form (cd_oldForm def) args) (\<lambda>old.
     if old then legacyRoom c args (cd_name def)
     else if ps_Rank me < access_rank (cd_access def) then fail ''not authorized''
     else run_command code (cd_run def) c args))))"

definition command_hm :: "string \<Rightarrow> CommandRequest \<Rightarrow> unit hm" where
  "command_hm code req = (case command_fields (cr_Text req) of
       [] \<Rightarrow> error_reply ''Send /help for the commands.''
     | w # args \<Rightarrow> bnd (asks (\<lambda>h. ToLower (ulower (env h)) w)) (\<lambda>name. case lookupCommand name of
         None \<Rightarrow> error_reply (''There's no /'' @ name @ ''. Send /help for the commands.'')
       | Some def \<Rightarrow> (case expand_shortcut def args of None \<Rightarrow> thr ErrNotFound
           | Some (def, args) \<Rightarrow> run_def code req def args)))"

definition Command :: "string \<Rightarrow> CommandRequest \<Rightarrow> Reply hm" where
  "Command code req h = with_reply (command_hm code req) (h\<lparr>stats := (stats h)\<lparr>Commands := Commands (stats h) + 1\<rparr>\<rparr>)"

text \<open>Every shortcut of the table names a command of the table, so the missing-entry branch is never taken.\<close>

lemma shortcuts_known: "\<forall>def\<in>set commandTable. expand_shortcut def [] \<noteq> None"
  by code_simp

context plain_handler
begin

lemma run_command_keeps_plain: "r \<notin> {RunJoin, RunBan, RunKline} \<Longrightarrow> keeps P (run_command code r c args)"
  unfolding run_command_def by (cases r) (simp_all add: hub_keeps)

lemma is_old_form_keeps [hub_keeps]: "keeps P (is_old_form f args)"
  unfolding is_old_form_def by (cases f) (simp_all add: hub_keeps)

lemma error_reply_keeps [hub_keeps]: "keeps P (error_reply t)"
  unfolding error_reply_def by (intro hub_keeps)

end

context hub_handler
begin

lemma run_command_keeps [hub_keeps]: "keeps P (run_command code r c args)"
  using run_command_keeps_plain [of r] by (cases "r \<in> {RunJoin, RunBan, RunKline}") (auto simp: run_command_def hub_keeps)

lemma command_hm_keeps [hub_keeps]: "keeps P (command_hm code req)"
  unfolding command_hm_def run_def_def by (intro hub_keeps)

end

end
