(* ===== verification/HubBans.thy ===== *)
theory HubBans
  imports HubCommands
begin

text \<open>
  Nobody on the ban list is present in a room or in the LXMF group: \<open>banned_absent\<close> and why every
  request keeps it. A handler that only lets the identities of \<open>A\<close> in (none for most; the sender for a
  join) keeps \<open>lets_in A\<close>; /ban is followed through its steps with Hoare triples, because it bans first and
  then puts every app of the target out.
\<close>

definition banned_absent :: "hub \<Rightarrow> bool" where
  "banned_absent h \<longleftrightarrow> (\<forall>i. IsBanned i (st h) \<longrightarrow> \<not> IsMember i (st h) \<and> i \<notin> pe_identity ` set (presence h))"

section \<open>Handlers that let few people in\<close>

definition may_after :: "ident set \<Rightarrow> After \<Rightarrow> bool" where
  "may_after A a \<longleftrightarrow> plain_after a \<or> (\<exists>room i name. a = AfterJoin room i name \<and> i \<in> A)"

definition lets_in :: "ident set \<Rightarrow> db \<Rightarrow> presence_entry list \<Rightarrow> hub \<Rightarrow> bool" where
  "lets_in A d0 ps h \<longleftrightarrow> db_inv (st h) \<and> presence h = ps \<and> (\<forall>i. IsBanned i (st h) \<longrightarrow> IsBanned i d0) \<and>
     (\<forall>i. IsMember i (st h) \<longrightarrow> IsMember i d0 \<or> i \<in> A) \<and> (\<forall>a\<in>set (out_after h). may_after A a)"

interpretation lets: plain_handler "lets_in A d0 ps" for A d0 ps
proof unfold_locales
  fix h d assume "lets_in A d0 ps h" "db_inv d" "calm (st h) d"
  then show "lets_in A d0 ps (h\<lparr>st := d\<rparr>)" by (auto simp: lets_in_def calm_def)
next
  fix h a assume "lets_in A d0 ps h" "plain_after a"
  then show "lets_in A d0 ps (h\<lparr>out_after := out_after h @ [a]\<rparr>)" by (auto simp: lets_in_def may_after_def)
qed (simp_all add: lets_in_def)

lemma lets_AddMember: "i \<in> A \<Longrightarrow> keeps (lets_in A d0 ps) (execR (AddMember i t))"
proof (rule keepsI)
  fix h assume i: "i \<in> A" and h: "lets_in A d0 ps h"
  show "lets_in A d0 ps (snd (execR (AddMember i t) h))"
  proof (cases "AddMember i t (st h)")
    case (Inr r)
    obtain b d where r: "r = (b, d)" by force
    with Inr h have "db_inv d" by (auto simp: lets_in_def intro: inv_intros)
    moreover have "IsMember j d \<longleftrightarrow> j = i \<or> IsMember j (st h)" "bans d = bans (st h)" for j
      using AddMember_who [OF Inr [unfolded r]] by simp_all
    ultimately show ?thesis
      using h i by (auto simp: execR_def Inr r lets_in_def IsBanned_def)
  qed (use h in \<open>simp add: execR_def\<close>)
qed

lemma lets_AfterJoin: "i \<in> A \<Longrightarrow> keeps (lets_in A d0 ps) (after (AfterJoin room i name))"
  by (auto simp: keeps_def after_def modify_def lets_in_def may_after_def)

lemma lets_start: "db_inv (st h) \<Longrightarrow> lets_in A (st h) (presence h) (h\<lparr>out_events := [], out_after := []\<rparr>)"
  by (simp add: lets_in_def)

section \<open>The commit\<close>

lemma run_after_identities:
  "may_after A a \<Longrightarrow> pe_identity ` set (presence (run_after a h)) \<subseteq> pe_identity ` set (presence h) \<union> A"
  by (cases a) (auto simp: run_after_def may_after_def part_presence_def renamePresence_def upsert_def join_merge_def set_update_where)

lemma fold_run_after_identities:
  "\<forall>a\<in>set as. may_after A a \<Longrightarrow> pe_identity ` set (presence (fold run_after as h)) \<subseteq> pe_identity ` set (presence h) \<union> A"
proof (induction as arbitrary: h)
  case (Cons a as)
  then have "pe_identity ` set (presence (fold run_after as (run_after a h))) \<subseteq> pe_identity ` set (presence (run_after a h)) \<union> A" by simp
  with run_after_identities [of A a h] Cons.prems show ?case by (simp del: image_subset_iff) blast
qed simp

text \<open>What a handler leaves is ready to commit when running its queued actions lets no banned identity stay.\<close>

definition ready :: "hub \<Rightarrow> bool" where
  "ready h \<longleftrightarrow> banned_absent (fold run_after (out_after h) h)"

lemma update_ready:
  assumes u: "update m h = (r, h')" and ok: "banned_absent h"
    and pres: "presence (snd (m (h\<lparr>out_events := [], out_after := []\<rparr>))) = presence h"
    and rdy: "\<And>a h1. m (h\<lparr>out_events := [], out_after := []\<rparr>) = (Inr a, h1) \<Longrightarrow> ready h1"
  shows "banned_absent h'"
proof -
  obtain q h1 where run: "m (h\<lparr>out_events := [], out_after := []\<rparr>) = (q, h1)" by (cases "m (h\<lparr>out_events := [], out_after := []\<rparr>)")
  show ?thesis
  proof (cases q)
    case (Inl e)
    with run u have "st h' = st h" "presence h' = presence h1" by (auto simp: update_def count_internal_def)
    with run pres ok show ?thesis by (simp add: banned_absent_def)
  next
    case (Inr a)
    with run u have "st h' = st h1" "presence h' = presence (fold run_after (out_after h1) h1)"
      by (auto simp: update_def publish_def)
    with rdy [OF run [unfolded Inr]] show ?thesis by (simp add: ready_def banned_absent_def)
  qed
qed

lemma lets_in_ready:
  assumes l: "lets_in A (st h) (presence h) h1" and ok: "banned_absent h" and A: "\<And>i. i \<in> A \<Longrightarrow> \<not> IsBanned i (st h)"
  shows "ready h1"
proof -
  have "pe_identity ` set (presence (fold run_after (out_after h1) h1)) \<subseteq> pe_identity ` set (presence h) \<union> A"
    using fold_run_after_identities [of "out_after h1" A h1] l by (simp add: lets_in_def)
  moreover have "\<forall>i. IsBanned i (st h1) \<longrightarrow> IsBanned i (st h)" "\<forall>i. IsMember i (st h1) \<longrightarrow> IsMember i (st h) \<or> i \<in> A"
    using l by (simp_all add: lets_in_def)
  ultimately show ?thesis using ok A unfolding ready_def banned_absent_def fold_run_after_frame by blast
qed

lemma update_lets_in:
  assumes l: "lets_in A (st h) (presence h) (snd (m (h\<lparr>out_events := [], out_after := []\<rparr>)))"
    and ok: "banned_absent h" and A: "\<And>i. i \<in> A \<Longrightarrow> \<not> IsBanned i (st h)" and u: "update m h = (r, h')"
  shows "banned_absent h'"
proof (rule update_ready [OF u ok])
  show "presence (snd (m (h\<lparr>out_events := [], out_after := []\<rparr>))) = presence h" using l by (simp add: lets_in_def)
  fix a h1 assume "m (h\<lparr>out_events := [], out_after := []\<rparr>) = (Inr a, h1)"
  with l lets_in_ready [OF _ ok A] show "ready h1" by simp
qed

lemma update_plain:
  assumes "\<And>d0 ps. keeps (lets_in {} d0 ps) m" "banned_absent h" "db_inv (st h)" "update m h = (r, h')"
  shows "banned_absent h'"
  using lets_start [OF assms(3)] assms(1) by (intro update_lets_in [OF _ assms(2) _ assms(4), of "{}"]) (auto simp: keeps_def)

text \<open>A request that refuses the banned before doing anything, and lets in nobody but its sender.\<close>

lemma update_checked:
  assumes keep: "\<And>d0 ps. keeps (lets_in {i} d0 ps) m" and refuse: "\<And>h. IsBanned i (st h) \<Longrightarrow> snd (m h) = h"
    and ok: "banned_absent h" "db_inv (st h)" and u: "update m h = (r, h')"
  shows "banned_absent h'"
proof (rule update_lets_in [OF _ ok(1) _ u])
  show "lets_in {j. j = i \<and> \<not> IsBanned j (st h)} (st h) (presence h) (snd (m (h\<lparr>out_events := [], out_after := []\<rparr>)))"
  proof (cases "IsBanned i (st h)")
    case True
    then show ?thesis using refuse [of "h\<lparr>out_events := [], out_after := []\<rparr>"] lets_start [OF ok(2)] by simp
  next
    case False
    then have "{j. j = i \<and> \<not> IsBanned j (st h)} = {i}" by auto
    then show ?thesis using keep lets_start [OF ok(2)] by (simp add: keeps_def)
  qed
qed simp

lemma join_absent: "banned_absent h \<Longrightarrow> db_inv (st h) \<Longrightarrow> Join_request req h = (r, h') \<Longrightarrow> banned_absent h'"
  unfolding Join_request_def
proof (rule update_checked [where i = "jr_Identity req"])
  show "keeps (lets_in {jr_Identity req} d0 ps) (join req)" for d0 ps
    by (intro lets.join_keeps_if lets_AfterJoin) simp
  show "snd (join req h) = h" if "IsBanned (jr_Identity req) (st h)" for h
    using that by (auto simp: join_def Let_def refuse_def thr_def bnd_def seq_def normRoom_def asks_def query_def checkHubBan_def ret_def split: sum.splits)
qed

lemma joinGroup_refuses: "IsBanned i (st h) \<Longrightarrow> snd (joinGroup i name h) = h"
  by (simp add: joinGroup_def refuse_def thr_def bnd_def seq_def query_def checkHubBan_def)

lemma joinGroup_absent: "banned_absent h \<Longrightarrow> db_inv (st h) \<Longrightarrow> JoinGroup i name h = (r, h') \<Longrightarrow> banned_absent h'"
  unfolding JoinGroup_def
  by (rule update_checked [where i = i]) (auto intro: lets.joinGroup_keeps_if lets_AddMember joinGroup_refuses)

section \<open>/ban\<close>

text \<open>
  \<open>putting_out B G\<close>: of the identities \<open>B\<close> being banned, those of \<open>G\<close> are out of the group and every room
  they are in has their removal queued.
\<close>

definition out_of :: "ident \<Rightarrow> hub \<Rightarrow> bool" where
  "out_of i h \<longleftrightarrow> \<not> IsMember i (st h) \<and> (\<forall>e\<in>set (presence h). pe_identity e = i \<longrightarrow> AfterForget (pe_Room e) i \<in> set (out_after h))"

definition putting_out :: "ident set \<Rightarrow> ident set \<Rightarrow> db \<Rightarrow> presence_entry list \<Rightarrow> hub \<Rightarrow> bool" where
  "putting_out B G d0 ps h \<longleftrightarrow> db_inv (st h) \<and> presence h = ps \<and> (\<forall>i. IsBanned i (st h) \<longrightarrow> IsBanned i d0 \<or> i \<in> B) \<and>
     (\<forall>i. IsMember i (st h) \<longrightarrow> IsMember i d0) \<and> (\<forall>a\<in>set (out_after h). plain_after a) \<and> (\<forall>i\<in>G. out_of i h)"

interpretation outs: plain_handler "putting_out B G d0 ps" for B G d0 ps
proof unfold_locales
  fix h d assume "putting_out B G d0 ps h" "db_inv d" "calm (st h) d"
  then show "putting_out B G d0 ps (h\<lparr>st := d\<rparr>)" unfolding putting_out_def out_of_def calm_def by auto
next
  fix h a assume "putting_out B G d0 ps h" "plain_after a"
  then show "putting_out B G d0 ps (h\<lparr>out_after := out_after h @ [a]\<rparr>)" by (auto simp: putting_out_def out_of_def)
qed (simp_all add: putting_out_def out_of_def)

lemma outs_AddBan: "b_Identity b \<in> B \<Longrightarrow> keeps (putting_out B {} d0 ps) (exec (AddBan b))"
proof (rule keepsI)
  fix h assume b: "b_Identity b \<in> B" and h: "putting_out B {} d0 ps h"
  show "putting_out B {} d0 ps (snd (exec (AddBan b) h))"
  proof (cases "AddBan b (st h)")
    case (Inr d)
    have "db_inv d" using h Inr by (auto simp: putting_out_def intro: inv_intros)
    moreover have "IsBanned i d \<longleftrightarrow> i = b_Identity b \<or> IsBanned i (st h)" for i using AddBan_who [OF Inr] .
    moreover have "members d = members (st h)" using Inr by (auto simp: AddBan_def)
    ultimately show ?thesis using h b by (auto simp: exec_def Inr putting_out_def IsMember_def)
  qed (use h in \<open>simp add: exec_def\<close>)
qed

lemma putting_out_insert: "putting_out B G d0 ps h \<Longrightarrow> out_of i h \<Longrightarrow> putting_out B (insert i G) d0 ps h"
  by (simp add: putting_out_def)

lemma each_forget:
  assumes "each (\<lambda>room. seq (if b then emit (RemovedEvent room i why) else ret ()) (forgetPresence room i)) rs h = (Inr u, h')"
  shows "st h' = st h \<and> presence h' = presence h \<and> set (out_after h) \<subseteq> set (out_after h') \<and>
    (\<forall>room\<in>set rs. presence_at room i (presence h) \<noteq> None \<longrightarrow> AfterForget room i \<in> set (out_after h'))"
  using assms
proof (induction rs arbitrary: h)
  case (Cons room rs)
  let ?step = "seq (if b then emit (RemovedEvent room i why) else ret ()) (forgetPresence room i)"
  from Cons.prems obtain h1 where h1: "?step h = (Inr (), h1)"
    and rest: "each (\<lambda>room. seq (if b then emit (RemovedEvent room i why) else ret ()) (forgetPresence room i)) rs h1 = (Inr u, h')"
    by (auto simp: seq_Inr_iff)
  have "st h1 = st h \<and> presence h1 = presence h \<and> set (out_after h) \<subseteq> set (out_after h1) \<and>
      (presence_at room i (presence h) \<noteq> None \<longrightarrow> AfterForget room i \<in> set (out_after h1))"
    using h1 by (auto simp: seq_Inr_iff bnd_Inr_iff forgetPresence_def emit_def after_def split: if_splits option.splits)
  with Cons.IH [OF rest] show ?case by auto
qed simp

lemma remove_app_keeps: "keeps (putting_out B G d0 ps) (remove_app target why b i)"
  unfolding remove_app_def forgetPresence_def by (intro hub_keeps)

lemma remove_app_out_of:
  assumes pok: "presence_ok (presence h)" and run: "remove_app target why b i h = (Inr u, h')"
  shows "out_of i h'"
proof -
  let ?h1 = "h\<lparr>st := snd (RemoveMember i (st h))\<rparr>"
  let ?loop = "\<lambda>h2. each (\<lambda>room. seq (if \<not> b then emit (RemovedEvent room i why) else ret ()) (forgetPresence room i)) (roomsOf i h2) h2"
  from run obtain h2 h3 where
    ev: "(if fst (RemoveMember i (st h)) then emit (GroupEvent i (ps_Name target) False) else ret ()) ?h1 = (Inr (), h2)" and
    loop: "?loop h2 = (Inr (), h3)" and
    rest: "seq (emit (NoticeEvent i '''' why (fst (RemoveMember i (st h))))) (if b then emit (BannedEvent i why) else ret ()) h3 = (Inr u, h')"
    unfolding remove_app_def bnd_def [of "execR' _"] execR'_def prod.case sum.case seq_Inr_iff bnd_Inr_iff handler_simps by blast
  from ev have h2: "st h2 = st ?h1" "presence h2 = presence h" by (auto simp: emit_def split: if_splits)
  from rest have h': "st h' = st h3" "presence h' = presence h3" "out_after h' = out_after h3"
    by (auto simp: emit_def seq_Inr_iff split: if_splits)
  note f = each_forget [OF loop]
  have "\<not> IsMember i (st h')" using f h2 h' by (simp add: IsMember_def RemoveMember_def)
  moreover have "AfterForget (pe_Room e) i \<in> set (out_after h')" if e: "e \<in> set (presence h')" "pe_identity e = i" for e
  proof -
    have e2: "e \<in> set (presence h2)" using e f h' by simp
    then have "0 < pe_rrcLinks e" using pok h2 by (simp add: presence_ok_def)
    with e2 e have "pe_Room e \<in> set (roomsOf i h2)" by (auto simp: roomsOf_def)
    moreover have "presence_at (pe_Room e) i (presence h2) \<noteq> None"
      using e2 e by (auto simp: presence_at_def find_None_iff pe_key_def)
    ultimately show ?thesis using f h' by simp
  qed
  ultimately show ?thesis by (simp add: out_of_def)
qed

lemma each_remove_app:
  assumes "presence_ok ps" "putting_out B G d0 ps h" "each (remove_app target why b) is h = (Inr u, h')"
  shows "putting_out B (G \<union> set is) d0 ps h'"
  using assms
proof (induction "is" arbitrary: G h)
  case (Cons i js)
  then obtain h1 where h1: "remove_app target why b i h = (Inr (), h1)" and rest: "each (remove_app target why b) js h1 = (Inr u, h')"
    by (auto simp: seq_Inr_iff)
  have "presence h = ps" using Cons.prems by (simp add: putting_out_def)
  then have "out_of i h1" using remove_app_out_of [OF _ h1] Cons.prems(1) by simp
  then have "putting_out B (insert i G) d0 ps h1"
    using keepsD [OF remove_app_keeps Cons.prems(2) h1] by (rule putting_out_insert [rotated])
  from Cons.IH [OF Cons.prems(1) this rest] show ?case by simp
qed simp

definition present_keys :: "hub \<Rightarrow> (string \<times> string) set" where
  "present_keys h = pe_key ` set (presence h)"

lemma run_after_keys: "plain_after a \<Longrightarrow> present_keys (run_after a h) \<subseteq> present_keys h"
  by (cases a) (auto simp: present_keys_def run_after_def part_presence_def renamePresence_def set_update_where intro: rev_image_eqI)

lemma fold_run_after_keys: "\<forall>a\<in>set as. plain_after a \<Longrightarrow> present_keys (fold run_after as h) \<subseteq> present_keys h"
proof (induction as arbitrary: h)
  case (Cons a as)
  then have "present_keys (fold run_after as (run_after a h)) \<subseteq> present_keys (run_after a h)" by simp
  also have "\<dots> \<subseteq> present_keys h" using Cons.prems by (intro run_after_keys) simp
  finally show ?case by simp
qed simp

lemma forgotten_stays_out:
  assumes "\<forall>a\<in>set as. plain_after a" "AfterForget room i \<in> set as"
  shows "(room, hexID i) \<notin> present_keys (fold run_after as h)"
proof -
  from assms(2) obtain xs ys where as: "as = xs @ AfterForget room i # ys" by (meson split_list)
  let ?h = "run_after (AfterForget room i) (fold run_after xs h)"
  have "(room, hexID i) \<notin> present_keys ?h" by (auto simp: present_keys_def run_after_def)
  moreover have "present_keys (fold run_after ys ?h) \<subseteq> present_keys ?h" using assms(1) by (intro fold_run_after_keys) (simp add: as)
  ultimately show ?thesis by (auto simp: as)
qed

lemma putting_out_ready:
  assumes out: "putting_out B B (st h) (presence h) h1" and ok: "banned_absent h"
  shows "ready h1"
  unfolding ready_def banned_absent_def fold_run_after_frame
proof (intro allI impI)
  fix j assume "IsBanned j (st h1)"
  then have j: "IsBanned j (st h) \<or> j \<in> B" using out by (simp add: putting_out_def)
  have plain: "\<forall>a\<in>set (out_after h1). plain_after a" and pr: "presence h1 = presence h" using out by (simp_all add: putting_out_def)
  have "\<not> IsMember j (st h1)"
  proof (cases "j \<in> B")
    case True
    with out show ?thesis by (simp add: putting_out_def out_of_def)
  next
    case False
    with j ok have "\<not> IsMember j (st h)" by (simp add: banned_absent_def)
    with out show ?thesis by (auto simp: putting_out_def)
  qed
  moreover have False if e: "e \<in> set (presence (fold run_after (out_after h1) h1))" "pe_identity e = j" for e
  proof -
    have "pe_key e \<in> present_keys h1" using e fold_run_after_keys [OF plain, of h1] by (auto simp: present_keys_def)
    then obtain e0 where e0: "e0 \<in> set (presence h)" "pe_key e0 = pe_key e" by (auto simp: present_keys_def pr)
    then have id: "pe_identity e0 = j" and key: "pe_key e = (pe_Room e0, hexID j)" using e by (auto simp: pe_key_def)
    from id e0 j ok have "j \<in> B" by (auto simp: banned_absent_def)
    then have "AfterForget (pe_Room e0) j \<in> set (out_after h1)" using out e0 id by (auto simp: putting_out_def out_of_def)
    then have "pe_key e \<notin> present_keys (fold run_after (out_after h1) h1)" using forgotten_stays_out [OF plain] key by simp
    then show False using e by (simp add: present_keys_def)
  qed
  ultimately show "\<not> IsMember j (st h1) \<and> j \<notin> pe_identity ` set (presence (fold run_after (out_after h1) h1))" by auto
qed

lemma keeps_each_set: "(\<And>x. x \<in> set xs \<Longrightarrow> keeps P (f x)) \<Longrightarrow> keeps P (each f xs)"
  by (induction xs) (auto intro: hub_keeps)

lemma lets_in_putting_out: "lets_in {} d0 ps h \<Longrightarrow> putting_out B {} d0 ps h"
  by (auto simp: lets_in_def putting_out_def may_after_def)

lemma removeEverywhere_out:
  assumes "presence_ok ps" "putting_out B {} d0 ps h" "removeEverywhere target why b h = (Inr u, h')"
  shows "putting_out B (set (ps_Identities target)) d0 ps h'"
proof -
  let ?rest = "seq (unlinkAll (ps_Identity target))
     (seq (if ps_Claimed target then bnd (execR (ReleaseName (ps_Identity target))) (\<lambda>_.
             rename_after (ps_Identity target) (ps_Name target) (GuestName (ps_Identity target))) else ret ())
     (if ps_PersonRank target = RankMod \<or> ps_PersonRank target = RankAdmin
      then bnd (asks nowMS) (\<lambda>t. exec (SetRank (ps_Identity target) StoredMember None t)) else ret ()))"
  from assms(3) obtain h1 where h1: "each (remove_app target why b) (ps_Identities target) h = (Inr (), h1)" and rest: "?rest h1 = (Inr u, h')"
    unfolding removeEverywhere_def seq_Inr_iff [of "each _ _"] by blast
  have "keeps (putting_out B (set (ps_Identities target)) d0 ps) ?rest" by (intro hub_keeps)
  moreover have "putting_out B (set (ps_Identities target)) d0 ps h1" using each_remove_app [OF assms(1,2) h1] by simp
  ultimately show ?thesis using rest by (rule keepsD)
qed

lemma lets_in_none_ready: "lets_in {} (st h) (presence h) h1 \<Longrightarrow> banned_absent h \<Longrightarrow> ready h1"
  by (rule lets_in_ready) auto

lemma ban_person_ready:
  assumes l: "lets_in {} (st h) (presence h) h1" and ok: "presence_ok (presence h)" "banned_absent h"
    and run: "ban_person c target reason expires until h1 = (Inr u, h2)"
  shows "ready h2"
proof -
  let ?B = "set (ps_Identities target)"
  let ?ban = "\<lambda>i. \<lparr>b_Identity = i, b_Name = ps_Name target, b_Reason = reason, b_BannedBy = Some (cm_Identity c),
           b_BannedAt = nowMS h1, b_ExpiresAt = expires\<rparr>"
  let ?rest = "\<lambda>line. seq (Audit_now (Some (cm_Identity c)) ''ban'' (ps_Name target) (until @ with_reason reason)) (say line)"
  from run obtain why line where
    "seq (each (\<lambda>i. exec (AddBan (?ban i))) (ps_Identities target)) (seq (removeEverywhere target why True) (?rest line)) h1 = (Inr u, h2)"
    unfolding ban_person_def bnd_def asks_def prod.case sum.case Let_def by blast
  then obtain h3 h4 where bans: "each (\<lambda>i. exec (AddBan (?ban i))) (ps_Identities target) h1 = (Inr (), h3)"
    and out: "removeEverywhere target why True h3 = (Inr (), h4)" and rest: "?rest line h4 = (Inr u, h2)"
    unfolding seq_Inr_iff [of "each _ _"] seq_Inr_iff [of "removeEverywhere _ _ _"] by blast
  have "keeps (putting_out ?B {} (st h) (presence h)) (each (\<lambda>i. exec (AddBan (?ban i))) (ps_Identities target))"
    by (intro keeps_each_set outs_AddBan) simp
  then have "putting_out ?B {} (st h) (presence h) h3" using lets_in_putting_out [OF l] bans by (rule keepsD)
  then have "putting_out ?B ?B (st h) (presence h) h4" by (rule removeEverywhere_out [OF ok(1) _ out])
  moreover have "keeps (putting_out ?B ?B (st h) (presence h)) (?rest line)" by (intro hub_keeps)
  ultimately have "putting_out ?B ?B (st h) (presence h) h2" using rest keepsD by blast
  then show ?thesis by (rule putting_out_ready [OF _ ok(2)])
qed

lemma cmdBan_ready:
  assumes l: "lets_in {} (st h) (presence h) h1" and ok: "presence_ok (presence h)" "banned_absent h"
    and run: "cmdBan c args h1 = (Inr u, h2)"
  shows "ready h2"
proof (cases args)
  case Nil
  then have "lets_in {} (st h) (presence h) h2" using keepsD [OF lets.fail_keeps(2) l] run by (simp add: cmdBan_def)
  then show ?thesis using ok(2) by (rule lets_in_none_ready)
next
  case (Cons a rest0)
  then obtain t h' where t: "targetPerson c a ActBan h1 = (Inr t, h')"
    and rest: "(case t of None \<Rightarrow> ret () | Some target \<Rightarrow> bnd (asks (\<lambda>h. ban_length (ulower (env h)) rest0)) (\<lambda>(length_ns, rest).
         bnd (ban_until length_ns) (\<lambda>(expires, until). ban_person c target (Join rest '' '') expires until))) h' = (Inr u, h2)"
    using run by (auto simp: cmdBan_def bnd_Inr_iff)
  have l': "lets_in {} (st h) (presence h) h'" by (rule keepsD [OF lets.targetPerson_keeps l t])
  show ?thesis
  proof (cases t)
    case None
    then show ?thesis using rest lets_in_none_ready [OF l' ok(2)] by simp
  next
    case (Some target)
    then obtain reason expires until where "ban_person c target reason expires until h' = (Inr u, h2)"
      using rest by (auto simp: bnd_Inr_iff ban_until_def split: prod.splits)
    then show ?thesis by (rule ban_person_ready [OF l' ok])
  qed
qed

lemma ready_reply [simp]: "ready (h\<lparr>reply := x\<rparr>) = ready h"
proof -
  have "st (fold run_after as (h\<lparr>reply := x\<rparr>)) = st (fold run_after as h) \<and> presence (fold run_after as (h\<lparr>reply := x\<rparr>)) = presence (fold run_after as h)"
    for as
  proof (induction as arbitrary: h)
    case (Cons a as)
    have "run_after a (h\<lparr>reply := x\<rparr>) = (run_after a h)\<lparr>reply := x\<rparr>" by (cases a) (simp_all add: run_after_def)
    with Cons show ?case by simp
  qed simp
  then show ?thesis by (simp add: ready_def banned_absent_def)
qed

lemma cmdKline_ready:
  assumes l: "lets_in {} (st h) (presence h) h1" and ok: "presence_ok (presence h)" "banned_absent h"
    and run: "cmdKline c args h1 = (Inr u, h2)"
  shows "ready h2"
proof (cases "\<exists>a rest. args = a # rest \<and> isListOp (ulower (env h1)) a")
  case False
  with run have "fail ''usage: /kline add|del|list [name|hashprefix|hash]'' h1 = (Inr u, h2)"
    by (auto simp: cmdKline_def bnd_Inr_iff split: list.splits)
  with keepsD [OF lets.fail_keeps(1) l] show ?thesis using lets_in_none_ready [OF _ ok(2)] by blast
next
  case True
  then obtain op rest h3 where h3: "kline_verb c op rest h1 = (Inr (), h3)" and hint: "kline_hint op rest h3 = (Inr u, h2)"
    using run by (auto simp: cmdKline_def bnd_Inr_iff seq_Inr_iff)
  have "ready h3"
  proof (cases "op = ''add''")
    case True
    with h3 show ?thesis using cmdBan_ready [OF l ok] by (simp add: kline_verb_def)
  next
    case False
    then have "keeps (lets_in {} (st h) (presence h)) (kline_verb c op rest)"
      unfolding kline_verb_def if_not_P [OF False] by (intro hub_keeps)
    from keepsD [OF this l h3] show ?thesis using ok(2) by (rule lets_in_none_ready)
  qed
  with hint show ?thesis by (auto simp: kline_hint_def bnd_Inr_iff say_def split: if_splits)
qed

section \<open>Commands\<close>

lemma run_command_ready:
  assumes l: "lets_in {} (st h) (presence h) h1" and ok: "presence_ok (presence h)" "banned_absent h"
    and i: "\<not> IsBanned (cm_Identity c) (st h)" and run: "run_command code r c args h1 = (Inr u, h2)"
  shows "ready h2"
proof -
  have in_i: "lets_in {cm_Identity c} (st h) (presence h) h1" using l by (auto simp: lets_in_def may_after_def)
  have "lets_in {cm_Identity c} (st h) (presence h) h2" if "r \<notin> {RunBan, RunKline}"
  proof -
    have "keeps (lets_in {cm_Identity c} (st h) (presence h)) (run_command code r c args)"
    proof (cases "r = RunJoin")
      case True
      then show ?thesis unfolding run_command_def by (auto intro: lets.cmdJoin_keeps_if lets.joinGroup_keeps_if lets_AddMember)
    qed (use that in \<open>auto intro: lets.run_command_keeps_plain\<close>)
    from keepsD [OF this in_i run] show ?thesis .
  qed
  then have "ready h2" if "r \<notin> {RunBan, RunKline}" using that lets_in_ready [OF _ ok(2)] i by blast
  moreover have "ready h2" if "r = RunBan" using cmdBan_ready [OF l ok] run that by (simp add: run_command_def)
  moreover have "ready h2" if "r = RunKline" using cmdKline_ready [OF l ok] run that by (simp add: run_command_def)
  ultimately show ?thesis by blast
qed

lemma run_def_ready:
  assumes l: "lets_in {} (st h) (presence h) h1" and st: "st h1 = st h" and ok: "presence_ok (presence h)" "banned_absent h"
    and run: "run_def code req def args h1 = (Inr u, h2)"
  shows "ready h2"
proof -
  let ?i = "cr_Identity req"
  let ?P = "lets_in {} (st h) (presence h)"
  let ?c = "\<lambda>me. \<lparr>cm_Via = cr_Via req, cm_Identity = ?i, cm_Room = cr_Room req, cm_name = cd_name def, cm_usage = cd_args def, cm_me = me\<rparr>"
  from run obtain ha hb me hc old hd where a: "checkHubBan ?i h1 = (Inr (), ha)" and b: "touch ?i ha = (Inr (), hb)"
    and c: "person ?i hb = (Inr me, hc)" and d: "is_old_form (cd_oldForm def) args hc = (Inr old, hd)"
    and e: "(if old then legacyRoom (?c me) args (cd_name def)
       else if ps_Rank me < access_rank (cd_access def) then fail ''not authorized''
       else run_command code (cd_run def) (?c me) args) hd = (Inr u, h2)"
    unfolding run_def_def seq_Inr_iff bnd_Inr_iff Let_def by blast
  have nb: "\<not> IsBanned ?i (st h)" using a st by (auto simp: checkHubBan_def bnd_Inr_iff split: if_splits)
  have "?P hd"
    using keepsD [OF lets.is_old_form_keeps _ d] keepsD [OF lets.person_keeps _ c] keepsD [OF lets.writes_keep(1) _ b]
      keepsD [OF lets.reads_keep(4) l a] by blast
  moreover have "keeps ?P (if old then legacyRoom (?c me) args (cd_name def) else fail ''not authorized'')" by (intro hub_keeps)
  ultimately show ?thesis
    using e keepsD lets_in_none_ready [OF _ ok(2)] run_command_ready [OF \<open>?P hd\<close> ok, of "?c me"] nb
    by (cases old; cases "ps_Rank me < access_rank (cd_access def)"; simp) blast+
qed

lemma command_ready:
  assumes l: "lets_in {} (st h) (presence h) h1" and st: "st h1 = st h" and ok: "presence_ok (presence h)" "banned_absent h"
    and run: "command_hm code req h1 = (Inr u, h2)"
  shows "ready h2"
proof -
  have err: "ready h2" if "error_reply t h1 = (Inr u, h2)" for t
    using keepsD [OF lets.error_reply_keeps l that] ok(2) by (rule lets_in_none_ready)
  show ?thesis
  proof (cases "command_fields (cr_Text req)")
    case Nil
    then show ?thesis using run err by (simp add: command_hm_def)
  next
    case (Cons w args)
    let ?name = "ToLower (ulower (env h1)) w"
    show ?thesis
    proof (cases "lookupCommand ?name")
      case None
      then show ?thesis using run err Cons by (auto simp: command_hm_def bnd_Inr_iff)
    next
      case (Some def)
      then obtain def' args' where "run_def code req def' args' h1 = (Inr u, h2)"
        using run Cons by (auto simp: command_hm_def bnd_Inr_iff split: option.splits)
      then show ?thesis by (rule run_def_ready [OF l st ok])
    qed
  qed
qed

end
