(* ===== verification/Hub.thy ===== *)
theory Hub
  imports HubBans
begin

text \<open>
  The hub as a whole: \<open>New\<close> on an open store, and \<open>hub_step\<close>, one rule for every request the adapters
  can send (the exported methods of \<^verbatim>\<open>*Hub\<close> that can change anything), for the minute's maintenance, the
  clock and a subscriber taking an event. The loop of Run (hub.go) runs one of them at a time, in any
  order, so a history of the hub is a sequence of steps.
\<close>

section \<open>Starting\<close>

definition fresh_hub :: "Config \<Rightarrow> env \<Rightarrow> int \<Rightarrow> db \<Rightarrow> hub" where
  "fresh_hub c v t d = \<lparr>cfg = c, env = v, now_ns = t, st = d, presence = [], rate = Map.empty, historyAt = Map.empty,
     linkIssued = Map.empty, linkFailures = Map.empty, stats = zero_stats, subs = [], out_events = [], out_after = [], reply = no_reply\<rparr>"

definition New :: "Config \<Rightarrow> env \<Rightarrow> int \<Rightarrow> db \<Rightarrow> err list + hub" where
  "New c v t d = (case validate (ulower v) c of (c', errs) \<Rightarrow> if errs \<noteq> [] then Inl errs
     else case ensureDefaultRooms (fresh_hub c' v t d) of (Inl e, _) \<Rightarrow> Inl [e] | (Inr _, h) \<Rightarrow> Inr h)"

definition receive :: "nat \<Rightarrow> hub \<Rightarrow> hub" where
  "receive n h = (if n < length (subs h) then h\<lparr>subs := (subs h)[n := (subs h ! n)\<lparr>sub_ch := tl (sub_ch (subs h ! n))\<rparr>]\<rparr> else h)"

section \<open>Steps\<close>

inductive hub_step :: "hub \<Rightarrow> hub \<Rightarrow> bool" where
  do_Identify: "Identify i pk h = (r, h') \<Longrightarrow> hub_step h h'"
| do_ClaimName: "hub_ClaimName i want h = (r, h') \<Longrightarrow> hub_step h h'"
| do_Forget: "Forget i h = (r, h') \<Longrightarrow> hub_step h h'"
| do_LeaveGroup: "LeaveGroup i h = (r, h') \<Longrightarrow> hub_step h h'"
| do_SetLXMFMode: "hub_SetLXMFMode i m h = (r, h') \<Longrightarrow> hub_step h h'"
| do_SetLXMFMine: "hub_SetLXMFMine i b h = (r, h') \<Longrightarrow> hub_step h h'"
| do_JoinGroup: "JoinGroup i name h = (r, h') \<Longrightarrow> hub_step h h'"
| do_MarkRead: "MarkRead i room via k h = (r, h') \<Longrightarrow> hub_step h h'"
| do_Join: "Join_request jr h = (r, h') \<Longrightarrow> hub_step h h'"
| do_Part: "Part i room h = (r, h') \<Longrightarrow> hub_step h h'"
| do_Disconnect: "Disconnect i rs h = (r, h') \<Longrightarrow> hub_step h h'"
| do_Post: "Post pr h = (r, h') \<Longrightarrow> hub_step h h'"
| do_MayNotice: "MayNotice i room h = (r, h') \<Longrightarrow> hub_step h h'"
| do_History: "hub_History i room n b h = (r, h') \<Longrightarrow> hub_step h h'"
| do_Command: "Command code cr h = (r, h') \<Longrightarrow> hub_step h h'"
| do_DeleteMessage: "DeleteMessage i k h = (r, h') \<Longrightarrow> hub_step h h'"
| do_RecordDelivery: "RecordDelivery x outcome propagated retryAt awayUntil h = (r, h') \<Longrightarrow> hub_step h h'"
| do_WhisperSentRRC: "WhisperSentRRC k h = (r, h') \<Longrightarrow> hub_step h h'"
| do_Whispers: "Whispers i n h = (r, h') \<Longrightarrow> hub_step h h'"
| do_MayNotifyDirect: "MayNotifyDirect i j h = (r, h') \<Longrightarrow> hub_step h h'"
| do_SetPrefs: "hub_SetPrefs i change h = (r, h') \<Longrightarrow> hub_step h h'"
| do_maintain: "hub_step h (maintain h)"
| do_saveAllCursors: "saveAllCursors h = (r, h') \<Longrightarrow> hub_step h h'"
| do_tick: "now_ns h \<le> t \<Longrightarrow> hub_step h (h\<lparr>now_ns := t\<rparr>)"
| do_Subscribe: "hub_step h (Subscribe name buf h)"
| do_receive: "hub_step h (receive n h)"

text \<open>A store the hub may be started on: written by the store's own operations, with no banned group member.\<close>

inductive hub_reach :: "hub \<Rightarrow> bool" where
  started: "store_reach d \<Longrightarrow> (\<And>i. IsBanned i d \<Longrightarrow> \<not> IsMember i d) \<Longrightarrow> New c v t d = Inr h \<Longrightarrow> hub_reach h"
| stepped: "hub_reach h \<Longrightarrow> hub_step h h' \<Longrightarrow> hub_reach h'"

section \<open>Every step keeps the hub sound\<close>

context plain_handler
begin

lemma keeps_view [hub_keeps]: "keeps P m \<Longrightarrow> keeps P (view m)"
  by (auto simp: keeps_def view_def split: prod.splits) (metis P_back snd_conv)

lemma notices_keep [hub_keeps]: "keeps P (MayNotice i room)" "keeps P (MayNotifyDirect i j)"
  unfolding MayNotice_def MayNotifyDirect_def by (intro hub_keeps)+

end

definition sound :: "hub \<Rightarrow> bool" where
  "sound h \<longleftrightarrow> hub_inv h \<and> banned_absent h"

lemma sound_update:
  assumes "handler m" "\<And>d0 ps. keeps (lets_in {} d0 ps) m" "sound h" "update m h = (r, h')"
  shows "sound h'"
  using update_hub_inv [OF assms(1) _ assms(4)] update_plain [OF assms(2) _ _ assms(4)] assms(3) by (simp add: sound_def hub_inv_def)

text \<open>Requests that answer without a transaction of their own: presence and the subscribers stay as they are.\<close>

definition quiet :: "presence_entry list \<Rightarrow> Subscription list \<Rightarrow> hub \<Rightarrow> bool" where
  "quiet ps ss h \<longleftrightarrow> sound h \<and> presence h = ps \<and> subs h = ss"

interpretation quiet_handler: plain_handler "quiet ps ss" for ps ss
proof unfold_locales
  fix h d assume "quiet ps ss h" "db_inv d" "calm (st h) d"
  then show "quiet ps ss (h\<lparr>st := d\<rparr>)" by (auto simp: quiet_def sound_def hub_inv_def banned_absent_def calm_def)
qed (auto simp: quiet_def sound_def hub_inv_def banned_absent_def)

lemma sound_quiet: "sound h \<Longrightarrow> (\<And>ps ss. keeps (quiet ps ss) m) \<Longrightarrow> m h = (r, h') \<Longrightarrow> sound h'"
  using keepsD [of "quiet (presence h) (subs h)" m h r h'] by (simp add: quiet_def)


lemma sound_New:
  assumes d: "store_reach d" "\<And>i. IsBanned i d \<Longrightarrow> \<not> IsMember i d" and new: "New c v t d = Inr h"
  shows "sound h"
proof -
  from new obtain c' u where run: "ensureDefaultRooms (fresh_hub c' v t d) = (Inr u, h)"
    by (auto simp: New_def split: prod.splits if_splits sum.splits)
  have "sound (fresh_hub c' v t d)"
    using reach_inv [OF d(1)] d(2) by (auto simp: sound_def hub_inv_def banned_absent_def fresh_hub_def presence_ok_def queues_ok_def)
  then show ?thesis by (rule sound_quiet [OF _ quiet_handler.ensureDefaultRooms_keeps run])
qed

lemmas request_defs = Identify_def hub_ClaimName_def Forget_def LeaveGroup_def hub_SetLXMFMode_def hub_SetLXMFMine_def MarkRead_def
  Part_def Disconnect_def hub_History_def RecordDelivery_def WhisperSentRRC_def Whispers_def hub_SetPrefs_def

lemma sound_requests:
  "sound h \<Longrightarrow> Identify i pk h = (r1, h') \<Longrightarrow> sound h'"
  "sound h \<Longrightarrow> hub_ClaimName i want h = (r2, h') \<Longrightarrow> sound h'"
  "sound h \<Longrightarrow> Forget i h = (r3, h') \<Longrightarrow> sound h'"
  "sound h \<Longrightarrow> LeaveGroup i h = (r4, h') \<Longrightarrow> sound h'"
  "sound h \<Longrightarrow> hub_SetLXMFMode i m h = (r5, h') \<Longrightarrow> sound h'"
  "sound h \<Longrightarrow> hub_SetLXMFMine i b h = (r6, h') \<Longrightarrow> sound h'"
  "sound h \<Longrightarrow> MarkRead i room via k h = (r7, h') \<Longrightarrow> sound h'"
  "sound h \<Longrightarrow> Part i room h = (r8, h') \<Longrightarrow> sound h'"
  "sound h \<Longrightarrow> Disconnect i rs h = (r9, h') \<Longrightarrow> sound h'"
  "sound h \<Longrightarrow> hub_History i room n k h = (r10, h') \<Longrightarrow> sound h'"
  "sound h \<Longrightarrow> RecordDelivery x outcome propagated retryAt awayUntil h = (r11, h') \<Longrightarrow> sound h'"
  "sound h \<Longrightarrow> WhisperSentRRC k h = (r12, h') \<Longrightarrow> sound h'"
  "sound h \<Longrightarrow> Whispers i n h = (r13, h') \<Longrightarrow> sound h'"
  "sound h \<Longrightarrow> hub_SetPrefs i change h = (r14, h') \<Longrightarrow> sound h'"
  unfolding request_defs by (erule (1) sound_update [rotated 2]; (intro handlerI hub_keeps | intro hub_keeps))+

lemma sound_by_parts:
  "sound h \<Longrightarrow> handler m \<Longrightarrow> update m h = (r, h') \<Longrightarrow> (banned_absent h \<Longrightarrow> db_inv (st h) \<Longrightarrow> banned_absent h') \<Longrightarrow> sound h'"
  using update_hub_inv [of m h r h'] by (simp add: sound_def hub_inv_def)

lemma sound_Join: "sound h \<Longrightarrow> Join_request jr h = (r, h') \<Longrightarrow> sound h'"
  by (rule sound_by_parts [of h "join jr"], assumption, rule handlerI [OF frame_handler.join_keeps], simp add: Join_request_def)
    (erule join_absent)

lemma sound_JoinGroup: "sound h \<Longrightarrow> JoinGroup i name h = (r, h') \<Longrightarrow> sound h'"
  by (rule sound_by_parts [of h "joinGroup i name"], assumption, rule handlerI [OF frame_handler.joinGroup_keeps], simp add: JoinGroup_def)
    (erule joinGroup_absent)

lemma sound_Post: "sound h \<Longrightarrow> Post pr h = (r, h') \<Longrightarrow> sound h'"
proof -
  assume s: "sound h" and run: "Post pr h = (r, h')"
  obtain q h1 where u: "update (post pr) h = (q, h1)" by (cases "update (post pr) h")
  have "sound h1" by (rule sound_update [OF _ _ s u]) (intro handlerI hub_keeps | intro hub_keeps)+
  moreover have "st h' = st h1 \<and> presence h' = presence h1 \<and> subs h' = subs h1"
    using run u by (auto simp: Post_def split: sum.splits)
  ultimately show "sound h'" by (simp add: sound_def hub_inv_def banned_absent_def)
qed

lemma with_reply_state: "with_reply m h = (r, h') \<Longrightarrow> \<exists>q. update (seq (modify (\<lambda>h. h\<lparr>reply := no_reply\<rparr>)) m) h = (q, h')"
  by (auto simp: with_reply_def split: prod.splits sum.splits err.splits)

lemma sound_DeleteMessage: "sound h \<Longrightarrow> DeleteMessage i k h = (r, h') \<Longrightarrow> sound h'"
proof -
  assume s: "sound h" and run: "DeleteMessage i k h = (r, h')"
  then obtain q where u: "update (seq (modify (\<lambda>h. h\<lparr>reply := no_reply\<rparr>)) (delete_one i k)) h = (q, h')"
    using with_reply_state unfolding DeleteMessage_def by blast
  show "sound h'" by (rule sound_update [OF _ _ s u]) (intro handlerI hub_keeps | intro hub_keeps)+
qed

lemma command_absent:
  assumes h: "hub_inv h" "banned_absent h" and u: "update (seq (modify (\<lambda>h. h\<lparr>reply := no_reply\<rparr>)) (command_hm code req)) h = (q, h')"
  shows "banned_absent h'"
proof (rule update_ready [OF u h(2)])
  let ?m = "seq (modify (\<lambda>h. h\<lparr>reply := no_reply\<rparr>)) (command_hm code req)"
  let ?h0 = "h\<lparr>out_events := [], out_after := []\<rparr>"
  have "handler ?m" by (intro handlerI hub_keeps)
  then show "presence (snd (?m ?h0)) = presence h"
    using handler_frame [of ?m ?h0 "fst (?m ?h0)" "snd (?m ?h0)"] h(1) by (simp add: hub_inv_def)
  fix a h1 assume "?m ?h0 = (Inr a, h1)"
  then have run: "command_hm code req (?h0\<lparr>reply := no_reply\<rparr>) = (Inr a, h1)" by (auto simp: seq_Inr_iff)
  have "lets_in {} (st h) (presence h) (?h0\<lparr>reply := no_reply\<rparr>)" using h(1) by (simp add: lets_in_def hub_inv_def)
  from command_ready [OF this _ _ h(2) run] show "ready h1" using h(1) by (simp add: hub_inv_def)
qed

lemma sound_Command: "sound h \<Longrightarrow> Command code cr h = (r, h') \<Longrightarrow> sound h'"
proof -
  let ?h = "h\<lparr>stats := (stats h)\<lparr>Commands := Commands (stats h) + 1\<rparr>\<rparr>"
  let ?m = "seq (modify (\<lambda>h. h\<lparr>reply := no_reply\<rparr>)) (command_hm code cr)"
  assume s: "sound h" and run: "Command code cr h = (r, h')"
  from run obtain q where u: "update ?m ?h = (q, h')" using with_reply_state unfolding Command_def by blast
  have s': "sound ?h" using s by (simp add: sound_def hub_inv_def banned_absent_def)
  have "handler ?m" by (intro handlerI hub_keeps)
  then show "sound h'"
    using command_absent [OF _ _ u] s' by (intro sound_by_parts [OF s' _ u]) (simp_all add: sound_def)
qed

lemma sound_direct:
  "sound h \<Longrightarrow> MayNotice i room h = (r1, h') \<Longrightarrow> sound h'"
  "sound h \<Longrightarrow> MayNotifyDirect i j h = (r2, h') \<Longrightarrow> sound h'"
  "sound h \<Longrightarrow> saveAllCursors h = (r3, h') \<Longrightarrow> sound h'"
  by (blast intro: sound_quiet hub_keeps)+

lemma sound_maintain: "sound h \<Longrightarrow> sound (maintain h)"
  using quiet_handler.maintain_keeps [of "presence h" "subs h" h] by (simp add: quiet_def)

lemma sound_world:
  "sound h \<Longrightarrow> sound (h\<lparr>now_ns := t\<rparr>)" "sound h \<Longrightarrow> sound (Subscribe name buf h)" "sound h \<Longrightarrow> sound (receive n h)"
proof -
  assume s: "sound h"
  then show "sound (h\<lparr>now_ns := t\<rparr>)" "sound (Subscribe name buf h)"
    by (auto simp: sound_def hub_inv_def banned_absent_def Subscribe_def queues_ok_def)
  show "sound (receive n h)"
  proof (cases "n < length (subs h)")
    case True
    let ?s = "(subs h ! n)\<lparr>sub_ch := tl (sub_ch (subs h ! n))\<rparr>"
    have "length (sub_ch (subs h ! n)) \<le> sub_buf (subs h ! n)" using s True by (simp add: sound_def hub_inv_def queues_ok_def)
    then have "length (sub_ch ?s) \<le> sub_buf ?s" by simp
    then have "queues_ok ((subs h)[n := ?s])"
      using s set_update_subset_insert [of "subs h" n ?s] by (auto simp: sound_def hub_inv_def queues_ok_def)
    with s True show ?thesis by (simp add: receive_def sound_def hub_inv_def banned_absent_def)
  qed (use s in \<open>simp add: receive_def\<close>)
qed

lemma hub_step_sound: "hub_step h h' \<Longrightarrow> sound h \<Longrightarrow> sound h'"
  by (induction rule: hub_step.induct)
    (blast intro: sound_requests sound_Join sound_JoinGroup sound_Post sound_Command sound_DeleteMessage sound_direct sound_maintain sound_world)+

lemma hub_reach_sound: "hub_reach h \<Longrightarrow> sound h"
  by (induction rule: hub_reach.induct) (blast intro: sound_New hub_step_sound)+

end
