(* ===== verification/HubLimits.thy ===== *)
theory HubLimits
  imports Hub
begin

text \<open>
  What the limits in memory promise: the token bucket of post.go bounds the posts of one identity in any
  stretch of time, whatever else the hub does meanwhile; and the maintenance that forgets idle limits
  (maintain.go) is invisible to every later decision.
\<close>

section \<open>The buckets of a running hub\<close>

definition fair :: "hub \<Rightarrow> bool" where
  "fair h \<longleftrightarrow> db_inv (st h) \<and> fair_limits h"

lemma fair_limits_other [simp]:
  "fair_limits (h\<lparr>st := d\<rparr>) = fair_limits h" "fair_limits (h\<lparr>out_events := es\<rparr>) = fair_limits h"
  "fair_limits (h\<lparr>out_after := fs\<rparr>) = fair_limits h" "fair_limits (h\<lparr>historyAt := ha\<rparr>) = fair_limits h"
  "fair_limits (h\<lparr>linkIssued := li\<rparr>) = fair_limits h" "fair_limits (h\<lparr>linkFailures := lf\<rparr>) = fair_limits h"
  "fair_limits (h\<lparr>stats := ss\<rparr>) = fair_limits h" "fair_limits (h\<lparr>reply := rp\<rparr>) = fair_limits h"
  "fair_limits (h\<lparr>presence := ps\<rparr>) = fair_limits h" "fair_limits (h\<lparr>subs := sb\<rparr>) = fair_limits h"
  by (simp_all add: fair_limits_def)

interpretation fair_handler: hub_handler fair
  by unfold_locales (auto simp: fair_def intro: inv_intros)

lemma run_after_fair [simp]: "fair (run_after a h) = fair h"
  by (cases a) (simp_all add: run_after_def fair_def)

lemma fold_run_after_fair [simp]: "fair (fold run_after fs h) = fair h"
  by (induction fs arbitrary: h) simp_all

lemma update_fair: "keeps fair m \<Longrightarrow> fair h \<Longrightarrow> update m h = (r, h') \<Longrightarrow> fair h'"
proof -
  let ?h0 = "h\<lparr>out_events := [], out_after := []\<rparr>"
  assume m: "keeps fair m" and h: "fair h" and u: "update m h = (r, h')"
  obtain q h1 where run: "m ?h0 = (q, h1)" by (cases "m ?h0")
  have h1: "fair h1" by (rule keepsD [OF m _ run]) (use h in \<open>simp add: fair_def\<close>)
  have "fair (fold run_after (out_after h1) h1)" using h1 by simp
  with u run h h1 show "fair h'"
    by (cases q) (auto simp: update_def count_internal_def publish_def fair_def)
qed

lemma with_reply_fair: "keeps fair m \<Longrightarrow> fair h \<Longrightarrow> with_reply m h = (r, h') \<Longrightarrow> fair h'"
proof -
  assume m: "keeps fair m" and h: "fair h" and run: "with_reply m h = (r, h')"
  from with_reply_state [OF run] obtain q where u: "update (seq (modify (\<lambda>h. h\<lparr>reply := no_reply\<rparr>)) m) h = (q, h')" by blast
  show "fair h'" by (rule update_fair [OF _ h u]) (intro hub_keeps m)
qed

lemma hub_step_fair: "hub_step h h' \<Longrightarrow> fair h \<Longrightarrow> fair h'"
proof (induction rule: hub_step.induct)
  case (do_Post pr h r h')
  obtain q h1 where u: "update (post pr) h = (q, h1)" by (cases "update (post pr) h")
  have "fair h1" by (rule update_fair [OF _ do_Post.prems u]) (intro hub_keeps)
  then show ?case using do_Post.hyps u by (auto simp: Post_def fair_def split: sum.splits)
next
  case (do_Command code cr h r h')
  let ?h = "h\<lparr>stats := (stats h)\<lparr>Commands := Commands (stats h) + 1\<rparr>\<rparr>"
  have "fair ?h" using do_Command.prems by (simp add: fair_def)
  moreover have "with_reply (command_hm code cr) ?h = (r, h')" using do_Command.hyps by (simp add: Command_def)
  ultimately show ?case by (rule with_reply_fair [rotated]) (intro hub_keeps)
next
  case (do_DeleteMessage i k h r h')
  then have "with_reply (delete_one i k) h = (r, h')" by (simp add: DeleteMessage_def)
  with do_DeleteMessage.prems show ?case by (rule with_reply_fair [rotated]) (intro hub_keeps)
next
  case (do_maintain h)
  then show ?case by (rule fair_handler.maintain_keeps)
next
  case (do_tick h t)
  then show ?case by (force simp: fair_def fair_limits_def buckets_ok_def)
qed (unfold request_defs Join_request_def JoinGroup_def Subscribe_def receive_def,
     ((erule (1) update_fair [rotated], intro hub_keeps) | (erule (1) keepsD [rotated], intro hub_keeps)
     | simp add: fair_def)+)

lemma hub_reach_fair: "hub_reach h \<Longrightarrow> fair h"
proof (induction rule: hub_reach.induct)
  case (started d c v t h)
  obtain c' u where v: "validate (ulower v) c = (c', [])" and run: "ensureDefaultRooms (fresh_hub c' v t d) = (Inr u, h)"
    using started(3) by (auto simp: New_def split: prod.splits if_splits sum.splits)
  have "0 < PostsPerMinute c'" using v fill_defaults_pos [of c] by (auto simp: validate_def Let_def split: prod.splits sum.splits)
  then have "fair (fresh_hub c' v t d)"
    using reach_inv [OF started(1)] by (simp add: fair_def fair_limits_def buckets_ok_def fresh_hub_def)
  moreover have "keeps fair ensureDefaultRooms" by (rule hub_keeps)
  ultimately show ?case using run by (metis keepsD)
qed (rule hub_step_fair)

section \<open>Posts in a stretch of time\<close>

text \<open>
  What can touch the buckets, with the time it happens at: someone asks to post (Post, MayNotice, a whisper
  or a direct notice all ask allowPost), or the minute's maintenance forgets idle buckets.
\<close>

datatype limit_event = Asks ident | Expires

definition limit_step :: "ident \<Rightarrow> int \<Rightarrow> limit_event \<Rightarrow> hub \<Rightarrow> nat \<times> hub" where
  "limit_step i t e h = (case e of
     Asks j \<Rightarrow> (case allowPost j (h\<lparr>now_ns := t\<rparr>) of (r, h') \<Rightarrow> (if j = i \<and> r = Inr True then 1 else 0, h'))
   | Expires \<Rightarrow> (0, expire_limits (h\<lparr>now_ns := t\<rparr>)))"

fun limit_run :: "ident \<Rightarrow> (int \<times> limit_event) list \<Rightarrow> hub \<Rightarrow> nat \<times> hub" where
  "limit_run i [] h = (0, h)"
| "limit_run i ((t, e) # es) h = (case limit_step i t e h of (n, h') \<Rightarrow> case limit_run i es h' of (m, h'') \<Rightarrow> (n + m, h''))"

text \<open>The tokens an identity could spend at a time.\<close>

definition avail :: "rat \<Rightarrow> int \<Rightarrow> bucket option \<Rightarrow> rat" where
  "avail perMin t b = (case b of None \<Rightarrow> perMin | Some b \<Rightarrow> bk_tokens (refill perMin t b))"

lemma avail_later:
  assumes "0 \<le> perMin" "t \<le> t'"
  shows "avail perMin t' b \<le> avail perMin t b + of_int (t' - t) / of_int minute_ns * perMin"
proof -
  have "perMin * of_int t \<le> perMin * of_int t'" using assms by (intro mult_left_mono) auto
  then show ?thesis by (auto simp: avail_def refill_def ns_defs min_def field_simps split: option.splits)
qed

lemma avail_bounds: "buckets_ok perMin t0 r \<Longrightarrow> t0 \<le> t \<Longrightarrow> 0 \<le> avail perMin t (r k) \<and> avail perMin t (r k) \<le> perMin"
  by (force simp: avail_def refill_def buckets_ok_def ns_defs split: option.splits intro!: add_nonneg_nonneg mult_nonneg_nonneg)

lemma bucket_step_avail:
  assumes "buckets_ok perMin t r" "bucket_step perMin t (r k) = (ok, b)"
  shows "(if ok then 1 else 0) + avail perMin t (Some b) \<le> avail perMin t (r k)"
  using assms by (auto simp: bucket_step_def take_token_def avail_def refill_def split: if_splits option.splits)

lemma bucket_full:
  assumes "0 \<le> perMin" "0 \<le> bk_tokens b" "minute_ns < t - bk_at b"
  shows "refill perMin t b = \<lparr>bk_tokens = perMin, bk_at = t\<rparr>"
proof -
  have "1 * perMin \<le> of_int (t - bk_at b) / of_int minute_ns * perMin"
    using assms by (intro mult_right_mono) (auto simp: ns_defs field_simps)
  with assms show ?thesis by (simp add: refill_def min_def)
qed

lemma expire_avail:
  assumes "buckets_ok perMin t r" "t = now_ns h" "rate h = r"
  shows "avail perMin t (rate (expire_limits h) k) = avail perMin t (r k)"
  using assms bucket_full [of perMin _ t]
  by (auto simp: avail_def expire_limits_def Let_def buckets_ok_def split: option.splits if_splits)

lemma limit_step_avail:
  assumes fair: "fair_limits h" and t: "now_ns h \<le> t" and step: "limit_step i t e h = (n, h')"
    and p: "p = of_int (PostsPerMinute (cfg h))"
  shows "fair_limits h' \<and> cfg h' = cfg h \<and> now_ns h' = t \<and>
    of_nat n + avail p t (rate h' (hexID i)) \<le> avail p t (rate h (hexID i))"
proof -
  have ok: "buckets_ok p t (rate h)" using fair t by (force simp: fair_limits_def buckets_ok_def p)
  show ?thesis
  proof (cases e)
    case (Asks j)
    obtain a b where b: "bucket_step p t (rate h (hexID j)) = (a, b)" by force
    have h': "h' = h\<lparr>now_ns := t, rate := (rate h)(hexID j \<mapsto> b)\<rparr>" and n: "n = (if j = i \<and> a then 1 else 0)"
      using step b by (auto simp: Asks limit_step_def allowPost_def p split: prod.splits)
    have "of_nat n + avail p t (rate h' (hexID i)) \<le> avail p t (rate h (hexID i))"
    proof (cases "hexID j = hexID i")
      case True
      with bucket_step_avail [OF ok b] show ?thesis by (auto simp: h' n split: if_splits)
    next
      case False
      then have "j \<noteq> i" by auto
      with False show ?thesis by (simp add: h' n)
    qed
    then show ?thesis using bucket_step_ok [OF ok b] by (simp add: h' fair_limits_def p)
  next
    case Expires
    have h': "h' = expire_limits (h\<lparr>now_ns := t\<rparr>)" and n: "n = 0" using step by (simp_all add: Expires limit_step_def)
    have "avail p t (rate h' (hexID i)) = avail p t (rate h (hexID i))"
      unfolding h' by (rule expire_avail [OF ok]) simp_all
    moreover have "buckets_ok p t (rate h')"
      using ok by (auto simp: h' expire_limits_def Let_def buckets_ok_def split: option.splits if_splits)
    ultimately show ?thesis by (simp add: n fair_limits_def p) (simp add: h' expire_limits_def Let_def)
  qed
qed

lemma limit_run_avail:
  assumes "fair_limits h" "sorted (now_ns h # map fst es)" "p = of_int (PostsPerMinute (cfg h))"
  shows "of_nat (fst (limit_run i es h)) \<le>
    avail p (now_ns h) (rate h (hexID i)) + of_int (last (now_ns h # map fst es) - now_ns h) / of_int minute_ns * p"
  using assms
proof (induction es arbitrary: h)
  case Nil
  then show ?case using avail_bounds [of p "now_ns h" "rate h" "now_ns h"] by (simp add: fair_limits_def)
next
  case (Cons te es)
  obtain t e where te: "te = (t, e)" by force
  obtain n h' where step: "limit_step i t e h = (n, h')" by force
  have t: "now_ns h \<le> t" and p0: "0 \<le> p" using Cons.prems by (auto simp: te fair_limits_def buckets_ok_def)
  note one = limit_step_avail [OF Cons.prems(1) t step Cons.prems(3)]
  have rest: "of_nat (fst (limit_run i es h')) \<le> avail p t (rate h' (hexID i)) + of_int (last (t # map fst es) - t) / of_int minute_ns * p"
    using Cons.IH [of h'] one Cons.prems by (simp add: te)
  have later: "avail p t (rate h (hexID i)) \<le> avail p (now_ns h) (rate h (hexID i)) + of_int (t - now_ns h) / of_int minute_ns * p"
    by (rule avail_later [OF p0 t])
  have "of_nat (fst (limit_run i (te # es) h)) = (of_nat n + of_nat (fst (limit_run i es h')) :: rat)"
    by (simp add: te step split: prod.splits)
  moreover have "of_int (t - now_ns h) / of_int minute_ns * p + of_int (last (t # map fst es) - t) / of_int minute_ns * p =
      of_int (last (t # map fst es) - now_ns h) / of_int minute_ns * p"
    by (simp add: diff_divide_distrib left_diff_distrib)
  ultimately show ?case using one rest later by (simp add: te)
qed

text \<open>
  C6. The rate limit bounds what one identity can get through: in a stretch of time, whatever the other
  people ask for and however often the maintenance forgets idle limits, at most a minute's allowance plus
  the allowance for the time that passed is granted, starting from any state of the limits.
\<close>

theorem posts_bounded:
  assumes "fair_limits h" "es \<noteq> []" "sorted (map fst es)" "now_ns h \<le> fst (hd es)"
  shows "of_nat (fst (limit_run i es h)) \<le>
    (of_int (PostsPerMinute (cfg h)) :: rat) * (1 + of_int (fst (last es) - fst (hd es)) / of_int minute_ns)"
proof -
  let ?p = "of_int (PostsPerMinute (cfg h)) :: rat" and ?h = "h\<lparr>now_ns := fst (hd es)\<rparr>"
  have same: "limit_run i es h = limit_run i es ?h" using assms(2) by (cases es) (auto simp: limit_step_def split: limit_event.splits)
  have f: "fair_limits ?h" using assms(1,4) by (force simp: fair_limits_def buckets_ok_def)
  have srt: "sorted (now_ns ?h # map fst es)" using assms(2,3) by (cases es) auto
  have "of_nat (fst (limit_run i es h)) \<le> avail ?p (fst (hd es)) (rate h (hexID i)) +
      of_int (last (fst (hd es) # map fst es) - fst (hd es)) / of_int minute_ns * ?p"
    using limit_run_avail [OF f srt refl, of i] by (simp add: same)
  moreover have "avail ?p (fst (hd es)) (rate h (hexID i)) \<le> ?p"
    using avail_bounds [of ?p "fst (hd es)" "rate ?h"] f by (simp add: fair_limits_def)
  moreover have "last (fst (hd es) # map fst es) = fst (last es)" using assms(2) by (simp add: last_map)
  ultimately show ?thesis by (simp add: algebra_simps)
qed

text \<open>One post a minute: the second is refused, with someone else's post and the maintenance in between.\<close>

definition slow_hub :: hub where
  "slow_hub = demo_hub\<lparr>cfg := Defaults\<lparr>PostsPerMinute := 1\<rparr>\<rparr>"

definition busy_moment :: "(int \<times> limit_event) list" where
  "busy_moment = [(200000000, Asks alice), (200000001, Asks bob), (200000002, Expires), (200000003, Asks alice)]"

theorem posts_bounded_witness:
  "fst (limit_run alice busy_moment slow_hub) = 1 \<and> of_nat (fst (limit_run alice busy_moment slow_hub)) \<le> (2::rat)"
proof -
  have "fair_limits slow_hub" by (simp add: slow_hub_def demo_hub_def fair_limits_def buckets_ok_def)
  from posts_bounded [OF this, of busy_moment alice] have "of_nat (fst (limit_run alice busy_moment slow_hub)) \<le> (2::rat)"
    by (simp add: slow_hub_def demo_hub_def ns_defs busy_moment_def)
  moreover have "fst (limit_run alice busy_moment slow_hub) = 1"
    by (simp add: busy_moment_def limit_step_def allowPost_def bucket_step_def take_token_def refill_def slow_hub_def demo_hub_def
      expire_limits_def Let_def alice_def bob_def hexID_def ns_defs)
  ultimately show ?thesis by blast
qed

section \<open>Forgetting idle limits\<close>

lemma takeRecent_later:
  assumes "takeRecent ts t w = []" "t \<le> t'"
  shows "takeRecent ts t' w = []"
  using assms by (auto simp: takeRecent_def filter_empty_conv)

text \<open>
  C22. The minute's maintenance only forgets limits that no longer limit anything: from then on, however
  much later someone asks, posting, /history, /link and redeeming a code are decided exactly as if nothing
  had been forgotten.
\<close>

theorem expire_limits_invisible:
  assumes fair: "fair_limits h" and t: "now_ns h \<le> t"
  defines "h1 \<equiv> h\<lparr>now_ns := t\<rparr>" and "h2 \<equiv> (expire_limits h)\<lparr>now_ns := t\<rparr>"
  shows "fst (allowPost i h1) = fst (allowPost i h2) \<and>
    rate (snd (allowPost i h1)) (hexID i) = rate (snd (allowPost i h2)) (hexID i) \<and>
    history_wait i h1 = history_wait i h2 \<and>
    recent_of (linkIssued h1 k) t hour_ns = recent_of (linkIssued h2 k) t hour_ns \<and>
    recent_of (linkFailures h1 key) t linkLockout = recent_of (linkFailures h2 key) t linkLockout"
proof (intro conjI)
  let ?p = "of_int (PostsPerMinute (cfg h)) :: rat"
  have same: "bucket_step ?p t (rate h2 (hexID i)) = bucket_step ?p t (rate h (hexID i))"
  proof (cases "rate h (hexID i)")
    case (Some b)
    then have b: "0 \<le> ?p" "0 \<le> bk_tokens b" using fair by (auto simp: fair_limits_def buckets_ok_def)
    have "refill ?p t b = refill ?p t \<lparr>bk_tokens = ?p, bk_at = t\<rparr>" if "minute_ns < now_ns h - bk_at b"
      using bucket_full [OF b, of t] that t by (simp add: refill_def)
    then show ?thesis by (simp add: h2_def expire_limits_def Let_def Some bucket_step_def)
  qed (simp add: h2_def expire_limits_def Let_def)
  then show "fst (allowPost i h1) = fst (allowPost i h2)"
    "rate (snd (allowPost i h1)) (hexID i) = rate (snd (allowPost i h2)) (hexID i)"
    by (auto simp: allowPost_def h1_def h2_def expire_limits_def Let_def split: prod.splits)
  show "recent_of (linkIssued h1 k) t hour_ns = recent_of (linkIssued h2 k) t hour_ns"
    "recent_of (linkFailures h1 key) t linkLockout = recent_of (linkFailures h2 key) t linkLockout"
    using takeRecent_later [OF _ t] by (auto simp: h1_def h2_def expire_limits_def Let_def recent_of_def split: option.splits)
      (simp_all add: takeRecent_def)
  show "history_wait i h1 = history_wait i h2"
    using t by (auto simp: history_wait_def h1_def h2_def expire_limits_def Let_def split: option.splits)
qed

definition stale_hub :: hub where
  "stale_hub = slow_hub\<lparr>rate := [hexID alice \<mapsto> \<lparr>bk_tokens = 0, bk_at = 0\<rparr>], now_ns := 61 * second_ns\<rparr>"

theorem expire_limits_invisible_witness:
  "rate stale_hub (hexID alice) \<noteq> None \<and> rate (expire_limits stale_hub) (hexID alice) = None \<and>
    fst (allowPost alice (stale_hub\<lparr>now_ns := 62 * second_ns\<rparr>)) = fst (allowPost alice ((expire_limits stale_hub)\<lparr>now_ns := 62 * second_ns\<rparr>))"
proof -
  have f: "fair_limits stale_hub" and t: "now_ns stale_hub \<le> 62 * second_ns"
    by (simp_all add: stale_hub_def slow_hub_def demo_hub_def fair_limits_def buckets_ok_def ns_defs)
  have "rate stale_hub (hexID alice) \<noteq> None" "rate (expire_limits stale_hub) (hexID alice) = None"
    by (simp_all add: stale_hub_def slow_hub_def expire_limits_def Let_def ns_defs)
  with expire_limits_invisible [OF f t, of alice] show ?thesis by blast
qed

end
