(* ===== verification/HubReads.thy ===== *)
theory HubReads
  imports HubLimits
begin

text \<open>
  What the hub's reading methods answer, as functions of the configuration, the database and who is present:
  who someone is, who runs a room, who may read it. A database that satisfies the schema invariant always
  answers, and reading changes nothing.
\<close>

section \<open>Reading handlers\<close>

definition reads :: "'a hm \<Rightarrow> bool" where
  "reads m \<longleftrightarrow> (\<forall>h. keeps ((=) h) m)"

lemma readsI: "(\<And>h. keeps ((=) h) m) \<Longrightarrow> reads m"
  by (simp add: reads_def)

lemma readsD: "reads m \<Longrightarrow> m h = (r, h') \<Longrightarrow> h' = h"
  unfolding reads_def using keepsD [of "(=) h" m h r h'] by simp

lemma reads_people: "reads (person i)" "reads (rank i)" "reads (displayName i)" "reads (normRoom room)" "reads (checkHubBan i)"
  "reads (checkRoomBan room i)" "reads (lxmfPaused m i)"
  unfolding person_def rank_def displayName_def normRoom_def checkHubBan_def checkRoomBan_def lxmfPaused_def personOnRRC_def identitiesOf_def
  by (intro readsI hub_keeps | simp split: LXMFMode.split)+

lemma reads_rooms: "reads (isRoomOp r i)" "reads (isVoiced r i)" "reads (mayReadRoom r i)"
  using reads_people unfolding isVoiced_def mayReadRoom_def isRoomOp_def reads_def by (auto intro!: hub_keeps)

section \<open>Who someone is\<close>

lemma NameOf_Inr: "db_inv d \<Longrightarrow> \<exists>n. NameOf i d = Inr n"
  by (metis NameOf_total db_invD(1,2))

lemma unknown_no_member: "db_inv d \<Longrightarrow> Identity i d = None \<Longrightarrow> \<not> IsMember i d"
  by (force simp: db_inv_def inv_group_def Identity_def IsMember_def find_None_set)

lemma known_person:
  assumes "db_inv d" "Identity i d = Some r"
  shows "\<exists>sp. PersonOf i d = Some sp \<and> p_ID sp = i_Person r \<and> 0 < p_ID sp"
proof -
  have inv: "inv_people d" using assms(1) by (simp add: db_inv_def)
  then obtain sp where "sp \<in> set (people d)" "p_ID sp = i_Person r"
    using Identity_Some [OF assms(2)] by (auto simp: inv_people_def)
  moreover from this inv have "find (\<lambda>p. p_ID p = i_Person r) (people d) = Some sp"
    using find_key_eq [of p_ID "people d" sp] by (simp add: inv_people_def)
  ultimately show ?thesis using inv assms(2) by (auto simp: PersonOf_def PersonByID_def inv_people_def)
qed

lemma apps_of_person:
  assumes "db_inv d" "Identity i d = Some r"
  shows "i \<in> i_ID ` set (PersonIdentities (i_Person r) d)" "distinct (map i_ID (PersonIdentities (i_Person r) d))"
    "\<forall>x\<in>set (PersonIdentities (i_Person r) d). length (i_ID x) = 16 \<and> Identity (i_ID x) d = Some x \<and> i_Person x = i_Person r"
proof -
  have inv: "inv_people d" using assms(1) by (simp add: db_inv_def)
  show "i \<in> i_ID ` set (PersonIdentities (i_Person r) d)" using Identity_Some [OF assms(2)] by auto
  show "distinct (map i_ID (PersonIdentities (i_Person r) d))"
    using inv by (simp add: PersonIdentities_def inv_people_def distinct_map inj_on_def)
  show "\<forall>x\<in>set (PersonIdentities (i_Person r) d). length (i_ID x) = 16 \<and> Identity (i_ID x) d = Some x \<and> i_Person x = i_Person r"
    using inv by (auto simp: Identity_in inv_people_def)
qed

text \<open>
  C23. Asking who an identity is always gives a well-formed answer: the identity itself is one of the person's
  apps, the apps are distinct 16-byte hashes the hub has met, the app's rank never exceeds the person's, the
  person number is 0 exactly for someone the hub has never met, and the name shown is the claimed name or,
  without one, the guest name.
\<close>

theorem person_wellformed:
  assumes "db_inv (st h)"
  shows "\<exists>p. person i h = (Inr p, h) \<and> ps_Identity p = i \<and> i \<in> set (ps_Identities p) \<and> distinct (ps_Identities p) \<and>
    ps_Rank p \<le> ps_PersonRank p \<and> (ps_PersonID p = 0 \<longleftrightarrow> Identity i (st h) = None) \<and> ps_Member p = IsMember i (st h) \<and>
    (\<exists>n. NameOf i (st h) = Inr n \<and> ps_Claimed p = (n \<noteq> None) \<and> ps_Name p = (case n of None \<Rightarrow> GuestName i | Some n \<Rightarrow> nm_Name n)) \<and>
    (Identity i (st h) \<noteq> None \<longrightarrow> (\<forall>j\<in>set (ps_Identities p). length j = 16 \<and> (\<exists>r. Identity j (st h) = Some r \<and> i_Person r = ps_PersonID p)))"
proof -
  let ?d = "st h" and ?as = "Admins (cfg h)"
  obtain n where n: "NameOf i ?d = Inr n" using NameOf_Inr [OF assms] by blast
  have run: "person i h = (person_db ?as i ?d, h)" by (simp add: person_def bnd_def asks_def queryE_def)
  show ?thesis
  proof (cases "Identity i ?d")
    case None
    then have "NameOf i ?d = Inr None" "\<not> IsMember i ?d" using assms by (simp_all add: NameOf_def scanName_def unknown_no_member)
    then show ?thesis using None by (simp add: run person_db_def base_person_def)
  next
    case (Some r)
    obtain sp where sp: "PersonOf i ?d = Some sp" "p_ID sp = i_Person r" "0 < p_ID sp" using known_person [OF assms Some] by blast
    let ?ids = "PersonIdentities (p_ID sp) ?d"
    note ids = apps_of_person [OF assms Some]
    have "identityRank ?as i (p_Rank sp) (personRank ?as ?ids (p_Rank sp) = RankOwner) \<le> personRank ?as ?ids (p_Rank sp)"
      using ids(1) by (intro identityRank_le_personRank) (auto simp: sp(2))
    then show ?thesis using Some n sp ids
      by (cases n) (auto simp: run person_db_def with_person_def base_person_def Let_def simp del: set_PersonIdentities)
  qed
qed

theorem person_wellformed_witness:
  "\<exists>p. person alice demo_hub = (Inr p, demo_hub) \<and> alice \<in> set (ps_Identities p) \<and> ps_PersonID p \<noteq> 0 \<and> ps_Name p = ''Alice''"
proof -
  have "db_inv (st demo_hub)" using demo_hub_inv by (simp add: hub_inv_def)
  moreover have "Identity alice (st demo_hub) \<noteq> None" "map_option nm_Name (projr (NameOf alice (st demo_hub))) = Some ''Alice''"
    "NameOf alice (st demo_hub) = Inr (projr (NameOf alice (st demo_hub)))" by code_simp+
  ultimately show ?thesis using person_wellformed [of demo_hub alice] by auto
qed

section \<open>Who runs a room, and who may read it\<close>

definition rank_in :: "Config \<Rightarrow> db \<Rightarrow> ident \<Rightarrow> Rank" where
  "rank_in c d i = (if isOwner (Admins c) i then RankOwner
     else case person_db (Admins c) i d of Inr p \<Rightarrow> ps_Rank p | Inl _ \<Rightarrow> RankMember)"

definition runs_room :: "Config \<Rightarrow> db \<Rightarrow> room \<Rightarrow> ident \<Rightarrow> bool" where
  "runs_room c d r i \<longleftrightarrow> rm_Founder r = Some i \<or> RankMod \<le> rank_in c d i \<or> HasRole (rm_Name r) i RoleOp d"

definition open_room :: "room \<Rightarrow> bool" where
  "open_room r \<longleftrightarrow> \<not> HasMode r (CHR ''p'') \<and> \<not> HasMode r (CHR ''i'') \<and> rm_Key r = ''''"

definition may_read :: "hub \<Rightarrow> room \<Rightarrow> ident \<Rightarrow> bool" where
  "may_read h r i \<longleftrightarrow> open_room r \<or> rrcPresent (rm_Name r) i h \<or> runs_room (cfg h) (st h) r i \<or> InviteValid (rm_Name r) i (nowMS h) (st h)"

lemma person_db_Inr: "db_inv d \<Longrightarrow> \<exists>p. person_db owners_list i d = Inr p"
  using NameOf_Inr [of d i] by (auto simp: person_db_def Let_def split: option.splits)

lemma rank_run: "db_inv (st h) \<Longrightarrow> rank i h = (Inr (rank_in (cfg h) (st h) i), h)"
  using person_db_Inr [of "st h" "Admins (cfg h)" i]
  by (auto simp: rank_def rank_in_def person_def bnd_def asks_def queryE_def ret_def)

lemma isRoomOp_run: "db_inv (st h) \<Longrightarrow> isRoomOp r i h = (Inr (runs_room (cfg h) (st h) r i), h)"
  by (auto simp: isRoomOp_def runs_room_def rank_run bnd_def ret_def query_def)

lemma isVoiced_run:
  "db_inv (st h) \<Longrightarrow> isVoiced r i h = (Inr (runs_room (cfg h) (st h) r i \<or> HasRole (rm_Name r) i RoleVoice (st h)), h)"
  by (auto simp: isVoiced_def isRoomOp_run bnd_def ret_def query_def)

lemma mayReadRoom_run: "db_inv (st h) \<Longrightarrow> mayReadRoom r i h = (Inr (may_read h r i), h)"
  by (auto simp: mayReadRoom_def may_read_def open_room_def isRoomOp_run bnd_def ret_def query_def asks_def)

text \<open>Room names as a request gives them: empty means the group room.\<close>

definition asked_room :: "hub \<Rightarrow> string \<Rightarrow> err + string" where
  "asked_room h room = NormalizeRoom (ulower (env h)) (if room = '''' then GroupRoom (cfg h) else room) (MaxRoomNameBytes (cfg h))"

lemma normRoom_run:
  "normRoom name h = (case NormalizeRoom (ulower (env h)) name (MaxRoomNameBytes (cfg h)) of Inl e \<Rightarrow> Inl (UserError (err_text e)) | Inr n \<Rightarrow> Inr n, h)"
  by (simp add: normRoom_def bnd_def asks_def refuse_def thr_def ret_def split: sum.splits)

lemma checkRoomBan_run: "checkRoomBan room i h = (if HasRole room i RoleBan (st h) then Inl (UserError ''banned from room'') else Inr (), h)"
  by (simp add: checkRoomBan_def bnd_def query_def refuse_def thr_def ret_def)

lemma checkHubBan_run: "checkHubBan i h = (if IsBanned i (st h) then Inl (UserError ''you are banned from this hub'') else Inr (), h)"
  by (simp add: checkHubBan_def bnd_def query_def refuse_def thr_def ret_def)

lemma history_run:
  assumes "db_inv (st h)"
  shows "history i room n b h = (case asked_room h room of Inl e \<Rightarrow> (Inl (UserError (err_text e)), h)
    | Inr name \<Rightarrow> (case history_wait i h of
        Some w \<Rightarrow> (Inl (UserError (''please wait '' @ itoa (ceil_seconds w) @ '' seconds before asking for history again'')), h)
      | None \<Rightarrow> (case Room name (st h) of None \<Rightarrow> (Inl (UserError ''no such room''), h)
        | Some rm \<Rightarrow> if HasRole name i RoleBan (st h) then (Inl (UserError ''banned from room''), h)
            else if \<not> may_read h rm i then (Inl (UserError (''room '' @ name @ '' is private'')), h)
            else (Inr (LatestMessages name b (min (if n \<le> 0 then 20 else n) (HistoryMax (cfg h))) (st h)),
                  h\<lparr>historyAt := (historyAt h)(hexID i \<mapsto> now_ns h)\<rparr>))))"
  using mayReadRoom_run [OF assms]
  by (simp add: history_def asked_room_def normRoom_run checkRoomBan_run bnd_def seq_def asks_def query_def modify_def refuse_def thr_def
      split: sum.splits option.splits)

text \<open>
  C20. History is read only by those who may: an answer means the room exists, the reader is not banned from
  it and, where it is private, invite-only or keyed, is in it, runs it or holds an invite; what comes back is
  the room's latest messages before the given one, at most HistoryMax of them. Anyone else, and anyone asking
  again within the cooldown, is refused and nothing changes.
\<close>

theorem history_guarded:
  assumes inv: "db_inv (st h)" and run: "history i room n b h = (r, h')"
  shows "(case r of
      Inr msgs \<Rightarrow> history_wait i h = None \<and>
        (\<exists>name rm. asked_room h room = Inr name \<and> Room name (st h) = Some rm \<and> \<not> HasRole name i RoleBan (st h) \<and> may_read h rm i \<and>
          msgs = LatestMessages name b (min (if n \<le> 0 then 20 else n) (HistoryMax (cfg h))) (st h) \<and>
          (0 \<le> HistoryMax (cfg h) \<longrightarrow> int (length msgs) \<le> HistoryMax (cfg h))) \<and> st h' = st h \<and>
        history_wait i h' = (if 0 < HistoryCooldown (cfg h) then Some (HistoryCooldown (cfg h)) else None)
    | Inl e \<Rightarrow> (\<exists>t. e = UserError t) \<and> h' = h)"
proof -
  let ?n = "min (if n \<le> 0 then 20 else n) (HistoryMax (cfg h))"
  have len: "0 \<le> HistoryMax (cfg h) \<Longrightarrow> int (length (LatestMessages name b ?n (st h))) \<le> HistoryMax (cfg h)" for name
    using LatestMessages_length [of ?n name b "st h"] by (auto simp: min_def split: if_splits)
  show ?thesis using run len unfolding history_run [OF inv]
    by (auto simp: history_wait_def split: sum.splits option.splits if_splits)
qed

definition keyed_db :: db where
  "keyed_db = okE (PutRoom \<lparr>rm_Name = ''den'', rm_Topic = '''', rm_Founder = Some alice, rm_Registered = True, rm_Modes = ''p'', rm_Key = ''sesame'',
     rm_CreatedAt = 1, rm_LastUsed = 1\<rparr> named_db)"

lemma keyed_reach: "store_reach keyed_db"
proof -
  have "PutRoom \<lparr>rm_Name = ''den'', rm_Topic = '''', rm_Founder = Some alice, rm_Registered = True, rm_Modes = ''p'', rm_Key = ''sesame'',
      rm_CreatedAt = 1, rm_LastUsed = 1\<rparr> named_db = Inr keyed_db" by code_simp
  then show ?thesis by (rule reach_step [OF named_reach step_PutRoom])
qed

theorem history_guarded_witness:
  "fst (history bob ''den'' 5 0 (demo_hub\<lparr>st := keyed_db\<rparr>)) = Inl (UserError ''room den is private'') \<and>
    snd (history bob ''den'' 5 0 (demo_hub\<lparr>st := keyed_db\<rparr>)) = demo_hub\<lparr>st := keyed_db\<rparr> \<and>
    fst (history alice ''den'' 5 0 (demo_hub\<lparr>st := keyed_db\<rparr>)) = Inr []"
proof -
  let ?h = "demo_hub\<lparr>st := keyed_db\<rparr>"
  have inv: "db_inv (st ?h)" using reach_inv [OF keyed_reach] by simp
  have r: "fst (history bob ''den'' 5 0 ?h) = Inl (UserError ''room den is private'')"
    "fst (history alice ''den'' 5 0 ?h) = Inr []" by code_simp+
  obtain q h' where run: "history bob ''den'' 5 0 ?h = (q, h')" by force
  from history_guarded [OF inv run] r run show ?thesis by simp
qed

end
