(* ===== verification/HubPosting.thy ===== *)
theory HubPosting
  imports HubReads
begin

text \<open>
  What Post promises: which posts are accepted, what an accepted one leaves in the database, the LXMF queue
  and the event queues, and that a refused one leaves nothing.
\<close>

section \<open>The checks\<close>

definition way_in :: "hub \<Rightarrow> Via \<Rightarrow> ident \<Rightarrow> room \<Rightarrow> string \<Rightarrow> bool" where
  "way_in h via i r room \<longleftrightarrow> (case via of
     ViaRRC \<Rightarrow> HasMode r (CHR ''n'') \<longrightarrow> rrcPresent room i h
   | ViaLXMF \<Rightarrow> IsMember i (st h) \<and> room = GroupRoom (cfg h)
   | ViaPage \<Rightarrow> room = GroupRoom (cfg h)
   | ViaImport \<Rightarrow> True)"

definition may_speak :: "hub \<Rightarrow> room \<Rightarrow> ident \<Rightarrow> bool" where
  "may_speak h r i \<longleftrightarrow> (HasMode r (CHR ''m'') \<longrightarrow> runs_room (cfg h) (st h) r i \<or> HasRole (rm_Name r) i RoleVoice (st h))"

lemma check_body_Inr: "check_body body h = (Inr u, h') \<longleftrightarrow>
    h' = h \<and> TrimSpace body \<noteq> '''' \<and> ValidString body \<and> int (length body) \<le> MaxBodyBytes (cfg h)"
  by (auto simp: check_body_def bnd_def asks_def refuse_def thr_def ret_def)

lemma check_way_in_Inr: "check_way_in via i room r h = (Inr u, h') \<longleftrightarrow> h' = h \<and> way_in h via i r room"
  by (cases via) (auto simp: check_way_in_def way_in_def bnd_def asks_def query_def refuse_def thr_def ret_def)

lemma check_voice_Inr: "db_inv (st h) \<Longrightarrow> check_voice r i h = (Inr u, h') \<longleftrightarrow> h' = h \<and> may_speak h r i"
  by (auto simp: check_voice_def may_speak_def isVoiced_run bnd_def refuse_def thr_def ret_def)

text \<open>What must hold for a post to be stored, besides the rate limit.\<close>

definition acceptable :: "PostRequest \<Rightarrow> hub \<Rightarrow> string \<Rightarrow> room \<Rightarrow> bool" where
  "acceptable req h room r \<longleftrightarrow> asked_room h (pr_Room req) = Inr room \<and> Room room (st h) = Some r \<and>
     TrimSpace (trimmed req) \<noteq> '''' \<and> ValidString (trimmed req) \<and> int (length (trimmed req)) \<le> MaxBodyBytes (cfg h) \<and>
     \<not> IsBanned (pr_Identity req) (st h) \<and> \<not> HasRole room (pr_Identity req) RoleBan (st h) \<and>
     way_in h (pr_Via req) (pr_Identity req) r room \<and> may_speak h r (pr_Identity req)"

lemma allowPost_run: "\<exists>ok b. allowPost i h = (Inr ok, h\<lparr>rate := b\<rparr>)"
  by (auto simp: allowPost_def split: prod.splits)

lemma post_checked:
  assumes inv: "db_inv (st h)" and run: "post req h = (Inr res, h')"
  obtains room r where "acceptable req h room r" "say_in_room req room r h = (Inr res, h')"
proof -
  obtain room where room: "asked_room h (pr_Room req) = Inr room"
    using run by (cases "asked_room h (pr_Room req)") (auto simp: post_def Let_def bnd_def normRoom_run asked_room_def asks_def)
  have "\<exists>r. acceptable req h room r \<and> say_in_room req room r h = (Inr res, h')"
    using run room unfolding post_def Let_def bnd_Inr_iff seq_Inr_iff
    by (cases "Room room (st h)")
      (auto simp: bnd_Inr_iff seq_Inr_iff check_body_Inr check_way_in_Inr check_voice_Inr [OF inv] checkRoomBan_run
        checkHubBan_run normRoom_run asks_def query_def acceptable_def asked_room_def refuse_def thr_def split: if_splits)
  with that show ?thesis by blast
qed

lemma post_Inr:
  assumes inv: "db_inv (st h)" and run: "post req h = (Inr res, h')"
  obtains room r b d name where "acceptable req h room r" "allowPost (pr_Identity req) h = (Inr True, h\<lparr>rate := b\<rparr>)"
    "TouchIdentity (pr_Identity req) None (nowMS h) (st h) = Inr d" "displayName_db (pr_Identity req) d = Inr name"
    "store_message r (said req room name (nowMS h)) (h\<lparr>rate := b, st := d\<rparr>) = (Inr res, h')"
proof -
  from post_checked [OF inv run] obtain room r where acc: "acceptable req h room r" and say: "say_in_room req room r h = (Inr res, h')" .
  obtain ok b where lim: "allowPost (pr_Identity req) h = (Inr ok, h\<lparr>rate := b\<rparr>)" using allowPost_run by blast
  with say have "ok" by (auto simp: say_in_room_def Let_def bnd_def refuse_def thr_def split: if_splits)
  with say lim have "\<exists>d name. TouchIdentity (pr_Identity req) None (nowMS h) (st h) = Inr d \<and> displayName_db (pr_Identity req) d = Inr name \<and>
      store_message r (said req room name (nowMS h)) (h\<lparr>rate := b, st := d\<rparr>) = (Inr res, h')"
    by (auto simp: say_in_room_def Let_def bnd_Inr_iff seq_Inr_iff touch_def asks_def exec_Inr displayName_def queryE_def nowMS_def)
  moreover from lim \<open>ok\<close> have "allowPost (pr_Identity req) h = (Inr True, h\<lparr>rate := b\<rparr>)" by simp
  ultimately show ?thesis using that acc by blast
qed

section \<open>Who gets it by LXMF\<close>

definition paused_in :: "hub \<Rightarrow> LXMFMode \<Rightarrow> ident \<Rightarrow> bool" where
  "paused_in h mode i \<longleftrightarrow> (case mode of LXMFOff \<Rightarrow> True | LXMFOn \<Rightarrow> False
     | LXMFAuto \<Rightarrow> (\<exists>j\<in>set (identitiesOf_db i (st h)). rrcPresent (GroupRoom (cfg h)) j h))"

definition wants_in :: "hub \<Rightarrow> ident \<Rightarrow> Via \<Rightarrow> member \<Rightarrow> bool" where
  "wants_in h author via m \<longleftrightarrow> \<not> paused_in h (gm_LXMFMode m) (gm_Identity m) \<and> \<not> (gm_Identity m = author \<and> via = ViaLXMF) \<and>
     (gm_LXMFMine m \<or> \<not> samePerson_db (gm_Identity m) author (st h)) \<and> \<not> IsBanned (gm_Identity m) (st h)"

definition recipients_in :: "hub \<Rightarrow> ident \<Rightarrow> Via \<Rightarrow> ident list" where
  "recipients_in h author via = map gm_Identity (filter (wants_in h author via) (Members (st h)))"

lemma lxmfPaused_run: "lxmfPaused mode i h = (Inr (paused_in h mode i), h)"
  by (cases mode) (simp_all add: lxmfPaused_def paused_in_def personOnRRC_def identitiesOf_def bnd_def asks_def query_def ret_def)

lemma wants_lxmf_run: "wants_lxmf author via m h = (Inr (wants_in h author via m), h)"
  by (auto simp: wants_lxmf_def wants_in_def bnd_def lxmfPaused_run query_def ret_def)

lemma filterM_reads: "(\<And>x. f x h = (Inr (g x), h)) \<Longrightarrow> filterM f xs h = (Inr (filter g xs), h)"
  by (induction xs) (simp_all add: bnd_def ret_def)

lemma lxmfRecipients_run: "lxmfRecipients author via h = (Inr (recipients_in h author via), h)"
  using filterM_reads [of "wants_lxmf author via" h "wants_in h author via" "Members (st h)"] wants_lxmf_run
  by (simp add: lxmfRecipients_def recipients_in_def bnd_def query_def ret_def)

section \<open>What an accepted post leaves behind\<close>

definition delivery_of :: "int \<Rightarrow> ident \<Rightarrow> db \<Rightarrow> delivery option" where
  "delivery_of k i d = find (\<lambda>x. delivery_key x = (k, i)) (deliveries d)"

lemma PutDelivery_queued:
  assumes "PutDelivery (queued_delivery k False t i) d = Inr d'"
  shows "d' = d\<lparr>deliveries := upsert delivery_key delivery_merge (queued_delivery k False t i) (deliveries d)\<rparr>"
  using assms by (auto simp: PutDelivery_def queued_delivery_def)

lemma delivery_of_queued:
  assumes put: "PutDelivery (queued_delivery k False t i) d = Inr d'" and ok: "\<forall>x\<in>set (deliveries d). \<not> dl_Whisper x"
  shows "delivery_of m j d' = (if (m, j) = (k, i) then Some (queued_delivery k False t i) else delivery_of m j d)"
    and "\<forall>x\<in>set (deliveries d'). \<not> dl_Whisper x"
proof -
  let ?q = "queued_delivery k False t i"
  have key: "delivery_key ?q = (k, i)" by (simp add: queued_delivery_def delivery_key_def)
  have old: "delivery_merge ?q x = ?q" if "find (\<lambda>r. delivery_key r = (k, i)) (deliveries d) = Some x" for x
    using find_Some_set [OF that] ok by (cases x) (auto simp: delivery_merge_def queued_delivery_def delivery_key_def)
  show "delivery_of m j d' = (if (m, j) = (k, i) then Some ?q else delivery_of m j d)"
    using dt.upsert_lookup_same [of ?q "deliveries d"] dt.upsert_lookup_other [of "(m, j)" ?q "deliveries d"] old
    by (auto simp: delivery_of_def PutDelivery_queued [OF put] key split: option.splits)
  show "\<forall>x\<in>set (deliveries d'). \<not> dl_Whisper x"
    using ok by (simp add: PutDelivery_queued [OF put]) (rule dt.upsert_ball, auto simp: queued_delivery_def delivery_merge_def)
qed

lemma each_queued:
  assumes "each (\<lambda>i. exec (PutDelivery (queued_delivery k False t i))) to h = (Inr (), h')" "\<forall>x\<in>set (deliveries (st h)). \<not> dl_Whisper x"
  shows "\<exists>ds. h' = h\<lparr>st := (st h)\<lparr>deliveries := ds\<rparr>\<rparr> \<and>
    (\<forall>i. delivery_of k i (st h') = (if i \<in> set to then Some (queued_delivery k False t i) else delivery_of k i (st h)))"
  using assms
proof (induction to arbitrary: h)
  case Nil
  then show ?case by (auto simp: ret_def intro!: exI [of _ "deliveries (st h)"])
next
  case (Cons i to)
  from Cons.prems(1) obtain d where put: "PutDelivery (queued_delivery k False t i) (st h) = Inr d"
    and rest: "each (\<lambda>i. exec (PutDelivery (queued_delivery k False t i))) to (h\<lparr>st := d\<rparr>) = (Inr (), h')"
    by (auto simp: seq_Inr_iff exec_Inr)
  note q = delivery_of_queued [OF put Cons.prems(2)]
  from Cons.IH [OF rest] q(2) obtain ds where "h' = h\<lparr>st := d\<lparr>deliveries := ds\<rparr>\<rparr>"
    "\<forall>j. delivery_of k j (st h') = (if j \<in> set to then Some (queued_delivery k False t j) else delivery_of k j d)" by auto
  then show ?case using q(1) PutDelivery_queued [OF put] by auto
qed

lemma recipients_cong:
  assumes "members (st h') = members (st h)" "identities (st h') = identities (st h)" "people (st h') = people (st h)"
    "bans (st h') = bans (st h)" "cfg h' = cfg h" "presence h' = presence h"
  shows "recipients_in h' author via = recipients_in h author via"
proof -
  have "PersonOf i (st h') = PersonOf i (st h)" "PersonIdentities k (st h') = PersonIdentities k (st h)" "IsBanned i (st h') = IsBanned i (st h)"
    "rrcPresent room i h' = rrcPresent room i h" for i k room
    using assms by (simp_all add: PersonOf_def Identity_def PersonByID_def PersonIdentities_def IsBanned_def rrcPresent_def split: option.split)
  moreover from this have "identitiesOf_db i (st h') = identitiesOf_db i (st h)" "samePerson_db i j (st h') = samePerson_db i j (st h)" for i j
    by (simp_all add: identitiesOf_db_def samePerson_db_def split: option.split)
  ultimately have "wants_in h' author via = wants_in h author via"
    using assms by (intro ext) (simp add: wants_in_def paused_in_def split: LXMFMode.split)
  then show ?thesis using assms by (simp add: recipients_in_def Members_def)
qed

lemma message_to_run:
  "message_to m h = (Inr (if m_Room m = GroupRoom (cfg h) then recipients_in h (m_Author m) (m_Via m) else []), h)"
  by (simp add: message_to_def bnd_def asks_def lxmfRecipients_run ret_def)

lemma announce_Inr:
  assumes "announce m t to h = (Inr res, h')"
  obtains h2 where "each (\<lambda>i. exec (PutDelivery (queued_delivery (m_ID m) False t i))) to h = (Inr (), h2)"
    "h' = h2\<lparr>out_events := out_events h2 @ [MessageEvent m to], stats := (stats h2)\<lparr>Posts := Posts (stats h2) + 1\<rparr>\<rparr>" "po_Message res = m"
  using assms by (auto simp: announce_def seq_Inr_iff emit_def modify_def count_stats_def ret_def)

lemma store_message_parts:
  assumes run: "store_message r m h = (Inr res, h')" and new: "\<not> po_Duplicate res"
  obtains k d1 d2 h2 to where "AddMessage m (st h) = Inr (k, False, d1)" "PutRoom (r\<lparr>rm_LastUsed := nowMS h\<rparr>) d1 = Inr d2"
    "to = (if m_Room m = GroupRoom (cfg h) then recipients_in (h\<lparr>st := d2\<rparr>) (m_Author m) (m_Via m) else [])"
    "each (\<lambda>i. exec (PutDelivery (queued_delivery k False (nowMS h) i))) to (h\<lparr>st := d2\<rparr>) = (Inr (), h2)"
    "h' = h2\<lparr>out_events := out_events h2 @ [MessageEvent (m\<lparr>m_ID := k\<rparr>) to], stats := (stats h2)\<lparr>Posts := Posts (stats h2) + 1\<rparr>\<rparr>"
    "po_Message res = m\<lparr>m_ID := k\<rparr>"
proof -
  obtain k dup d1 where add: "AddMessage m (st h) = Inr (k, dup, d1)" and tx: "AddMessage_tx m h = (Inr (k, dup), h\<lparr>st := d1\<rparr>)"
    using run by (auto simp: store_message_def bnd_Inr_iff AddMessage_tx_def execR_Inr)
  have dup: "\<not> dup" using run new by (auto simp: store_message_def bnd_Inr_iff tx seq_Inr_iff ret_def)
  have "store_new r (m\<lparr>m_ID := k\<rparr>) (h\<lparr>st := d1\<rparr>) = (Inr res, h')" using run dup by (simp add: store_message_def bnd_def tx)
  then obtain d2 where d2: "PutRoom (r\<lparr>rm_LastUsed := nowMS h\<rparr>) d1 = Inr d2"
    and ann: "announce (m\<lparr>m_ID := k\<rparr>) (nowMS h) (if m_Room m = GroupRoom (cfg h) then recipients_in (h\<lparr>st := d2\<rparr>) (m_Author m) (m_Via m) else [])
        (h\<lparr>st := d2\<rparr>) = (Inr res, h')"
    unfolding store_new_def bnd_Inr_iff seq_Inr_iff exec_Inr message_to_run by (auto simp: asks_def nowMS_def cong: if_cong)
  from announce_Inr [OF ann] obtain h2 where "each (\<lambda>i. exec (PutDelivery (queued_delivery k False (nowMS h) i)))
        (if m_Room m = GroupRoom (cfg h) then recipients_in (h\<lparr>st := d2\<rparr>) (m_Author m) (m_Via m) else []) (h\<lparr>st := d2\<rparr>) = (Inr (), h2)"
    "h' = h2\<lparr>out_events := out_events h2 @ [MessageEvent (m\<lparr>m_ID := k\<rparr>) (if m_Room m = GroupRoom (cfg h)
        then recipients_in (h\<lparr>st := d2\<rparr>) (m_Author m) (m_Via m) else [])], stats := (stats h2)\<lparr>Posts := Posts (stats h2) + 1\<rparr>\<rparr>"
    "po_Message res = m\<lparr>m_ID := k\<rparr>" by auto
  with that add dup d2 show thesis by simp
qed

lemma store_message_new:
  assumes inv: "db_inv (st h)" and run: "store_message r m h = (Inr res, h')" and new: "\<not> po_Duplicate res"
  defines "m' \<equiv> m\<lparr>m_ID := next_rowid m_ID (messages (st h))\<rparr>"
  defines "to \<equiv> if m_Room m = GroupRoom (cfg h) then recipients_in h' (m_Author m) (m_Via m) else []"
  shows "po_Message res = m'" "messages (st h') = messages (st h) @ [m']"
    "\<forall>i. delivery_of (m_ID m') i (st h') = (if i \<in> set to then Some (queued_delivery (m_ID m') False (nowMS h) i) else delivery_of (m_ID m') i (st h))"
    "out_events h' = out_events h @ [MessageEvent m' to]" "out_after h' = out_after h" "stats h' = (stats h)\<lparr>Posts := Posts (stats h) + 1\<rparr>"
    "subs h' = subs h" "presence h' = presence h" "cfg h' = cfg h"
proof -
  from store_message_parts [OF run new] obtain k d1 d2 h2 tos where add: "AddMessage m (st h) = Inr (k, False, d1)"
    and d2: "PutRoom (r\<lparr>rm_LastUsed := nowMS h\<rparr>) d1 = Inr d2"
    and tos: "tos = (if m_Room m = GroupRoom (cfg h) then recipients_in (h\<lparr>st := d2\<rparr>) (m_Author m) (m_Via m) else [])"
    and q: "each (\<lambda>i. exec (PutDelivery (queued_delivery k False (nowMS h) i))) tos (h\<lparr>st := d2\<rparr>) = (Inr (), h2)"
    and h': "h' = h2\<lparr>out_events := out_events h2 @ [MessageEvent (m\<lparr>m_ID := k\<rparr>) tos], stats := (stats h2)\<lparr>Posts := Posts (stats h2) + 1\<rparr>\<rparr>"
    and res: "po_Message res = m\<lparr>m_ID := k\<rparr>" .
  have k: "k = next_rowid m_ID (messages (st h))" and d1: "d1 = (st h)\<lparr>messages := messages (st h) @ [m']\<rparr>"
    using AddMessage_Inr(3) [OF add] by (auto simp: m'_def)
  have d2': "messages d2 = messages d1" "deliveries d2 = deliveries (st h)" "members d2 = members d1" "identities d2 = identities d1"
      "people d2 = people d1" "bans d2 = bans d1" using d2 by (auto simp: PutRoom_def d1)
  have "\<forall>x\<in>set (deliveries (st (h\<lparr>st := d2\<rparr>))). \<not> dl_Whisper x" using inv d2'(2) by (simp add: db_inv_def inv_group_def)
  from each_queued [OF q this] obtain ds where h2: "h2 = h\<lparr>st := d2\<lparr>deliveries := ds\<rparr>\<rparr>"
    and dl: "\<forall>i. delivery_of k i (st h2) = (if i \<in> set tos then Some (queued_delivery k False (nowMS h) i) else delivery_of k i d2)"
    by auto
  have to: "tos = to" unfolding tos to_def h' h2 by (simp add: recipients_cong [of "h\<lparr>st := d2\<rparr>"])
  have id: "m_ID m' = k" "m\<lparr>m_ID := k\<rparr> = m'" by (simp_all add: m'_def k)
  show "\<forall>i. delivery_of (m_ID m') i (st h') = (if i \<in> set to then Some (queued_delivery (m_ID m') False (nowMS h) i) else delivery_of (m_ID m') i (st h))"
    using dl d2'(2) by (auto simp: h' id to delivery_of_def)
  show "po_Message res = m'" "messages (st h') = messages (st h) @ [m']" "out_events h' = out_events h @ [MessageEvent m' to]"
    "out_after h' = out_after h" "stats h' = (stats h)\<lparr>Posts := Posts (stats h) + 1\<rparr>" "subs h' = subs h" "presence h' = presence h" "cfg h' = cfg h"
    using res d2'(1) by (simp_all add: h' h2 id d1 to)
qed

lemma Post_Inr:
  assumes inv: "db_inv (st h)" and run: "Post req h = (Inr res, h')"
  obtains h1 where "post req (h\<lparr>out_events := [], out_after := []\<rparr>) = (Inr res, h1)" "st h' = st h1" "stats h' = stats h1"
    "presence h' = presence (fold run_after (out_after h1) h1)" "cfg h' = cfg h1" "subs h' = map (fold offer (out_events h1)) (subs h1)"
proof -
  let ?h0 = "h\<lparr>out_events := [], out_after := []\<rparr>"
  have u: "update (post req) h = (Inr res, h')" using run by (auto simp: Post_def split: prod.splits sum.splits)
  obtain q h1 where p: "post req ?h0 = (q, h1)" by force
  with u have q: "q = Inr res" by (cases q) (auto simp: update_def)
  have h': "h' = (publish (out_events h1) (fold run_after (out_after h1) h1))\<lparr>out_events := [], out_after := []\<rparr>"
    using u p q by (simp add: update_def)
  have "stats (fold run_after fs x) = stats x" for fs x
    by (induction fs arbitrary: x) (simp_all add: run_after_def split: After.split)
  then show thesis using p q by (intro that [of h1]) (simp_all add: h' publish_def fold_offer_map)
qed

lemma acceptable_outbox [simp]: "acceptable req (h\<lparr>out_events := es, out_after := fs\<rparr>) room r = acceptable req h room r"
  by (simp add: acceptable_def asked_room_def way_in_def may_speak_def rrcPresent_def split: Via.split)

text \<open>
  C4. Nothing is said in a room except by the rules: an accepted post (a repeated one included) names a room
  that exists, has a body that is not blank, is valid text and within the size limit, comes from someone
  banned neither from the hub nor from the room who is within the rate limit, and comes the right way: over
  RRC from inside a room that takes no outside messages, over LXMF from a member of the group and to the group's
  room only, from the page to the group's room only; in a moderated room it comes from someone who runs it or
  has a voice.
\<close>

theorem Post_rules:
  assumes "db_inv (st h)" "Post req h = (Inr res, h')"
  shows "\<exists>room r. acceptable req h room r \<and> fst (allowPost (pr_Identity req) h) = Inr True"
proof -
  let ?h0 = "h\<lparr>out_events := [], out_after := []\<rparr>"
  from Post_Inr [OF assms] obtain h1 where p: "post req ?h0 = (Inr res, h1)" by metis
  have "db_inv (st ?h0)" using assms(1) by simp
  from post_Inr [OF this p] obtain room r b where "acceptable req ?h0 room r" "allowPost (pr_Identity req) ?h0 = (Inr True, ?h0\<lparr>rate := b\<rparr>)"
    by blast
  then show ?thesis by (auto simp: allowPost_def split: prod.splits)
qed

lemma TouchIdentity_messages: "TouchIdentity i pk t d = Inr d' \<Longrightarrow> messages d' = messages d \<and> deliveries d' = deliveries d"
  by (auto simp: TouchIdentity_def newPerson_def Let_def split: if_splits)


text \<open>A hub with its group room, Alice named and Bob in the LXMF group; Alice posts from the page.\<close>

definition town_db :: db where
  "town_db = \<lparr>identities =
      [\<lparr>i_ID = alice, i_PublicKey = None, i_FirstSeen = 10, i_LastSeen = 10, i_LXMFMode = LXMFOn, i_LXMFMine = False, i_Person = 1, i_PersonSince = 10\<rparr>,
       \<lparr>i_ID = bob, i_PublicKey = None, i_FirstSeen = 20, i_LastSeen = 20, i_LXMFMode = LXMFOn, i_LXMFMine = False, i_Person = 2, i_PersonSince = 20\<rparr>],
    people =
      [\<lparr>p_ID = 1, p_CreatedAt = 10, p_Rank = StoredMember, p_RankBy = None, p_RankAt = 0, p_Prefs = DefaultPrefs\<rparr>,
       \<lparr>p_ID = 2, p_CreatedAt = 20, p_Rank = StoredMember, p_RankBy = None, p_RankAt = 0, p_Prefs = DefaultPrefs\<rparr>],
    names = [\<lparr>n_Person = 1, n_Name = ''Alice'', n_Skeleton = ''alice'', n_ClaimedAt = 30\<rparr>],
    rooms = [\<lparr>rm_Name = ''scotmesh'', rm_Topic = ''Hello'', rm_Founder = None, rm_Registered = True, rm_Modes = ''t'', rm_Key = '''',
      rm_CreatedAt = 40, rm_LastUsed = 40\<rparr>],
    room_roles = [], invites = [], messages = [], cursors = [], members = [\<lparr>mb_Identity = bob, mb_JoinedAt = 50, mb_AwayUntil = 0\<rparr>],
    deliveries = [], whisper_deliveries = [], bans = [], audit = [], link_codes = [], whispers = [], ignores = [], meta = []\<rparr>"

lemma town_reach: "store_reach town_db"
proof -
  let ?d = "okE (PutRoom (default_room \<lparr>rc_Name = ''scotmesh'', rc_Topic = ''Hello''\<rparr> 40 None) named_db)"
  have "PutRoom (default_room \<lparr>rc_Name = ''scotmesh'', rc_Topic = ''Hello''\<rparr> 40 None) named_db = Inr ?d" by code_simp
  then have "store_reach ?d" by (rule reach_step [OF named_reach step_PutRoom])
  moreover have "AddMember bob 50 ?d = Inr (True, town_db)" by code_simp
  ultimately show ?thesis by (blast intro: reach_step step_AddMember)
qed

definition town_hub :: hub where
  "town_hub = demo_hub\<lparr>st := town_db\<rparr>"

definition hello :: PostRequest where
  "hello = \<lparr>pr_Via = ViaPage, pr_Identity = alice, pr_Room = '''', pr_Action = False, pr_Body = ''hello '', pr_OriginID = None, pr_SaidAt = 0,
     pr_Ext = None\<rparr>"

lemma hello_eval:
  "case Post hello town_hub of (Inr res, h') \<Rightarrow>
     (po_Duplicate res, m_ID (po_Message res), m_Room (po_Message res), recipients_in h' (m_Author (po_Message res)) (m_Via (po_Message res))) =
       (False, 1, ''scotmesh'', [bob]) | _ \<Rightarrow> False"
  by code_simp

lemma hello_said: "Post hello town_hub = (Inr (projr (fst (Post hello town_hub))), snd (Post hello town_hub))"
  using hello_eval by (auto split: prod.splits sum.splits)

lemma town_inv: "db_inv (st town_hub)"
  using reach_inv [OF town_reach] by (simp add: town_hub_def)

theorem Post_rules_witness:
  "\<not> isl (fst (Post hello town_hub)) \<and> (\<exists>room r. acceptable hello town_hub room r \<and> fst (allowPost alice town_hub) = Inr True)"
proof -
  have "\<not> isl (fst (Post hello town_hub))" by (subst hello_said) simp
  moreover have "pr_Identity hello = alice" by (simp add: hello_def)
  ultimately show ?thesis using Post_rules [OF town_inv hello_said] by simp
qed


end
