(* ===== verification/HubPresence.thy ===== *)
theory HubPresence
  imports HubPosting
begin

text \<open>
  Presence as a contract: a count of links for every room and identity. The actions that follow a commit
  refine operations on the counts (one more, one less, gone), and Join and Part move exactly one count by one.
\<close>

section \<open>The counts\<close>

definition link_count :: "presence_entry list \<Rightarrow> string \<Rightarrow> ident \<Rightarrow> nat" where
  "link_count ps room i = (case presence_at room i ps of None \<Rightarrow> 0 | Some e \<Rightarrow> nat (pe_rrcLinks e))"

text \<open>The abstract actions: what a committed request does to the counts.\<close>

fun count_after :: "After \<Rightarrow> (string \<Rightarrow> ident \<Rightarrow> nat) \<Rightarrow> string \<Rightarrow> ident \<Rightarrow> nat" where
  "count_after (AfterJoin room i name) c = (\<lambda>r j. if r = room \<and> j = i then c r j + 1 else c r j)"
| "count_after (AfterPart room i) c = (\<lambda>r j. if r = room \<and> j = i then c r j - 1 else c r j)"
| "count_after (AfterForget room i) c = (\<lambda>r j. if r = room \<and> j = i then 0 else c r j)"
| "count_after (AfterRename i name) c = c"
| "count_after (AfterLinkIssued k ts) c = c"
| "count_after (AfterLinkFailures key ts) c = c"

lemma presence_at_find: "presence_at room i ps = find (\<lambda>e. pe_key e = (room, hexID i)) ps"
  by (simp add: presence_at_def)

lemma rrcPresent_count: "rrcPresent room i h \<longleftrightarrow> 0 < link_count (presence h) room i"
  by (simp add: rrcPresent_def link_count_def split: option.split)

lemma link_count_Some:
  assumes "presence_ok ps" "find (\<lambda>e. pe_key e = (room, hexID i)) ps = Some e"
  shows "0 < pe_rrcLinks e"
  using assms by (auto simp: presence_ok_def dest!: find_Some_set)

lemma count_join:
  assumes "presence_ok ps"
  shows "link_count (upsert pe_key join_merge \<lparr>pe_Room = room, pe_identity = i, pe_name = n, pe_rrcLinks = 1\<rparr> ps) r j =
    (if r = room \<and> j = i then link_count ps r j + 1 else link_count ps r j)"
proof -
  let ?e = "\<lparr>pe_Room = room, pe_identity = i, pe_name = n, pe_rrcLinks = 1\<rparr>"
  have key: "pe_key ?e = (room, hexID i)" by (simp add: pe_key_def)
  have "nat (pe_rrcLinks e + 1) = nat (pe_rrcLinks e) + 1" if "find (\<lambda>e. pe_key e = (room, hexID i)) ps = Some e" for e
    using link_count_Some [OF assms that] by simp
  then show ?thesis
    using pt.upsert_lookup_same [of ?e ps] pt.upsert_lookup_other [of "(r, hexID j)" ?e ps]
    by (auto simp: link_count_def presence_at_def key join_merge_def split: option.splits)
qed

lemma find_part:
  assumes "distinct (map pe_key ps)"
  shows "find (\<lambda>e. pe_key e = k) (part_presence room i ps) =
    (case find (\<lambda>e. pe_key e = k) ps of None \<Rightarrow> None
     | Some e \<Rightarrow> if k \<noteq> (room, hexID i) then Some e else if pe_rrcLinks e \<le> 1 then None else Some (e\<lparr>pe_rrcLinks := pe_rrcLinks e - 1\<rparr>))"
  using assms
proof (induction ps)
  case (Cons e ps)
  have gone: "find (\<lambda>e. pe_key e = k) ps = None" if "pe_key e = k"
    using Cons.prems that by (force simp: find_None_set image_iff)
  show ?case using Cons gone by (auto simp: part_presence_def delete_where_def update_where_def split: option.splits)
qed (simp add: part_presence_def delete_where_def update_where_def)

lemma find_forget:
  "find (\<lambda>e. pe_key e = k) (delete_where (\<lambda>e. pe_key e = k') ps) = (if k = k' then None else find (\<lambda>e. pe_key e = k) ps)"
  by (induction ps) (auto simp: delete_where_def)

lemma find_rename:
  "find (\<lambda>e. pe_key e = k) (renamePresence i name ps) =
    map_option (\<lambda>e. if hexID (pe_identity e) = hexID i then e\<lparr>pe_name := name\<rparr> else e) (find (\<lambda>e. pe_key e = k) ps)"
  by (induction ps) (auto simp: renamePresence_def update_where_def)

lemma run_after_count:
  assumes "presence_ok (presence h)"
  shows "link_count (presence (run_after a h)) = count_after a (link_count (presence h))"
proof (cases a)
  case (AfterJoin room i name)
  then show ?thesis using count_join [OF assms] by (auto simp: run_after_def fun_eq_iff)
next
  case (AfterPart room i)
  show ?thesis using assms link_count_Some [OF assms]
    by (auto simp: AfterPart run_after_def fun_eq_iff link_count_def presence_at_def find_part presence_ok_def split: option.splits)
next
  case (AfterForget room i)
  then show ?thesis by (auto simp: run_after_def fun_eq_iff link_count_def presence_at_def find_forget)
next
  case (AfterRename i name)
  then show ?thesis by (auto simp: run_after_def fun_eq_iff link_count_def presence_at_def find_rename split: option.split)
qed (simp_all add: run_after_def)

lemma run_afters_count:
  "presence_ok (presence h) \<Longrightarrow> link_count (presence (fold run_after fs h)) = fold count_after fs (link_count (presence h))"
  by (induction fs arbitrary: h) (simp_all add: run_after_count run_after_inv)

section \<open>What Join and Part queue\<close>

text \<open>Handlers that queue no action of their own.\<close>

definition queued :: "After list \<Rightarrow> hub \<Rightarrow> bool" where
  "queued fs h \<longleftrightarrow> out_after h = fs"

lemma queued_keeps [hub_keeps]:
  "keeps (queued fs) (exec w)" "keeps (queued fs) (exec' w')" "keeps (queued fs) (execR wr)" "keeps (queued fs) (execR' wr')"
  "keeps (queued fs) (emit e)"
  by (auto simp: keeps_def queued_def exec_def exec'_def execR_def execR'_def emit_def modify_def split: sum.splits prod.splits)

lemma queued_people [hub_keeps]:
  "keeps (queued fs) (touch i)" "keeps (queued fs) (person i)" "keeps (queued fs) (displayName i)" "keeps (queued fs) (lxmfPaused mode i)"
  "keeps (queued fs) (personOnRRC i room except)" "keeps (queued fs) (autoPauseChanged i paused)"
  unfolding touch_def person_def displayName_def lxmfPaused_def personOnRRC_def identitiesOf_def autoPauseChanged_def lxmfPauseChanged_def
    mark_lxmf_cursor_def by (intro hub_keeps | simp split: LXMFMode.split)+

lemma queued_add_group [hub_keeps]: "keeps (queued fs) (add_group gs ms)"
  by (induction gs arbitrary: ms) (auto simp: add_group_member_def intro!: hub_keeps)

lemma queued_rooms [hub_keeps]:
  "keeps (queued fs) (membersAfterJoin room i name)" "keeps (queued fs) (first_link i room name)" "keeps (queued fs) (last_link i room name)"
  unfolding membersAfterJoin_def hub_members_def first_link_def catchUp_def last_link_def forgetEmptyRoom_def by (intro hub_keeps)+

lemma queuedD: "(\<And>fs. keeps (queued fs) m) \<Longrightarrow> m h = (r, h') \<Longrightarrow> out_after h' = out_after h"
  using keepsD [of "queued (out_after h)" m h r h'] by (simp add: queued_def)

lemma queued_Join [hub_keeps]:
  "keeps (queued fs) (if already then ret x else first_link i room name)" "keeps (queued fs) (if b then exec' w else ret ())"
  by (intro hub_keeps)+

definition may_enter :: "hub \<Rightarrow> room \<Rightarrow> ident \<Rightarrow> string \<Rightarrow> bool" where
  "may_enter h r i key \<longleftrightarrow> runs_room (cfg h) (st h) r i \<or> InviteValid (rm_Name r) i (nowMS h) (st h) \<or>
     (\<not> HasMode r (CHR ''i'') \<and> (rm_Key r = '''' \<or> key = rm_Key r))"

lemma join_checks_Inr:
  "db_inv (st h) \<Longrightarrow> join_checks r i key h = (Inr b, h') \<Longrightarrow> h' = h \<and> may_enter h r i key"
  by (auto simp: join_checks_def may_enter_def isRoomOp_run bnd_def asks_def query_def refuse_def thr_def ret_def split: if_splits)

lemma enter_room_Inr:
  assumes run: "enter_room room i r invited already h = (Inr res, h')"
  shows "\<exists>name. out_after h' = out_after h @ [AfterJoin room i name] \<and> js_FirstLink res = (\<not> already)"
proof -
  from run obtain h1 h2 h3 name h4 a h5 h6 ms where s: "touch i h = (Inr (), h1)" "exec (PutRoom r) h1 = (Inr (), h2)"
    "(if invited then exec' (DeleteInvite room i) else ret ()) h2 = (Inr (), h3)" "displayName i h3 = (Inr name, h4)"
    "(if already then ret ([], '''', 0) else first_link i room name) h4 = (Inr a, h5)"
    "after (AfterJoin room i name) h5 = (Inr (), h6)" "membersAfterJoin room i name h6 = (Inr ms, h')" "js_FirstLink res = (\<not> already)"
    unfolding enter_room_def seq_Inr_iff bnd_Inr_iff by (auto simp: bnd_Inr_iff seq_Inr_iff ret_def split: prod.splits)
  have "out_after h' = out_after h6" by (rule queuedD [of "membersAfterJoin room i name", OF _ s(7)]) (intro hub_keeps)
  also have "\<dots> = out_after h5 @ [AfterJoin room i name]" using s(6) by (auto simp: after_def modify_def)
  also have "out_after h5 = out_after h4" by (rule queuedD [of "if already then ret ([], [], 0) else first_link i room name", OF _ s(5)]) (intro hub_keeps)
  also have "\<dots> = out_after h3" by (rule queuedD [of "displayName i", OF _ s(4)]) (intro hub_keeps)
  also have "\<dots> = out_after h2" by (rule queuedD [of "if invited then exec' (DeleteInvite room i) else ret ()", OF _ s(3)]) (intro hub_keeps)
  also have "\<dots> = out_after h1" by (rule queuedD [of "exec (PutRoom r)", OF _ s(2)]) (intro hub_keeps)
  also have "\<dots> = out_after h" by (rule queuedD [of "touch i", OF _ s(1)]) (intro hub_keeps)
  finally show ?thesis using s(8) by blast
qed

lemma join_room_Inr:
  assumes inv: "db_inv (st h)" and run: "join_room room req already h = (Inr res, h')"
  shows "(\<forall>r. Room room (st h) = Some r \<longrightarrow> may_enter h r (jr_Identity req) (jr_Key req)) \<and> \<not> HasRole room (jr_Identity req) RoleBan (st h) \<and>
    (\<exists>name. out_after h' = out_after h @ [AfterJoin room (jr_Identity req) name]) \<and> js_FirstLink res = (\<not> already)"
proof -
  let ?i = "jr_Identity req"
  from run obtain invited h1 h2 r where c: "(case Room room (st h) of None \<Rightarrow> ret False | Some r \<Rightarrow> join_checks r ?i (jr_Key req)) h = (Inr invited, h1)"
    and ban: "checkRoomBan room ?i h1 = (Inr (), h2)" and enter: "enter_room room ?i r invited already h2 = (Inr res, h')"
    unfolding join_room_def Let_def bnd_Inr_iff seq_Inr_iff by (auto simp: asks_def query_def)
  have h1: "h1 = h" and ok: "\<forall>r. Room room (st h) = Some r \<longrightarrow> may_enter h r ?i (jr_Key req)"
    using c join_checks_Inr [OF inv] by (auto simp: ret_def split: option.splits)
  have "\<not> HasRole room ?i RoleBan (st h)" "h2 = h" using ban by (auto simp: h1 checkRoomBan_run split: if_splits)
  with ok enter_room_Inr [OF enter] show ?thesis by blast
qed

lemma join_Inr:
  assumes inv: "db_inv (st h)" and run: "join req h = (Inr res, h')"
  obtains room name where "NormalizeRoom (ulower (env h)) (jr_Room req) (MaxRoomNameBytes (cfg h)) = Inr room"
    "\<not> IsBanned (jr_Identity req) (st h)" "\<not> HasRole room (jr_Identity req) RoleBan (st h)"
    "rrcPresent room (jr_Identity req) h \<or> int (length (roomsOf (jr_Identity req) h)) < MaxRoomsPerPerson (cfg h)"
    "\<forall>r. Room room (st h) = Some r \<longrightarrow> may_enter h r (jr_Identity req) (jr_Key req)"
    "out_after h' = out_after h @ [AfterJoin room (jr_Identity req) name]" "js_FirstLink res = (\<not> rrcPresent room (jr_Identity req) h)"
proof -
  let ?i = "jr_Identity req"
  from run obtain room where room: "NormalizeRoom (ulower (env h)) (jr_Room req) (MaxRoomNameBytes (cfg h)) = Inr room"
    by (auto simp: join_def Let_def bnd_Inr_iff normRoom_run refuse_def thr_def split: if_splits sum.splits)
  have nb: "\<not> IsBanned ?i (st h)" and fits: "rrcPresent room ?i h \<or> int (length (roomsOf ?i h)) < MaxRoomsPerPerson (cfg h)"
    and jr: "join_room room req (rrcPresent room ?i h) h = (Inr res, h')"
    using run room by (auto simp: join_def Let_def bnd_Inr_iff seq_Inr_iff normRoom_run checkHubBan_run asks_def refuse_def thr_def split: if_splits)
  from join_room_Inr [OF inv jr] that [OF room nb] fits show thesis by blast
qed

lemma Join_count:
  assumes inv: "hub_inv h" and run: "Join_request req h = (Inr res, h')"
  shows "\<exists>room name. NormalizeRoom (ulower (env h)) (jr_Room req) (MaxRoomNameBytes (cfg h)) = Inr room \<and>
    \<not> IsBanned (jr_Identity req) (st h) \<and> \<not> HasRole room (jr_Identity req) RoleBan (st h) \<and>
    (\<forall>r. Room room (st h) = Some r \<longrightarrow> may_enter h r (jr_Identity req) (jr_Key req)) \<and>
    (link_count (presence h) room (jr_Identity req) = 0 \<longrightarrow> int (length (roomsOf (jr_Identity req) h)) < MaxRoomsPerPerson (cfg h)) \<and>
    js_FirstLink res = (link_count (presence h) room (jr_Identity req) = 0) \<and>
    link_count (presence h') = count_after (AfterJoin room (jr_Identity req) name) (link_count (presence h))"
proof -
  let ?h0 = "h\<lparr>out_events := [], out_after := []\<rparr>"
  from run have "update (join req) h = (Inr res, h')" by (simp add: Join_request_def)
  then obtain h1 where j: "join req ?h0 = (Inr res, h1)" and ps: "presence h' = presence (fold run_after (out_after h1) h1)" by (rule update_Inr)
  have inv0: "db_inv (st ?h0)" and ok: "presence_ok (presence h)" using inv by (simp_all add: hub_inv_def)
  have "handler (join req)" by (intro handlerI hub_keeps)
  then have p1: "presence h1 = presence h" using handler_frame [of "join req", OF _ inv0 j] by simp
  from join_Inr [OF inv0 j] obtain room name where facts: "NormalizeRoom (ulower (env h)) (jr_Room req) (MaxRoomNameBytes (cfg h)) = Inr room"
    "\<not> IsBanned (jr_Identity req) (st h)" "\<not> HasRole room (jr_Identity req) RoleBan (st h)"
    "rrcPresent room (jr_Identity req) h \<or> int (length (roomsOf (jr_Identity req) h)) < MaxRoomsPerPerson (cfg h)"
    "\<forall>r. Room room (st h) = Some r \<longrightarrow> may_enter h r (jr_Identity req) (jr_Key req)"
    "out_after h1 = [AfterJoin room (jr_Identity req) name]" "js_FirstLink res = (\<not> rrcPresent room (jr_Identity req) h)"
    by (auto simp: rrcPresent_def roomsOf_def may_enter_def nowMS_def)
  have "link_count (presence h') = count_after (AfterJoin room (jr_Identity req) name) (link_count (presence h))"
    using run_afters_count [of h1 "out_after h1"] ok by (simp add: ps facts(6) p1)
  with facts show ?thesis by (auto simp: rrcPresent_count)
qed

text \<open>
  C8. Joining a room refines taking one link: a successful Join came from someone not banned from the hub or the
  room and allowed in (an invite-only or keyed room takes its operators, the invited, or the right key), within
  the cap on rooms, and it raises the count of that identity in that room by one and no other count; it says
  first link exactly when the count was zero.
\<close>

theorem Join_takes_one_link:
  assumes inv: "hub_inv h" and run: "Join_request req h = (Inr res, h')"
  shows "\<exists>room name. NormalizeRoom (ulower (env h)) (jr_Room req) (MaxRoomNameBytes (cfg h)) = Inr room \<and>
    \<not> IsBanned (jr_Identity req) (st h) \<and> \<not> HasRole room (jr_Identity req) RoleBan (st h) \<and>
    (\<forall>r. Room room (st h) = Some r \<longrightarrow> may_enter h r (jr_Identity req) (jr_Key req)) \<and>
    (link_count (presence h) room (jr_Identity req) = 0 \<longrightarrow> int (length (roomsOf (jr_Identity req) h)) < MaxRoomsPerPerson (cfg h)) \<and>
    js_FirstLink res = (link_count (presence h) room (jr_Identity req) = 0) \<and>
    link_count (presence h') = count_after (AfterJoin room (jr_Identity req) name) (link_count (presence h))"
  using assms by (rule Join_count)

lemma part_Inr:
  assumes ok: "presence_ok (presence h)" and run: "part i room h = (Inr (), h')"
  shows "out_after h' = out_after h @ (if 0 < link_count (presence h) room i then [AfterPart room i] else [])"
proof (cases "presence_at room i (presence h)")
  case None
  with run show ?thesis by (auto simp: part_def bnd_def asks_def ret_def link_count_def)
next
  case (Some e)
  then have pos: "0 < pe_rrcLinks e" using link_count_Some [OF ok] by (simp add: presence_at_def)
  let ?m = "if pe_rrcLinks e = 1 then last_link i room (pe_name e) else ret ()"
  from run Some pos obtain h1 where m: "?m h = (Inr (), h1)" and a: "after (AfterPart room i) h1 = (Inr (), h')"
    by (auto simp: part_def bnd_def asks_def seq_Inr_iff)
  have "out_after h1 = out_after h" by (rule queuedD [of ?m, OF _ m]) (intro hub_keeps)
  with a Some pos show ?thesis by (auto simp: after_def modify_def link_count_def)
qed

lemma Part_count:
  assumes inv: "hub_inv h" and run: "Part i room h = (Inr r, h')"
  shows "NormalizeRoom (ulower (env h)) room (MaxRoomNameBytes (cfg h)) = Inr r \<and>
    link_count (presence h') = count_after (AfterPart r i) (link_count (presence h))"
proof -
  let ?h0 = "h\<lparr>out_events := [], out_after := []\<rparr>" and ?m = "if room = '''' then refuse ''PART requires room name'' else bnd (normRoom room) (\<lambda>r. seq (part i r) (ret r))"
  from run have "update ?m h = (Inr r, h')" by (simp add: Part_def)
  then obtain h1 where m: "?m ?h0 = (Inr r, h1)" and ps: "presence h' = presence (fold run_after (out_after h1) h1)" by (rule update_Inr)
  have inv0: "db_inv (st ?h0)" and ok: "presence_ok (presence h)" using inv by (simp_all add: hub_inv_def)
  have "handler ?m" by (intro handlerI hub_keeps)
  then have p1: "presence h1 = presence h" using handler_frame [of ?m, OF _ inv0 m] by simp
  have n: "NormalizeRoom (ulower (env h)) room (MaxRoomNameBytes (cfg h)) = Inr r" and pt: "part i r ?h0 = (Inr (), h1)"
    using m by (auto simp: bnd_Inr_iff seq_Inr_iff normRoom_run refuse_def thr_def ret_def split: if_splits sum.splits)
  have "out_after h1 = (if 0 < link_count (presence h) r i then [AfterPart r i] else [])"
    using part_Inr [OF _ pt] ok by simp
  then have "link_count (presence h') = count_after (AfterPart r i) (link_count (presence h))"
    using run_afters_count [of h1 "out_after h1"] ok by (auto simp: ps p1 fun_eq_iff)
  with n show ?thesis by blast
qed

text \<open>
  C18. Leaving gives back exactly what joining took: Part lowers the count of that identity in that room by one
  and no other, a Part of a room one is not in changes no count, and a Join followed by the Part of the same
  room leaves every count, so everybody's presence, as it was.
\<close>

theorem Part_gives_back:
  assumes "hub_inv h"
  shows "(\<forall>r h'. Part i room h = (Inr r, h') \<longrightarrow> NormalizeRoom (ulower (env h)) room (MaxRoomNameBytes (cfg h)) = Inr r \<and>
      link_count (presence h') = count_after (AfterPart r i) (link_count (presence h))) \<and>
    (\<forall>key res h1 r h2. Join_request \<lparr>jr_Identity = i, jr_Room = room, jr_Key = key\<rparr> h = (Inr res, h1) \<longrightarrow> Part i room h1 = (Inr r, h2) \<longrightarrow>
      link_count (presence h2) = link_count (presence h))"
proof (intro conjI allI impI)
  fix key res h1 r h2
  let ?req = "\<lparr>jr_Identity = i, jr_Room = room, jr_Key = key\<rparr>"
  assume j: "Join_request ?req h = (Inr res, h1)" and p: "Part i room h1 = (Inr r, h2)"
  have "handler (join ?req)" by (intro handlerI hub_keeps)
  moreover have "update (join ?req) h = (Inr res, h1)" using j by (simp add: Join_request_def)
  ultimately have h1: "hub_inv h1" "cfg h1 = cfg h" "env h1 = env h" using update_hub_inv [OF _ assms] by blast+
  obtain rm name where a: "NormalizeRoom (ulower (env h)) room (MaxRoomNameBytes (cfg h)) = Inr rm"
    and b: "link_count (presence h1) = count_after (AfterJoin rm i name) (link_count (presence h))"
    using Join_count [OF assms j] by auto
  from Part_count [OF h1(1) p] a h1(2,3) have "r = rm" "link_count (presence h2) = count_after (AfterPart r i) (link_count (presence h1))" by auto
  then show "link_count (presence h2) = link_count (presence h)" by (auto simp: b fun_eq_iff)
qed (use Part_count [OF assms] in blast)+

definition walk_in :: JoinRequest where
  "walk_in = \<lparr>jr_Identity = alice, jr_Room = ''#ScotMesh'', jr_Key = ''''\<rparr>"

lemma town_hub_inv: "hub_inv town_hub"
  using town_inv demo_hub_inv by (simp add: hub_inv_def town_hub_def)

lemma walk_in_eval:
  "case Join_request walk_in town_hub of (Inr res, h1) \<Rightarrow> (case Part alice ''#ScotMesh'' h1 of (Inr r, h2) \<Rightarrow>
     (js_FirstLink res, link_count (presence h1) ''scotmesh'' alice, r) = (True, 1, ''scotmesh'') | _ \<Rightarrow> False) | _ \<Rightarrow> False"
  by code_simp

lemma walk_in_runs:
  obtains res h1 r h2 where "Join_request walk_in town_hub = (Inr res, h1)" "Part alice ''#ScotMesh'' h1 = (Inr r, h2)" "js_FirstLink res"
    "link_count (presence h1) ''scotmesh'' alice = 1"
proof -
  obtain q h1 where j: "Join_request walk_in town_hub = (q, h1)" by force
  with walk_in_eval obtain res where q: "q = Inr res" by (cases q) auto
  obtain q' h2 where p: "Part alice ''#ScotMesh'' h1 = (q', h2)" by force
  with walk_in_eval j q that show thesis by (cases q') auto
qed

theorem Join_takes_one_link_witness:
  "\<exists>res h'. Join_request walk_in town_hub = (Inr res, h') \<and> js_FirstLink res \<and> link_count (presence town_hub) ''scotmesh'' alice = 0 \<and>
    link_count (presence h') ''scotmesh'' alice = 1"
proof -
  obtain res h1 where j: "Join_request walk_in town_hub = (Inr res, h1)" and e: "js_FirstLink res" "link_count (presence h1) ''scotmesh'' alice = 1"
    by (rule walk_in_runs)
  have "NormalizeRoom (ulower (env town_hub)) (jr_Room walk_in) (MaxRoomNameBytes (cfg town_hub)) = Inr ''scotmesh''" by code_simp
  moreover have "jr_Identity walk_in = alice" by (simp add: walk_in_def)
  ultimately show ?thesis using Join_takes_one_link [OF town_hub_inv j] j e by auto
qed

theorem Part_gives_back_witness:
  "\<exists>res h1 r h2. Join_request walk_in town_hub = (Inr res, h1) \<and> Part alice ''#ScotMesh'' h1 = (Inr r, h2) \<and>
    link_count (presence h1) ''scotmesh'' alice = 1 \<and> link_count (presence h2) = link_count (presence town_hub)"
proof -
  obtain res h1 r h2 where j: "Join_request walk_in town_hub = (Inr res, h1)" and p: "Part alice ''#ScotMesh'' h1 = (Inr r, h2)"
    and e: "link_count (presence h1) ''scotmesh'' alice = 1"
    by (rule walk_in_runs)
  with Part_gives_back [OF town_hub_inv, of alice "''#ScotMesh''"] show ?thesis unfolding walk_in_def by blast
qed

section \<open>Catching up\<close>

definition missed_by :: "cursor_row \<Rightarrow> string \<Rightarrow> db \<Rightarrow> message list" where
  "missed_by c room d = filter (\<lambda>m. m_Room m = room \<and> c_MessageID c < m_ID m) (messages d)"

lemma filter_split_sorted:
  assumes "sorted_wrt (<) (map key xs)"
  shows "filter P xs = filter (\<lambda>x. P x \<and> key x \<le> (k :: int)) xs @ filter (\<lambda>x. P x \<and> k < key x) xs"
  using assms
proof (induction xs)
  case (Cons x xs)
  have "k < key x \<Longrightarrow> filter (\<lambda>x. P x \<and> key x \<le> k) xs = []" using Cons.prems by (auto simp: filter_empty_conv)
  then show ?case using Cons by (auto simp: not_le)
qed simp

lemma LatestMessages_all:
  assumes "inv_messages d" "\<forall>m\<in>set (messages d). m_ID m < 2 ^ 63 - 1" "0 \<le> n"
  shows "LatestMessages room 0 n d = (let ms = filter (\<lambda>m. m_Room m = room) (messages d) in drop (length ms - nat n) ms)"
proof -
  have "filter (\<lambda>m. m_Room m = room \<and> m_ID m < 2 ^ 63 - 1) (messages d) = filter (\<lambda>m. m_Room m = room) (messages d)"
    using assms(2) by (intro filter_cong) auto
  then show ?thesis using assms(1,3) by (simp add: LatestMessages_def limit_rows_def sort_key_messages rev_take Let_def)
qed

lemma LatestMessages_missed:
  assumes "inv_messages d" "\<forall>m\<in>set (messages d). m_ID m < 2 ^ 63 - 1" "0 \<le> n" "n \<le> int (length (missed_by c room d))"
  shows "LatestMessages room 0 n d = drop (length (missed_by c room d) - nat n) (missed_by c room d)"
proof -
  let ?old = "filter (\<lambda>m. m_Room m = room \<and> m_ID m \<le> c_MessageID c) (messages d)"
  have "sorted_wrt (<) (map m_ID (messages d))" using assms(1) by (simp add: inv_messages_def)
  then have "filter (\<lambda>m. m_Room m = room) (messages d) = ?old @ missed_by c room d"
    unfolding missed_by_def by (rule filter_split_sorted)
  then show ?thesis using assms(4) by (simp add: LatestMessages_all [OF assms(1-3)] Let_def)
qed

text \<open>
  C19. Coming back to a room replays what was missed and nothing else: with a cursor from an earlier visit the
  replay is the end of the messages after it, all of them if there are at most ReplayMax, so no message is
  repeated and none in between is skipped; on a first visit it is the room's latest messages, at most
  ReplayFirstVisit of them.
\<close>

theorem catchUp_exact:
  assumes inv: "db_inv (st h)" and ids: "\<forall>m\<in>set (messages (st h)). m_ID m < 2 ^ 63 - 1"
    and pos: "0 \<le> ReplayMax (cfg h)" "0 \<le> ReplayFirstVisit (cfg h)"
  shows "\<exists>note. catchUp i room h = (Inr (case Cursor i room ViaRRC (st h) of
      None \<Rightarrow> let ms = filter (\<lambda>m. m_Room m = room) (messages (st h)) in drop (length ms - nat (ReplayFirstVisit (cfg h))) ms
    | Some c \<Rightarrow> let ms = missed_by c room (st h) in drop (length ms - nat (ReplayMax (cfg h))) ms, note), h)"
proof (cases "Cursor i room ViaRRC (st h)")
  case None
  have "inv_messages (st h)" using inv by (simp add: db_inv_def)
  from LatestMessages_all [OF this ids pos(2)] show ?thesis
    by (auto simp: catchUp_def None bnd_def asks_def query_def ret_def Let_def)
next
  case (Some c)
  let ?ms = "missed_by c room (st h)"
  have im: "inv_messages (st h)" using inv by (simp add: db_inv_def)
  have n: "CountAfter room (c_MessageID c) (st h) = length ?ms" by (simp add: CountAfter_def rows_where_def missed_by_def)
  have all: "MessagesAfter room (c_MessageID c) (int (length ?ms)) (st h) = ?ms"
    using MessagesAfter_all [OF im, of room "c_MessageID c"] by (simp add: n missed_by_def)
  have many: "LatestMessages room 0 (ReplayMax (cfg h)) (st h) = drop (length ?ms - nat (ReplayMax (cfg h))) ?ms" if "ReplayMax (cfg h) < int (length ?ms)"
    using LatestMessages_missed [OF im ids pos(1)] that by simp
  show ?thesis using all many by (auto simp: catchUp_def Some n bnd_def asks_def query_def ret_def Let_def)
qed

definition spoken_db :: db where
  "spoken_db = town_db\<lparr>messages := [no_message\<lparr>m_ID := 1, m_Room := ''scotmesh'', m_Author := bob, m_Body := ''one''\<rparr>,
       no_message\<lparr>m_ID := 2, m_Room := ''scotmesh'', m_Author := bob, m_Body := ''two''\<rparr>],
     cursors := [\<lparr>c_Identity = alice, c_Room = ''scotmesh'', c_Via = ViaRRC, c_MessageID = 1, c_UpdatedAt = 60\<rparr>]\<rparr>"

theorem catchUp_exact_witness:
  "\<exists>note. catchUp alice ''scotmesh'' (town_hub\<lparr>st := spoken_db\<rparr>) =
    (Inr ([no_message\<lparr>m_ID := 2, m_Room := ''scotmesh'', m_Author := bob, m_Body := ''two''\<rparr>], note), town_hub\<lparr>st := spoken_db\<rparr>)"
proof -
  let ?h = "town_hub\<lparr>st := spoken_db\<rparr>"
  have "db_inv (st ?h)" using town_inv
    by (simp add: town_hub_def spoken_db_def db_inv_def inv_defs no_message_def bob_def cursor_key_def)
  moreover have "\<forall>m\<in>set (messages (st ?h)). m_ID m < 2 ^ 63 - 1" by (simp add: spoken_db_def no_message_def)
  moreover have "0 \<le> ReplayMax (cfg ?h)" "0 \<le> ReplayFirstVisit (cfg ?h)" by (simp_all add: town_hub_def demo_hub_def Defaults_def)
  moreover have "(case Cursor alice ''scotmesh'' ViaRRC (st ?h) of
      None \<Rightarrow> [] | Some c \<Rightarrow> let ms = missed_by c ''scotmesh'' (st ?h) in drop (length ms - nat (ReplayMax (cfg ?h))) ms) =
    [no_message\<lparr>m_ID := 2, m_Room := ''scotmesh'', m_Author := bob, m_Body := ''two''\<rparr>]" "Cursor alice ''scotmesh'' ViaRRC (st ?h) \<noteq> None" by code_simp+
  ultimately show ?thesis using catchUp_exact [of ?h alice "''scotmesh''"] by auto
qed

end
