(* ===== verification/HubOwners.thy ===== *)
theory HubOwners
  imports HubPresence
begin

text \<open>
  The owners named in the configuration file are out of everyone's reach: whatever is typed, an owner's
  identity never gets onto the ban list.
\<close>

definition spares :: "ident list \<Rightarrow> hub \<Rightarrow> bool" where
  "spares A h \<longleftrightarrow> db_inv (st h) \<and> Admins (cfg h) = A \<and> (\<forall>i\<in>set A. \<not> IsBanned i (st h))"

interpretation spare: plain_handler "spares A" for A
proof unfold_locales
  fix h d assume "spares A h" "db_inv d" "calm (st h) d"
  then show "spares A (h\<lparr>st := d\<rparr>)" by (auto simp: spares_def calm_def)
qed (auto simp: spares_def)

lemma spares_AddMember: "keeps (spares A) (execR (AddMember i t))"
proof (rule keepsI)
  fix h assume h: "spares A h"
  show "spares A (snd (execR (AddMember i t) h))"
  proof (cases "AddMember i t (st h)")
    case (Inr bd)
    obtain b d where d: "AddMember i t (st h) = Inr (b, d)" using Inr by (cases bd) simp
    have "bans d = bans (st h)" using AddMember_who [OF d] by blast
    moreover have "db_inv d" using AddMember_inv [OF _ d] h by (simp add: spares_def)
    ultimately show ?thesis using h d by (simp add: execR_def spares_def IsBanned_def)
  qed (use h in \<open>simp add: execR_def\<close>)
qed

lemma spares_after: "keeps (spares A) (after a)"
  by (simp add: keeps_def after_def modify_def spares_def)

lemma spares_AddBan: "b_Identity b \<notin> set A \<Longrightarrow> keeps (spares A) (exec (AddBan b))"
proof (rule keepsI)
  fix h assume b: "b_Identity b \<notin> set A" and h: "spares A h"
  show "spares A (snd (exec (AddBan b) h))"
  proof (cases "AddBan b (st h)")
    case (Inr d)
    then show ?thesis using h b AddBan_who [OF Inr] AddBan_inv [OF _ Inr] by (auto simp: exec_def spares_def)
  qed (use h in \<open>simp add: exec_def\<close>)
qed

section \<open>Nobody may ban an owner\<close>

lemma person_owner:
  assumes "person_db as i d = Inr p"
  shows "ps_PersonRank p = RankOwner \<longleftrightarrow> (\<exists>j\<in>set (ps_Identities p). j \<in> set as)"
proof -
  have base: "identityRank as i StoredMember False = RankOwner \<longleftrightarrow> i \<in> set as" by (simp add: identityRank_def isOwner_def rankOf_def)
  show ?thesis using assms personRank_owner base
    by (auto simp: person_db_def with_person_def base_person_def Let_def simp del: set_PersonIdentities split: option.splits)
qed

lemma ban_target_no_owner:
  assumes h: "spares A h" and run: "targetPerson c token ActBan h = (Inr (Some t), h')"
  shows "\<forall>i\<in>set (ps_Identities t). i \<notin> set A"
proof -
  from run obtain i h1 h2 where r: "resolveOrFail token h = (Inr (Some i), h1)" and p: "person i h1 = (Inr t, h2)" and m: "may (cm_me c) ActBan (Some t) = Inr ()"
    by (auto simp: targetPerson_def bnd_Inr_iff seq_Inr_iff ret_def split: option.splits sum.splits) (metis old.unit.exhaust sum.exhaust)+
  have "keeps (spares A) (resolveOrFail token)" by (rule hub_keeps)
  then have "spares A h1" using h r by (rule keepsD)
  then have "person_db A i (st h1) = Inr t" using p by (auto simp: person_def spares_def bnd_def asks_def queryE_def)
  moreover have "ps_PersonRank t < RankOwner" using may_allowed [OF m] by (auto simp: hasTarget_def self_actions_def split: if_splits)
  ultimately show ?thesis using person_owner by (metis less_irrefl)
qed

lemma spares_ban_person:
  assumes "\<forall>i\<in>set (ps_Identities t). i \<notin> set A"
  shows "keeps (spares A) (ban_person c t reason expires until)"
proof -
  have "keeps (spares A) (each (\<lambda>i. exec (AddBan \<lparr>b_Identity = i, b_Name = ps_Name t, b_Reason = reason, b_BannedBy = Some (cm_Identity c),
      b_BannedAt = ms, b_ExpiresAt = expires\<rparr>)) (ps_Identities t))" for ms
    using assms by (intro keeps_each_set spares_AddBan) simp
  note bans = this
  show ?thesis unfolding ban_person_def Let_def by (rule keeps_bnd, rule hub_keeps, rule keeps_prod, rule keeps_seq, rule bans) (intro hub_keeps)
qed

lemma keeps_bnd_when:
  assumes "keeps P m" "\<And>h a h'. P h \<Longrightarrow> m h = (Inr a, h') \<Longrightarrow> keeps P (f a)"
  shows "keeps P (bnd m f)"
proof (rule keepsI)
  fix h assume h: "P h"
  obtain r h' where m: "m h = (r, h')" by force
  have "P h'" using assms(1) h m by (rule keepsD)
  then show "P (snd (bnd m f h))" using assms(2) [OF h] m by (cases r) (auto simp: bnd_def keeps_def)
qed

lemma spares_cmdBan: "keeps (spares A) (cmdBan c args)"
proof (cases args)
  case (Cons a rest)
  have "keeps (spares A) (case t of None \<Rightarrow> ret () | Some target \<Rightarrow> bnd (asks (\<lambda>h. ban_length (ulower (env h)) rest)) (\<lambda>(length_ns, rest).
      bnd (ban_until length_ns) (\<lambda>(expires, until). ban_person c target (Join rest '' '') expires until)))"
    if "spares A h" "targetPerson c a ActBan h = (Inr t, h')" for h t h'
  proof (cases t)
    case (Some target)
    with that ban_target_no_owner have "\<forall>i\<in>set (ps_Identities target). i \<notin> set A" by blast
    then show ?thesis unfolding Some ban_until_def by (auto intro!: hub_keeps spares_ban_person)
  qed (simp add: hub_keeps)
  note target = this
  show ?thesis unfolding cmdBan_def Cons list.case
  proof (rule keeps_bnd_when)
    show "keeps (spares A) (targetPerson c a ActBan)" by (rule hub_keeps)
  qed (rule target)
qed (simp add: cmdBan_def hub_keeps)

lemma spares_run_command: "keeps (spares A) (run_command code r c args)"
proof (cases "r \<in> {RunJoin, RunBan, RunKline}")
  case True
  have "keeps (spares A) (cmdJoin c args)" by (intro spare.cmdJoin_keeps_if spare.joinGroup_keeps_if spares_AddMember)
  with True show ?thesis using spares_cmdBan spare.cmdKline_keeps_if [OF spares_cmdBan] by (auto simp: run_command_def)
qed (rule spare.run_command_keeps_plain)

lemma spares_command: "keeps (spares A) (command_hm code req)"
  unfolding command_hm_def run_def_def Let_def by (intro hub_keeps spares_run_command)

section \<open>In every history\<close>

lemma run_after_spares [simp]: "spares A (fold run_after fs h) = spares A h"
  by (simp add: spares_def)

lemma update_spares: "keeps (spares A) m \<Longrightarrow> spares A h \<Longrightarrow> update m h = (r, h') \<Longrightarrow> spares A h'"
proof -
  let ?h0 = "h\<lparr>out_events := [], out_after := []\<rparr>"
  assume m: "keeps (spares A) m" and h: "spares A h" and u: "update m h = (r, h')"
  obtain q h1 where run: "m ?h0 = (q, h1)" by force
  have "spares A ?h0" using h by (simp add: spares_def)
  then have h1: "spares A h1" using m run by (metis keepsD)
  then have "spares A (fold run_after (out_after h1) h1)" by simp
  with u run h h1 show "spares A h'"
    by (cases q) (auto simp: update_def count_internal_def publish_def spares_def split: if_splits)
qed

lemma with_reply_spares: "keeps (spares A) m \<Longrightarrow> spares A h \<Longrightarrow> with_reply m h = (r, h') \<Longrightarrow> spares A h'"
proof -
  assume m: "keeps (spares A) m" and h: "spares A h" and run: "with_reply m h = (r, h')"
  from with_reply_state [OF run] obtain q where u: "update (seq (modify (\<lambda>h. h\<lparr>reply := no_reply\<rparr>)) m) h = (q, h')" by blast
  show "spares A h'" by (rule update_spares [OF _ h u]) (intro hub_keeps m)
qed

lemma hub_step_spares: "hub_step h h' \<Longrightarrow> spares A h \<Longrightarrow> spares A h'"
proof (induction rule: hub_step.induct)
  case (do_Post pr h r h')
  obtain q h1 where u: "update (post pr) h = (q, h1)" by force
  have "spares A h1" by (rule update_spares [OF _ do_Post.prems u]) (intro hub_keeps)
  then show ?case using do_Post.hyps u by (auto simp: Post_def spares_def split: sum.splits)
next
  case (do_Command code cr h r h')
  let ?h = "h\<lparr>stats := (stats h)\<lparr>Commands := Commands (stats h) + 1\<rparr>\<rparr>"
  have "spares A ?h" using do_Command.prems by (simp add: spares_def)
  moreover have "with_reply (command_hm code cr) ?h = (r, h')" using do_Command.hyps by (simp add: Command_def)
  ultimately show ?case by (rule with_reply_spares [OF spares_command])
next
  case (do_DeleteMessage i k h r h')
  then have "with_reply (delete_one i k) h = (r, h')" by (simp add: DeleteMessage_def)
  with do_DeleteMessage.prems show ?case by (rule with_reply_spares [rotated]) (intro hub_keeps)
next
  case (do_Join jr h r h')
  have "keeps (spares A) (join jr)" by (intro spare.join_keeps_if spares_after)
  then show ?case using do_Join by (auto simp: Join_request_def intro: update_spares)
next
  case (do_JoinGroup i name h r h')
  have "keeps (spares A) (joinGroup i name)" by (intro spare.joinGroup_keeps_if spares_AddMember)
  then show ?case using do_JoinGroup by (auto simp: JoinGroup_def intro: update_spares)
next
  case (do_maintain h)
  then show ?case by (rule spare.maintain_keeps)
qed (unfold request_defs Subscribe_def receive_def,
     ((erule (1) update_spares [rotated], intro hub_keeps) | (erule (1) keepsD [rotated], intro hub_keeps)
     | simp add: spares_def)+)

text \<open>
  C3. The owners of the configuration file cannot be banned: from any hub on which none of them is banned, no
  sequence of requests, commands and ticks of the clock leads to one on which an owner's identity is on the
  ban list, whoever types the commands.
\<close>

theorem owners_never_banned:
  assumes "db_inv (st h)" "\<forall>i\<in>set (Admins (cfg h)). \<not> IsBanned i (st h)" "hub_step\<^sup>*\<^sup>* h h'"
  shows "Admins (cfg h') = Admins (cfg h) \<and> (\<forall>i\<in>set (Admins (cfg h')). \<not> IsBanned i (st h'))"
proof -
  have "spares (Admins (cfg h)) h" using assms(1,2) by (simp add: spares_def)
  with assms(3) have "spares (Admins (cfg h)) h'" by (induction rule: rtranclp_induct) (auto intro: hub_step_spares)
  then show ?thesis by (simp add: spares_def)
qed

text \<open>Bob is an admin of a hub Alice owns; his /ban of her identity is answered and changes nothing.\<close>

definition staffed_hub :: hub where
  "staffed_hub = town_hub\<lparr>cfg := Defaults\<lparr>Admins := [alice]\<rparr>,
     st := town_db\<lparr>people := map (\<lambda>p. if p_ID p = 2 then p\<lparr>p_Rank := StoredAdmin\<rparr> else p) (people town_db)\<rparr>\<rparr>"

definition ban_alice :: CommandRequest where
  "ban_alice = \<lparr>cr_Via = ViaPage, cr_Identity = bob, cr_Room = '''', cr_Text = ''/ban 61616161616161616161616161616161 7d''\<rparr>"

lemma staffed_inv: "db_inv (st staffed_hub)"
  using town_inv by (simp add: staffed_hub_def town_hub_def town_db_def db_inv_def inv_defs)

lemma ban_alice_eval: "map_sum id (\<lambda>r. (Reply_Error r, Lines r)) (fst (Command ''CODE'' ban_alice staffed_hub)) =
    Inr (True, [''Alice is a hub owner; that can only be changed in the hub's config file.''])"
  by code_simp

theorem owners_never_banned_witness:
  "map_sum id (\<lambda>r. (Reply_Error r, Lines r)) (fst (Command ''CODE'' ban_alice staffed_hub)) =
      Inr (True, [''Alice is a hub owner; that can only be changed in the hub's config file.'']) \<and>
    \<not> IsBanned alice (st (snd (Command ''CODE'' ban_alice staffed_hub)))"
proof -
  let ?h' = "snd (Command ''CODE'' ban_alice staffed_hub)"
  have "hub_step staffed_hub ?h'" by (rule do_Command [OF surjective_pairing])
  then have "hub_step\<^sup>*\<^sup>* staffed_hub ?h'" by blast
  moreover have "Admins (cfg staffed_hub) = [alice]" by (simp add: staffed_hub_def)
  moreover have "\<not> IsBanned alice (st staffed_hub)" by (simp add: staffed_hub_def town_db_def IsBanned_def)
  ultimately have "\<not> IsBanned alice (st ?h')" using owners_never_banned [OF staffed_inv, of ?h'] by simp
  with ban_alice_eval show ?thesis by blast
qed

end
