(* ===== verification/HubUpkeep.thy ===== *)
theory HubUpkeep
  imports HubOwners
begin

text \<open>
  What the minute's maintenance does, exactly: old messages go, bans that ran out are lifted, unused rooms are
  forgotten, and nothing else of these tables changes; it never fails.
\<close>

section \<open>The steps\<close>

lemma seq_run:
  "m h = (Inr u, h1) \<Longrightarrow> seq m k h = k h1" "m h = (Inl e, h1) \<Longrightarrow> seq m k h = (Inl e, h1)"
  by (simp_all add: seq_def bnd_def)

lemma each_SetCursor:
  assumes "each (\<lambda>e. bnd (query (LastMessageID (pe_Room e))) (\<lambda>last.
     if 0 < pe_rrcLinks e then exec (SetCursor (pe_identity e) (pe_Room e) ViaRRC last t) else ret ())) ps h = (r, h')"
  shows "\<exists>cs. h' = h\<lparr>st := (st h)\<lparr>cursors := cs\<rparr>\<rparr>"
  using assms
proof (induction ps arbitrary: h)
  case Nil
  then show ?case by (auto simp: ret_def intro!: exI [of _ "cursors (st h)"])
next
  case (Cons e ps)
  let ?f = "\<lambda>e. bnd (query (LastMessageID (pe_Room e))) (\<lambda>last.
     if 0 < pe_rrcLinks e then exec (SetCursor (pe_identity e) (pe_Room e) ViaRRC last t) else ret ())"
  obtain q h1 where q: "?f e h = (q, h1)" by force
  then have "\<exists>cs. h1 = h\<lparr>st := (st h)\<lparr>cursors := cs\<rparr>\<rparr>"
    by (auto simp: bnd_def query_def exec_def ret_def SetCursor_def bindE_def requireE_def split: if_splits sum.splits
        intro: exI [of _ "cursors (st h)"])
  then obtain cs where h1: "h1 = h\<lparr>st := (st h)\<lparr>cursors := cs\<rparr>\<rparr>" by blast
  show ?case
  proof (cases q)
    case (Inl e)
    with Cons.prems q h1 show ?thesis by (auto simp: seq_run)
  next
    case (Inr u)
    with Cons.prems q have "each ?f ps h1 = (r, h')" by (simp add: seq_run)
    from Cons.IH [OF this] show ?thesis by (auto simp: h1)
  qed
qed

lemma saveAllCursors_effect: "\<exists>cs. snd (saveAllCursors h) = h\<lparr>st := (st h)\<lparr>cursors := cs\<rparr>\<rparr>"
proof -
  let ?m = "\<lambda>h. each (\<lambda>e. bnd (query (LastMessageID (pe_Room e))) (\<lambda>last.
     if 0 < pe_rrcLinks e then exec (SetCursor (pe_identity e) (pe_Room e) ViaRRC last (nowMS h)) else ret ())) (presence h) h"
  obtain r h' where m: "?m h = (r, h')" by force
  from each_SetCursor [OF this] obtain cs where "h' = h\<lparr>st := (st h)\<lparr>cursors := cs\<rparr>\<rparr>" by blast
  then show ?thesis using m
    by (cases r) (auto simp: saveAllCursors_def storeUpdate_def bnd_def asks_def intro: exI [of _ "cursors (st h)"])
qed

lemma lift_expired_effect:
  "\<exists>a. lift_expired t lifted bs h =
    (Inr (), h\<lparr>st := (st h)\<lparr>bans := filter (\<lambda>b. b_Identity b \<notin> b_Identity ` set bs) (bans (st h)), audit := a\<rparr>\<rparr>)"
proof (induction bs arbitrary: lifted h)
  case Nil
  then show ?case by (auto simp: ret_def intro!: exI [of _ "audit (st h)"])
next
  case (Cons b bs)
  let ?d = "(st h)\<lparr>bans := delete_where (\<lambda>x. b_Identity x = b_Identity b) (bans (st h))\<rparr>"
  have "\<exists>a. lift_expired t lifted (b # bs) h = lift_expired t (ban_name b # lifted) bs (h\<lparr>st := ?d\<lparr>audit := a\<rparr>\<rparr>)"
  proof (cases "ban_name b \<in> set lifted")
    case True
    then show ?thesis by (intro exI [of _ "audit (st h)"]) (simp add: bnd_def seq_def execR'_def RemoveBan_def ret_def)
  qed (auto simp: bnd_def seq_def execR'_def exec'_def RemoveBan_def Audit_def Let_def)
  then obtain a where step: "lift_expired t lifted (b # bs) h = lift_expired t (ban_name b # lifted) bs (h\<lparr>st := ?d\<lparr>audit := a\<rparr>\<rparr>)" by blast
  from Cons.IH [of "ban_name b # lifted" "h\<lparr>st := ?d\<lparr>audit := a\<rparr>\<rparr>"] show ?case
    unfolding step by (auto simp: delete_where_def conj_commute intro!: exI filter_cong)
qed

lemma liftExpiredBans_effect:
  assumes "distinct (map b_Identity (bans (st h)))"
  shows "\<exists>a. liftExpiredBans t h = (Inr (), h\<lparr>st := (st h)\<lparr>bans := filter (\<lambda>b. b_ExpiresAt b = 0 \<or> t < b_ExpiresAt b) (bans (st h)), audit := a\<rparr>\<rparr>)"
proof -
  let ?bs = "ExpiredBans t (st h)"
  have "b_Identity b \<in> b_Identity ` set ?bs \<longleftrightarrow> \<not> (b_ExpiresAt b = 0 \<or> t < b_ExpiresAt b)" if "b \<in> set (bans (st h))" for b
    using assms that by (auto simp: ExpiredBans_def distinct_map inj_on_def)
  then have "filter (\<lambda>b. b_Identity b \<notin> b_Identity ` set ?bs) (bans (st h)) = filter (\<lambda>b. b_ExpiresAt b = 0 \<or> t < b_ExpiresAt b) (bans (st h))"
    by (intro filter_cong) auto
  then show ?thesis using lift_expired_effect [of t "[]" ?bs h] by (simp add: liftExpiredBans_def bnd_def query_def)
qed

text \<open>Forgetting rooms: what is written does not change which rooms may be forgotten.\<close>

definition prune_step :: "room \<Rightarrow> unit hm" where
  "prune_step r = bnd (asks (\<lambda>h. prunable h r)) (\<lambda>p. if p
     then seq (exec' (DeleteRoom (rm_Name r))) (Audit_now None ''prune-room'' (rm_Name r) ''unused'') else ret ())"

lemma prunable_st [simp]: "prunable (h\<lparr>st := d\<rparr>) r = prunable h r"
  by (simp add: prunable_def)

lemma each_prune:
  "\<exists>rr iv a. each prune_step rs h =
    (Inr (), h\<lparr>st := (st h)\<lparr>rooms := filter (\<lambda>x. \<forall>r\<in>set rs. prunable h r \<longrightarrow> rm_Name r \<noteq> rm_Name x) (rooms (st h)), room_roles := rr, invites := iv, audit := a\<rparr>\<rparr>)"
proof (induction rs arbitrary: h)
  case Nil
  then show ?case by (auto simp: ret_def intro!: exI [of _ "room_roles (st h)"] exI [of _ "invites (st h)"] exI [of _ "audit (st h)"])
next
  case (Cons r rs)
  show ?case
  proof (cases "prunable h r")
    case False
    then have "each prune_step (r # rs) h = each prune_step rs h" by (simp add: prune_step_def seq_def bnd_def asks_def ret_def)
    then show ?thesis using Cons.IH [of h] False by simp
  next
    case True
    obtain rr iv a where step: "prune_step r h = (Inr (), h\<lparr>st := (st h)\<lparr>rooms := delete_where (\<lambda>x. rm_Name x = rm_Name r) (rooms (st h)),
        room_roles := rr, invites := iv, audit := a\<rparr>\<rparr>)"
      using True by (auto simp: prune_step_def bnd_def asks_def seq_def exec'_def DeleteRoom_def Audit_now_def Audit_def Let_def)
    let ?h = "h\<lparr>st := (st h)\<lparr>rooms := delete_where (\<lambda>x. rm_Name x = rm_Name r) (rooms (st h)), room_roles := rr, invites := iv, audit := a\<rparr>\<rparr>"
    have "filter (\<lambda>x. \<forall>r'\<in>set rs. prunable h r' \<longrightarrow> rm_Name r' \<noteq> rm_Name x) (delete_where (\<lambda>x. rm_Name x = rm_Name r) (rooms (st h))) =
        filter (\<lambda>x. \<forall>r'\<in>set (r # rs). prunable h r' \<longrightarrow> rm_Name r' \<noteq> rm_Name x) (rooms (st h))"
      using True by (auto simp: delete_where_def intro!: filter_cong)
    moreover have "each prune_step (r # rs) h = each prune_step rs ?h" by (simp add: seq_def bnd_def step)
    moreover obtain rr' iv' a' where "each prune_step rs ?h =
        (Inr (), ?h\<lparr>st := (st ?h)\<lparr>rooms := filter (\<lambda>x. \<forall>r\<in>set rs. prunable ?h r \<longrightarrow> rm_Name r \<noteq> rm_Name x) (rooms (st ?h)), room_roles := rr', invites := iv', audit := a'\<rparr>\<rparr>)"
      using Cons.IH [of ?h] by blast
    ultimately show ?thesis by (intro exI [of _ rr'] exI [of _ iv'] exI [of _ a']) simp
  qed
qed

lemma pruneRooms_effect:
  assumes "distinct (map rm_Name (rooms (st h)))"
  shows "\<exists>rr iv a. pruneRooms h = (Inr (), h\<lparr>st := (st h)\<lparr>rooms := filter (\<lambda>r. \<not> prunable h r) (rooms (st h)), room_roles := rr, invites := iv, audit := a\<rparr>\<rparr>)"
proof -
  have all: "pruneRooms h = each prune_step (Rooms (st h)) h"
    unfolding pruneRooms_def prune_step_def [abs_def] by (simp add: bnd_def query_def)
  have "filter (\<lambda>x. \<forall>r\<in>set (Rooms (st h)). prunable h r \<longrightarrow> rm_Name r \<noteq> rm_Name x) (rooms (st h)) = filter (\<lambda>r. \<not> prunable h r) (rooms (st h))"
    using assms by (intro filter_cong) (auto simp: Rooms_def distinct_map inj_on_def)
  with each_prune [of "Rooms (st h)" h] show ?thesis unfolding all by (simp only:)
qed

section \<open>Maintenance as a whole\<close>

lemma maintain_store_effect:
  assumes "distinct (map b_Identity (bans (st h)))" "distinct (map rm_Name (rooms (st h)))"
  shows "\<exists>d. maintain_store h = (Inr (), h\<lparr>st := d\<rparr>) \<and> rooms d = filter (\<lambda>r. \<not> prunable h r) (rooms (st h)) \<and>
    messages d = filter (\<lambda>m. (now_ns h - Retention (cfg h)) div 1000000 \<le> m_HubAt m) (messages (st h)) \<and>
    bans d = filter (\<lambda>b. b_ExpiresAt b = 0 \<or> nowMS h < b_ExpiresAt b) (bans (st h)) \<and>
    names d = names (st h) \<and> members d = members (st h)"
proof -
  let ?t = "now_ns h"
  let ?d = "PruneLinkCodes (?t div 1000000) (FinishDeliveries ((?t - day_ns) div 1000000)
    (PruneInvites (?t div 1000000) (PruneMessages ((?t - Retention (cfg h)) div 1000000) (st h))))"
  have d: "bans ?d = bans (st h)" "rooms ?d = rooms (st h)" "names ?d = names (st h)" "members ?d = members (st h)"
    "messages ?d = filter (\<lambda>m. (?t - Retention (cfg h)) div 1000000 \<le> m_HubAt m) (messages (st h))"
    by (simp_all add: PruneLinkCodes_def FinishDeliveries_def PruneInvites_def PruneMessages_def Let_def delete_where_def not_less)
  from liftExpiredBans_effect [of "h\<lparr>st := ?d\<rparr>" "?t div 1000000"] assms(1) d(1) obtain a where
    lift: "liftExpiredBans (?t div 1000000) (h\<lparr>st := ?d\<rparr>) =
      (Inr (), h\<lparr>st := ?d\<lparr>bans := filter (\<lambda>b. b_ExpiresAt b = 0 \<or> ?t div 1000000 < b_ExpiresAt b) (bans (st h)), audit := a\<rparr>\<rparr>)"
    by auto
  let ?e = "PruneWhispers ((?t - WhisperRetention) div 1000000)
    (?d\<lparr>bans := filter (\<lambda>b. b_ExpiresAt b = 0 \<or> ?t div 1000000 < b_ExpiresAt b) (bans (st h)), audit := a\<rparr>)"
  have e: "rooms ?e = rooms (st h)" "bans ?e = filter (\<lambda>b. b_ExpiresAt b = 0 \<or> ?t div 1000000 < b_ExpiresAt b) (bans (st h))"
    "names ?e = names (st h)" "members ?e = members (st h)" "messages ?e = messages ?d"
    by (simp_all add: PruneWhispers_def Let_def d)
  from pruneRooms_effect [of "h\<lparr>st := ?e\<rparr>"] assms(2) e(1) obtain rr iv a' where
    prune: "pruneRooms (h\<lparr>st := ?e\<rparr>) = (Inr (), h\<lparr>st := ?e\<lparr>rooms := filter (\<lambda>r. \<not> prunable h r) (rooms (st h)), room_roles := rr, invites := iv, audit := a'\<rparr>\<rparr>)"
    by auto
  have "maintain_store h = pruneRooms (h\<lparr>st := ?e\<rparr>)"
    by (simp add: maintain_store_def bnd_def seq_def asks_def exec'_def lift)
  also note prune
  finally show ?thesis
    by (intro exI [of _ "?e\<lparr>rooms := filter (\<lambda>r. \<not> prunable h r) (rooms (st h)), room_roles := rr, invites := iv, audit := a'\<rparr>"])
      (simp add: e d(5) nowMS_def)
qed


text \<open>A store with an unused room, a ban that ran out and one for good, and a hub some months later.\<close>

definition dusty_db :: db where
  "dusty_db = town_db\<lparr>members := [],
     rooms := rooms town_db @ [\<lparr>rm_Name = ''attic'', rm_Topic = '''', rm_Founder = None, rm_Registered = True, rm_Modes = ''t'', rm_Key = '''',
       rm_CreatedAt = 40, rm_LastUsed = 40\<rparr>],
     bans := [\<lparr>b_Identity = bob, b_Name = '''', b_Reason = '''', b_BannedBy = None, b_BannedAt = 60, b_ExpiresAt = 90\<rparr>,
       \<lparr>b_Identity = alice, b_Name = ''Alice'', b_Reason = '''', b_BannedBy = None, b_BannedAt = 60, b_ExpiresAt = 0\<rparr>]\<rparr>"

definition dusty_hub :: hub where
  "dusty_hub = demo_hub\<lparr>st := dusty_db, now_ns := 400 * day_ns\<rparr>"

lemma dusty_inv: "db_inv (st dusty_hub)"
  using town_inv by (auto simp: dusty_hub_def dusty_db_def town_hub_def town_db_def db_inv_def inv_defs)


end
