(* ===== verification/HubLeftovers.thy ===== *)
theory HubLeftovers
  imports HubUpkeep
begin

text \<open>
  Behaviours the model shows that the code's comments do not announce: the messages of a room outlive the room
  and its key, and ids of messages come round again after the last messages were pruned. Each is a run of the
  model from a concrete hub.
\<close>

section \<open>A room's messages outlive its key\<close>

definition den_hub :: hub where
  "den_hub = town_hub\<lparr>st := town_db\<lparr>
     rooms := rooms town_db @ [\<lparr>rm_Name = ''den'', rm_Topic = '''', rm_Founder = Some alice, rm_Registered = False, rm_Modes = ''i'', rm_Key = ''sesame'',
       rm_CreatedAt = 40, rm_LastUsed = 40\<rparr>],
     messages := [\<lparr>m_ID = 1, m_Room = ''den'', m_Kind = KindMsg, m_Author = alice, m_AuthorName = ''Alice'', m_Body = ''a secret'', m_Via = ViaRRC,
       m_OriginID = None, m_SaidAt = 50, m_HubAt = 50, m_Ext = None\<rparr>]\<rparr>,
     presence := [\<lparr>pe_Room = ''den'', pe_identity = alice, pe_name = ''Alice'', pe_rrcLinks = 1\<rparr>]\<rparr>"

definition bob_to_den :: JoinRequest where
  "bob_to_den = \<lparr>jr_Identity = bob, jr_Room = ''den'', jr_Key = ''''\<rparr>"


section \<open>Message ids come round again\<close>

definition quiet_hub :: hub where
  "quiet_hub = town_hub\<lparr>now_ns := 400 * day_ns, st := town_db\<lparr>
     messages := [\<lparr>m_ID = 5, m_Room = ''scotmesh'', m_Kind = KindMsg, m_Author = bob, m_AuthorName = ''guest'', m_Body = ''old news'', m_Via = ViaLXMF,
       m_OriginID = None, m_SaidAt = 50, m_HubAt = 50, m_Ext = None\<rparr>],
     cursors := [\<lparr>c_Identity = alice, c_Room = ''scotmesh'', c_Via = ViaRRC, c_MessageID = 5, c_UpdatedAt = 60\<rparr>]\<rparr>\<rparr>"

definition news :: PostRequest where
  "news = \<lparr>pr_Via = ViaLXMF, pr_Identity = bob, pr_Room = '''', pr_Action = False, pr_Body = ''news'', pr_OriginID = None, pr_SaidAt = 0, pr_Ext = None\<rparr>"

text \<open>
  Message ids are given out again: Alice has read message 5, the last one, which then is pruned. Bob's next message is number 1, which is below
  Alice's cursor: it is stored, and her catch-up does not replay it.
\<close>

lemma message_ids_reused:
  "case Post news (maintain quiet_hub) of (Inr res, h') \<Rightarrow>
     m_ID (po_Message res) = 1 \<and> map m_Body (messages (st h')) = [''news''] \<and>
     (case catchUp alice ''scotmesh'' h' of (Inr (ms, _), _) \<Rightarrow> ms = [] | _ \<Rightarrow> False) | _ \<Rightarrow> False"
  by code_simp

section \<open>An owner's identity and the apps linked to it\<close>

text \<open>Alice owns the hub, and Bob's app is linked to her.\<close>

definition linked_hub :: hub where
  "linked_hub = town_hub\<lparr>cfg := Defaults\<lparr>Admins := [alice]\<rparr>,
     st := town_db\<lparr>identities := map (\<lambda>r. r\<lparr>i_Person := 1\<rparr>) (identities town_db), people := take 1 (people town_db)\<rparr>\<rparr>"

definition unlink_alice :: CommandRequest where
  "unlink_alice = \<lparr>cr_Via = ViaPage, cr_Identity = bob, cr_Room = '''', cr_Text = ''/unlink 61616161''\<rparr>"

text \<open>
  The linked app may not unlink the owner's identity, yet its /forget does just that, and takes the owner's name.
\<close>

theorem forget_unlinks_owner:
  "map_sum id Lines (fst (Command ''CODE'' unlink_alice linked_hub)) = Inr [''That's a hub owner's own identity; only it can unlink itself.''] \<and>
   map_sum id nm_Name (map_sum id the (NameOf alice (st linked_hub))) = Inr ''Alice'' \<and>
   (case Forget bob linked_hub of (Inr _, h') \<Rightarrow> NameOf alice (st h') = Inr None \<and> map i_Person (identities (st h')) = [2, 1] | _ \<Rightarrow> False)"
  by code_simp

section \<open>The cap on linked apps\<close>

text \<open>Alice, a moderator, has four apps; two more have redeemed her codes and wait for approval.\<close>

definition app_of :: "char \<Rightarrow> int \<Rightarrow> identity_row" where
  "app_of k p = \<lparr>i_ID = replicate 16 k, i_PublicKey = None, i_FirstSeen = 10, i_LastSeen = 10, i_LXMFMode = LXMFOn, i_LXMFMine = False,
     i_Person = p, i_PersonSince = 10\<rparr>"

definition waiting :: "char \<Rightarrow> link_code" where
  "waiting k = \<lparr>lc_Hash = [k], lc_Person = 1, lc_IssuedBy = alice, lc_IssuedAt = 50, lc_ExpiresAt = 1000, lc_RedeemedBy = Some (replicate 16 k),
     lc_RedeemedVia = Some ViaPage\<rparr>"

definition crowded_hub :: hub where
  "crowded_hub = town_hub\<lparr>st := town_db\<lparr>members := [],
     identities := [app_of (CHR ''a'') 1, app_of (CHR ''b'') 1, app_of (CHR ''c'') 1, app_of (CHR ''d'') 1, app_of (CHR ''x'') 2, app_of (CHR ''y'') 3],
     people := [\<lparr>p_ID = 1, p_CreatedAt = 10, p_Rank = StoredMod, p_RankBy = None, p_RankAt = 0, p_Prefs = DefaultPrefs\<rparr>,
       \<lparr>p_ID = 2, p_CreatedAt = 20, p_Rank = StoredMember, p_RankBy = None, p_RankAt = 0, p_Prefs = DefaultPrefs\<rparr>,
       \<lparr>p_ID = 3, p_CreatedAt = 20, p_Rank = StoredMember, p_RankBy = None, p_RankAt = 0, p_Prefs = DefaultPrefs\<rparr>],
     link_codes := [waiting (CHR ''x''), waiting (CHR ''y'')]\<rparr>\<rparr>"

definition approve :: "string \<Rightarrow> CommandRequest" where
  "approve who = \<lparr>cr_Via = ViaPage, cr_Identity = alice, cr_Room = '''', cr_Text = ''/link approve '' @ who\<rparr>"

text \<open>Both approvals go through, which makes six apps under one name, one more than the most there may be.\<close>

theorem approvals_exceed_cap:
  "int (length (ps_Identities (projr (person_db [] alice (st (snd (Command ''CODE'' (approve ''79797979'') (snd (Command ''CODE'' (approve ''78787878'') crowded_hub)))))))))
    = maxAppsPerPerson + 1"
  by code_simp

section \<open>Deliveries of deleted messages\<close>

text \<open>Bob's copy of message 1 is on its way when the message is deleted, and the attempt fails.\<close>

definition on_its_way :: delivery where
  "on_its_way = queued_delivery 1 False 60 bob"

definition after_delete :: hub where
  "after_delete = town_hub\<lparr>st := snd (DeleteMessages [1] (town_db\<lparr>
     messages := [\<lparr>m_ID = 1, m_Room = ''scotmesh'', m_Kind = KindMsg, m_Author = alice, m_AuthorName = ''Alice'', m_Body = ''typo'', m_Via = ViaPage,
       m_OriginID = None, m_SaidAt = 50, m_HubAt = 50, m_Ext = None\<rparr>], deliveries := [on_its_way]\<rparr>))\<rparr>"


end
