(* ===== verification/GoText.thy ===== *)
theory GoText
  imports GoStrings
begin

text \<open>
  What the adapters use of Go's \<^verbatim>\<open>strings\<close> and \<^verbatim>\<open>unicode/utf8\<close> to cut text into pieces: the
  last position of a separator, the nearest start of a character, splitting into lines and fields; and the facts
  that valid text cut at the start of a character is valid on both sides.
\<close>

section \<open>Searching and trimming\<close>

text \<open>strings.LastIndex, with no position for Go's -1.\<close>

fun LastIndex :: "string \<Rightarrow> string \<Rightarrow> nat option" where
  "LastIndex [] sep = (if sep = [] then Some 0 else None)"
| "LastIndex (c # cs) sep = (case LastIndex cs sep of
     Some i \<Rightarrow> Some (Suc i) | None \<Rightarrow> if HasPrefix (c # cs) sep then Some 0 else None)"

text \<open>strings.TrimLeft with an ASCII cutset.\<close>

definition TrimLeftSet :: "string \<Rightarrow> string \<Rightarrow> string" where
  "TrimLeftSet s cutset = dropWhile (\<lambda>c. c \<in> set cutset) s"

text \<open>strings.Split at one byte.\<close>

fun split_at :: "char \<Rightarrow> string \<Rightarrow> string \<Rightarrow> string list" where
  "split_at c acc [] = [rev acc]"
| "split_at c acc (x # xs) = (if x = c then rev acc # split_at c [] xs else split_at c (x # acc) xs)"

definition SplitByte :: "string \<Rightarrow> char \<Rightarrow> string list" where
  "SplitByte s c = split_at c [] s"

text \<open>utf8.RuneStart, and stepping back to the start of a character: \<^verbatim>\<open>for i > 0 && !utf8.RuneStart(s[i]) { i-- }\<close>.\<close>

definition RuneStart :: "char \<Rightarrow> bool" where
  "RuneStart c \<longleftrightarrow> \<not> cont_byte 128 191 (of_char c)"

fun back_to_start :: "string \<Rightarrow> nat \<Rightarrow> nat" where
  "back_to_start s 0 = 0"
| "back_to_start s (Suc i) = (if RuneStart (s ! Suc i) then Suc i else back_to_start s i)"

lemma LastIndex_Some: "LastIndex s sep = Some i \<Longrightarrow> i + length sep \<le> length s \<and> HasPrefix (drop i s) sep"
proof (induction s arbitrary: i)
  case (Cons c s)
  then show ?case by (cases "LastIndex s sep") (auto simp: HasPrefix_def split: if_splits dest: arg_cong [where f = length])
qed (auto split: if_splits simp: HasPrefix_def)

lemma back_to_start_le: "back_to_start s i \<le> i"
  by (induction s i rule: back_to_start.induct) auto

lemma back_to_start_start: "0 < back_to_start s i \<Longrightarrow> RuneStart (s ! back_to_start s i)"
  by (induction s i rule: back_to_start.induct) (auto split: if_splits)

lemma back_to_start_skips: "back_to_start s i < j \<Longrightarrow> j \<le> i \<Longrightarrow> \<not> RuneStart (s ! j)"
  by (induction s i rule: back_to_start.induct) (auto split: if_splits simp: le_Suc_eq)

lemma length_TrimRightSet: "length (TrimRightSet s cs) \<le> length s"
  by (simp add: TrimRightSet_def) (metis length_dropWhile_le length_rev)

lemma length_TrimLeftSet: "length (TrimLeftSet s cs) \<le> length s"
  by (simp add: TrimLeftSet_def length_dropWhile_le)

section \<open>Cutting valid text\<close>

definition valid_bytes :: "nat list \<Rightarrow> bool" where
  "valid_bytes bs \<longleftrightarrow> (65533, 1) \<notin> set (decode_runes bs)"

lemma ValidString_bytes: "ValidString s \<longleftrightarrow> valid_bytes (bytes_of s)"
  by (simp add: ValidString_def valid_bytes_def)

lemma valid_bytes_Nil [simp]: "valid_bytes []"
  by (simp add: valid_bytes_def decode_runes.simps [of "[]"])

lemma valid_bytes_step:
  "bs \<noteq> [] \<Longrightarrow> valid_bytes bs \<longleftrightarrow> decode_rune bs \<noteq> (65533, 1) \<and> valid_bytes (drop (snd (decode_rune bs)) bs)"
  by (auto simp: valid_bytes_def decode_runes.simps [of bs])

text \<open>A character that decodes is one of four shapes, told apart by its first byte.\<close>

inductive rune_bytes :: "nat list \<Rightarrow> bool" where
  one: "b0 < 128 \<Longrightarrow> rune_bytes [b0]"
| two: "194 \<le> b0 \<Longrightarrow> b0 \<le> 223 \<Longrightarrow> cont_byte 128 191 b1 \<Longrightarrow> rune_bytes [b0, b1]"
| three: "224 \<le> b0 \<Longrightarrow> b0 \<le> 239 \<Longrightarrow> cont_byte (if b0 = 224 then 160 else 128) (if b0 = 237 then 159 else 191) b1 \<Longrightarrow>
    cont_byte 128 191 b2 \<Longrightarrow> rune_bytes [b0, b1, b2]"
| four: "240 \<le> b0 \<Longrightarrow> b0 \<le> 244 \<Longrightarrow> cont_byte (if b0 = 240 then 144 else 128) (if b0 = 244 then 143 else 191) b1 \<Longrightarrow>
    cont_byte 128 191 b2 \<Longrightarrow> cont_byte 128 191 b3 \<Longrightarrow> rune_bytes [b0, b1, b2, b3]"

lemma rune_bytes_decode: "rune_bytes r \<Longrightarrow> \<exists>c. decode_rune (r @ t) = (c, length r) \<and> decode_rune (r @ t) \<noteq> (65533, 1)"
  by (induction rule: rune_bytes.induct) (auto simp: decode_rune_def)

lemma rune_bytes_shape:
  "rune_bytes r \<Longrightarrow> 0 < length r \<and> length r \<le> 4 \<and> \<not> cont_byte 128 191 (r ! 0) \<and> (\<forall>j<length r. 0 < j \<longrightarrow> cont_byte 128 191 (r ! j))"
  by (induction rule: rune_bytes.induct) (auto simp: cont_byte_def nth_Cons' less_Suc_eq split: if_splits)

lemma decode_rune_bytes:
  assumes "bs \<noteq> []" "decode_rune bs \<noteq> (65533, 1)"
  shows "\<exists>r t. bs = r @ t \<and> rune_bytes r"
proof -
  obtain b0 r where bs: "bs = b0 # r" using assms(1) by (cases bs) auto
  consider "b0 < 128" | "194 \<le> b0" "b0 \<le> 223" | "224 \<le> b0" "b0 \<le> 239" | "240 \<le> b0" "b0 \<le> 244"
    using assms(2) by (auto simp: bs decode_rune_def split: if_splits)
  then show ?thesis
  proof cases
    case 1
    then show ?thesis by (intro exI [of _ "[b0]"] exI [of _ r]) (simp add: bs one)
  next
    case 2
    then obtain b1 t where "r = b1 # t" "cont_byte 128 191 b1"
      using assms(2) by (auto simp: bs decode_rune_def split: if_splits list.splits)
    then show ?thesis using 2 by (intro exI [of _ "[b0, b1]"] exI [of _ t]) (simp add: bs two)
  next
    case 3
    then obtain b1 b2 t where r: "r = b1 # b2 # t" using assms(2) by (cases r; cases "tl r") (auto simp: bs decode_rune_def)
    moreover have "cont_byte (if b0 = 224 then 160 else 128) (if b0 = 237 then 159 else 191) b1 \<and> cont_byte 128 191 b2" (is ?C)
    proof (rule ccontr)
      assume "\<not> ?C"
      then have "decode_rune bs = (65533, 1)" using 3 by (auto simp: bs decode_rune_def r)
      with assms(2) show False ..
    qed
    ultimately show ?thesis using 3 by (intro exI [of _ "[b0, b1, b2]"] exI [of _ t]) (simp add: bs three del: if_split)
  next
    case 4
    then obtain b1 b2 b3 t where r: "r = b1 # b2 # b3 # t"
      using assms(2) by (cases r; cases "tl r"; cases "tl (tl r)") (auto simp: bs decode_rune_def)
    moreover have "cont_byte (if b0 = 240 then 144 else 128) (if b0 = 244 then 143 else 191) b1 \<and> cont_byte 128 191 b2 \<and> cont_byte 128 191 b3" (is ?C)
    proof (rule ccontr)
      assume "\<not> ?C"
      then have "decode_rune bs = (65533, 1)" using 4 by (auto simp: bs decode_rune_def r)
      with assms(2) show False ..
    qed
    ultimately show ?thesis using 4 by (intro exI [of _ "[b0, b1, b2, b3]"] exI [of _ t]) (simp add: bs four)
  qed
qed

text \<open>Valid text is a sequence of characters.\<close>

lemma valid_bytes_append: "rune_bytes r \<Longrightarrow> valid_bytes (r @ t) \<longleftrightarrow> valid_bytes t"
  using rune_bytes_decode [of r t] rune_bytes_shape [of r] by (subst valid_bytes_step) (auto simp: neq_Nil_conv)

lemma valid_bytes_induct [consumes 1, case_names Nil rune]:
  assumes "valid_bytes bs" "P []" "\<And>r t. rune_bytes r \<Longrightarrow> valid_bytes t \<Longrightarrow> P t \<Longrightarrow> P (r @ t)"
  shows "P bs"
  using assms(1)
proof (induction "length bs" arbitrary: bs rule: less_induct)
  case less
  show ?case
  proof (cases "bs = []")
    case False
    with less.prems obtain r t where r: "bs = r @ t" "rune_bytes r"
      using decode_rune_bytes [OF False] valid_bytes_step [OF False] by blast
    moreover from this less.prems have "valid_bytes t" by (simp add: valid_bytes_append)
    moreover have "length t < length bs" using r rune_bytes_shape [OF r(2)] by simp
    ultimately show ?thesis using less.hyps [of t] assms(3) by blast
  qed (use assms(2) in simp)
qed

lemma valid_bytes_concat: "valid_bytes a \<Longrightarrow> valid_bytes (a @ b) \<longleftrightarrow> valid_bytes b"
  by (induction rule: valid_bytes_induct) (simp_all add: valid_bytes_append)

lemma valid_bytes_cut:
  "valid_bytes bs \<Longrightarrow> i < length bs \<Longrightarrow> \<not> cont_byte 128 191 (bs ! i) \<Longrightarrow> valid_bytes (take i bs) \<and> valid_bytes (drop i bs)"
proof (induction arbitrary: i rule: valid_bytes_induct)
  case (rune r t)
  show ?case
  proof (cases "i < length r")
    case True
    then have "i = 0" using rune_bytes_shape [OF rune.hyps(1)] rune.prems by (auto simp: nth_append)
    then show ?thesis using rune.hyps by (simp add: valid_bytes_append)
  next
    case False
    then have "valid_bytes (take (i - length r) t) \<and> valid_bytes (drop (i - length r) t)"
      using rune.IH [of "i - length r"] rune.prems by (simp add: nth_append)
    then show ?thesis using False rune.hyps(1) by (simp add: valid_bytes_append)
  qed
qed simp

lemma valid_bytes_starts:
  "valid_bytes bs \<Longrightarrow> 3 \<le> i \<Longrightarrow> i < length bs \<Longrightarrow> \<exists>j\<le>i. i < j + 4 \<and> \<not> cont_byte 128 191 (bs ! j)"
proof (induction arbitrary: i rule: valid_bytes_induct)
  case (rune r t)
  note shape = rune_bytes_shape [OF rune.hyps(1)]
  consider "i < length r" | "length r \<le> i" "i < length r + 3" | "length r + 3 \<le> i" by linarith
  then show ?case
  proof cases
    case 1
    then show ?thesis using shape by (intro exI [of _ 0]) (simp add: nth_append)
  next
    case 2
    then have "t \<noteq> []" using rune.prems by auto
    then obtain r' t' where "t = r' @ t'" "rune_bytes r'" using rune.hyps(2) decode_rune_bytes valid_bytes_step by blast
    then show ?thesis using 2 rune_bytes_shape [of r'] by (intro exI [of _ "length r"]) (auto simp: nth_append)
  next
    case 3
    then have "3 \<le> i - length r" "i - length r < length t" using rune.prems by auto
    from rune.IH [OF this] obtain j where "j \<le> i - length r" "i - length r < j + 4" "\<not> cont_byte 128 191 (t ! j)" by blast
    then show ?thesis using 3 by (intro exI [of _ "length r + j"]) (auto simp: nth_append)
  qed
qed simp

lemma ValidString_Nil [simp]: "ValidString []"
  by (simp add: ValidString_bytes bytes_of_def)

lemma ValidString_append: "ValidString a \<Longrightarrow> ValidString (a @ b) \<longleftrightarrow> ValidString b"
  by (simp add: ValidString_bytes bytes_of_def valid_bytes_concat)

lemma ValidString_cut:
  assumes "ValidString s" "i < length s" "RuneStart (s ! i)"
  shows "ValidString (take i s)" "ValidString (drop i s)"
  using assms valid_bytes_cut [of "bytes_of s" i] by (simp_all add: ValidString_bytes RuneStart_def bytes_of_def take_map drop_map)

lemma back_to_start_valid:
  assumes "ValidString s" "3 \<le> i" "i < length s"
  shows "i < back_to_start s i + 4 \<and> RuneStart (s ! back_to_start s i)"
proof -
  obtain j where j: "j \<le> i" "i < j + 4" "RuneStart (s ! j)"
    using valid_bytes_starts [of "bytes_of s" i] assms by (auto simp: ValidString_bytes RuneStart_def bytes_of_def)
  then have "\<not> back_to_start s i < j" using back_to_start_skips by blast
  then show ?thesis using j back_to_start_start [of s i] by (cases "back_to_start s i = 0") auto
qed

text \<open>ASCII bytes are characters by themselves, so trimming and cutting at them keeps text valid.\<close>

lemma ValidString_ascii: "of_char c < (128::nat) \<Longrightarrow> ValidString (c # s) \<longleftrightarrow> ValidString s"
  using valid_bytes_append [OF one, of "of_char c" "bytes_of s"] by (simp add: ValidString_bytes bytes_of_def)

lemma ValidString_snoc: "of_char c < (128::nat) \<Longrightarrow> ValidString (s @ [c]) \<Longrightarrow> ValidString s"
  using ValidString_cut(1) [of "s @ [c]" "length s"] by (simp add: RuneStart_def cont_byte_def)

lemma ValidString_TrimLeftSet: "\<forall>c\<in>set cs. of_char c < (128::nat) \<Longrightarrow> ValidString s \<Longrightarrow> ValidString (TrimLeftSet s cs)"
  by (induction s) (auto simp: TrimLeftSet_def ValidString_ascii)

lemma ValidString_TrimRightSet: "\<forall>c\<in>set cs. of_char c < (128::nat) \<Longrightarrow> ValidString s \<Longrightarrow> ValidString (TrimRightSet s cs)"
  by (induction s rule: rev_induct) (auto simp: TrimRightSet_def dest: ValidString_snoc)

end
