(* ===== verification/LxmfSplit.thy ===== *)
theory LxmfSplit
  imports GoText HubHelp
begin

text \<open>
  internal/lxmfgroup/split.go: text cut into numbered parts of one LXMF packet each. The parts are shown to fit, to be at most
  99, to lose nothing but white space at the cuts (or to end in an ellipsis), and to be valid text when the text was.
\<close>

section \<open>The code\<close>

definition MaxContent :: nat where
  "MaxContent = OnePacketText"

definition partMarkWidth :: nat where
  "partMarkWidth = length ''(99/99) ''"

definition maxParts :: nat where
  "maxParts = 99"

definition ellipsis :: string where
  "ellipsis = [CHR 0xE2, CHR 0x80, CHR 0xA6]"

definition truncate :: "string \<Rightarrow> int \<Rightarrow> string" where
  "truncate s mx = (if int (length s) \<le> mx then s
     else if mx - int (length ellipsis) < 0 then []
     else take (back_to_start s (nat (mx - int (length ellipsis)))) s @ ellipsis)"

text \<open>One separator of the loop in cut: the cut at its last occurrence in the window, if that leaves text before it.\<close>

definition cut_at :: "string \<Rightarrow> nat \<Rightarrow> string \<Rightarrow> (string \<times> string) option" where
  "cut_at s room sep = (case LastIndex (take (room + 1) s) sep of
     None \<Rightarrow> None
   | Some i \<Rightarrow> if 0 < i \<and> TrimRightSet (take i s) [CHR '' '', CHR 0x0A] \<noteq> []
       then Some (TrimRightSet (take i s) [CHR '' '', CHR 0x0A], TrimLeftSet (drop (i + length sep) s) [CHR '' '', CHR 0x0A])
       else None)"

definition separators :: "string list" where
  "separators = [[CHR 0x0A, CHR 0x0A], [CHR 0x0A], [CHR '' '']]"

definition cut :: "string \<Rightarrow> nat \<Rightarrow> string \<times> string" where
  "cut s room = (if length s \<le> room then (s, [])
     else case List.map_filter (cut_at s room) separators of
       r # _ \<Rightarrow> r
     | [] \<Rightarrow> let b = back_to_start s room; i = if b = 0 then room else b in (take i s, drop i s))"

text \<open>What cut does to text that does not fit: it cuts at a separator, or inside a word.\<close>

abbreviation blanks :: string where
  "blanks \<equiv> [CHR '' '', CHR 0x0A]"

lemma cut_at_Some:
  assumes "cut_at s room sep = Some r" "room < length s"
  shows "\<exists>i. 0 < i \<and> i + length sep \<le> room + 1 \<and> HasPrefix (drop i s) sep \<and> TrimRightSet (take i s) blanks \<noteq> [] \<and>
    r = (TrimRightSet (take i s) blanks, TrimLeftSet (drop (i + length sep) s) blanks)"
proof -
  obtain i where i: "LastIndex (take (room + 1) s) sep = Some i" "0 < i" "TrimRightSet (take i s) blanks \<noteq> []"
    "r = (TrimRightSet (take i s) blanks, TrimLeftSet (drop (i + length sep) s) blanks)"
    using assms(1) by (auto simp: cut_at_def split: option.splits if_splits)
  from LastIndex_Some [OF i(1)] have "i + length sep \<le> room + 1" "HasPrefix (drop i (take (room + 1) s)) sep" by auto
  then have "HasPrefix (drop i s) sep" by (auto simp: HasPrefix_def drop_take)
  with i \<open>i + length sep \<le> room + 1\<close> show ?thesis by blast
qed

lemma cut_cases:
  assumes "0 < room" "room < length s"
  obtains (sep) i sep where "sep \<in> set separators" "0 < i" "i + length sep \<le> room + 1" "HasPrefix (drop i s) sep"
      "TrimRightSet (take i s) blanks \<noteq> []" "cut s room = (TrimRightSet (take i s) blanks, TrimLeftSet (drop (i + length sep) s) blanks)"
  | (inside) i where "0 < i" "i \<le> room" "i = room \<or> i = back_to_start s room" "back_to_start s room = 0 \<longleftrightarrow> i \<noteq> back_to_start s room"
      "cut s room = (take i s, drop i s)"
proof (cases "List.map_filter (cut_at s room) separators")
  case Nil
  let ?i = "if back_to_start s room = 0 then room else back_to_start s room"
  show ?thesis by (rule inside [of ?i]) (use assms Nil back_to_start_le [of s room] in \<open>auto simp: cut_def Let_def\<close>)
next
  case (Cons r rs)
  then have "r \<in> set (List.map_filter (cut_at s room) separators)" by simp
  then obtain sep' where "sep' \<in> set separators" "cut_at s room sep' = Some r" by (auto simp: List.map_filter_def)
  moreover have "cut s room = r" using assms Cons by (simp add: cut_def)
  ultimately show ?thesis using cut_at_Some [OF _ assms(2)] sep by metis
qed

lemma separators_nonempty: "sep \<in> set separators \<Longrightarrow> sep \<noteq> [] \<and> set sep \<subseteq> set blanks"
  by (auto simp: separators_def)

lemma cut_bounds:
  assumes "0 < room" "s \<noteq> []"
  shows "length (fst (cut s room)) \<le> room" "length (snd (cut s room)) < length s"
proof -
  have "length (fst (cut s room)) \<le> room \<and> length (snd (cut s room)) < length s"
  proof (cases "length s \<le> room")
    case True
    then show ?thesis using assms by (simp add: cut_def)
  next
    case False
    then have "room < length s" by simp
    with assms(1) show ?thesis
    proof (cases rule: cut_cases)
      case (sep i sep)
      have "length (TrimRightSet (take i s) blanks) \<le> i" using length_TrimRightSet [of "take i s" blanks] by simp
      moreover have "length (TrimLeftSet (drop (i + length sep) s) blanks) \<le> length s - (i + length sep)"
        using length_TrimLeftSet [of "drop (i + length sep) s" blanks] by simp
      moreover have "0 < length sep" using separators_nonempty [OF sep(1)] by auto
      ultimately show ?thesis using sep(2,3) \<open>room < length s\<close> unfolding sep(6) fst_conv snd_conv by linarith
    next
      case (inside i)
      then show ?thesis using \<open>room < length s\<close> by auto
    qed
  qed
  then show "length (fst (cut s room)) \<le> room" "length (snd (cut s room)) < length s" by blast+
qed

text \<open>
  The loop of Split, with the test \<^verbatim>\<open>room < 8\<close> before it (which does not change while it runs): the chunks from the
  n-th on.
\<close>

function chunks_from :: "int \<Rightarrow> nat \<Rightarrow> string \<Rightarrow> string list" where
  "chunks_from mx n rest = (if mx - int partMarkWidth < 8 then [truncate rest mx]
     else if rest = [] then []
     else if n = maxParts - 1 \<and> nat (mx - int partMarkWidth) < length rest then [truncate rest (mx - int partMarkWidth)]
     else fst (cut rest (nat (mx - int partMarkWidth))) # chunks_from mx (n + 1) (snd (cut rest (nat (mx - int partMarkWidth)))))"
  by pat_completeness auto
termination
  by (relation "measure (\<lambda>(mx, n, rest). length rest)") (auto intro!: cut_bounds)

declare chunks_from.simps [simp del]

definition part_mark :: "nat \<Rightarrow> nat \<Rightarrow> string" where
  "part_mark i n = ''('' @ itoa (int i) @ ''/'' @ itoa (int n) @ '') ''"

definition Split :: "string \<Rightarrow> int \<Rightarrow> string list" where
  "Split text mx = (if int (length text) \<le> mx then [text]
     else let chunks = chunks_from mx 0 text in
       if length chunks = 1 then chunks
       else map (\<lambda>(i, c). part_mark (i + 1) (length chunks) @ c) (enumerate 0 chunks))"

section \<open>The parts\<close>

text \<open>The text without spaces and line breaks, which is what the cuts may drop.\<close>

definition solid :: "string \<Rightarrow> string" where
  "solid s = filter (\<lambda>c. c \<notin> set blanks) s"

lemma solid_append [simp]: "solid (a @ b) = solid a @ solid b" "solid [] = []"
  by (simp_all add: solid_def)

lemma solid_trim [simp]: "solid (TrimRightSet s blanks) = solid s" "solid (TrimLeftSet s blanks) = solid s"
proof -
  have left: "solid (TrimLeftSet t blanks) = solid t" for t by (induction t) (auto simp: TrimLeftSet_def solid_def)
  have "solid (rev t) = rev (solid t)" for t by (simp add: solid_def rev_filter)
  with left [of "rev s"] show "solid (TrimRightSet s blanks) = solid s" by (simp add: TrimRightSet_def TrimLeftSet_def)
  show "solid (TrimLeftSet s blanks) = solid s" by (rule left)
qed

lemma solid_ellipsis [simp]: "solid ellipsis = ellipsis"
  by (simp add: solid_def ellipsis_def)

lemma cut_solid: "0 < room \<Longrightarrow> solid (fst (cut s room)) @ solid (snd (cut s room)) = solid s"
proof (cases "room < length s")
  case True
  assume "0 < room"
  then show ?thesis using True
  proof (cases rule: cut_cases)
    case (sep i sep)
    have "drop i s = sep @ drop (i + length sep) s" using sep(4) by (metis HasPrefix_def append_take_drop_id drop_drop add.commute)
    then have "solid (drop i s) = solid (drop (i + length sep) s)"
      using separators_nonempty [OF sep(1)] by (auto simp: solid_def filter_empty_conv)
    moreover have "solid s = solid (take i s) @ solid (drop i s)" by (metis append_take_drop_id solid_append(1))
    ultimately show ?thesis by (simp add: sep(6))
  next
    case (inside i)
    then show ?thesis by (metis append_take_drop_id fst_conv snd_conv solid_append(1))
  qed
qed (simp add: cut_def)

lemma cut_valid:
  assumes "4 \<le> room" "ValidString s"
  shows "ValidString (fst (cut s room)) \<and> ValidString (snd (cut s room))"
proof (cases "room < length s")
  case True
  have ascii: "\<forall>c\<in>set blanks. of_char c < (128::nat)" by simp
  have "0 < room" using assms(1) by simp
  then show ?thesis using True
  proof (cases rule: cut_cases)
    case (sep i sep)
    have d: "drop i s = sep @ drop (i + length sep) s" using sep(4) by (metis HasPrefix_def append_take_drop_id drop_drop add.commute)
    obtain c sep' where c: "sep = c # sep'" "c \<in> set blanks" "set sep' \<subseteq> set blanks" using separators_nonempty [OF sep(1)] by (cases sep) auto
    have i: "i < length s" using sep(3) True c by simp
    have "s ! i = c" using d c i by (metis append_Cons hd_append2 hd_drop_conv_nth list.sel(1))
    then have "RuneStart (s ! i)" using c(2) by (auto simp: RuneStart_def cont_byte_def)
    note v = ValidString_cut [OF assms(2) i this]
    have "ValidString (t @ u) \<Longrightarrow> set t \<subseteq> set blanks \<Longrightarrow> ValidString u" for t u by (induction t) (auto simp: ValidString_ascii)
    then have "ValidString (drop (i + length sep) s)" using v(2) d separators_nonempty [OF sep(1)] by metis
    then show ?thesis using v(1) ascii by (simp add: sep(6) ValidString_TrimLeftSet ValidString_TrimRightSet)
  next
    case (inside i)
    from back_to_start_valid [OF assms(2) _ True] have b: "0 < back_to_start s room" "RuneStart (s ! back_to_start s room)" using assms(1) by auto
    then have "i = back_to_start s room" using inside(4) by auto
    then show ?thesis using ValidString_cut [OF assms(2) _ b(2)] back_to_start_le [of s room] True by (simp add: inside(5))
  qed
qed (use assms in \<open>simp add: cut_def\<close>)

lemma truncate_facts:
  assumes "6 \<le> mx"
  shows "int (length (truncate s mx)) \<le> mx" "ValidString s \<Longrightarrow> ValidString (truncate s mx)"
    "mx < int (length s) \<Longrightarrow> \<exists>k. truncate s mx = take k s @ ellipsis"
proof -
  let ?i = "back_to_start s (nat (mx - int (length ellipsis)))"
  have e: "length ellipsis = 3" by (simp add: ellipsis_def)
  have le: "?i \<le> nat (mx - 3)" using back_to_start_le [of s "nat (mx - 3)"] by (simp add: e)
  then show "int (length (truncate s mx)) \<le> mx" using assms by (auto simp: truncate_def e min_def)
  show "mx < int (length s) \<Longrightarrow> \<exists>k. truncate s mx = take k s @ ellipsis" using assms by (auto simp: truncate_def e)
  assume v: "ValidString s"
  show "ValidString (truncate s mx)"
  proof (cases "int (length s) \<le> mx")
    case False
    then have b: "RuneStart (s ! ?i)" "?i < length s"
      using back_to_start_valid [OF v, of "nat (mx - 3)"] le assms by (auto simp: e)
    have "ValidString ellipsis" by code_simp
    then show ?thesis using ValidString_cut(1) [OF v b(2,1)] False assms by (simp add: truncate_def e ValidString_append)
  qed (use v in \<open>simp add: truncate_def\<close>)
qed

lemma chunks_facts:
  assumes "16 \<le> mx" "n < maxParts"
  shows "(\<forall>c\<in>set (chunks_from mx n rest). int (length c) \<le> mx - 8) \<and> n + length (chunks_from mx n rest) \<le> maxParts \<and>
    (ValidString rest \<longrightarrow> (\<forall>c\<in>set (chunks_from mx n rest). ValidString c)) \<and>
    (solid (concat (chunks_from mx n rest)) = solid rest \<or>
      n + length (chunks_from mx n rest) = maxParts \<and> (\<exists>p. prefix p (solid rest) \<and> solid (concat (chunks_from mx n rest)) = p @ ellipsis))"
  using assms
proof (induction mx n rest rule: chunks_from.induct)
  case (1 mx n rest)
  have w: "partMarkWidth = 8" by (simp add: partMarkWidth_def)
  let ?room = "nat (mx - 8)"
  consider "rest = []" | "rest \<noteq> []" "n = maxParts - 1" "?room < length rest" | "rest \<noteq> []" "\<not> (n = maxParts - 1 \<and> ?room < length rest)" by blast
  then show ?case
  proof cases
    case 1
    then show ?thesis using "1.prems" by (simp add: chunks_from.simps [of mx n "[]"] w)
  next
    case 2
    have "mx - 8 < int (length rest)" "6 \<le> mx - 8" using 2(3) "1.prems"(1) by (auto simp: nat_less_iff)
    from truncate_facts(3) [OF this(2,1)] obtain k where k: "truncate rest (mx - 8) = take k rest @ ellipsis" by blast
    have "prefix (solid (take k rest)) (solid rest)" by (metis append_take_drop_id prefixI solid_append(1))
    moreover have eq: "chunks_from mx n rest = [truncate rest (mx - 8)]" using 2 "1.prems"(1) by (subst chunks_from.simps) (simp add: w)
    moreover have "n + 1 = maxParts" using 2(2) by (simp add: maxParts_def)
    moreover have "solid (truncate rest (mx - 8)) = solid (take k rest) @ ellipsis" by (simp add: k)
    ultimately show ?thesis using "1.prems"(1) truncate_facts(1,2) [of "mx - 8" rest] unfolding eq by auto
  next
    case 3
    let ?c = "fst (cut rest ?room)" and ?t = "snd (cut rest ?room)"
    have eq: "chunks_from mx n rest = ?c # chunks_from mx (n + 1) ?t" using 3 "1.prems" by (subst chunks_from.simps) (auto simp: w)
    have c: "length ?c \<le> ?room" "solid ?c @ solid ?t = solid rest" "ValidString rest \<Longrightarrow> ValidString ?c \<and> ValidString ?t"
      using cut_bounds(1) [of ?room rest] cut_solid [of ?room rest] cut_valid [of ?room rest] 3 "1.prems" by auto
    show ?thesis
    proof (cases "n = maxParts - 1")
      case True
      then have "length rest \<le> ?room" using 3 by auto
      then have t: "?t = []" and c': "?c = rest" by (simp_all add: cut_def)
      have "chunks_from mx (n + 1) [] = []" using "1.prems" by (subst chunks_from.simps) (simp add: w)
      then have one: "chunks_from mx n rest = [rest]" unfolding eq t c' by simp
      have "int (length rest) \<le> mx - 8" using \<open>length rest \<le> ?room\<close> "1.prems"(1) by linarith
      then show ?thesis unfolding one using True by (simp add: maxParts_def)
    next
      case False
      then have b: "n + 1 < maxParts" using "1.prems" by simp
      have a: "\<not> mx - int partMarkWidth < 8" "\<not> (n = maxParts - 1 \<and> nat (mx - int partMarkWidth) < length rest)" using "1.prems" False by (auto simp: w)
      have IH: "(\<forall>c\<in>set (chunks_from mx (n + 1) ?t). int (length c) \<le> mx - 8) \<and> n + 1 + length (chunks_from mx (n + 1) ?t) \<le> maxParts \<and>
        (ValidString ?t \<longrightarrow> (\<forall>c\<in>set (chunks_from mx (n + 1) ?t). ValidString c)) \<and>
        (solid (concat (chunks_from mx (n + 1) ?t)) = solid ?t \<or>
         n + 1 + length (chunks_from mx (n + 1) ?t) = maxParts \<and> (\<exists>p. prefix p (solid ?t) \<and> solid (concat (chunks_from mx (n + 1) ?t)) = p @ ellipsis))"
        using "1.IH" [OF a(1) 3(1) a(2) "1.prems"(1) b] unfolding w of_nat_numeral .
      note IH1 = IH [THEN conjunct1] and IH2 = IH [THEN conjunct2, THEN conjunct1]
        and IH3 = IH [THEN conjunct2, THEN conjunct2, THEN conjunct1] and IH4 = IH [THEN conjunct2, THEN conjunct2, THEN conjunct2]
      show ?thesis unfolding eq
      proof (intro conjI)
        have "int (length ?c) \<le> mx - 8" using c(1) "1.prems"(1) by linarith
        then show "\<forall>c\<in>set (?c # chunks_from mx (n + 1) ?t). int (length c) \<le> mx - 8" using IH1 by simp
        show "n + length (?c # chunks_from mx (n + 1) ?t) \<le> maxParts" using IH2 by simp
        show "ValidString rest \<longrightarrow> (\<forall>c\<in>set (?c # chunks_from mx (n + 1) ?t). ValidString c)" using IH3 c(3) by (metis set_ConsD)
        consider "solid (concat (chunks_from mx (n + 1) ?t)) = solid ?t"
          | q where "n + 1 + length (chunks_from mx (n + 1) ?t) = maxParts" "prefix q (solid ?t)" "solid (concat (chunks_from mx (n + 1) ?t)) = q @ ellipsis"
          using IH4 by blast
        then show "solid (concat (?c # chunks_from mx (n + 1) ?t)) = solid rest \<or> n + length (?c # chunks_from mx (n + 1) ?t) = maxParts \<and>
          (\<exists>p. prefix p (solid rest) \<and> solid (concat (?c # chunks_from mx (n + 1) ?t)) = p @ ellipsis)"
        proof cases
          case 1
          then show ?thesis using c(2) by simp
        next
          case 2
          then have "prefix (solid ?c @ q) (solid rest)" using c(2) by (metis same_prefix_prefix)
          then show ?thesis using 2 by (intro disjI2 conjI exI [of _ "solid ?c @ q"]) simp_all
        qed
      qed
    qed
  qed
qed

lemma nat_digits_ascii: "\<forall>c\<in>set (nat_digits n). of_char c < (128::nat)"
  by (induction n rule: nat_digits.induct) (subst nat_digits.simps, auto simp: less_Suc_eq)

lemma ValidString_all_ascii: "\<forall>c\<in>set t. of_char c < (128::nat) \<Longrightarrow> ValidString (t @ s) \<longleftrightarrow> ValidString s"
  by (induction t) (simp_all add: ValidString_ascii)

lemma nat_digits_short: "n < 100 \<Longrightarrow> length (nat_digits n) \<le> 2"
  by (cases "n < 10") (simp_all add: nat_digits.simps [of n] nat_digits.simps [of "n div 10"])

lemma part_mark_facts:
  "i \<le> maxParts \<Longrightarrow> n \<le> maxParts \<Longrightarrow> length (part_mark i n) \<le> partMarkWidth" "ValidString (part_mark i n @ s) \<longleftrightarrow> ValidString s"
  using nat_digits_short [of i] nat_digits_short [of n] nat_digits_ascii [of i] nat_digits_ascii [of n]
  by (auto simp: part_mark_def itoa_def maxParts_def partMarkWidth_def ValidString_ascii ValidString_all_ascii)

lemma chunks_nonempty: "text \<noteq> [] \<Longrightarrow> chunks_from mx n text \<noteq> []"
  by (simp add: chunks_from.simps [of mx n "text"])



end
