(* ===== verification/LxmfGroup.thy ===== *)
theory LxmfGroup
  imports LxmfSplit Hub
begin

text \<open>
  internal/lxmfgroup/group.go: the LXMF group adapter. The state is what the Group struct keeps (its queues, the recently seen
  messages, the deliveries in flight) together with the hub it talks to and a log of what it handed to the transport.

  The transport (reticulum-go) is a parameter: \<open>transport\<close> says what an address's announce holds and how each
  send ends, given everything that was sent before, so any network is an instance of it. Logging and the cancellation of
  contexts are left out; the channels are bounded lists. SuggestName of internal/hub/names.go, which this adapter calls, is here too.
\<close>

section \<open>SuggestName (names.go)\<close>

function shorten_name :: "nat list \<Rightarrow> nat list" where
  "shorten_name rs = (if NameMaxRunes < length rs \<or> NameMaxBytes < length (concat (map encode_rune rs))
     then shorten_name (butlast rs) else rs)"
  by pat_completeness auto
termination
  by (relation "measure length") (auto simp: NameMaxRunes_def NameMaxBytes_def intro!: diff_less)

declare shorten_name.simps [simp del]

definition suggest_char :: "env \<Rightarrow> nat \<Rightarrow> bool" where
  "suggest_char v r \<longleftrightarrow> isLatinLetter v r \<or> 48 \<le> r \<and> r \<le> 57 \<or> r \<in> {45, 95, 46}"

definition SuggestName :: "env \<Rightarrow> string \<Rightarrow> string" where
  "SuggestName v raw = (let rs = dropWhile (\<lambda>r. \<not> isLatinLetter v r) (filter (suggest_char v) (runes (nfc v (GoStrings.Join (Fields raw) ''_''))));
       s = TrimRightSet (string_of (concat (map encode_rune (shorten_name rs)))) ''-_.''
     in case CleanName v s of Inl _ \<Rightarrow> '''' | Inr (clean, _) \<Rightarrow> clean)"

section \<open>Configuration and state\<close>

record group_config =
  gc_Name :: string
  gc_GroupRoom :: string
  gc_PropagationNode :: "bytes option"
  gc_Senders :: int
  gc_JoinDigest :: int
  gc_DirectAttempts :: int
  gc_AwayFor :: int
  gc_GiveUpAfter :: int

definition group_Defaults :: group_config where
  "group_Defaults = \<lparr>gc_Name = ''ScotMesh Chat'', gc_GroupRoom = ''scotmesh'', gc_PropagationNode = None, gc_Senders = 16, gc_JoinDigest = 10,
     gc_DirectAttempts = 2, gc_AwayFor = 10 * minute_ns, gc_GiveUpAfter = 24 * hour_ns\<rparr>"

definition group_fill :: "group_config \<Rightarrow> group_config" where
  "group_fill c = (let d = group_Defaults in \<lparr>
     gc_Name = if gc_Name c = '''' then gc_Name d else gc_Name c,
     gc_GroupRoom = if gc_GroupRoom c = '''' then gc_GroupRoom d else gc_GroupRoom c,
     gc_PropagationNode = (case gc_PropagationNode c of Some n \<Rightarrow> if length n \<noteq> 16 then None else Some n | None \<Rightarrow> None),
     gc_Senders = if gc_Senders c \<le> 0 then gc_Senders d else gc_Senders c,
     gc_JoinDigest = if gc_JoinDigest c \<le> 0 then gc_JoinDigest d else gc_JoinDigest c,
     gc_DirectAttempts = if gc_DirectAttempts c \<le> 0 then gc_DirectAttempts d else gc_DirectAttempts c,
     gc_AwayFor = if gc_AwayFor c \<le> 0 then gc_AwayFor d else gc_AwayFor c,
     gc_GiveUpAfter = if gc_GiveUpAfter c \<le> 0 then gc_GiveUpAfter d else gc_GiveUpAfter c\<rparr>)"

text \<open>lxmf.Message, as far as the adapter reads it; its two keys are methods of the library.\<close>

record lxmf_message =
  lm_SourceHash :: bytes
  lm_Content :: bytes
  lm_Timestamp :: millis
  lm_DedupKey :: string
  lm_MessageID :: bytes

record known_identity =
  ki_PublicKey :: bytes
  ki_AppData :: bytes

record outgoing =
  og_to :: ident
  og_content :: string

record group_stats =
  gs_Received :: nat
  gs_Duplicates :: nat
  gs_UnknownSender :: nat
  gs_Sent :: nat
  gs_Propagated :: nat
  gs_Retries :: nat
  gs_GaveUp :: nat
  gs_InboxDropped :: nat

datatype send_error = ErrStampCostTooHigh | ErrRecipientUnknown | ErrLinkPeerUnknown | ErrPropagationNodeUnknown | ErrSend string

text \<open>What was handed to the transport: a direct send, a send through a propagation node, a path request.\<close>

datatype sending = Direct bytes string | Propagated bytes bytes string | PathRequest bytes

record transport =
  tp_Recall :: "bytes \<Rightarrow> known_identity option"
  tp_IdentityHash :: "bytes \<Rightarrow> ident"
  tp_DisplayName :: "bytes \<Rightarrow> string option"
  tp_Send :: "sending list \<Rightarrow> sending \<Rightarrow> send_error option"

record group =
  g_cfg :: group_config
  g_hub :: hub
  g_inbox :: "lxmf_message list"
  g_replies :: "outgoing list"
  g_wake :: bool
  g_seen :: "string list"
  g_inFlight :: "string list"
  g_finished :: "(string \<times> nat) list"
  g_seq :: nat
  g_stats :: group_stats
  g_log :: "sending list"
  g_round :: "nat \<times> PendingDelivery list"
  g_jobs :: "PendingDelivery list"

definition group_New :: "group_config \<Rightarrow> hub \<Rightarrow> group" where
  "group_New c h = \<lparr>g_cfg = group_fill c, g_hub = h, g_inbox = [], g_replies = [], g_wake = False, g_seen = [], g_inFlight = [],
     g_finished = [], g_seq = 0, g_stats = \<lparr>gs_Received = 0, gs_Duplicates = 0, gs_UnknownSender = 0, gs_Sent = 0, gs_Propagated = 0,
       gs_Retries = 0, gs_GaveUp = 0, gs_InboxDropped = 0\<rparr>, g_log = [], g_round = (0, []), g_jobs = []\<rparr>"

definition count_group :: "(group_stats \<Rightarrow> group_stats) \<Rightarrow> group \<Rightarrow> group" where
  "count_group f g = g\<lparr>g_stats := f (g_stats g)\<rparr>"

text \<open>A call on the hub.\<close>

definition on_hub :: "'a hm \<Rightarrow> group \<Rightarrow> (err + 'a) \<times> group" where
  "on_hub m g = (case m (g_hub g) of (r, h) \<Rightarrow> (r, g\<lparr>g_hub := h\<rparr>))"

definition inbox_size :: nat where "inbox_size = 512"
definition replies_size :: nat where "replies_size = 512"

definition OnMessage :: "lxmf_message \<Rightarrow> group \<Rightarrow> group" where
  "OnMessage m g = (if length (g_inbox g) < inbox_size then g\<lparr>g_inbox := g_inbox g @ [m]\<rparr>
     else count_group (\<lambda>s. s\<lparr>gs_InboxDropped := gs_InboxDropped s + 1\<rparr>) g)"

definition nudge :: "group \<Rightarrow> group" where
  "nudge g = g\<lparr>g_wake := True\<rparr>"

definition group_reply :: "ident \<Rightarrow> string \<Rightarrow> group \<Rightarrow> group" where
  "group_reply i content g = (if length (g_replies g) < replies_size
     then nudge (g\<lparr>g_replies := g_replies g @ [\<lparr>og_to = i, og_content = content\<rparr>]\<rparr>) else g)"

section \<open>seenSet\<close>

definition seen_max :: nat where "seen_max = 4096"

text \<open>The set is the keys in the order list: add keeps the two in step.\<close>

definition seen_add :: "string \<Rightarrow> group \<Rightarrow> bool \<times> group" where
  "seen_add k g = (if k \<in> set (g_seen g) then (False, g)
     else let order = g_seen g @ [k] in (True, g\<lparr>g_seen := if seen_max < length order then tl order else order\<rparr>))"

section \<open>Inbound\<close>

definition group_post :: "ident \<Rightarrow> lxmf_message \<Rightarrow> string \<Rightarrow> bool \<Rightarrow> group \<Rightarrow> group" where
  "group_post i m body action g = (case on_hub (Post \<lparr>pr_Via = ViaLXMF, pr_Identity = i, pr_Room = '''', pr_Action = action, pr_Body = body,
       pr_OriginID = Some (lm_MessageID m), pr_SaidAt = lm_Timestamp m, pr_Ext = None\<rparr>) g of
     (r, g1) \<Rightarrow> nudge (case r of
       Inr _ \<Rightarrow> g1
     | Inl (UserError t) \<Rightarrow>
         if HasPrefix t ''send /join first''
         then group_reply i (''This is '' @ gc_Name (g_cfg g) @ ''. Send /join to take part: you'll get every message from #'' @ gc_GroupRoom (g_cfg g) @
           '' on RRC, this group and the chat page, and yours will reach them all.'') g1
         else group_reply i (''Not sent: '' @ t) g1
     | Inl _ \<Rightarrow> group_reply i ''Not sent: something went wrong on the hub. Please try again.'' g1))"

definition announcedName :: "transport \<Rightarrow> env \<Rightarrow> known_identity \<Rightarrow> string" where
  "announcedName tr v k = (if ki_AppData k = [] then '''' else case tp_DisplayName tr (ki_AppData k) of None \<Rightarrow> '''' | Some n \<Rightarrow> SuggestName v n)"

text \<open>The adapter's clock always uses the short form, which is the hub's for a time that is not days ago.\<close>

definition group_clock :: "env \<Rightarrow> millis \<Rightarrow> string" where
  "group_clock v ms = clock_text v (ms * 1000000) ms"

definition formatHistory :: "env \<Rightarrow> string \<Rightarrow> message list \<Rightarrow> string" where
  "formatHistory v note msgs = GoStrings.Join (note # map (\<lambda>m. ''['' @ group_clock v (m_SaidAt m) @ ''] '' @ LXMFLine m) msgs) [CHR 0x0A]"

definition em_dash :: string where
  "em_dash = [CHR 0xE2, CHR 0x80, CHR 0x94]"

definition join_digest :: "group \<Rightarrow> string list \<times> group" where
  "join_digest g = (case on_hub (Recent (gc_GroupRoom (g_cfg g)) (gc_JoinDigest (g_cfg g)) 0) g of
     (Inr recent, g1) \<Rightarrow> (if recent = [] then [] else
         [formatHistory (env (g_hub g)) (em_dash @ '' the last '' @ itoa (int (length recent)) @ '' messages '' @ em_dash) recent], g1)
   | (Inl _, g1) \<Rightarrow> ([], g1))"

definition command_text :: "transport \<Rightarrow> env \<Rightarrow> known_identity \<Rightarrow> string \<Rightarrow> bool \<Rightarrow> string" where
  "command_text tr v k body claimed = (let fields = Fields body; name = announcedName tr v k in
     if EqualFold (tl (hd fields)) ''join'' \<and> length fields = 1 \<and> \<not> claimed \<and> name \<noteq> '''' then hd fields @ '' '' @ name else body)"

definition group_command :: "transport \<Rightarrow> string \<Rightarrow> ident \<Rightarrow> known_identity \<Rightarrow> string \<Rightarrow> group \<Rightarrow> group" where
  "group_command tr code i k body g = (case on_hub (hub_PersonOf i) g of
     (Inl _, g1) \<Rightarrow> g1
   | (Inr before, g1) \<Rightarrow>
      (case on_hub (Command code \<lparr>cr_Via = ViaLXMF, cr_Identity = i, cr_Room = gc_GroupRoom (g_cfg g),
          cr_Text = command_text tr (env (g_hub g)) k body (ps_Claimed before)\<rparr>) g1 of
        (Inl _, g2) \<Rightarrow> group_reply i ''That didn't work: something went wrong on the hub. Please try again.'' g2
      | (Inr rep, g2) \<Rightarrow>
         let out = (if Lines rep \<noteq> [] then [GoStrings.Join (Lines rep) [CHR 0x0A]] else []) @
             (if History rep \<noteq> [] then [formatHistory (env (g_hub g)) (HistoryNote rep) (History rep)] else []) in
         case (if EqualFold (tl (hd (Fields body))) ''join'' \<and> \<not> ps_Member before \<and> \<not> Reply_Error rep then join_digest g2 else ([], g2)) of
           (digest, g3) \<Rightarrow> if out @ digest \<noteq> [] then group_reply i (GoStrings.Join (out @ digest) [CHR 0x0A, CHR 0x0A]) g3 else g3))"

definition handle_text :: "transport \<Rightarrow> string \<Rightarrow> ident \<Rightarrow> known_identity \<Rightarrow> lxmf_message \<Rightarrow> group \<Rightarrow> group" where
  "handle_text tr code i k m g = (let body = TrimSpace (lm_Content m) in
     if body = '''' then g
     else case ActionText body of
       Some action \<Rightarrow> group_post i m action True g
     | None \<Rightarrow> if IsCommand (ulower (env (g_hub g))) body then group_command tr code i k body g else group_post i m body False g)"

definition request_path :: "bytes \<Rightarrow> group \<Rightarrow> group" where
  "request_path a g = g\<lparr>g_log := g_log g @ [PathRequest a]\<rparr>"

definition group_handle :: "transport \<Rightarrow> string \<Rightarrow> lxmf_message \<Rightarrow> group \<Rightarrow> group" where
  "group_handle tr code m g0 = (let g = count_group (\<lambda>s. s\<lparr>gs_Received := gs_Received s + 1\<rparr>) g0 in
     case tp_Recall tr (lm_SourceHash m) of
       None \<Rightarrow> request_path (lm_SourceHash m) (count_group (\<lambda>s. s\<lparr>gs_UnknownSender := gs_UnknownSender s + 1\<rparr>) g)
     | Some k \<Rightarrow> if ki_PublicKey k = []
         then request_path (lm_SourceHash m) (count_group (\<lambda>s. s\<lparr>gs_UnknownSender := gs_UnknownSender s + 1\<rparr>) g)
         else case seen_add (lm_DedupKey m) g of
           (False, g1) \<Rightarrow> count_group (\<lambda>s. s\<lparr>gs_Duplicates := gs_Duplicates s + 1\<rparr>) g1
         | (True, g1) \<Rightarrow> let i = tp_IdentityHash tr (ki_PublicKey k) in
             (case on_hub (Identify i (Some (ki_PublicKey k))) g1 of (Inl _, g2) \<Rightarrow> g2 | (Inr _, g2) \<Rightarrow> handle_text tr code i k m g2))"

section \<open>Events\<close>

definition group_plural :: "int \<Rightarrow> string \<Rightarrow> string \<Rightarrow> string" where
  "group_plural n one many = (if n = 1 then ''1 '' @ one @ '' said'' else itoa n @ '' '' @ many @ '' said'')"

definition replyIfMember :: "ident \<Rightarrow> string \<Rightarrow> group \<Rightarrow> group" where
  "replyIfMember i txt g = (case on_hub (hub_PersonOf i) g of
     (Inr p, g1) \<Rightarrow> if ps_Member p then group_reply i txt g1 else g1 | (Inl _, g1) \<Rightarrow> g1)"

definition group_event :: "Event \<Rightarrow> group \<Rightarrow> group" where
  "group_event e g = (case e of
     MessageEvent m to \<Rightarrow> if to \<noteq> [] then nudge g else g
   | WhisperEvent w to \<Rightarrow> nudge g
   | LXMFResumeEvent i missed \<Rightarrow> group_reply i (''LXMF delivery is back on. '' @ group_plural (int missed) ''message was'' ''messages were'' @
       '' while it was paused: send /history '' @ itoa (min (int missed) 100) @ '' to read them.'') g
   | NoticeEvent i room txt toLXMF \<Rightarrow> if toLXMF then group_reply i txt g else replyIfMember i txt g
   | _ \<Rightarrow> g)"

section \<open>Outbound\<close>

text \<open>One send: how it ends depends on what was sent so far and on what is sent; it is logged either way.\<close>

definition send_on :: "transport \<Rightarrow> sending \<Rightarrow> group \<Rightarrow> send_error option \<times> group" where
  "send_on tr x g = (tp_Send tr (g_log g) x, g\<lparr>g_log := g_log g @ [x]\<rparr>)"

text \<open>The loop of sendReply after a direct send failed: this part and the ones after it through the propagation node.\<close>

fun propagate_rest :: "transport \<Rightarrow> bytes \<Rightarrow> bytes \<Rightarrow> string list \<Rightarrow> group \<Rightarrow> group" where
  "propagate_rest tr node addr [] g = g"
| "propagate_rest tr node addr (p # ps) g = (case send_on tr (Propagated node addr p) g of
     (Some _, g1) \<Rightarrow> g1
   | (None, g1) \<Rightarrow> propagate_rest tr node addr ps (count_group (\<lambda>s. s\<lparr>gs_Propagated := gs_Propagated s + 1\<rparr>) g1))"

fun reply_parts :: "transport \<Rightarrow> bytes \<Rightarrow> string list \<Rightarrow> group \<Rightarrow> group" where
  "reply_parts tr addr [] g = g"
| "reply_parts tr addr (p # ps) g = (case send_on tr (Direct addr p) g of
     (None, g1) \<Rightarrow> reply_parts tr addr ps g1
   | (Some _, g1) \<Rightarrow> (case gc_PropagationNode (g_cfg g1) of None \<Rightarrow> g1 | Some node \<Rightarrow> propagate_rest tr node addr (p # ps) g1))"

definition sendReply :: "transport \<Rightarrow> outgoing \<Rightarrow> group \<Rightarrow> group" where
  "sendReply tr r g = reply_parts tr (LXMFAddress (env (g_hub g)) (og_to r)) (Split (og_content r) (int MaxContent)) g"

definition deliveryKey :: "delivery \<Rightarrow> string" where
  "deliveryKey d = itoa (dl_MessageID d) @ ''/'' @ hexID (dl_Identity d)"

text \<open>The loop of deliver over the parts still to send: how far it got, and the error it stopped at.\<close>

fun send_parts :: "transport \<Rightarrow> bytes option \<Rightarrow> bytes \<Rightarrow> string list \<Rightarrow> int \<Rightarrow> group \<Rightarrow> int \<times> send_error option \<times> group" where
  "send_parts tr via addr [] sent g = (sent, None, g)"
| "send_parts tr via addr (p # ps) sent g = (case send_on tr (case via of Some node \<Rightarrow> Propagated node addr p | None \<Rightarrow> Direct addr p) g of
     (Some e, g1) \<Rightarrow> (sent, Some e, g1)
   | (None, g1) \<Rightarrow> send_parts tr via addr ps (sent + 1) g1)"

text \<open>record: times in nanoseconds, as the caller computes them; \<open>None\<close> is Go's zero time.\<close>

definition group_record :: "delivery \<Rightarrow> DeliveryOutcome \<Rightarrow> bool \<Rightarrow> int \<Rightarrow> int option \<Rightarrow> group \<Rightarrow> group" where
  "group_record d outcome propagated retryAt awayUntil g =
     (case on_hub (RecordDelivery d outcome propagated (retryAt div 1000000) (map_option (\<lambda>u. u div 1000000) awayUntil)) g of
     (_, g1) \<Rightarrow> if outcome = RetryAt \<and> retryAt \<le> now_ns (g_hub g1) then nudge g1 else g1)"

text \<open>What deliver does after a failed attempt (d counts it already): the switch on the error.\<close>

definition after_failure :: "send_error \<Rightarrow> bool \<Rightarrow> int \<Rightarrow> delivery \<Rightarrow> bytes \<Rightarrow> group \<Rightarrow> group" where
  "after_failure e propagate now d addr g = (
     if e = ErrStampCostTooHigh
     then group_record d GaveUp False 0 None (count_group (\<lambda>s. s\<lparr>gs_GaveUp := gs_GaveUp s + 1\<rparr>) g)
     else if e = ErrRecipientUnknown \<or> e = ErrLinkPeerUnknown
     then group_record d RetryAt False (now + 30 * second_ns) None (request_path addr g)
     else if e = ErrPropagationNodeUnknown
     then group_record d RetryAt False (now + minute_ns) None
       (request_path (case gc_PropagationNode (g_cfg g) of Some n \<Rightarrow> n | None \<Rightarrow> []) g)
     else if \<not> propagate \<and> gc_DirectAttempts (g_cfg g) \<le> dl_Attempts d
     then group_record d RetryAt False now (Some (now + gc_AwayFor (g_cfg g))) g
     else group_record d RetryAt propagate (now + min (dl_Attempts d * 30 * second_ns) (10 * minute_ns)) None g)"

text \<open>
  deliver: one attempt at one delivery. \<open>took\<close> is how long the sends took: the clock is read once before them, and
  what is recorded afterwards carries the time they ended.
\<close>

definition attempt_parts :: "transport \<Rightarrow> PendingDelivery \<Rightarrow> group \<Rightarrow> int \<times> send_error option \<times> group" where
  "attempt_parts tr p g = (let d = pd_Delivery p; away = nowMS (g_hub g) < pd_AwayUntil p;
       via = (if away then gc_PropagationNode (g_cfg g) else None)
     in send_parts tr via (LXMFAddress (env (g_hub g)) (dl_Identity d))
       (drop (nat (dl_PartsDone d)) (Split (PendingDelivery_Text p) (int MaxContent))) (dl_PartsDone d) g)"

definition propagates :: "PendingDelivery \<Rightarrow> group \<Rightarrow> bool" where
  "propagates p g \<longleftrightarrow> nowMS (g_hub g) < pd_AwayUntil p \<and> gc_PropagationNode (g_cfg g) \<noteq> None"

definition pass_time :: "int \<Rightarrow> group \<Rightarrow> group" where
  "pass_time took g = g\<lparr>g_hub := (g_hub g)\<lparr>now_ns := now_ns (g_hub g) + took\<rparr>\<rparr>"

definition deliver :: "transport \<Rightarrow> int \<Rightarrow> PendingDelivery \<Rightarrow> group \<Rightarrow> group" where
  "deliver tr took p g = (let now = now_ns (g_hub g); d = pd_Delivery p in
     if gc_GiveUpAfter (g_cfg g) < now - PendingDelivery_SaidAt p * 1000000
     then group_record d GaveUp False 0 None (count_group (\<lambda>s. s\<lparr>gs_GaveUp := gs_GaveUp s + 1\<rparr>) g)
     else case attempt_parts tr p g of
       (sent, None, g1) \<Rightarrow> group_record (d\<lparr>dl_PartsDone := sent\<rparr>) Delivered (propagates p g) 0 None
         (count_group (\<lambda>s. if propagates p g then s\<lparr>gs_Propagated := gs_Propagated s + 1\<rparr> else s\<lparr>gs_Sent := gs_Sent s + 1\<rparr>) (pass_time took g1))
     | (sent, Some e, g1) \<Rightarrow> after_failure e (propagates p g) now (d\<lparr>dl_PartsDone := sent, dl_Attempts := dl_Attempts d + 1\<rparr>)
         (LXMFAddress (env (g_hub g)) (dl_Identity d)) (count_group (\<lambda>s. s\<lparr>gs_Retries := gs_Retries s + 1\<rparr>) (pass_time took g1)))"

section \<open>Scheduling\<close>

text \<open>The start of a round of schedule: the sequence number and, after it, the due deliveries.\<close>

definition note_seq :: "group \<Rightarrow> group" where
  "note_seq g = g\<lparr>g_round := (g_seq g, [])\<rparr>"

definition fetch_due :: "group \<Rightarrow> group" where
  "fetch_due g = (case on_hub (hub_DueDeliveries 256) g of
     (Inr due, g1) \<Rightarrow> g1\<lparr>g_round := (fst (g_round g), due)\<rparr> | (Inl _, g1) \<Rightarrow> g1\<lparr>g_round := (fst (g_round g), [])\<rparr>)"

definition finished_at :: "string \<Rightarrow> group \<Rightarrow> nat" where
  "finished_at k g = (case map_of (g_finished g) k of Some n \<Rightarrow> n | None \<Rightarrow> 0)"

text \<open>
  The next delivery of a round: skipped when it is busy, handed to a sender when one is waiting (\<open>free\<close>), and otherwise the
  round is over. A delivery handed over is a job of \<open>g_jobs\<close> until its sender is done.
\<close>

definition dispatch :: "bool \<Rightarrow> group \<Rightarrow> group" where
  "dispatch free g = (case g_round g of
     (n, []) \<Rightarrow> g
   | (n, p # ps) \<Rightarrow> let k = deliveryKey (pd_Delivery p) in
       if k \<in> set (g_inFlight g) \<or> n < finished_at k g then g\<lparr>g_round := (n, ps)\<rparr>
       else if free then g\<lparr>g_round := (n, ps), g_inFlight := k # g_inFlight g, g_jobs := g_jobs g @ [p]\<rparr>
       else g\<lparr>g_round := (n, [])\<rparr>)"

text \<open>What a sender does after an attempt: the key leaves inFlight and is noted as finished; old notes go when there are many.\<close>

definition settle_job :: "string \<Rightarrow> group \<Rightarrow> group" where
  "settle_job k g = (let sq = g_seq g + 1; fin = (k, sq) # filter (\<lambda>x. fst x \<noteq> k) (g_finished g) in
     g\<lparr>g_inFlight := removeAll k (g_inFlight g), g_seq := sq,
       g_finished := if 4096 < length fin then filter (\<lambda>x. \<not> snd x + 2048 < sq) fin else fin\<rparr>)"

definition run_job :: "transport \<Rightarrow> int \<Rightarrow> nat \<Rightarrow> group \<Rightarrow> group" where
  "run_job tr took j g = (let p = g_jobs g ! j in
     settle_job (deliveryKey (pd_Delivery p)) (deliver tr took p (g\<lparr>g_jobs := take j (g_jobs g) @ drop (j + 1) (g_jobs g)\<rparr>)))"

section \<open>The adapter at work\<close>

text \<open>
  Everything that can happen to the adapter, in any order: a message arrives or is handled, an event of its subscription
  (number \<open>n\<close>) is taken, the scheduler takes a step, a sender ends an attempt, a reply goes out, and the hub serves
  somebody else. \<open>code\<close> is the random code a /link would be given.
\<close>

inductive group_step :: "transport \<Rightarrow> nat \<Rightarrow> group \<Rightarrow> group \<Rightarrow> bool" for tr n where
  g_arrive: "group_step tr n g (OnMessage m g)"
| g_receive: "g_inbox g = m # ms \<Longrightarrow> group_step tr n g (group_handle tr code m (g\<lparr>g_inbox := ms\<rparr>))"
| g_watch: "n < length (subs (g_hub g)) \<Longrightarrow> sub_ch (subs (g_hub g) ! n) = e # es \<Longrightarrow>
    group_step tr n g (group_event e (g\<lparr>g_hub := receive n (g_hub g)\<rparr>))"
| g_note: "group_step tr n g (note_seq (g\<lparr>g_wake := False\<rparr>))"
| g_fetch: "group_step tr n g (fetch_due g)"
| g_dispatch: "group_step tr n g (dispatch free g)"
| g_job: "j < length (g_jobs g) \<Longrightarrow> 0 \<le> took \<Longrightarrow> group_step tr n g (run_job tr took j g)"
| g_send: "g_replies g = r # rs \<Longrightarrow> group_step tr n g (sendReply tr r (g\<lparr>g_replies := rs\<rparr>))"
| g_other: "hub_step (g_hub g) h \<Longrightarrow> group_step tr n g (g\<lparr>g_hub := h\<rparr>)"

inductive group_reach :: "transport \<Rightarrow> nat \<Rightarrow> group \<Rightarrow> bool" for tr n where
  group_start: "hub_reach h \<Longrightarrow> group_reach tr n (group_New c h)"
| group_more: "group_reach tr n g \<Longrightarrow> group_step tr n g g' \<Longrightarrow> group_reach tr n g'"

end
