(* ===== verification/Adapter.thy ===== *)
theory Adapter
  imports HubPosting
begin

text \<open>
  What every adapter of the hub (the LXMF group, the RRC server) relies on: it holds a hub and changes it only through the hub's
  requests, so that everything proved of the hub's histories holds while the adapter runs.
\<close>

section \<open>Calls on the hub\<close>

definition calls :: "'a hm \<Rightarrow> bool" where
  "calls m \<longleftrightarrow> (\<forall>h r h'. m h = (r, h') \<longrightarrow> hub_step\<^sup>*\<^sup>* h h')"

lemma view_calls: "(\<And>h. snd (m h) = h) \<Longrightarrow> calls (view m)"
  by (auto simp: calls_def view_def split: prod.splits) (metis rtranclp.rtrancl_refl snd_conv surjective hub.surjective hub.update_convs(4))

lemma person_reads: "snd (person i h) = h"
  by (simp add: person_def bnd_def asks_def queryE_def split: sum.splits)

lemma hub_calls:
  "calls (Identify i pk)" "calls (Post pr)" "calls (Command code cr)" "calls (RecordDelivery x oc pp ra au)"
  "calls (hub_PersonOf i)" "calls (Recent room n b)" "calls (hub_DueDeliveries k)" "calls (hub_ClaimName i want)" "calls (Join_request jr)"
  "calls (Part i room)" "calls (Disconnect i rs)" "calls (MayNotice i room)" "calls (MayNotifyDirect i j)" "calls (hub_UnsentRRCWhispers i)"
  "calls (WhisperSentRRC w)"
proof -
  show "calls (Identify i pk)" "calls (Post pr)" "calls (Command code cr)" "calls (RecordDelivery x oc pp ra au)"
    unfolding calls_def by (blast intro: do_Identify do_Post do_Command do_RecordDelivery)+
  show "calls (hub_PersonOf i)" unfolding hub_PersonOf_def by (rule view_calls) (rule person_reads)
  show "calls (Recent room n b)" unfolding Recent_def by (rule view_calls) (simp add: query_def)
  show "calls (hub_DueDeliveries k)" unfolding hub_DueDeliveries_def by (rule view_calls) (simp add: asks_def)
  show "calls (hub_ClaimName i want)" "calls (Join_request jr)" "calls (Part i room)" "calls (Disconnect i rs)" "calls (MayNotice i room)"
    "calls (MayNotifyDirect i j)" "calls (WhisperSentRRC w)"
    unfolding calls_def by (blast intro: do_ClaimName do_Join do_Part do_Disconnect do_MayNotice do_MayNotifyDirect do_WhisperSentRRC)+
  show "calls (hub_UnsentRRCWhispers i)" unfolding hub_UnsentRRCWhispers_def by (rule view_calls) (simp add: asks_def query_def bnd_def)
qed

text \<open>An adapter holds a hub and calls it; whatever it does otherwise leaves the hub alone.\<close>

locale adapter =
  fixes hub_of :: "'s \<Rightarrow> hub" and with_hub :: "hub \<Rightarrow> 's \<Rightarrow> 's"
  assumes hub_of_with [simp]: "hub_of (with_hub h s) = h"
begin

definition runs_to :: "'s \<Rightarrow> 's \<Rightarrow> bool" where
  "runs_to s s' \<longleftrightarrow> hub_step\<^sup>*\<^sup>* (hub_of s) (hub_of s')"

lemma runs_refl: "hub_of s' = hub_of s \<Longrightarrow> runs_to s s'"
  by (simp add: runs_to_def)

lemma runs_from: "hub_of s' = hub_of s \<Longrightarrow> runs_to s' t \<Longrightarrow> runs_to s t"
  by (simp add: runs_to_def)

lemma runs_trans: "runs_to s t \<Longrightarrow> runs_to t u \<Longrightarrow> runs_to s u"
  unfolding runs_to_def by (rule rtranclp_trans)

lemma runs_call: "calls m \<Longrightarrow> m (hub_of s) = (r, h) \<Longrightarrow> hub_of s' = h \<Longrightarrow> runs_to s s'"
  by (auto simp: calls_def runs_to_def)

lemma runs_reach: "runs_to s s' \<Longrightarrow> hub_reach (hub_of s) \<Longrightarrow> hub_reach (hub_of s')"
  unfolding runs_to_def by (induction rule: rtranclp_induct) (auto intro: stepped)

end

text \<open>A hub just started, for the examples.\<close>

definition town_started :: hub where
  "town_started = projr (New Defaults ascii_env 100000000 town_db)"

lemma town_started_reach: "hub_reach town_started"
proof (rule started [OF town_reach])
  show "\<And>i. IsBanned i town_db \<Longrightarrow> \<not> IsMember i town_db" by (simp add: town_db_def IsBanned_def)
  have "isl (New Defaults ascii_env 100000000 town_db) = False" by code_simp
  then show "New Defaults ascii_env 100000000 town_db = Inr town_started"
    unfolding town_started_def by (cases "New Defaults ascii_env 100000000 town_db") simp_all
qed

end
