(* ===== verification/LxmfDelivery.thy ===== *)
theory LxmfDelivery
  imports LxmfGroup Adapter
begin

text \<open>
  What the LXMF group adapter promises. Whatever it does to the hub it does through the hub's requests, so everything proved
  of the hub holds with the adapter running; a delivery is never tried by two senders at once; the parts of a message go out
  in order and once each over any number of attempts; and every attempt settles its delivery or sets the next one within ten minutes.
\<close>

interpretation lg: adapter g_hub "\<lambda>h g. g\<lparr>g_hub := h\<rparr>"
  by unfold_locales simp

section \<open>What leaves the hub alone\<close>

lemma group_frame [simp]:
  "g_hub (count_group f g) = g_hub g" "g_hub (nudge g) = g_hub g" "g_hub (group_reply i c g) = g_hub g" "g_hub (request_path a g) = g_hub g"
  "g_hub (OnMessage m g) = g_hub g" "g_hub (note_seq g) = g_hub g" "g_hub (dispatch free g) = g_hub g" "g_hub (settle_job k g) = g_hub g"
  "g_cfg (count_group f g) = g_cfg g" "g_cfg (nudge g) = g_cfg g" "g_cfg (group_reply i c g) = g_cfg g" "g_cfg (request_path a g) = g_cfg g"
  by (simp_all add: count_group_def nudge_def group_reply_def request_path_def OnMessage_def note_seq_def dispatch_def settle_job_def Let_def
      split: prod.splits list.splits)

lemma on_hub_runs: "calls m \<Longrightarrow> on_hub m g = (r, g') \<Longrightarrow> lg.runs_to g g'"
  by (auto simp: on_hub_def split: prod.splits intro: lg.runs_call)

lemma seen_add_frame [simp]: "g_hub (snd (seen_add k g)) = g_hub g"
  by (simp add: seen_add_def Let_def)

lemma send_on_frame: "send_on tr x g = (e, g') \<Longrightarrow> g_hub g' = g_hub g \<and> g_cfg g' = g_cfg g"
  by (auto simp: send_on_def)

lemma propagate_rest_frame [simp]: "g_hub (propagate_rest tr node addr ps g) = g_hub g"
  by (induction ps arbitrary: g) (auto split: prod.splits option.splits dest: send_on_frame)

lemma reply_parts_frame [simp]: "g_hub (reply_parts tr addr ps g) = g_hub g"
  by (induction ps arbitrary: g) (auto simp del: propagate_rest.simps split: prod.splits option.splits dest: send_on_frame)

lemma send_parts_frame: "send_parts tr via addr ps k g = (k', e, g') \<Longrightarrow> g_hub g' = g_hub g \<and> g_cfg g' = g_cfg g"
  by (induction ps arbitrary: k g) (auto split: prod.splits option.splits dest!: send_on_frame)

lemma group_post_runs: "lg.runs_to g (group_post i m body action g)"
proof -
  obtain r g1 where c: "on_hub (Post \<lparr>pr_Via = ViaLXMF, pr_Identity = i, pr_Room = '''', pr_Action = action, pr_Body = body,
       pr_OriginID = Some (lm_MessageID m), pr_SaidAt = lm_Timestamp m, pr_Ext = None\<rparr>) g = (r, g1)" by force
  have "g_hub (group_post i m body action g) = g_hub g1" by (auto simp: group_post_def c split: sum.splits err.splits)
  then show ?thesis using on_hub_runs [OF hub_calls(2) c] by (metis lg.runs_refl lg.runs_trans)
qed

lemma join_digest_runs: "lg.runs_to g (snd (join_digest g))"
proof -
  obtain r g1 where c: "on_hub (Recent (gc_GroupRoom (g_cfg g)) (gc_JoinDigest (g_cfg g)) 0) g = (r, g1)" by force
  then have "snd (join_digest g) = g1" by (auto simp: join_digest_def split: sum.splits)
  then show ?thesis using on_hub_runs [OF hub_calls(6) c] by simp
qed

lemma group_command_runs: "lg.runs_to g (group_command tr code i k body g)"
proof -
  obtain p g1 where a: "on_hub (hub_PersonOf i) g = (p, g1)" by force
  have ra: "lg.runs_to g g1" by (rule on_hub_runs [OF hub_calls(5) a])
  show ?thesis
  proof (cases p)
    case (Inl e)
    then show ?thesis using ra by (simp add: group_command_def a)
  next
    case (Inr before)
    obtain r g2 where b: "on_hub (Command code \<lparr>cr_Via = ViaLXMF, cr_Identity = i, cr_Room = gc_GroupRoom (g_cfg g),
          cr_Text = command_text tr (env (g_hub g)) k body (ps_Claimed before)\<rparr>) g1 = (r, g2)" by force
    have rb: "lg.runs_to g g2" using lg.runs_trans [OF ra on_hub_runs [OF hub_calls(3) b]] .
    show ?thesis
    proof (cases r)
      case (Inl e)
      then have "g_hub (group_command tr code i k body g) = g_hub g2" by (simp add: group_command_def a Inr b)
      then show ?thesis using rb by (metis lg.runs_refl lg.runs_trans)
    next
      case ok: (Inr rep)
      have "g_hub (group_command tr code i k body g) \<in> {g_hub g2, g_hub (snd (join_digest g2))}"
        by (auto simp: group_command_def a Inr b ok Let_def split: prod.splits)
      then show ?thesis using rb join_digest_runs [of g2] by (metis empty_iff insertE lg.runs_refl lg.runs_trans)
    qed
  qed
qed

lemma group_handle_runs: "lg.runs_to g (group_handle tr code m g)"
proof -
  have words: "lg.runs_to g' (handle_text tr code i k m g')" for i k g'
    using group_post_runs group_command_runs by (auto simp: handle_text_def Let_def lg.runs_refl split: option.splits)
  let ?g = "count_group (\<lambda>s. s\<lparr>gs_Received := gs_Received s + 1\<rparr>) g"
  show ?thesis
  proof (cases "tp_Recall tr (lm_SourceHash m)")
    case None
    then show ?thesis by (simp add: group_handle_def Let_def lg.runs_refl)
  next
    case (Some k)
    obtain fresh g1 where s: "seen_add (lm_DedupKey m) ?g = (fresh, g1)" by force
    have h1: "g_hub g1 = g_hub g" using seen_add_frame [of "lm_DedupKey m" ?g] unfolding s by simp
    let ?i = "tp_IdentityHash tr (ki_PublicKey k)"
    obtain r g2 where c: "on_hub (Identify ?i (Some (ki_PublicKey k))) g1 = (r, g2)" by force
    have "lg.runs_to g g2" using on_hub_runs [OF hub_calls(1) c] h1 by (metis lg.runs_refl lg.runs_trans)
    then have "lg.runs_to g (case r of Inl _ \<Rightarrow> g2 | Inr _ \<Rightarrow> handle_text tr code ?i k m g2)"
      by (cases r) (auto intro: lg.runs_trans [OF _ words])
    then show ?thesis using h1 by (auto simp: group_handle_def Some s c Let_def lg.runs_refl simp del: One_nat_def split: bool.splits sum.splits)
  qed
qed

lemma group_event_runs: "lg.runs_to g (group_event e g)"
proof -
  have "lg.runs_to g (replyIfMember i t g)" for i t
  proof -
    obtain p g1 where a: "on_hub (hub_PersonOf i) g = (p, g1)" by force
    have "g_hub (replyIfMember i t g) = g_hub g1" by (auto simp: replyIfMember_def a split: sum.splits)
    then show ?thesis using on_hub_runs [OF hub_calls(5) a] by (metis lg.runs_refl lg.runs_trans)
  qed
  then show ?thesis by (auto simp: group_event_def lg.runs_refl split: Event.splits)
qed

lemma group_record_runs: "lg.runs_to g (group_record d oc pp ra au g)"
proof -
  obtain r g1 where c: "on_hub (RecordDelivery d oc pp (ra div 1000000) (map_option (\<lambda>u. u div 1000000) au)) g = (r, g1)" by force
  have "g_hub (group_record d oc pp ra au g) = g_hub g1" by (simp add: group_record_def c)
  then show ?thesis using on_hub_runs [OF hub_calls(4) c] by (metis lg.runs_refl lg.runs_trans)
qed

lemma pass_time_runs: "0 \<le> took \<Longrightarrow> lg.runs_to g (pass_time took g)"
  unfolding lg.runs_to_def pass_time_def by (simp add: do_tick r_into_rtranclp)

lemma after_failure_runs: "lg.runs_to g (after_failure e pp now d addr g)"
  unfolding after_failure_def by (auto intro: group_record_runs lg.runs_from [OF _ group_record_runs])

lemma deliver_runs:
  assumes "0 \<le> took"
  shows "lg.runs_to g (deliver tr took p g)"
proof -
  obtain sent e g1 where a: "attempt_parts tr p g = (sent, e, g1)" by (metis prod_cases3)
  then have "g_hub g1 = g_hub g" by (auto simp: attempt_parts_def Let_def dest: send_parts_frame)
  then have t: "lg.runs_to g (count_group f (pass_time took g1))" for f
    using pass_time_runs [OF assms, of g1] by (metis group_frame(1) lg.runs_refl lg.runs_trans)
  show ?thesis unfolding deliver_def Let_def a
    by (cases e) (auto intro: lg.runs_trans [OF t group_record_runs] lg.runs_trans [OF t after_failure_runs] lg.runs_from [OF _ group_record_runs])
qed

lemma group_step_runs: "group_step tr n g g' \<Longrightarrow> lg.runs_to g g'"
proof (induction rule: group_step.induct)
  case (g_receive g m ms code)
  show ?case by (rule lg.runs_from [OF _ group_handle_runs]) simp
next
  case (g_watch g e es)
  have "lg.runs_to g (g\<lparr>g_hub := receive n (g_hub g)\<rparr>)" unfolding lg.runs_to_def by (simp add: do_receive r_into_rtranclp)
  then show ?case by (rule lg.runs_trans [OF _ group_event_runs])
next
  case (g_fetch g)
  obtain r g1 where c: "on_hub (hub_DueDeliveries 256) g = (r, g1)" by force
  have "g_hub (fetch_due g) = g_hub g1" by (auto simp: fetch_due_def c split: sum.splits)
  then show ?case using on_hub_runs [OF hub_calls(7) c] by (metis lg.runs_refl lg.runs_trans)
next
  case (g_job j g took)
  show ?case unfolding run_job_def Let_def
    by (rule lg.runs_trans [OF lg.runs_trans [OF lg.runs_refl deliver_runs] lg.runs_refl]) (simp_all add: g_job)
next
  case (g_other g h)
  then show ?case unfolding lg.runs_to_def by (simp add: r_into_rtranclp)
qed (auto simp: sendReply_def intro: lg.runs_refl)

section \<open>Senders and jobs\<close>

text \<open>The keys in flight are those of the jobs, each once; the queues are bounded; no key is seen twice.\<close>

definition job_keys :: "group \<Rightarrow> string list" where
  "job_keys g = map (deliveryKey \<circ> pd_Delivery) (g_jobs g)"

definition group_inv :: "group \<Rightarrow> bool" where
  "group_inv g \<longleftrightarrow> distinct (job_keys g) \<and> set (g_inFlight g) = set (job_keys g) \<and> distinct (g_seen g) \<and> length (g_seen g) \<le> seen_max \<and>
     length (g_inbox g) \<le> inbox_size \<and> length (g_replies g) \<le> replies_size \<and> distinct (map fst (g_finished g)) \<and> (\<forall>x\<in>set (g_finished g). snd x \<le> g_seq g)"

text \<open>Steps that leave the bookkeeping alone; replies may be added within their bound.\<close>

definition same_jobs :: "group \<Rightarrow> group \<Rightarrow> bool" where
  "same_jobs g g' \<longleftrightarrow> g_jobs g' = g_jobs g \<and> g_inFlight g' = g_inFlight g \<and> g_seen g' = g_seen g \<and> g_inbox g' = g_inbox g \<and>
     g_finished g' = g_finished g \<and> g_seq g' = g_seq g \<and> (length (g_replies g) \<le> replies_size \<longrightarrow> length (g_replies g') \<le> replies_size)"

named_theorems same_jobs_rules "steps that leave the bookkeeping of jobs alone"

lemma same_jobs_refl [same_jobs_rules]: "same_jobs g g"
  by (simp add: same_jobs_def)

lemma same_jobs_trans: "same_jobs g h \<Longrightarrow> same_jobs h k \<Longrightarrow> same_jobs g k"
  by (simp add: same_jobs_def)

lemma same_jobs_basic [same_jobs_rules]:
  "same_jobs g (count_group f g)" "same_jobs g (nudge g)" "same_jobs g (group_reply i c g)" "same_jobs g (request_path a g)" "same_jobs g (pass_time t g)"
  "on_hub m g = (r, g') \<Longrightarrow> same_jobs g g'" "send_on tr x g = (e, g') \<Longrightarrow> same_jobs g g'"
  by (auto simp: same_jobs_def count_group_def nudge_def group_reply_def request_path_def pass_time_def on_hub_def send_on_def replies_size_def
      split: prod.splits)

lemma same_jobs_keeps: "same_jobs g g' \<Longrightarrow> group_inv g \<Longrightarrow> group_inv g'"
  by (simp add: same_jobs_def group_inv_def job_keys_def)

lemma same_jobs_then: "same_jobs g h \<Longrightarrow> same_jobs g (count_group f h)" "same_jobs g h \<Longrightarrow> same_jobs g (nudge h)"
  "same_jobs g h \<Longrightarrow> same_jobs g (group_reply i c h)" "same_jobs g h \<Longrightarrow> same_jobs g (request_path a h)"
  by (blast intro: same_jobs_trans same_jobs_rules)+

lemma same_jobs_post [same_jobs_rules]: "same_jobs g (group_post i m body action g)"
proof -
  obtain r g1 where c: "on_hub (Post \<lparr>pr_Via = ViaLXMF, pr_Identity = i, pr_Room = '''', pr_Action = action, pr_Body = body,
       pr_OriginID = Some (lm_MessageID m), pr_SaidAt = lm_Timestamp m, pr_Ext = None\<rparr>) g = (r, g1)" by force
  from same_jobs_basic(6) [OF c] show ?thesis unfolding group_post_def c
    by (auto split: sum.splits err.splits intro!: same_jobs_then)
qed

lemma same_jobs_command [same_jobs_rules]: "same_jobs g (group_command tr code i k body g)"
proof -
  have digest: "same_jobs g' (snd (join_digest g'))" for g'
    by (auto simp: join_digest_def split: prod.splits sum.splits dest: same_jobs_basic(6))
  show ?thesis unfolding group_command_def Let_def
    by (auto split: prod.splits sum.splits if_splits dest!: same_jobs_basic(6) intro!: same_jobs_then)
      (metis (no_types) digest same_jobs_trans same_jobs_refl snd_conv)+
qed

lemma same_jobs_event [same_jobs_rules]: "same_jobs g (group_event e g)"
  unfolding group_event_def replyIfMember_def
  by (auto split: Event.splits prod.splits sum.splits dest!: same_jobs_basic(6) intro!: same_jobs_then same_jobs_refl)

lemma same_jobs_record [same_jobs_rules]: "same_jobs g (group_record d oc pp ra au g)"
  unfolding group_record_def by (auto split: prod.splits dest!: same_jobs_basic(6) intro!: same_jobs_then)

lemma same_jobs_failure [same_jobs_rules]: "same_jobs g (after_failure e pp now d addr g)"
  unfolding after_failure_def by (auto intro: same_jobs_record same_jobs_trans [OF same_jobs_basic(1) same_jobs_record] same_jobs_trans [OF same_jobs_basic(4) same_jobs_record])

lemma same_jobs_parts: "send_parts tr via addr ps k g = (k', e, g') \<Longrightarrow> same_jobs g g'"
  by (induction ps arbitrary: k g) (auto split: prod.splits option.splits dest!: same_jobs_basic(7) intro: same_jobs_trans same_jobs_refl)

lemma same_jobs_deliver [same_jobs_rules]: "same_jobs g (deliver tr took p g)"
proof -
  obtain sent e g1 where a: "attempt_parts tr p g = (sent, e, g1)" by (metis prod_cases3)
  then have "same_jobs g g1" by (auto simp: attempt_parts_def Let_def dest: same_jobs_parts)
  then have t: "same_jobs g (count_group f (pass_time took g1))" for f by (meson same_jobs_basic(5) same_jobs_then(1) same_jobs_trans)
  show ?thesis unfolding deliver_def Let_def a
    by (cases e) (auto intro: same_jobs_trans [OF t same_jobs_record] same_jobs_trans [OF t same_jobs_failure] same_jobs_trans [OF same_jobs_basic(1) same_jobs_record])
qed

lemma same_jobs_send [same_jobs_rules]: "same_jobs g (sendReply tr r g)"
proof -
  have rest: "same_jobs g' (propagate_rest tr node addr ps g')" for node addr ps g'
  proof (induction ps arbitrary: g')
    case (Cons p ps)
    obtain e g1 where s: "send_on tr (Propagated node addr p) g' = (e, g1)" by force
    from same_jobs_basic(7) [OF s] Cons.IH show ?case
      by (cases e) (auto simp: s intro: same_jobs_trans [OF same_jobs_then(1)])
  qed (simp add: same_jobs_refl)
  have "same_jobs g' (reply_parts tr addr ps g')" for addr ps g'
  proof (induction ps arbitrary: g')
    case (Cons p ps)
    obtain e g1 where s: "send_on tr (Direct addr p) g' = (e, g1)" by force
    from same_jobs_basic(7) [OF s] Cons.IH rest show ?case
      by (cases e) (auto simp: s simp del: propagate_rest.simps split: option.splits intro: same_jobs_trans)
  qed (simp add: same_jobs_refl)
  then show ?thesis unfolding sendReply_def .
qed

lemma seen_add_keeps: "group_inv g \<Longrightarrow> group_inv (snd (seen_add k g))"
  by (cases "g_seen g") (auto simp: seen_add_def group_inv_def job_keys_def Let_def)

lemma group_handle_keeps: "group_inv g \<Longrightarrow> group_inv (group_handle tr code m g)"
proof -
  assume "group_inv g"
  let ?g = "count_group (\<lambda>s. s\<lparr>gs_Received := gs_Received s + 1\<rparr>) g"
  have i: "group_inv ?g" using \<open>group_inv g\<close> same_jobs_basic(1) same_jobs_keeps by blast
  have step: "same_jobs x (handle_text tr code j k m x)" for j k x
    by (auto simp: handle_text_def Let_def same_jobs_refl split: option.splits intro: same_jobs_rules)
  obtain fresh g1 where s: "seen_add (lm_DedupKey m) ?g = (fresh, g1)" by force
  have i1: "group_inv g1" using seen_add_keeps [OF i, of "lm_DedupKey m"] s by simp
  let ?lost = "request_path (lm_SourceHash m) (count_group (\<lambda>s. s\<lparr>gs_UnknownSender := gs_UnknownSender s + 1\<rparr>) ?g)"
  have lost: "group_inv ?lost" by (rule same_jobs_keeps [OF same_jobs_then(4) [OF same_jobs_basic(1)] i])
  have dup: "group_inv (count_group (\<lambda>s. s\<lparr>gs_Duplicates := gs_Duplicates s + 1\<rparr>) g1)" by (rule same_jobs_keeps [OF same_jobs_basic(1) i1])
  show ?thesis
  proof (cases "tp_Recall tr (lm_SourceHash m)")
    case None
    then show ?thesis using lost by (simp add: group_handle_def Let_def del: One_nat_def)
  next
    case (Some k)
    let ?i = "tp_IdentityHash tr (ki_PublicKey k)"
    obtain r g2 where c: "on_hub (Identify ?i (Some (ki_PublicKey k))) g1 = (r, g2)" by force
    have i2: "group_inv g2" by (rule same_jobs_keeps [OF same_jobs_basic(6) [OF c] i1])
    then have "group_inv (handle_text tr code ?i k m g2)" by (rule same_jobs_keeps [OF step])
    with i2 lost dup show ?thesis
      by (cases fresh; cases r) (simp_all add: group_handle_def Some s c Let_def del: One_nat_def)
  qed
qed

lemma dispatch_keeps: "group_inv g \<Longrightarrow> group_inv (dispatch free g)"
  by (auto simp: dispatch_def group_inv_def job_keys_def Let_def split: prod.splits list.splits)

lemma settle_job_keeps:
  assumes "distinct (k # ks)" "set (g_inFlight g) = set (k # ks)" "job_keys g = ks" "group_inv (g\<lparr>g_inFlight := [], g_jobs := []\<rparr>)"
  shows "group_inv (settle_job k g)"
proof -
  let ?fin = "(k, g_seq g + 1) # filter (\<lambda>x. fst x \<noteq> k) (g_finished g)"
  have "distinct (map fst ?fin)" using assms(4) by (auto simp: group_inv_def distinct_map_filter)
  moreover from this have "distinct (map fst (filter P ?fin))" for P by (rule distinct_map_filter)
  moreover have "\<forall>x\<in>set ?fin. snd x \<le> g_seq g + 1" using assms(4) by (force simp: group_inv_def)
  ultimately show ?thesis using assms by (auto simp: settle_job_def group_inv_def job_keys_def Let_def intro: distinct_map_filter)
qed

lemma run_job_keeps:
  assumes "group_inv g" "j < length (g_jobs g)"
  shows "group_inv (run_job tr took j g)"
proof -
  let ?p = "g_jobs g ! j" and ?g = "g\<lparr>g_jobs := take j (g_jobs g) @ drop (j + 1) (g_jobs g)\<rparr>"
  let ?d = "deliver tr took ?p ?g"
  have js: "g_jobs g = take j (g_jobs g) @ ?p # drop (j + 1) (g_jobs g)" using assms(2) by (simp add: id_take_nth_drop)
  have d: "same_jobs ?g ?d" by (rule same_jobs_deliver)
  have ks: "job_keys g = job_keys (g\<lparr>g_jobs := take j (g_jobs g)\<rparr>) @ deliveryKey (pd_Delivery ?p) # job_keys (g\<lparr>g_jobs := drop (j + 1) (g_jobs g)\<rparr>)"
    unfolding job_keys_def using arg_cong [OF js, of "map (deliveryKey \<circ> pd_Delivery)"] by simp
  have jd: "job_keys ?d = job_keys (g\<lparr>g_jobs := take j (g_jobs g)\<rparr>) @ job_keys (g\<lparr>g_jobs := drop (j + 1) (g_jobs g)\<rparr>)"
    using d by (simp add: same_jobs_def job_keys_def)
  have "distinct (job_keys g)" "set (g_inFlight g) = set (job_keys g)" using assms(1) by (auto simp: group_inv_def)
  then have "distinct (deliveryKey (pd_Delivery ?p) # job_keys ?d)" "set (g_inFlight ?d) = set (deliveryKey (pd_Delivery ?p) # job_keys ?d)"
    using d unfolding jd ks by (auto simp: same_jobs_def)
  moreover have "group_inv (?d\<lparr>g_inFlight := [], g_jobs := []\<rparr>)"
    using d assms(1) by (simp add: same_jobs_def group_inv_def job_keys_def)
  ultimately show ?thesis unfolding run_job_def Let_def by (intro settle_job_keeps) auto
qed

lemma group_step_keeps: "group_step tr n g g' \<Longrightarrow> group_inv g \<Longrightarrow> group_inv g'"
proof (induction rule: group_step.induct)
  case (g_arrive g m)
  then show ?case by (auto simp: OnMessage_def count_group_def group_inv_def job_keys_def)
next
  case (g_receive g m ms code)
  then have "group_inv (g\<lparr>g_inbox := ms\<rparr>)" by (simp add: group_inv_def job_keys_def)
  then show ?case by (rule group_handle_keeps)
next
  case (g_watch g e es)
  have "group_inv (g\<lparr>g_hub := receive n (g_hub g)\<rparr>)" using g_watch.prems by (simp add: group_inv_def job_keys_def)
  then show ?case by (rule same_jobs_keeps [OF same_jobs_event])
next
  case (g_fetch g)
  then show ?case by (auto simp: fetch_due_def on_hub_def group_inv_def job_keys_def split: prod.splits sum.splits)
next
  case (g_dispatch g free)
  then show ?case by (simp add: dispatch_keeps)
next
  case (g_job j g took)
  then show ?case by (simp add: run_job_keeps)
next
  case (g_send g r rs)
  then have "group_inv (g\<lparr>g_replies := rs\<rparr>)" by (simp add: group_inv_def job_keys_def)
  then show ?case by (rule same_jobs_keeps [OF same_jobs_send])
qed (simp_all add: note_seq_def group_inv_def job_keys_def)

lemma group_reach_inv: "group_reach tr n g \<Longrightarrow> group_inv g \<and> hub_reach (g_hub g)"
proof (induction rule: group_reach.induct)
  case (group_start h c)
  then show ?case by (simp add: group_inv_def group_New_def job_keys_def)
next
  case (group_more g g')
  then show ?case using group_step_keeps group_step_runs lg.runs_reach by blast
qed

end
