(* ===== verification/LxmfAttempts.thy ===== *)
theory LxmfAttempts
  imports LxmfDelivery HubPosting
begin

text \<open>
  One delivery over any number of attempts, on any network: which parts the network accepted, what the queue records, and
  when the next attempt comes.
\<close>

section \<open>What the network accepted\<close>

definition carried :: "sending \<Rightarrow> (bytes \<times> string) list" where
  "carried x = (case x of Direct a c \<Rightarrow> [(a, c)] | Propagated node a c \<Rightarrow> [(a, c)] | PathRequest _ \<Rightarrow> [])"

text \<open>The address and text of every send that went well, in order.\<close>

fun accepted_from :: "transport \<Rightarrow> sending list \<Rightarrow> sending list \<Rightarrow> (bytes \<times> string) list" where
  "accepted_from tr before [] = []"
| "accepted_from tr before (x # xs) = (if tp_Send tr before x = None then carried x else []) @ accepted_from tr (before @ [x]) xs"

definition accepted :: "transport \<Rightarrow> group \<Rightarrow> (bytes \<times> string) list" where
  "accepted tr g = accepted_from tr [] (g_log g)"

lemma accepted_from_append: "accepted_from tr b (xs @ ys) = accepted_from tr b xs @ accepted_from tr (b @ xs) ys"
  by (induction xs arbitrary: b) auto

lemma accepted_send_on: "send_on tr x g = (e, g') \<Longrightarrow> accepted tr g' = accepted tr g @ (if e = None then carried x else [])"
  by (auto simp: send_on_def accepted_def accepted_from_append)

lemma accepted_frame [simp]:
  "accepted tr (count_group f g) = accepted tr g" "accepted tr (pass_time t g) = accepted tr g" "accepted tr (nudge g) = accepted tr g"
  "accepted tr (request_path a g) = accepted tr g" "accepted tr (g\<lparr>g_hub := h\<rparr>) = accepted tr g"
  by (simp_all add: accepted_def count_group_def pass_time_def nudge_def request_path_def accepted_from_append carried_def)

lemma accepted_record [simp]: "accepted tr (group_record d oc pp ra au g) = accepted tr g"
  by (auto simp: group_record_def on_hub_def split: prod.splits)

lemma accepted_failure [simp]: "accepted tr (after_failure e pp now d addr g) = accepted tr g"
  by (simp add: after_failure_def)

lemma send_parts_accepted:
  assumes "send_parts tr via addr ps k g = (k', e, g')"
  shows "\<exists>j\<le>length ps. k' = k + int j \<and> (e = None \<longleftrightarrow> j = length ps) \<and> accepted tr g' = accepted tr g @ map (Pair addr) (take j ps)"
  using assms
proof (induction ps arbitrary: k g)
  case (Cons p ps)
  let ?x = "case via of Some node \<Rightarrow> Propagated node addr p | None \<Rightarrow> Direct addr p"
  obtain e1 g1 where s: "send_on tr ?x g = (e1, g1)" by force
  have c: "carried ?x = [(addr, p)]" by (auto simp: carried_def split: option.splits)
  show ?case
  proof (cases e1)
    case None
    with Cons.prems have "send_parts tr via addr ps (k + 1) g1 = (k', e, g')" by (simp add: s)
    from Cons.IH [OF this] obtain j where j: "j \<le> length ps" "k' = k + 1 + int j" "e = None \<longleftrightarrow> j = length ps"
      "accepted tr g' = accepted tr g1 @ map (Pair addr) (take j ps)" by blast
    then show ?thesis using accepted_send_on [OF s] c None by (intro exI [of _ "Suc j"]) auto
  next
    case (Some e2)
    with Cons.prems have "k' = k" "e = Some e2" "g' = g1" by (auto simp: s)
    then show ?thesis using accepted_send_on [OF s] Some by (intro exI [of _ 0]) auto
  qed
qed simp

section \<open>What the queue records\<close>

lemma RecordDelivery_row:
  assumes "length (dl_Identity x) = 16" "0 \<le> dl_PartsDone x" "\<not> dl_Whisper x"
  shows "\<exists>h'. RecordDelivery x oc pp ra au h = (Inr (), h') \<and> now_ns h' = now_ns h \<and> env h' = env h \<and>
    deliveries (st h') = upsert delivery_key delivery_merge (after_attempt oc pp ra (nowMS h) x) (deliveries (st h))"
proof -
  let ?y = "after_attempt oc pp ra (nowMS h) x"
  have y: "dl_Identity ?y = dl_Identity x" "dl_PartsDone ?y = dl_PartsDone x" "dl_Whisper ?y = dl_Whisper x"
    by (simp_all add: after_attempt_def Let_def split: DeliveryOutcome.splits)
  have put: "PutDelivery ?y d = Inr (d\<lparr>deliveries := upsert delivery_key delivery_merge ?y (deliveries d)\<rparr>)" for d
    using assms by (simp add: PutDelivery_def y checkID_def IdentityLen_def requireE_def)
  have t: "nowMS (h\<lparr>out_events := [], out_after := []\<rparr>) = nowMS h" by (simp add: nowMS_def)
  show ?thesis unfolding RecordDelivery_def update_def record_delivery_def
    by (auto simp: bnd_def seq_def asks_def exec_def exec'_def ret_def put t SetAway_def publish_def split: option.splits)
qed

text \<open>The queue's row of a message's delivery after an attempt was recorded.\<close>

lemma delivery_after_record:
  assumes "length (dl_Identity x) = 16" "0 \<le> dl_PartsDone x" "\<not> dl_Whisper x"
  shows "\<exists>y. delivery_of (dl_MessageID x) (dl_Identity x) (st (g_hub (group_record x oc pp ra au g))) = Some y \<and>
    delivery_key y = delivery_key x \<and> dl_PartsDone y = dl_PartsDone x \<and> dl_Attempts y = dl_Attempts x \<and>
    dl_State y = (case oc of Delivered \<Rightarrow> if pp then DeliveryPropagated else DeliveryProven | RetryAt \<Rightarrow> DeliveryQueued | GaveUp \<Rightarrow> DeliveryFailed) \<and>
    (oc = RetryAt \<longrightarrow> dl_NextAt y = ra div 1000000)"
proof -
  let ?z = "after_attempt oc pp (ra div 1000000) (nowMS (g_hub g)) x"
  from RecordDelivery_row [OF assms, of oc pp "ra div 1000000" "map_option (\<lambda>u. u div 1000000) au" "g_hub g"] obtain h' where
    h': "RecordDelivery x oc pp (ra div 1000000) (map_option (\<lambda>u. u div 1000000) au) (g_hub g) = (Inr (), h')"
      "deliveries (st h') = upsert delivery_key delivery_merge ?z (deliveries (st (g_hub g)))" by blast
  have k: "delivery_key ?z = (dl_MessageID x, dl_Identity x)"
    by (simp add: after_attempt_def delivery_key_def Let_def split: DeliveryOutcome.splits)
  have "g_hub (group_record x oc pp ra au g) = h'" by (simp add: group_record_def on_hub_def h'(1))
  then have row: "delivery_of (dl_MessageID x) (dl_Identity x) (st (g_hub (group_record x oc pp ra au g))) =
      Some (case find (\<lambda>r. delivery_key r = delivery_key ?z) (deliveries (st (g_hub g))) of None \<Rightarrow> ?z | Some old \<Rightarrow> delivery_merge ?z old)"
    unfolding delivery_of_def using dt.upsert_lookup_same [of ?z "deliveries (st (g_hub g))"] by (simp add: h'(2) k)
  have z: "dl_PartsDone ?z = dl_PartsDone x" "dl_Attempts ?z = dl_Attempts x" "delivery_key ?z = delivery_key x"
    "dl_State ?z = (case oc of Delivered \<Rightarrow> if pp then DeliveryPropagated else DeliveryProven | RetryAt \<Rightarrow> DeliveryQueued | GaveUp \<Rightarrow> DeliveryFailed)"
    "oc = RetryAt \<Longrightarrow> dl_NextAt ?z = ra div 1000000"
    by (simp_all add: after_attempt_def delivery_key_def Let_def split: DeliveryOutcome.splits)
  have mg: "dl_PartsDone (delivery_merge z old) = dl_PartsDone z" "dl_Attempts (delivery_merge z old) = dl_Attempts z"
    "dl_State (delivery_merge z old) = dl_State z" "dl_NextAt (delivery_merge z old) = dl_NextAt z" "delivery_key (delivery_merge z old) = delivery_key old" for z old
    by (simp_all add: delivery_merge_def delivery_key_def)
  show ?thesis
  proof (cases "find (\<lambda>r. delivery_key r = delivery_key ?z) (deliveries (st (g_hub g)))")
    case None
    with row z show ?thesis by (intro exI [of _ ?z]) simp
  next
    case (Some old)
    then have "delivery_key old = delivery_key x" using find_Some_set [OF Some] z(3) by simp
    with Some row z show ?thesis by (intro exI [of _ "delivery_merge ?z old"]) (simp add: mg)
  qed
qed

section \<open>One attempt\<close>

abbreviation parts_of :: "PendingDelivery \<Rightarrow> string list" where
  "parts_of p \<equiv> Split (PendingDelivery_Text p) (int MaxContent)"

text \<open>A message's delivery as the queue hands it out: a 16-byte identity, and no more parts done than there are.\<close>

definition sound_delivery :: "PendingDelivery \<Rightarrow> bool" where
  "sound_delivery p \<longleftrightarrow> (let d = pd_Delivery p in length (dl_Identity d) = 16 \<and> \<not> dl_Whisper d \<and> 0 \<le> dl_PartsDone d \<and> dl_PartsDone d \<le> int (length (parts_of p)))"

definition too_old :: "PendingDelivery \<Rightarrow> group \<Rightarrow> bool" where
  "too_old p g \<longleftrightarrow> gc_GiveUpAfter (g_cfg g) < now_ns (g_hub g) - PendingDelivery_SaidAt p * 1000000"

abbreviation row_in :: "group \<Rightarrow> delivery \<Rightarrow> delivery option" where
  "row_in g d \<equiv> delivery_of (dl_MessageID d) (dl_Identity d) (st (g_hub g))"

lemma after_failure_row:
  assumes "length (dl_Identity d) = 16" "0 \<le> dl_PartsDone d" "\<not> dl_Whisper d" "0 < dl_Attempts d"
  shows "\<exists>y. row_in (after_failure e pp now d addr g) d = Some y \<and> delivery_key y = delivery_key d \<and> dl_PartsDone y = dl_PartsDone d \<and> dl_Attempts y = dl_Attempts d \<and>
    (dl_State y = DeliveryFailed \<or> dl_State y = DeliveryQueued \<and> now div 1000000 \<le> dl_NextAt y \<and> dl_NextAt y \<le> (now + 10 * minute_ns) div 1000000)"
proof -
  note row = delivery_after_record [OF assms(1,2,3)]
  have late: "\<exists>y. row_in (group_record d RetryAt p ra au g') d = Some y \<and> delivery_key y = delivery_key d \<and> dl_PartsDone y = dl_PartsDone d \<and> dl_Attempts y = dl_Attempts d \<and>
      (dl_State y = DeliveryFailed \<or> dl_State y = DeliveryQueued \<and> now div 1000000 \<le> dl_NextAt y \<and> dl_NextAt y \<le> (now + 10 * minute_ns) div 1000000)"
    if "now \<le> ra" "ra \<le> now + 10 * minute_ns" for p ra au g'
  proof -
    obtain y where y: "row_in (group_record d RetryAt p ra au g') d = Some y" "delivery_key y = delivery_key d" "dl_PartsDone y = dl_PartsDone d" "dl_Attempts y = dl_Attempts d"
      "dl_State y = DeliveryQueued" "dl_NextAt y = ra div 1000000" using row [of RetryAt p ra au g'] by auto
    then show ?thesis using that by (intro exI [of _ y]) (auto intro: zdiv_mono1)
  qed
  have gone: "\<exists>y. row_in (group_record d GaveUp p ra au g') d = Some y \<and> delivery_key y = delivery_key d \<and> dl_PartsDone y = dl_PartsDone d \<and> dl_Attempts y = dl_Attempts d \<and>
      (dl_State y = DeliveryFailed \<or> dl_State y = DeliveryQueued \<and> now div 1000000 \<le> dl_NextAt y \<and> dl_NextAt y \<le> (now + 10 * minute_ns) div 1000000)"
    for p ra au g' using row [of GaveUp p ra au g'] by auto
  have b: "0 \<le> min (dl_Attempts d * 30 * second_ns) (10 * minute_ns)" using assms(4) by (simp add: ns_defs)
  have s: "(0::int) \<le> 30 * second_ns" "30 * second_ns \<le> 10 * minute_ns" "(0::int) \<le> minute_ns" "minute_ns \<le> 10 * minute_ns" "(0::int) \<le> 10 * minute_ns"
    by (simp_all add: ns_defs)
  show ?thesis unfolding after_failure_def using b s by (simp add: gone late)
qed

lemma deliver_effect:
  fixes g :: group and tr :: transport and took :: int
  assumes sd: "sound_delivery p" and att: "0 \<le> dl_Attempts (pd_Delivery p)"
  defines "d \<equiv> pd_Delivery p" and "g' \<equiv> deliver tr took p g"
  shows "\<exists>y j. row_in g' d = Some y \<and> delivery_key y = delivery_key d \<and> dl_PartsDone y = dl_PartsDone d + int j \<and> 0 \<le> dl_Attempts y \<and>
    nat (dl_PartsDone d) + j \<le> length (parts_of p) \<and>
    accepted tr g' = accepted tr g @ map (Pair (LXMFAddress (env (g_hub g)) (dl_Identity d))) (take j (drop (nat (dl_PartsDone d)) (parts_of p))) \<and>
    (dl_State y = DeliveryFailed \<or>
     dl_State y \<in> {DeliveryProven, DeliveryPropagated} \<and> nat (dl_PartsDone d) + j = length (parts_of p) \<and> \<not> too_old p g \<or>
     dl_State y = DeliveryQueued \<and> \<not> too_old p g \<and> nowMS (g_hub g) \<le> dl_NextAt y \<and> dl_NextAt y \<le> (now_ns (g_hub g) + 10 * minute_ns) div 1000000)"
proof -
  have d: "length (dl_Identity d) = 16" "\<not> dl_Whisper d" "0 \<le> dl_PartsDone d" "dl_PartsDone d \<le> int (length (parts_of p))"
    using sd by (auto simp: sound_delivery_def d_def Let_def)
  let ?addr = "LXMFAddress (env (g_hub g)) (dl_Identity d)" and ?n = "nat (dl_PartsDone d)"
  show ?thesis
  proof (cases "too_old p g")
    case True
    let ?g = "count_group (\<lambda>s. s\<lparr>gs_GaveUp := gs_GaveUp s + 1\<rparr>) g"
    have g': "g' = group_record d GaveUp False 0 None ?g" using True by (simp add: g'_def deliver_def too_old_def d_def Let_def)
    obtain y where "row_in g' d = Some y" "delivery_key y = delivery_key d" "dl_PartsDone y = dl_PartsDone d" "dl_State y = DeliveryFailed" "dl_Attempts y = dl_Attempts d"
      using delivery_after_record [OF d(1,3,2), of GaveUp False 0 None ?g] unfolding g' by auto
    then show ?thesis using d(3,4) att by (intro exI [of _ y] exI [of _ 0]) (simp add: g' d_def)
  next
    case False
    obtain sent e g1 where a: "attempt_parts tr p g = (sent, e, g1)" by (metis prod_cases3)
    let ?ps = "drop ?n (parts_of p)"
    from a have sp: "send_parts tr (if nowMS (g_hub g) < pd_AwayUntil p then gc_PropagationNode (g_cfg g) else None) ?addr ?ps (dl_PartsDone d) g = (sent, e, g1)"
      by (simp add: attempt_parts_def d_def Let_def)
    from send_parts_accepted [OF this] obtain j where j: "j \<le> length ?ps" "sent = dl_PartsDone d + int j" "e = None \<longleftrightarrow> j = length ?ps"
      "accepted tr g1 = accepted tr g @ map (Pair ?addr) (take j ?ps)" by blast
    have len: "?n + j \<le> length (parts_of p)" "j = length ?ps \<longleftrightarrow> ?n + j = length (parts_of p)" using j(1) d(3,4) by auto
    show ?thesis
    proof (cases e)
      case None
      let ?d = "d\<lparr>dl_PartsDone := sent\<rparr>"
      let ?g = "count_group (\<lambda>s. if propagates p g then s\<lparr>gs_Propagated := gs_Propagated s + 1\<rparr> else s\<lparr>gs_Sent := gs_Sent s + 1\<rparr>) (pass_time took g1)"
      have g': "g' = group_record ?d Delivered (propagates p g) 0 None ?g" using False None
        by (simp add: g'_def deliver_def too_old_def d_def Let_def a del: One_nat_def)
      have dd: "length (dl_Identity ?d) = 16" "0 \<le> dl_PartsDone ?d" "\<not> dl_Whisper ?d" using d j(2) by auto
      obtain y where "row_in g' d = Some y" "delivery_key y = delivery_key d" "dl_PartsDone y = sent" "dl_Attempts y = dl_Attempts d" "dl_State y \<in> {DeliveryProven, DeliveryPropagated}"
        using delivery_after_record [OF dd, of Delivered "propagates p g" 0 None ?g] unfolding g' by (auto simp: delivery_key_def)
      then show ?thesis using False j len None att by (intro exI [of _ y] exI [of _ j]) (simp add: g' d_def)
    next
      case (Some err)
      let ?d = "d\<lparr>dl_PartsDone := sent, dl_Attempts := dl_Attempts d + 1\<rparr>"
      let ?g = "count_group (\<lambda>s. s\<lparr>gs_Retries := gs_Retries s + 1\<rparr>) (pass_time took g1)"
      have g': "g' = after_failure err (propagates p g) (now_ns (g_hub g)) ?d ?addr ?g" using False Some
        by (simp add: g'_def deliver_def too_old_def d_def Let_def a del: One_nat_def)
      have dd: "length (dl_Identity ?d) = 16" "0 \<le> dl_PartsDone ?d" "\<not> dl_Whisper ?d" "0 < dl_Attempts ?d" using d j(2) att by (auto simp: d_def)
      obtain y where "row_in g' d = Some y" "delivery_key y = delivery_key d" "dl_PartsDone y = sent" "0 \<le> dl_Attempts y" "dl_State y = DeliveryFailed \<or>
          dl_State y = DeliveryQueued \<and> nowMS (g_hub g) \<le> dl_NextAt y \<and> dl_NextAt y \<le> (now_ns (g_hub g) + 10 * minute_ns) div 1000000"
        using after_failure_row [OF dd, of err "propagates p g" "now_ns (g_hub g)" ?addr ?g] unfolding g' using dd(4) by (auto simp: delivery_key_def nowMS_def)
      then show ?thesis using False j len by (intro exI [of _ y] exI [of _ j]) (auto simp: g')
    qed
  qed
qed

lemma group_record_frame:
  assumes "length (dl_Identity x) = 16" "0 \<le> dl_PartsDone x" "\<not> dl_Whisper x"
  shows "now_ns (g_hub (group_record x oc pp ra au g)) = now_ns (g_hub g)" "env (g_hub (group_record x oc pp ra au g)) = env (g_hub g)"
    "g_cfg (group_record x oc pp ra au g) = g_cfg g"
  using RecordDelivery_row [OF assms, of oc pp "ra div 1000000" "map_option (\<lambda>u. u div 1000000) au" "g_hub g"]
  by (auto simp: group_record_def on_hub_def)

lemma after_failure_frame:
  assumes "length (dl_Identity d) = 16" "0 \<le> dl_PartsDone d" "\<not> dl_Whisper d"
  shows "now_ns (g_hub (after_failure e pp now d addr g)) = now_ns (g_hub g)" "env (g_hub (after_failure e pp now d addr g)) = env (g_hub g)"
    "g_cfg (after_failure e pp now d addr g) = g_cfg g"
  unfolding after_failure_def by (simp_all add: group_record_frame [OF assms])

lemma deliver_frame:
  assumes "sound_delivery p"
  shows "env (g_hub (deliver tr took p g)) = env (g_hub g)" "g_cfg (deliver tr took p g) = g_cfg g"
    "\<not> too_old p g \<Longrightarrow> now_ns (g_hub (deliver tr took p g)) = now_ns (g_hub g) + took"
proof -
  let ?d = "pd_Delivery p"
  obtain sent e g1 where a: "attempt_parts tr p g = (sent, e, g1)" by (metis prod_cases3)
  have d: "length (dl_Identity ?d) = 16" "0 \<le> dl_PartsDone ?d" "\<not> dl_Whisper ?d" using assms by (auto simp: sound_delivery_def Let_def)
  have s: "send_parts tr (if nowMS (g_hub g) < pd_AwayUntil p then gc_PropagationNode (g_cfg g) else None) (LXMFAddress (env (g_hub g)) (dl_Identity ?d))
      (drop (nat (dl_PartsDone ?d)) (parts_of p)) (dl_PartsDone ?d) g = (sent, e, g1)" using a by (simp add: attempt_parts_def Let_def)
  have sp: "g_hub g1 = g_hub g" "g_cfg g1 = g_cfg g" "0 \<le> sent"
    using send_parts_frame [OF s] send_parts_accepted [OF s] d(2) by auto
  have x: "length (dl_Identity (?d\<lparr>dl_PartsDone := sent\<rparr>)) = 16" "0 \<le> dl_PartsDone (?d\<lparr>dl_PartsDone := sent\<rparr>)" "\<not> dl_Whisper (?d\<lparr>dl_PartsDone := sent\<rparr>)"
    and z: "length (dl_Identity (?d\<lparr>dl_PartsDone := sent, dl_Attempts := k\<rparr>)) = 16" "0 \<le> dl_PartsDone (?d\<lparr>dl_PartsDone := sent, dl_Attempts := k\<rparr>)"
      "\<not> dl_Whisper (?d\<lparr>dl_PartsDone := sent, dl_Attempts := k\<rparr>)" for k using d sp by auto
  show "env (g_hub (deliver tr took p g)) = env (g_hub g)" "g_cfg (deliver tr took p g) = g_cfg g"
    "\<not> too_old p g \<Longrightarrow> now_ns (g_hub (deliver tr took p g)) = now_ns (g_hub g) + took"
    by (cases e; simp add: deliver_def Let_def a too_old_def group_record_frame [OF d] group_record_frame [OF x] after_failure_frame [OF z] pass_time_def sp)+
qed

section \<open>Any number of attempts\<close>

text \<open>
  A delivery from now until it is settled: each attempt comes some time after the one before (\<open>wait\<close>), takes some time
  (\<open>took\<close>), and finds the member away or not (\<open>away\<close>); the row it starts from is the one the last attempt recorded.
\<close>

fun attempts :: "transport \<Rightarrow> (int \<times> int \<times> millis) list \<Rightarrow> PendingDelivery \<Rightarrow> group \<Rightarrow> PendingDelivery \<times> group" where
  "attempts tr [] p g = (p, g)"
| "attempts tr ((wait, took, away) # ts) p g = (if dl_State (pd_Delivery p) \<noteq> DeliveryQueued then (p, g)
     else let g1 = deliver tr took (p\<lparr>pd_AwayUntil := away\<rparr>) (pass_time wait g) in
       attempts tr ts (case row_in g1 (pd_Delivery p) of Some y \<Rightarrow> p\<lparr>pd_Delivery := y\<rparr> | None \<Rightarrow> p) g1)"

lemma pending_away [simp]:
  "PendingDelivery_Text (p\<lparr>pd_AwayUntil := a\<rparr>) = PendingDelivery_Text p" "PendingDelivery_SaidAt (p\<lparr>pd_AwayUntil := a\<rparr>) = PendingDelivery_SaidAt p"
  "PendingDelivery_Text (p\<lparr>pd_Delivery := y\<rparr>) = PendingDelivery_Text p" "PendingDelivery_SaidAt (p\<lparr>pd_Delivery := y\<rparr>) = PendingDelivery_SaidAt p"
  by (simp_all add: PendingDelivery_Text_def PendingDelivery_SaidAt_def split: option.split)

lemma attempt_step:
  fixes tr :: transport and away :: millis
  assumes sd: "sound_delivery p" "0 \<le> dl_Attempts (pd_Delivery p)" and inv: "hub_reach (g_hub g)" and t: "0 \<le> wait" "0 \<le> took"
  defines "g0 \<equiv> pass_time wait g" and "g1 \<equiv> deliver tr took (p\<lparr>pd_AwayUntil := away\<rparr>) (pass_time wait g)"
  obtains y j where "row_in g1 (pd_Delivery p) = Some y" "sound_delivery (p\<lparr>pd_Delivery := y\<rparr>)" "0 \<le> dl_Attempts y" "dl_Identity y = dl_Identity (pd_Delivery p)"
    "dl_PartsDone y = dl_PartsDone (pd_Delivery p) + int j"
    "accepted tr g1 = accepted tr g @ map (Pair (LXMFAddress (env (g_hub g)) (dl_Identity y))) (take j (drop (nat (dl_PartsDone (pd_Delivery p))) (parts_of p)))"
    "hub_reach (g_hub g1)" "env (g_hub g1) = env (g_hub g)" "g_cfg g1 = g_cfg g"
    "dl_State y \<in> {DeliveryProven, DeliveryPropagated} \<longrightarrow> dl_PartsDone y = int (length (parts_of p))"
    "dl_State y = DeliveryQueued \<longrightarrow> \<not> too_old p g0 \<and> now_ns (g_hub g1) = now_ns (g_hub g0) + took \<and>
       nowMS (g_hub g0) \<le> dl_NextAt y \<and> dl_NextAt y \<le> (now_ns (g_hub g0) + 10 * minute_ns) div 1000000"
proof -
  let ?d = "pd_Delivery p" and ?p = "p\<lparr>pd_AwayUntil := away\<rparr>"
  have sdp: "sound_delivery ?p" using sd(1) by (simp add: sound_delivery_def)
  have e0: "env (g_hub g0) = env (g_hub g)" "g_cfg g0 = g_cfg g" by (simp_all add: g0_def pass_time_def)
  have old: "too_old ?p g0 = too_old p g0" by (simp add: too_old_def)
  have r0: "hub_reach (g_hub g0)" using inv t(1) pass_time_runs lg.runs_reach unfolding g0_def by blast
  have r1: "hub_reach (g_hub g1)" using lg.runs_reach [OF deliver_runs [OF t(2)] r0] unfolding g1_def g0_def .
  obtain y j where y: "row_in g1 ?d = Some y" "delivery_key y = delivery_key ?d" "dl_PartsDone y = dl_PartsDone ?d + int j" "0 \<le> dl_Attempts y"
    "nat (dl_PartsDone ?d) + j \<le> length (parts_of p)"
    "accepted tr g1 = accepted tr g0 @ map (Pair (LXMFAddress (env (g_hub g0)) (dl_Identity ?d))) (take j (drop (nat (dl_PartsDone ?d)) (parts_of p)))"
    "dl_State y = DeliveryFailed \<or> dl_State y \<in> {DeliveryProven, DeliveryPropagated} \<and> nat (dl_PartsDone ?d) + j = length (parts_of p) \<and> \<not> too_old p g0 \<or>
     dl_State y = DeliveryQueued \<and> \<not> too_old p g0 \<and> nowMS (g_hub g0) \<le> dl_NextAt y \<and> dl_NextAt y \<le> (now_ns (g_hub g0) + 10 * minute_ns) div 1000000"
    using deliver_effect [OF sdp, where tr = tr and took = took and g = g0] sd(2) unfolding g1_def g0_def [symmetric] old by auto
  have i: "dl_Identity y = dl_Identity ?d" using y(2) by (simp add: delivery_key_def)
  have "y \<in> set (deliveries (st (g_hub g1)))" using y(1) by (auto simp: delivery_of_def dest: find_Some_set)
  then have "\<not> dl_Whisper y" using hub_reach_sound [OF r1] by (auto simp: sound_def hub_inv_def db_inv_def inv_group_def)
  then have "sound_delivery (p\<lparr>pd_Delivery := y\<rparr>)" using sd(1) y i by (auto simp: sound_delivery_def Let_def)
  moreover have "env (g_hub g1) = env (g_hub g)" "g_cfg g1 = g_cfg g" "\<not> too_old p g0 \<Longrightarrow> now_ns (g_hub g1) = now_ns (g_hub g0) + took"
    using deliver_frame [OF sdp, where tr = tr and took = took and g = g0] e0 unfolding g1_def g0_def [symmetric] old by auto
  moreover have "accepted tr g0 = accepted tr g" by (simp add: g0_def)
  moreover have "0 \<le> dl_PartsDone ?d" using sd(1) by (simp add: sound_delivery_def Let_def)
  ultimately show ?thesis using y i r1 e0 by (intro that [of y j]) auto
qed

lemma attempts_facts:
  assumes "sound_delivery p" "0 \<le> dl_Attempts (pd_Delivery p)" "hub_reach (g_hub g)" "\<forall>(wait, took, away)\<in>set ts. 0 \<le> wait \<and> 0 \<le> took"
    "dl_State (pd_Delivery p) \<in> {DeliveryProven, DeliveryPropagated} \<longrightarrow> dl_PartsDone (pd_Delivery p) = int (length (parts_of p))"
  shows "case attempts tr ts p g of (p', g') \<Rightarrow> \<exists>k. dl_PartsDone (pd_Delivery p') = int k \<and> nat (dl_PartsDone (pd_Delivery p)) \<le> k \<and> k \<le> length (parts_of p) \<and>
    accepted tr g' = accepted tr g @ map (Pair (LXMFAddress (env (g_hub g)) (dl_Identity (pd_Delivery p)))) (drop (nat (dl_PartsDone (pd_Delivery p))) (take k (parts_of p))) \<and>
    (dl_State (pd_Delivery p') \<in> {DeliveryProven, DeliveryPropagated} \<longrightarrow> k = length (parts_of p))"
  using assms
proof (induction ts arbitrary: p g)
  case Nil
  then show ?case by (auto simp: sound_delivery_def Let_def intro!: exI [of _ "nat (dl_PartsDone (pd_Delivery p))"])
next
  case (Cons t ts)
  obtain wait took away where t: "t = (wait, took, away)" by (metis prod_cases3)
  let ?d = "pd_Delivery p" and ?n = "nat (dl_PartsDone (pd_Delivery p))"
  have n: "0 \<le> dl_PartsDone ?d" "dl_PartsDone ?d \<le> int (length (parts_of p))" using Cons.prems(1) by (auto simp: sound_delivery_def Let_def)
  show ?case
  proof (cases "dl_State ?d = DeliveryQueued")
    case False
    then show ?thesis using Cons.prems n by (auto simp: t intro!: exI [of _ ?n])
  next
    case True
    have w: "0 \<le> wait" "0 \<le> took" using Cons.prems(4) by (auto simp: t)
    let ?g1 = "deliver tr took (p\<lparr>pd_AwayUntil := away\<rparr>) (pass_time wait g)"
    obtain y j where y: "row_in ?g1 ?d = Some y" "sound_delivery (p\<lparr>pd_Delivery := y\<rparr>)" "0 \<le> dl_Attempts y" "dl_Identity y = dl_Identity ?d"
      "dl_PartsDone y = dl_PartsDone ?d + int j"
      "accepted tr ?g1 = accepted tr g @ map (Pair (LXMFAddress (env (g_hub g)) (dl_Identity y))) (take j (drop ?n (parts_of p)))"
      "hub_reach (g_hub ?g1)" "env (g_hub ?g1) = env (g_hub g)"
      "dl_State y \<in> {DeliveryProven, DeliveryPropagated} \<longrightarrow> dl_PartsDone y = int (length (parts_of p))"
      using attempt_step [OF Cons.prems(1,2,3) w, of tr away] by metis
    let ?p1 = "p\<lparr>pd_Delivery := y\<rparr>"
    have run: "attempts tr (t # ts) p g = attempts tr ts ?p1 ?g1" using True y(1) by (simp add: t Let_def)
    have IH: "case attempts tr ts ?p1 ?g1 of (p', g') \<Rightarrow> \<exists>k. dl_PartsDone (pd_Delivery p') = int k \<and> nat (dl_PartsDone y) \<le> k \<and> k \<le> length (parts_of p) \<and>
      accepted tr g' = accepted tr ?g1 @ map (Pair (LXMFAddress (env (g_hub ?g1)) (dl_Identity y))) (drop (nat (dl_PartsDone y)) (take k (parts_of p))) \<and>
      (dl_State (pd_Delivery p') \<in> {DeliveryProven, DeliveryPropagated} \<longrightarrow> k = length (parts_of p))"
      using Cons.IH [of ?p1 ?g1] y Cons.prems(4) by simp
    have nj: "nat (dl_PartsDone y) = ?n + j" using y(5) n by simp
    have cat: "take j (drop ?n (parts_of p)) @ drop (?n + j) (take k (parts_of p)) = drop ?n (take k (parts_of p))" if le: "?n + j \<le> k" for k
    proof -
      obtain m where k: "k = ?n + j + m" using le_Suc_ex [OF le] by blast
      have "drop ?n (take k (parts_of p)) = take (j + m) (drop ?n (parts_of p))" by (simp add: k drop_take)
      then show ?thesis by (simp add: k drop_take take_add [of j m] add.commute [of j ?n])
    qed
    obtain p' g' where pg: "attempts tr ts ?p1 ?g1 = (p', g')" by force
    from IH obtain k where k: "dl_PartsDone (pd_Delivery p') = int k" "?n + j \<le> k" "k \<le> length (parts_of p)"
      "accepted tr g' = accepted tr ?g1 @ map (Pair (LXMFAddress (env (g_hub g)) (dl_Identity ?d))) (drop (?n + j) (take k (parts_of p)))"
      "dl_State (pd_Delivery p') \<in> {DeliveryProven, DeliveryPropagated} \<longrightarrow> k = length (parts_of p)"
      unfolding pg y(8) y(4) nj by auto
    have "accepted tr g' = accepted tr g @ map (Pair (LXMFAddress (env (g_hub g)) (dl_Identity ?d))) (drop ?n (take k (parts_of p)))"
      unfolding k(4) y(6) y(4) cat [OF k(2), symmetric] by simp
    with k show ?thesis unfolding run pg by (intro case_prodI exI [of _ k]) simp
  qed
qed

text \<open>
  C13. A message reaches a member whole, in order and without repeats, over any number of attempts and whatever the network does:
  the parts accepted for the delivery so far are exactly the first ones of the message's parts, as many as the queue has recorded,
  and a delivery recorded as delivered has had every part accepted.
\<close>

theorem parts_in_order:
  assumes "sound_delivery p" "0 \<le> dl_Attempts (pd_Delivery p)" "dl_PartsDone (pd_Delivery p) = 0" "dl_State (pd_Delivery p) = DeliveryQueued"
    and "hub_reach (g_hub g)" "\<forall>(wait, took, away)\<in>set ts. 0 \<le> wait \<and> 0 \<le> took"
  shows "case attempts tr ts p g of (p', g') \<Rightarrow> \<exists>k. dl_PartsDone (pd_Delivery p') = int k \<and> k \<le> length (parts_of p) \<and>
    accepted tr g' = accepted tr g @ map (Pair (LXMFAddress (env (g_hub g)) (dl_Identity (pd_Delivery p)))) (take k (parts_of p)) \<and>
    (dl_State (pd_Delivery p') \<in> {DeliveryProven, DeliveryPropagated} \<longrightarrow> k = length (parts_of p))"
  using attempts_facts [OF assms(1,2,5,6), of tr] assms(3,4) by (auto split: prod.splits)

text \<open>When the last attempt of a list starts.\<close>

fun time_of_last :: "(int \<times> int \<times> millis) list \<Rightarrow> int" where
  "time_of_last [] = 0"
| "time_of_last [(wait, took, away)] = wait"
| "time_of_last ((wait, took, away) # ts) = wait + took + time_of_last ts"

lemma attempts_end:
  assumes "sound_delivery p" "0 \<le> dl_Attempts (pd_Delivery p)" "hub_reach (g_hub g)" "\<forall>(wait, took, away)\<in>set ts. 0 \<le> wait \<and> 0 \<le> took"
    and "ts \<noteq> []" "gc_GiveUpAfter (g_cfg g) < now_ns (g_hub g) + time_of_last ts - PendingDelivery_SaidAt p * 1000000"
  shows "dl_State (pd_Delivery (fst (attempts tr ts p g))) \<noteq> DeliveryQueued"
  using assms
proof (induction ts arbitrary: p g)
  case (Cons t ts)
  obtain wait took away where t: "t = (wait, took, away)" by (metis prod_cases3)
  show ?case
  proof (cases "dl_State (pd_Delivery p) = DeliveryQueued")
    case True
    have w: "0 \<le> wait" "0 \<le> took" using Cons.prems(4) by (auto simp: t)
    let ?g0 = "pass_time wait g" and ?g1 = "deliver tr took (p\<lparr>pd_AwayUntil := away\<rparr>) (pass_time wait g)"
    obtain y where y: "row_in ?g1 (pd_Delivery p) = Some y" "sound_delivery (p\<lparr>pd_Delivery := y\<rparr>)" "0 \<le> dl_Attempts y" "hub_reach (g_hub ?g1)" "g_cfg ?g1 = g_cfg g"
      "dl_State y = DeliveryQueued \<longrightarrow> \<not> too_old p ?g0 \<and> now_ns (g_hub ?g1) = now_ns (g_hub ?g0) + took"
      using attempt_step [OF Cons.prems(1,2,3) w, of tr away] by metis
    have run: "attempts tr (t # ts) p g = attempts tr ts (p\<lparr>pd_Delivery := y\<rparr>) ?g1" using True y(1) by (simp add: t Let_def)
    have n0: "now_ns (g_hub ?g0) = now_ns (g_hub g) + wait" "g_cfg ?g0 = g_cfg g" by (simp_all add: pass_time_def)
    show ?thesis
    proof (cases "dl_State y = DeliveryQueued")
      case False
      then show ?thesis unfolding run by (cases ts) auto
    next
      case still: True
      show ?thesis
      proof (cases ts)
        case Nil
        then have "too_old p ?g0" using Cons.prems(6) n0 by (simp add: t too_old_def)
        then show ?thesis using y(6) still by simp
      next
        case (Cons t2 ts2)
        then have "time_of_last (t # ts) = wait + took + time_of_last ts" by (simp add: t)
        then show ?thesis unfolding run using Cons.IH [of "p\<lparr>pd_Delivery := y\<rparr>" ?g1] Cons.prems(4,6) y still n0 Cons by simp
      qed
    qed
  qed (simp add: t)
qed simp


section \<open>A member who is away\<close>

text \<open>
  Alice's message to Bob on a hub just started. Bob's own address never answers; the propagation node takes everything.
\<close>

definition bob_away :: transport where
  "bob_away = \<lparr>tp_Recall = (\<lambda>_. None), tp_IdentityHash = id, tp_DisplayName = (\<lambda>_. None),
     tp_Send = (\<lambda>_ x. case x of Direct _ _ \<Rightarrow> Some (ErrSend ''no proof'') | _ \<Rightarrow> None)\<rparr>"

definition town_group :: group where
  "town_group = group_New (group_Defaults\<lparr>gc_PropagationNode := Some (replicate 16 (CHR ''n''))\<rparr>) town_started"

definition to_bob :: PendingDelivery where
  "to_bob = \<lparr>pd_Delivery = queued_delivery 1 False 100 bob, pd_Message = no_message\<lparr>m_AuthorName := ''Alice'', m_Body := ''hello'', m_HubAt := 100\<rparr>,
     pd_Whisper = None, pd_AwayUntil = 0\<rparr>"

lemma to_bob_sound: "sound_delivery to_bob" "0 \<le> dl_Attempts (pd_Delivery to_bob)" "hub_reach (g_hub town_group)"
proof -
  show "sound_delivery to_bob" "0 \<le> dl_Attempts (pd_Delivery to_bob)" by code_simp+
  show "hub_reach (g_hub town_group)" by (simp add: town_group_def group_New_def town_started_reach)
qed

text \<open>Two failed attempts, and a third through the node, the member being marked away by then.\<close>

definition three_tries :: "(int \<times> int \<times> millis) list" where
  "three_tries = [(0, second_ns, 0), (30 * second_ns, second_ns, 0), (0, second_ns, 1000000)]"

theorem parts_in_order_witness:
  "dl_State (pd_Delivery (fst (attempts bob_away three_tries to_bob town_group))) = DeliveryPropagated \<and>
    map snd (accepted bob_away (snd (attempts bob_away three_tries to_bob town_group))) = [''Alice: hello'']"
proof -
  have e: "dl_State (pd_Delivery (fst (attempts bob_away three_tries to_bob town_group))) = DeliveryPropagated"
    "parts_of to_bob = [''Alice: hello'']" "accepted bob_away town_group = []" by code_simp+
  have "dl_PartsDone (pd_Delivery to_bob) = 0" "dl_State (pd_Delivery to_bob) = DeliveryQueued"
    "\<forall>(wait, took, away)\<in>set three_tries. 0 \<le> wait \<and> 0 \<le> took" by code_simp+
  from parts_in_order [OF to_bob_sound(1,2) this(1,2) to_bob_sound(3) this(3), of bob_away] show ?thesis
    using e by (auto split: prod.splits)
qed


text \<open>
  C15. With the adapter running beside everything else, in any history: no delivery is in the hands of two senders, the adapter's queues
  stay within their buffers, no LXMF message is remembered twice, and the hub is in a state its own requests lead to, so whatever is
  proved of every reachable hub holds.
\<close>

theorem group_reach_sound:
  assumes "group_reach tr n g"
  shows "distinct (job_keys g) \<and> set (g_inFlight g) = set (job_keys g) \<and> distinct (g_seen g) \<and> length (g_seen g) \<le> seen_max \<and>
    length (g_inbox g) \<le> inbox_size \<and> length (g_replies g) \<le> replies_size \<and> hub_reach (g_hub g)"
  using group_reach_inv [OF assms] by (simp add: group_inv_def)

definition busy_group :: group where
  "busy_group = dispatch True (fetch_due (note_seq (group_New group_Defaults (snd (Post hello town_started)))))"

theorem group_reach_sound_witness: "length (job_keys busy_group) = 1 \<and> set (g_inFlight busy_group) = set (job_keys busy_group)"
proof -
  let ?g = "group_New group_Defaults (snd (Post hello town_started))"
  have "hub_reach (snd (Post hello town_started))" by (rule stepped [OF town_started_reach do_Post]) (rule surjective_pairing)
  then have "group_reach bob_away 0 ?g" by (rule group_start)
  moreover have "?g\<lparr>g_wake := False\<rparr> = ?g" by (simp add: group_New_def)
  ultimately have "group_reach bob_away 0 busy_group" unfolding busy_group_def by (metis group_more g_note g_fetch g_dispatch)
  moreover have "length (job_keys busy_group) = 1" by code_simp
  ultimately show ?thesis using group_reach_sound by blast
qed

text \<open>
  Without a propagation node nothing slows the retries down: once the direct attempts are used up, each failure sets the next attempt to
  the very moment of the one that failed.
\<close>

lemma no_node_no_pause:
  "map (\<lambda>n. dl_NextAt (pd_Delivery (fst (attempts bob_away (replicate n (0, 0, 0)) to_bob (town_group\<lparr>g_cfg := group_Defaults\<rparr>))))) [2, 3, 4] = [100, 100, 100] \<and>
    nowMS (g_hub town_group) = 100"
  by code_simp

end
