(* ===== verification/RrcSplit.thy ===== *)
theory RrcSplit
  imports GoText
begin

text \<open>
  internal/rrcsrv/envelopes.go: splitText, which cuts a line into pieces that fit a frame. The loop of the code need not end, so
  \<open>split_rest\<close> is partial and \<open>None\<close> is a loop that never ends. On valid text it ends, and the pieces are bounded, valid and lose nothing
  but spaces at the cuts; on a run of continuation bytes longer than a piece it never ends.
\<close>

section \<open>The code\<close>

text \<open>One round of the loop on a text longer than the limit: what it appends, and the text that is left.\<close>

definition split_cut :: "string \<Rightarrow> nat \<Rightarrow> nat" where
  "split_cut s limit = (let c = back_to_start s limit in
     case LastIndex (take c s) '' '' of Some sp \<Rightarrow> if limit div 2 < sp then sp + 1 else c | None \<Rightarrow> c)"

partial_function (option) split_rest :: "string \<Rightarrow> nat \<Rightarrow> string list option" where
  [code]: "split_rest s limit = (if length s \<le> limit then Some (if s = '''' then [] else [s])
     else Option.bind (split_rest (TrimLeftSet (drop (split_cut s limit) s) '' '') limit)
       (\<lambda>ps. Some (TrimRightSet (take (split_cut s limit) s) '' '' # ps)))"

definition splitText :: "string \<Rightarrow> nat \<Rightarrow> string list option" where
  "splitText s limit = (if length s \<le> limit then Some [s] else split_rest s limit)"

section \<open>Cuts\<close>

lemma split_cut_le: "split_cut s limit \<le> limit"
proof (cases "LastIndex (take (back_to_start s limit) s) '' ''")
  case (Some sp)
  then have "sp + 1 \<le> back_to_start s limit" using LastIndex_Some [OF Some] by simp
  then show ?thesis using back_to_start_le [of s limit] Some by (auto simp: split_cut_def Let_def)
qed (simp add: split_cut_def Let_def back_to_start_le)

lemma TrimLeft_valid [simp]: "ValidString s \<Longrightarrow> ValidString (TrimLeftSet s '' '')"
  by (rule ValidString_TrimLeftSet) simp

lemma TrimRight_valid [simp]: "ValidString s \<Longrightarrow> ValidString (TrimRightSet s '' '')"
  by (rule ValidString_TrimRightSet) simp

text \<open>Valid text is cut at the start of a character, before the limit but not by more than three bytes, or after a space.\<close>

lemma split_cut_valid:
  assumes "ValidString s" "4 \<le> limit" "limit < length s"
  shows "0 < split_cut s limit" "ValidString (take (split_cut s limit) s)" "ValidString (drop (split_cut s limit) s)"
proof -
  let ?b = "back_to_start s limit"
  have b: "limit < ?b + 4" "RuneStart (s ! ?b)" "?b \<le> limit"
    using back_to_start_valid [of s limit] assms back_to_start_le by auto
  have cut: "ValidString (take ?b s)" "ValidString (drop ?b s)" using ValidString_cut [OF assms(1) _ b(2)] b(3) assms(3) by auto
  have "0 < split_cut s limit \<and> ValidString (take (split_cut s limit) s) \<and> ValidString (drop (split_cut s limit) s)"
  proof (cases "split_cut s limit = ?b")
    case True
    then show ?thesis using b assms(2) cut by simp
  next
    case False
    then obtain sp where sp: "LastIndex (take ?b s) '' '' = Some sp" "split_cut s limit = sp + 1"
      by (auto simp: split_cut_def Let_def split: option.splits if_splits)
    from LastIndex_Some [OF sp(1)] have at: "sp + 1 \<le> ?b" "s ! sp = CHR '' ''" "sp < length s"
      using b(3) assms(3) by (auto simp: HasPrefix_def take_Suc_conv_app_nth nth_append drop_take hd_drop_conv_nth [symmetric] take_Suc neq_Nil_conv split: if_splits)
    then have "RuneStart (s ! sp)" by (simp add: RuneStart_def cont_byte_def)
    from ValidString_cut [OF assms(1) at(3) this] have v: "ValidString (take sp s)" "ValidString (drop sp s)" .
    have "take (sp + 1) s = take sp s @ [CHR '' '']" using at by (simp add: take_Suc_conv_app_nth)
    moreover have "drop sp s = CHR '' '' # drop (sp + 1) s" using at by (metis Cons_nth_drop_Suc Suc_eq_plus1)
    ultimately show ?thesis using sp(2) v by (simp add: ValidString_append ValidString_ascii)
  qed
  then show "0 < split_cut s limit" "ValidString (take (split_cut s limit) s)" "ValidString (drop (split_cut s limit) s)" by auto
qed

text \<open>What is kept of a text when only spaces may be lost.\<close>

definition unspaced :: "string \<Rightarrow> string" where
  "unspaced s = filter (\<lambda>c. c \<noteq> CHR '' '') s"

lemma unspaced_simps [simp]: "unspaced [] = []" "unspaced (a @ b) = unspaced a @ unspaced b"
  by (simp_all add: unspaced_def)

lemma unspaced_trim [simp]: "unspaced (TrimLeftSet s '' '') = unspaced s" "unspaced (TrimRightSet s '' '') = unspaced s"
proof -
  show l: "unspaced (TrimLeftSet s '' '') = unspaced s" for s by (induction s) (auto simp: unspaced_def TrimLeftSet_def)
  have "rev (unspaced (TrimRightSet s '' '')) = unspaced (dropWhile (\<lambda>c. c \<in> set '' '') (rev s))"
    by (simp add: unspaced_def TrimRightSet_def rev_filter)
  also have "\<dots> = rev (unspaced s)" using l [of "rev s"] by (simp add: TrimLeftSet_def unspaced_def rev_filter)
  finally show "unspaced (TrimRightSet s '' '') = unspaced s" by simp
qed

lemma split_rest_short: "length s \<le> limit \<Longrightarrow> split_rest s limit = Some (if s = '''' then [] else [s])"
  by (subst split_rest.simps) simp

lemma split_rest_returns:
  assumes "ValidString s" "4 \<le> limit"
  shows "\<exists>ps. split_rest s limit = Some ps \<and> (\<forall>p\<in>set ps. length p \<le> limit \<and> ValidString p) \<and> unspaced (concat ps) = unspaced s"
  using assms(1)
proof (induction "length s" arbitrary: s rule: less_induct)
  case less
  show ?case
  proof (cases "length s \<le> limit")
    case True
    then show ?thesis using less.prems by (simp add: split_rest_short)
  next
    case False
    let ?c = "split_cut s limit"
    let ?r = "TrimLeftSet (drop ?c s) '' ''" and ?p = "TrimRightSet (take ?c s) '' ''"
    note c = split_cut_valid [OF less.prems assms(2)]
    have "length ?r < length s" using c(1) False length_TrimLeftSet [of "drop ?c s" "'' ''"] by simp
    moreover have "ValidString ?r" using c(3) False by simp
    ultimately obtain ps where ps: "split_rest ?r limit = Some ps" "\<forall>p\<in>set ps. length p \<le> limit \<and> ValidString p" "unspaced (concat ps) = unspaced ?r"
      using less.hyps by blast
    have "length ?p \<le> limit" using length_TrimRightSet [of "take ?c s" "'' ''"] split_cut_le [of s limit] by simp
    moreover have "ValidString ?p" using c(2) False by simp
    moreover have "unspaced (take ?c s) @ unspaced (drop ?c s) = unspaced s" by (metis append_take_drop_id unspaced_simps(2))
    ultimately show ?thesis using False ps by (subst split_rest.simps) simp
  qed
qed



section \<open>Text that is not valid\<close>

text \<open>The first byte and then continuation bytes up to the limit: no cut is found, and nothing is taken off.\<close>

definition stuck :: "string \<Rightarrow> nat \<Rightarrow> bool" where
  "stuck s limit \<longleftrightarrow> limit < length s \<and> s ! 0 \<noteq> CHR '' '' \<and> (\<forall>j. 0 < j \<and> j \<le> limit \<longrightarrow> \<not> RuneStart (s ! j))"

lemma back_to_start_stuck: "\<forall>j. 0 < j \<and> j \<le> i \<longrightarrow> \<not> RuneStart (s ! j) \<Longrightarrow> back_to_start s i = 0"
  by (induction s i rule: back_to_start.induct) auto

lemma stuck_again: "stuck s limit \<Longrightarrow> TrimLeftSet (drop (split_cut s limit) s) '' '' = s"
  by (cases s) (auto simp: stuck_def split_cut_def Let_def back_to_start_stuck TrimLeftSet_def)

lemma split_rest_stuck: "split_rest s limit = Some ps \<Longrightarrow> \<not> stuck s limit"
proof (erule split_rest.raw_induct [where P = "\<lambda>s limit ps. \<not> stuck s limit", rotated])
  fix f s limit and ps :: "string list"
  assume ih: "\<And>s limit ps. f s limit = Some ps \<Longrightarrow> \<not> stuck s limit"
    and run: "(if length s \<le> limit then Some (if s = '''' then [] else [s])
      else Option.bind (f (TrimLeftSet (drop (split_cut s limit) s) '' '') limit) (\<lambda>ps. Some (TrimRightSet (take (split_cut s limit) s) '' '' # ps))) = Some ps"
  have "\<not> stuck s limit" if "length s \<le> limit" using that by (simp add: stuck_def)
  moreover have "\<not> stuck s limit" if "\<not> length s \<le> limit"
  proof -
    from that run obtain qs where "f (TrimLeftSet (drop (split_cut s limit) s) '' '') limit = Some qs"
      by (auto simp: Option.bind_eq_Some_conv)
    from ih [OF this] show ?thesis using stuck_again [of s limit] by auto
  qed
  ultimately show "\<not> stuck s limit" by blast
qed

text \<open>
  C40. splitText does not end on a text whose first byte is followed by more continuation bytes than fit a piece: the code cuts
  nothing off and appends an empty piece for ever. Only invalid text is like that.
\<close>

theorem splitText_never_returns:
  assumes "stuck s limit"
  shows "splitText s limit = None \<and> (4 \<le> limit \<longrightarrow> \<not> ValidString s)"
proof -
  have "splitText s limit = None"
    using assms split_rest_stuck [of s limit] by (cases "split_rest s limit") (auto simp: splitText_def stuck_def)
  moreover have False if "4 \<le> limit" "ValidString s" using split_rest_returns [OF that(2,1)] split_rest_stuck assms by blast
  ultimately show ?thesis by auto
qed

theorem splitText_never_returns_witness:
  "splitText (replicate 17 (CHR 0x80)) 16 = None"
proof -
  have "stuck (replicate 17 (CHR 0x80)) 16" by (simp add: stuck_def RuneStart_def cont_byte_def)
  from splitText_never_returns [OF this] show ?thesis by simp
qed

end
