(* ===== verification/Wire.thy ===== *)
theory Wire
  imports WireNames GoText
begin

text \<open>
  rrc/wire: the envelope every RRC frame is (constants.go, envelope.go) and the bodies of HELLO, WELCOME, RESOURCE_ENVELOPE and the hub's
  announce (bodies.go). Go's \<^verbatim>\<open>map[Key]...\<close> are association lists in the order of their keys, which is the order the
  deterministic encoding puts them in.

  The CBOR library (fxamacker/cbor) is a parameter, \<open>codec\<close>: its Unmarshal into the Go types the code uses, and its Marshal
  of the values the code builds. \<open>codec_laws\<close> states what its documentation promises and the round trips need.
\<close>

section \<open>CBOR values as Go sees them\<close>

text \<open>What Unmarshal puts into an \<^verbatim>\<open>any\<close>.\<close>

datatype any = AUint nat | AInt int | ABytes bytes | AText string | ABool bool | ANil | AArray "any list" | AMap "(any \<times> any) list" | AFloat string

text \<open>What the code marshals: unsigned and signed integers, bytes, text, booleans, raw CBOR, lists, and maps with integer keys.\<close>

datatype val = VUint nat | VInt int | VBytes bytes | VText string | VBool bool | VRaw bytes | VList "val list" | VMap "(nat \<times> val) list"

record codec =
  un_any :: "bytes \<Rightarrow> any option"
  un_map :: "bytes \<Rightarrow> string + (any \<times> bytes) list"
  un_anymap :: "bytes \<Rightarrow> (any \<times> any) list option"
  un_bytes :: "bytes \<Rightarrow> bytes option"
  un_string :: "bytes \<Rightarrow> string option"
  un_textmap :: "bytes \<Rightarrow> (string \<times> any) list option"
  un_ext :: "bytes \<Rightarrow> (nat \<times> bytes) list option"
  marshal :: "val \<Rightarrow> bytes option"
  marshal_ext :: "(nat \<times> bytes) list \<Rightarrow> bytes option"

text \<open>The major type: the top three bits of the first byte.\<close>

definition major :: "bytes \<Rightarrow> nat" where
  "major b = of_char (hd b) div 32"

section \<open>Constants\<close>

definition wire_Version :: nat where "wire_Version = 1"

definition KeyV :: nat where "KeyV = 0"
definition KeyT :: nat where "KeyT = 1"
definition KeyID :: nat where "KeyID = 2"
definition KeyTS :: nat where "KeyTS = 3"
definition KeySrc :: nat where "KeySrc = 4"
definition KeyRoom :: nat where "KeyRoom = 5"
definition KeyBody :: nat where "KeyBody = 6"
definition KeyNick :: nat where "KeyNick = 7"
definition KeyDst :: nat where "KeyDst = 8"
definition ExtensionMin :: nat where "ExtensionMin = 64"

lemmas key_defs = KeyV_def KeyT_def KeyID_def KeyTS_def KeySrc_def KeyRoom_def KeyBody_def KeyNick_def KeyDst_def ExtensionMin_def

text \<open>The message types; a type is any unsigned number.\<close>

definition TypeHello :: nat where "TypeHello = 1"
definition TypeWelcome :: nat where "TypeWelcome = 2"
definition TypeJoin :: nat where "TypeJoin = 10"
definition TypeJoined :: nat where "TypeJoined = 11"
definition TypePart :: nat where "TypePart = 12"
definition TypeParted :: nat where "TypeParted = 13"
definition TypeMsg :: nat where "TypeMsg = 20"
definition TypeNotice :: nat where "TypeNotice = 21"
definition TypeAction :: nat where "TypeAction = 22"
definition TypePing :: nat where "TypePing = 30"
definition TypePong :: nat where "TypePong = 31"
definition TypeError :: nat where "TypeError = 40"
definition TypeResourceEnvelope :: nat where "TypeResourceEnvelope = 50"

lemmas type_defs = TypeHello_def TypeWelcome_def TypeJoin_def TypeJoined_def TypePart_def TypeParted_def TypeMsg_def TypeNotice_def TypeAction_def
  TypePing_def TypePong_def TypeError_def TypeResourceEnvelope_def

definition typeNames :: "(nat \<times> string) list" where
  "typeNames = [(TypeHello, ''HELLO''), (TypeWelcome, ''WELCOME''), (TypeJoin, ''JOIN''), (TypeJoined, ''JOINED''), (TypePart, ''PART''),
     (TypeParted, ''PARTED''), (TypeMsg, ''MSG''), (TypeNotice, ''NOTICE''), (TypeAction, ''ACTION''), (TypePing, ''PING''), (TypePong, ''PONG''),
     (TypeError, ''ERROR''), (TypeResourceEnvelope, ''RESOURCE_ENVELOPE'')]"

definition Type_String :: "nat \<Rightarrow> string" where
  "Type_String t = (case map_of typeNames t of Some n \<Rightarrow> n | None \<Rightarrow> ''TYPE('' @ nat_digits t @ '')'')"

section \<open>Envelopes\<close>

text \<open>Dst keeps nil apart from empty; Body is \<open>[]\<close> when there is none, as the code only asks for its length.\<close>

record Envelope =
  ev_Type :: nat
  ev_ID :: bytes
  ev_TS :: nat
  ev_Src :: bytes
  ev_Room :: string
  ev_Nick :: string
  ev_Dst :: "bytes option"
  ev_Body :: bytes
  ev_Ext :: "(nat \<times> bytes) list"

record DecodeLimits =
  MaxFrameBytes :: int
  MaxIDBytes :: int
  MaxExtBytes :: int

definition DefaultLimits :: DecodeLimits where
  "DefaultLimits = \<lparr>MaxFrameBytes = 256 * 1024, MaxIDBytes = 64, MaxExtBytes = 128\<rparr>"

text \<open>decodeInt: major types 0 and 1; an unsigned number beyond int64 is its largest value.\<close>

definition decodeInt :: "codec \<Rightarrow> bytes \<Rightarrow> int option" where
  "decodeInt c raw = (if raw = [] \<or> 1 < major raw then None
     else case un_any c raw of
       Some (AUint n) \<Rightarrow> Some (if 2 ^ 63 - 1 < n then 2 ^ 63 - 1 else int n)
     | Some (AInt i) \<Rightarrow> Some i
     | _ \<Rightarrow> None)"

definition decodeBytes :: "codec \<Rightarrow> bytes \<Rightarrow> bytes option" where
  "decodeBytes c raw = (if raw = [] \<or> major raw \<noteq> 2 then None else un_bytes c raw)"

definition decodeString :: "codec \<Rightarrow> bytes \<Rightarrow> string option" where
  "decodeString c raw = (if raw = [] \<or> major raw \<noteq> 3 then None else un_string c raw)"

text \<open>A missing key of the Go map reads as the zero RawMessage.\<close>

definition field :: "(nat \<times> bytes) list \<Rightarrow> nat \<Rightarrow> bytes" where
  "field fs k = (case map_of fs k of Some v \<Rightarrow> v | None \<Rightarrow> [])"

definition invalid :: "string \<Rightarrow> string + 'a" where
  "invalid t = Inl t"

text \<open>An optional field: absent, there, or there with the wrong type.\<close>

definition optional :: "(nat \<times> bytes) list \<Rightarrow> nat \<Rightarrow> (bytes \<Rightarrow> 'a option) \<Rightarrow> 'a \<Rightarrow> string \<Rightarrow> string + 'a" where
  "optional fs k dec zero err = (case map_of fs k of None \<Rightarrow> Inr zero | Some raw \<Rightarrow> (case dec raw of Some v \<Rightarrow> Inr v | None \<Rightarrow> invalid err))"

definition required :: "'a option \<Rightarrow> string \<Rightarrow> string + 'a" where
  "required v err = (case v of Some x \<Rightarrow> Inr x | None \<Rightarrow> invalid err)"

text \<open>The keys of the decoded map: unsigned ones are fields; another kind of key, and then a negative one, is an error.\<close>

definition envelope_fields :: "(any \<times> bytes) list \<Rightarrow> string + (nat \<times> bytes) list" where
  "envelope_fields raw =
     (if \<exists>(k, v)\<in>set raw. (case k of AUint _ \<Rightarrow> False | AInt _ \<Rightarrow> False | _ \<Rightarrow> True) then invalid ''envelope keys must be integers''
      else if \<exists>(k, v)\<in>set raw. (case k of AInt _ \<Rightarrow> True | _ \<Rightarrow> False) then invalid ''envelope keys must be unsigned integers''
      else Inr (List.map_filter (\<lambda>(k, v). case k of AUint n \<Rightarrow> Some (n, v) | _ \<Rightarrow> None) raw))"

definition missing_key :: "(nat \<times> bytes) list \<Rightarrow> nat option" where
  "missing_key fs = find (\<lambda>k. map_of fs k = None) [KeyV, KeyT, KeyID, KeyTS, KeySrc]"

definition ext_fields :: "(nat \<times> bytes) list \<Rightarrow> (nat \<times> bytes) list" where
  "ext_fields fs = filter (\<lambda>(k, v). ExtensionMin \<le> k) fs"

definition ext_size :: "(nat \<times> bytes) list \<Rightarrow> nat" where
  "ext_size ext = sum_list (map (\<lambda>(k, v). length v + 9) ext)"

text \<open>Decode once the fields are known, in rrcd's order.\<close>

definition decode_fields :: "codec \<Rightarrow> DecodeLimits \<Rightarrow> (nat \<times> bytes) list \<Rightarrow> string + Envelope" where
  "decode_fields c lm fs = (case missing_key fs of Some k \<Rightarrow> invalid (''missing envelope key '' @ nat_digits k) | None \<Rightarrow>
     bindE (required (decodeInt c (field fs KeyV)) ''protocol version must be an integer'') (\<lambda>v.
     bindE (requireE (v = int wire_Version) (''unsupported version '' @ itoa v)) (\<lambda>_.
     bindE (required (decodeInt c (field fs KeyT)) ''message type must be an integer'') (\<lambda>t.
     bindE (requireE (0 \<le> t) ''message type must be an integer'') (\<lambda>_.
     bindE (required (decodeBytes c (field fs KeyID)) ''message id must be bytes'') (\<lambda>mid.
     bindE (requireE (\<not> (0 < MaxIDBytes lm \<and> MaxIDBytes lm < int (length mid)))
       (''message id too long: '' @ itoa (int (length mid)) @ '' bytes > '' @ itoa (MaxIDBytes lm) @ '' bytes'')) (\<lambda>_.
     bindE (required (decodeInt c (field fs KeyTS)) ''timestamp must be an integer'') (\<lambda>ts.
     bindE (requireE (0 \<le> ts) ''timestamp must be unsigned'') (\<lambda>_.
     bindE (required (decodeBytes c (field fs KeySrc)) ''sender identity must be bytes'') (\<lambda>src.
     bindE (optional fs KeyRoom (decodeString c) '''' ''room name must be a string'') (\<lambda>room.
     bindE (optional fs KeyNick (decodeString c) '''' ''nickname must be a string'') (\<lambda>nick.
     bindE (optional fs KeyDst (\<lambda>r. map_option Some (decodeBytes c r)) None ''destination identity must be bytes'') (\<lambda>dst.
     let ext = ext_fields fs in
     bindE (requireE (\<not> (0 < MaxExtBytes lm \<and> MaxExtBytes lm < int (ext_size ext)))
       (''extension fields too large: '' @ itoa (int (ext_size ext)) @ '' bytes > '' @ itoa (MaxExtBytes lm) @ '' bytes'')) (\<lambda>_.
     Inr \<lparr>ev_Type = nat t, ev_ID = mid, ev_TS = nat ts, ev_Src = src, ev_Room = room, ev_Nick = nick, ev_Dst = dst, ev_Body = field fs KeyBody,
       ev_Ext = ext\<rparr>))))))))))))))"

definition Decode :: "codec \<Rightarrow> bytes \<Rightarrow> DecodeLimits \<Rightarrow> string + Envelope" where
  "Decode c frame lm =
     bindE (requireE (\<not> (0 < MaxFrameBytes lm \<and> MaxFrameBytes lm < int (length frame)))
       (''frame too large: '' @ itoa (int (length frame)) @ '' bytes > '' @ itoa (MaxFrameBytes lm) @ '' bytes'')) (\<lambda>_.
     bindE (requireE (\<not> (frame = [] \<or> major frame \<noteq> 5)) ''envelope must be a CBOR map (dict)'') (\<lambda>_.
     bindE (case un_map c frame of Inl e \<Rightarrow> invalid (''malformed CBOR: '' @ e) | Inr raw \<Rightarrow> Inr raw) (\<lambda>raw.
     bindE (envelope_fields raw) (decode_fields c lm))))"

text \<open>The map Encode builds; the extension keys are all beyond the envelope's own.\<close>

definition envelope_map :: "Envelope \<Rightarrow> (nat \<times> val) list" where
  "envelope_map e =
     [(KeyV, VUint wire_Version), (KeyT, VUint (ev_Type e)), (KeyID, VBytes (ev_ID e)), (KeyTS, VUint (ev_TS e)), (KeySrc, VBytes (ev_Src e))] @
     (if ev_Room e \<noteq> '''' then [(KeyRoom, VText (ev_Room e))] else []) @
     (if ev_Body e \<noteq> [] then [(KeyBody, VRaw (ev_Body e))] else []) @
     (if ev_Nick e \<noteq> '''' then [(KeyNick, VText (ev_Nick e))] else []) @
     (case ev_Dst e of Some d \<Rightarrow> [(KeyDst, VBytes d)] | None \<Rightarrow> []) @
     map (\<lambda>(k, v). (k, VRaw v)) (filter (\<lambda>(k, v). ExtensionMin \<le> k) (ev_Ext e))"

definition Encode :: "codec \<Rightarrow> Envelope \<Rightarrow> bytes option" where
  "Encode c e = marshal c (VMap (envelope_map e))"

definition BodyString :: "codec \<Rightarrow> Envelope \<Rightarrow> string option" where
  "BodyString c e = (if ev_Body e = [] then None else decodeString c (ev_Body e))"

definition SetBody :: "codec \<Rightarrow> val \<Rightarrow> Envelope \<Rightarrow> Envelope option" where
  "SetBody c v e = map_option (\<lambda>b. e\<lparr>ev_Body := b\<rparr>) (marshal c v)"

text \<open>TextBody: a string always encodes; the code panics otherwise.\<close>

definition TextBody :: "codec \<Rightarrow> string \<Rightarrow> bytes" where
  "TextBody c s = (case marshal c (VText s) of Some b \<Rightarrow> b | None \<Rightarrow> [])"

text \<open>Clone: values are never shared here, so a copy is the envelope itself.\<close>

definition Clone :: "Envelope \<Rightarrow> Envelope" where
  "Clone e = e"

section \<open>Bodies\<close>

definition HelloName :: nat where "HelloName = 0"
definition HelloVersion :: nat where "HelloVersion = 1"
definition HelloCaps :: nat where "HelloCaps = 2"
definition HelloLegacyNick :: nat where "HelloLegacyNick = 64"
definition WelcomeHub :: nat where "WelcomeHub = 0"
definition WelcomeVersion :: nat where "WelcomeVersion = 1"
definition WelcomeCaps :: nat where "WelcomeCaps = 2"
definition WelcomeLimits :: nat where "WelcomeLimits = 3"
definition LimitMaxNickBytes :: nat where "LimitMaxNickBytes = 0"
definition LimitMaxRoomNameBytes :: nat where "LimitMaxRoomNameBytes = 1"
definition LimitMaxMsgBodyBytes :: nat where "LimitMaxMsgBodyBytes = 2"
definition LimitMaxRoomsPerSession :: nat where "LimitMaxRoomsPerSession = 3"
definition LimitRatePerMinute :: nat where "LimitRatePerMinute = 4"
definition CapAction :: nat where "CapAction = 1"
definition CapDirectNotice :: nat where "CapDirectNotice = 2"
definition ResID :: nat where "ResID = 0"
definition ResKind :: nat where "ResKind = 1"
definition ResSize :: nat where "ResSize = 2"
definition ResSHA256 :: nat where "ResSHA256 = 3"
definition ResEncoding :: nat where "ResEncoding = 4"

lemmas body_key_defs = HelloName_def HelloVersion_def HelloCaps_def HelloLegacyNick_def WelcomeHub_def WelcomeVersion_def WelcomeCaps_def
  WelcomeLimits_def LimitMaxNickBytes_def LimitMaxRoomNameBytes_def LimitMaxMsgBodyBytes_def LimitMaxRoomsPerSession_def LimitRatePerMinute_def
  ResID_def ResKind_def ResSize_def ResSHA256_def ResEncoding_def

record Hello =
  he_Name :: string
  he_Version :: string
  he_Caps :: "(nat \<times> bool) list"
  he_LegacyNick :: string

text \<open>\<^verbatim>\<open>m[uint64(k)].(string)\<close>: the empty string when the key or the type is not there.\<close>

definition text_at :: "(any \<times> any) list \<Rightarrow> nat \<Rightarrow> string" where
  "text_at m k = (case map_of m (AUint k) of Some (AText s) \<Rightarrow> s | _ \<Rightarrow> '''')"

definition caps_at :: "(any \<times> any) list \<Rightarrow> nat \<Rightarrow> (nat \<times> bool) list" where
  "caps_at m k = (case map_of m (AUint k) of
     Some (AMap caps) \<Rightarrow> List.map_filter (\<lambda>(k, v). case k of AUint n \<Rightarrow> Some (n, case v of ABool on \<Rightarrow> on | _ \<Rightarrow> True) | _ \<Rightarrow> None) caps
   | _ \<Rightarrow> [])"

definition no_hello :: Hello where
  "no_hello = \<lparr>he_Name = '''', he_Version = '''', he_Caps = [], he_LegacyNick = ''''\<rparr>"

definition ParseHello :: "codec \<Rightarrow> bytes \<Rightarrow> Hello" where
  "ParseHello c body = (if body = [] then no_hello else case un_anymap c body of
     None \<Rightarrow> no_hello
   | Some m \<Rightarrow> \<lparr>he_Name = text_at m HelloName, he_Version = text_at m HelloVersion, he_Caps = caps_at m HelloCaps,
       he_LegacyNick = text_at m HelloLegacyNick\<rparr>)"

definition on_caps :: "(nat \<times> bool) list \<Rightarrow> val" where
  "on_caps caps = VMap (map (\<lambda>(k, v). (k, VBool True)) (filter snd caps))"

definition Hello_Encode :: "codec \<Rightarrow> Hello \<Rightarrow> bytes option" where
  "Hello_Encode c h = marshal c (VMap (
     (if he_Name h \<noteq> '''' then [(HelloName, VText (he_Name h))] else []) @
     (if he_Version h \<noteq> '''' then [(HelloVersion, VText (he_Version h))] else []) @
     (if he_Caps h \<noteq> [] then [(HelloCaps, on_caps (he_Caps h))] else []) @
     (if he_LegacyNick h \<noteq> '''' then [(HelloLegacyNick, VText (he_LegacyNick h))] else [])))"

record HubLimits =
  hl_MaxNickBytes :: int
  hl_MaxRoomNameBytes :: int
  hl_MaxMsgBodyBytes :: int
  hl_MaxRoomsPerSession :: int
  hl_RatePerMinute :: int

record Welcome =
  we_Hub :: string
  we_Version :: string
  we_Caps :: "(nat \<times> bool) list"
  we_Limits :: HubLimits

definition Welcome_Encode :: "codec \<Rightarrow> Welcome \<Rightarrow> bytes option" where
  "Welcome_Encode c w = marshal c (VMap [(WelcomeHub, VText (we_Hub w)), (WelcomeVersion, VText (we_Version w)), (WelcomeCaps, on_caps (we_Caps w)),
     (WelcomeLimits, VMap [(LimitMaxNickBytes, VInt (hl_MaxNickBytes (we_Limits w))), (LimitMaxRoomNameBytes, VInt (hl_MaxRoomNameBytes (we_Limits w))),
       (LimitMaxMsgBodyBytes, VInt (hl_MaxMsgBodyBytes (we_Limits w))), (LimitMaxRoomsPerSession, VInt (hl_MaxRoomsPerSession (we_Limits w))),
       (LimitRatePerMinute, VInt (hl_RatePerMinute (we_Limits w)))])])"

text \<open>\<^verbatim>\<open>int(v)\<close> of a uint64 wraps around beyond int64.\<close>

definition limit_at :: "(any \<times> any) list \<Rightarrow> nat \<Rightarrow> int" where
  "limit_at m k = (case map_of m (AUint k) of Some (AUint n) \<Rightarrow> if n < 2 ^ 63 then int n else int n - 2 ^ 64 | _ \<Rightarrow> 0)"

definition limits_at :: "(any \<times> any) list \<Rightarrow> nat \<Rightarrow> HubLimits" where
  "limits_at m k = (let l = (case map_of m (AUint k) of Some (AMap l) \<Rightarrow> l | _ \<Rightarrow> []) in
     \<lparr>hl_MaxNickBytes = limit_at l LimitMaxNickBytes, hl_MaxRoomNameBytes = limit_at l LimitMaxRoomNameBytes,
      hl_MaxMsgBodyBytes = limit_at l LimitMaxMsgBodyBytes, hl_MaxRoomsPerSession = limit_at l LimitMaxRoomsPerSession,
      hl_RatePerMinute = limit_at l LimitRatePerMinute\<rparr>)"

definition ParseWelcome :: "codec \<Rightarrow> bytes \<Rightarrow> Welcome" where
  "ParseWelcome c body = (let m = (if body = [] then [] else case un_anymap c body of None \<Rightarrow> [] | Some m \<Rightarrow> m) in
     \<lparr>we_Hub = text_at m WelcomeHub, we_Version = text_at m WelcomeVersion, we_Caps = caps_at m WelcomeCaps, we_Limits = limits_at m WelcomeLimits\<rparr>)"

record ResourceEnvelope =
  re_ID :: bytes
  re_Kind :: string
  re_Size :: nat
  re_SHA256 :: "bytes option"
  re_Encoding :: string

definition resource_fields :: "(any \<times> bytes) list \<Rightarrow> (nat \<times> bytes) list" where
  "resource_fields m = List.map_filter (\<lambda>(k, v). case k of AUint n \<Rightarrow> Some (n, v) | _ \<Rightarrow> None) m"

definition ParseResourceEnvelope :: "codec \<Rightarrow> bytes \<Rightarrow> string + ResourceEnvelope" where
  "ParseResourceEnvelope c body = (if body = [] \<or> major body \<noteq> 5 then invalid ''invalid resource envelope body'' else case un_map c body of
     Inl _ \<Rightarrow> invalid ''invalid resource envelope body''
   | Inr m \<Rightarrow> let f = resource_fields m in
     bindE (required (decodeBytes c (field f ResID)) ''resource envelope missing id'') (\<lambda>rid.
     bindE (required (decodeString c (field f ResKind)) ''resource envelope missing kind'') (\<lambda>kind.
     bindE (requireE (kind \<noteq> '''') ''resource envelope missing kind'') (\<lambda>_.
     bindE (required (decodeInt c (field f ResSize)) ''resource envelope invalid size'') (\<lambda>size.
     bindE (requireE (0 \<le> size) ''resource envelope invalid size'') (\<lambda>_.
     bindE (optional f ResSHA256 (\<lambda>r. map_option Some (decodeBytes c r)) None ''resource envelope invalid sha256'') (\<lambda>sha.
     Inr \<lparr>re_ID = rid, re_Kind = kind, re_Size = nat size, re_SHA256 = sha,
       re_Encoding = (case map_of f ResEncoding of Some raw \<Rightarrow> (case decodeString c raw of Some s \<Rightarrow> s | None \<Rightarrow> '''') | None \<Rightarrow> '''')\<rparr>)))))))"

definition resource_map :: "ResourceEnvelope \<Rightarrow> (nat \<times> val) list" where
  "resource_map re = [(ResID, VBytes (re_ID re)), (ResKind, VText (re_Kind re)), (ResSize, VUint (re_Size re))] @
     (case re_SHA256 re of Some h \<Rightarrow> [(ResSHA256, VBytes h)] | None \<Rightarrow> []) @
     (if re_Encoding re \<noteq> '''' then [(ResEncoding, VText (re_Encoding re))] else [])"

definition ResourceEnvelope_Encode :: "codec \<Rightarrow> ResourceEnvelope \<Rightarrow> bytes option" where
  "ResourceEnvelope_Encode c re = marshal c (VMap (resource_map re))"

text \<open>The announce: a map of three pairs written by hand, in the order rrcd has them.\<close>

fun announce_pairs :: "codec \<Rightarrow> (string \<times> val) list \<Rightarrow> bytes option" where
  "announce_pairs c [] = Some []"
| "announce_pairs c ((k, v) # kvs) = (case (marshal c (VText k), marshal c v, announce_pairs c kvs) of
     (Some kb, Some vb, Some r) \<Rightarrow> Some (kb @ vb @ r) | _ \<Rightarrow> None)"

definition AnnounceAppData :: "codec \<Rightarrow> string \<Rightarrow> bytes option" where
  "AnnounceAppData c hubName = map_option (\<lambda>r. CHR 0xA3 # r)
     (announce_pairs c [(''proto'', VText ''rrc''), (''v'', VInt (int wire_Version)), (''hub'', VText hubName)])"

definition ParseAnnounceAppData :: "codec \<Rightarrow> bytes \<Rightarrow> string option" where
  "ParseAnnounceAppData c appData = (case un_textmap c appData of
     None \<Rightarrow> None
   | Some m \<Rightarrow> if map_of m ''proto'' \<noteq> Some (AText ''rrc'') \<or> map_of m ''v'' \<noteq> Some (AUint wire_Version) then None
       else Some (case map_of m ''hub'' of Some (AText s) \<Rightarrow> s | _ \<Rightarrow> ''''))"

section \<open>What the CBOR library promises\<close>

text \<open>
  What it writes for a value it reads back as that value, with the major type of RFC 8949; a map with integer keys reads back as its pairs, the
  values as the items they are written as; raw CBOR is written as it is. \<open>item\<close> tells the items that may stand in
  a map: well formed, without tags and indefinite lengths, and nested less deeply than the decoder allows.
\<close>

definition written :: "codec \<Rightarrow> (bytes \<Rightarrow> bool) \<Rightarrow> nat \<Rightarrow> val \<Rightarrow> (bytes \<Rightarrow> bool) \<Rightarrow> bool" where
  "written c item m v reads \<longleftrightarrow> (\<exists>b. marshal c v = Some b \<and> b \<noteq> [] \<and> major b = m \<and> item b \<and> reads b)"

definition max_pairs :: nat where
  "max_pairs = 256"

definition codec_laws :: "codec \<Rightarrow> (bytes \<Rightarrow> bool) \<Rightarrow> bool" where
  "codec_laws c item \<longleftrightarrow>
     (\<forall>n<2 ^ 64. written c item 0 (VUint n) (\<lambda>b. un_any c b = Some (AUint n))) \<and>
     (\<forall>s. written c item 2 (VBytes s) (\<lambda>b. un_bytes c b = Some s)) \<and>
     (\<forall>s. ValidString s \<longrightarrow> written c item 3 (VText s) (\<lambda>b. un_string c b = Some s)) \<and>
     (\<forall>b. item b \<longrightarrow> marshal c (VRaw b) = Some b) \<and>
     (\<forall>kvs bs. sorted_wrt (<) (map fst kvs) \<longrightarrow> length kvs \<le> max_pairs \<longrightarrow> (\<forall>k\<in>set (map fst kvs). k < 2 ^ 64) \<longrightarrow>
        list_all2 (\<lambda>kv b. marshal c (snd kv) = Some b \<and> item b) kvs bs \<longrightarrow>
        (\<exists>f. marshal c (VMap kvs) = Some f \<and> f \<noteq> [] \<and> major f = 5 \<and> un_map c f = Inr (zip (map (\<lambda>kv. AUint (fst kv)) kvs) bs)))"

lemma codec_lawsD:
  assumes "codec_laws c item"
  shows "n < 2 ^ 64 \<Longrightarrow> written c item 0 (VUint n) (\<lambda>b. un_any c b = Some (AUint n))"
    and "written c item 2 (VBytes s) (\<lambda>b. un_bytes c b = Some s)"
    and "ValidString s \<Longrightarrow> written c item 3 (VText s) (\<lambda>b. un_string c b = Some s)"
    and "item b \<Longrightarrow> marshal c (VRaw b) = Some b"
    and "sorted_wrt (<) (map fst kvs) \<Longrightarrow> length kvs \<le> max_pairs \<Longrightarrow> \<forall>k\<in>set (map fst kvs). k < 2 ^ 64 \<Longrightarrow>
        list_all2 (\<lambda>kv b. marshal c (snd kv) = Some b \<and> item b) kvs bs \<Longrightarrow>
        \<exists>f. marshal c (VMap kvs) = Some f \<and> f \<noteq> [] \<and> major f = 5 \<and> un_map c f = Inr (zip (map (\<lambda>kv. AUint (fst kv)) kvs) bs)"
  using assms unfolding codec_laws_def by blast+

text \<open>What a value is written as.\<close>

definition enc :: "codec \<Rightarrow> val \<Rightarrow> bytes" where
  "enc c v = (case marshal c v of Some b \<Rightarrow> b | None \<Rightarrow> [])"

lemma reads_back:
  assumes "codec_laws c item"
  shows "n < 2 ^ 63 \<Longrightarrow> decodeInt c (enc c (VUint n)) = Some (int n)"
    and "decodeBytes c (enc c (VBytes s)) = Some s"
    and "ValidString s \<Longrightarrow> decodeString c (enc c (VText s)) = Some s"
    and "item b \<Longrightarrow> enc c (VRaw b) = b"
proof -
  note laws = codec_lawsD [OF assms, unfolded written_def]
  show "n < 2 ^ 63 \<Longrightarrow> decodeInt c (enc c (VUint n)) = Some (int n)" using laws(1) [of n] by (auto simp: enc_def decodeInt_def)
  show "decodeBytes c (enc c (VBytes s)) = Some s" using laws(2) [of s] by (auto simp: enc_def decodeBytes_def)
  show "ValidString s \<Longrightarrow> decodeString c (enc c (VText s)) = Some s" using laws(3) [of s] by (auto simp: enc_def decodeString_def)
  show "item b \<Longrightarrow> enc c (VRaw b) = b" using laws(4) [of b] by (auto simp: enc_def)
qed

definition storable :: "codec \<Rightarrow> (bytes \<Rightarrow> bool) \<Rightarrow> val \<Rightarrow> bool" where
  "storable c item v \<longleftrightarrow> (\<exists>b. marshal c v = Some b \<and> item b)"

lemma storableI:
  assumes "codec_laws c item"
  shows "n < 2 ^ 64 \<Longrightarrow> storable c item (VUint n)" "storable c item (VBytes s)" "ValidString s \<Longrightarrow> storable c item (VText s)"
    "item b \<Longrightarrow> storable c item (VRaw b)"
  using codec_lawsD(1-4) [OF assms] unfolding written_def storable_def by blast+

text \<open>A map of storable values reads back as its pairs.\<close>

lemma map_written:
  assumes "codec_laws c item" "sorted_wrt (<) (map fst kvs)" "length kvs \<le> max_pairs" "\<forall>kv\<in>set kvs. fst kv < 2 ^ 64 \<and> storable c item (snd kv)"
  obtains f where "marshal c (VMap kvs) = Some f" "f \<noteq> []" "major f = 5" "un_map c f = Inr (map (\<lambda>(k, v). (AUint k, enc c v)) kvs)"
proof -
  let ?bs = "map (enc c \<circ> snd) kvs"
  have "list_all2 (\<lambda>kv b. marshal c (snd kv) = Some b \<and> item b) kvs ?bs"
    using assms(4) by (auto simp: list_all2_conv_all_nth storable_def enc_def dest!: nth_mem)
  then obtain f where "marshal c (VMap kvs) = Some f" "f \<noteq> []" "major f = 5" "un_map c f = Inr (zip (map (\<lambda>kv. AUint (fst kv)) kvs) ?bs)"
    using codec_lawsD(5) [OF assms(1-3), of ?bs] assms(4) by auto
  moreover have "zip (map (\<lambda>kv. AUint (fst kv)) kvs) ?bs = map (\<lambda>(k, v). (AUint k, enc c v)) kvs"
    by (induction kvs) auto
  ultimately show ?thesis using that by simp
qed

lemma envelope_fields_uint: "envelope_fields (map (\<lambda>(k, v). (AUint k, enc c v)) kvs) = Inr (map (\<lambda>(k, v). (k, enc c v)) kvs)"
  by (induction kvs) (auto simp: envelope_fields_def List.map_filter_def)

lemma map_of_enc: "map_of (map (\<lambda>(k, v). (k, enc c v)) kvs) k = map_option (enc c) (map_of kvs k)"
  by (induction kvs) auto

section \<open>Round trips\<close>

text \<open>
  What an envelope has to be to be sent and read back: numbers within int64, valid text, a body and extensions that are CBOR items, the
  extensions in the order of their keys and within the limits of the reader.
\<close>

definition sendable :: "(bytes \<Rightarrow> bool) \<Rightarrow> DecodeLimits \<Rightarrow> Envelope \<Rightarrow> bool" where
  "sendable item lm e \<longleftrightarrow> ev_Type e < 2 ^ 63 \<and> ev_TS e < 2 ^ 63 \<and> ValidString (ev_Room e) \<and> ValidString (ev_Nick e) \<and>
     (ev_Body e \<noteq> [] \<longrightarrow> item (ev_Body e)) \<and> sorted_wrt (<) (map fst (ev_Ext e)) \<and> length (ev_Ext e) + 9 \<le> max_pairs \<and>
     (\<forall>x\<in>set (ev_Ext e). ExtensionMin \<le> fst x \<and> fst x < 2 ^ 64 \<and> item (snd x)) \<and>
     \<not> (0 < MaxIDBytes lm \<and> MaxIDBytes lm < int (length (ev_ID e))) \<and> \<not> (0 < MaxExtBytes lm \<and> MaxExtBytes lm < int (ext_size (ev_Ext e)))"

lemma sendable_ext: "sendable item lm e \<Longrightarrow> filter (\<lambda>(k, v). ExtensionMin \<le> k) (ev_Ext e) = ev_Ext e"
  by (auto simp: sendable_def filter_id_conv)

lemma envelope_map_ok:
  assumes "codec_laws c item" "sendable item lm e"
  shows "sorted_wrt (<) (map fst (envelope_map e))" "length (envelope_map e) \<le> max_pairs"
    "\<forall>kv\<in>set (envelope_map e). fst kv < 2 ^ 64 \<and> storable c item (snd kv)"
proof -
  note ext = sendable_ext [OF assms(2)] and st = storableI [OF assms(1)]
  have keys: "\<forall>x\<in>set (ev_Ext e). 64 \<le> fst x" and srt: "sorted_wrt (<) (map fst (ev_Ext e))"
    using assms(2) by (auto simp: sendable_def ExtensionMin_def)
  have "map (fst \<circ> (\<lambda>(k, v). (k, VRaw v))) xs = map fst xs" for xs :: "(nat \<times> bytes) list" by (induction xs) auto
  note this [simp]
  show "sorted_wrt (<) (map fst (envelope_map e))"
    using keys srt unfolding envelope_map_def ext by (auto simp: key_defs sorted_wrt_append split: option.splits)
  show "length (envelope_map e) \<le> max_pairs"
    using assms(2) unfolding envelope_map_def ext by (auto simp: sendable_def split: option.splits)
  have "storable c item (VUint (ev_Type e))" "storable c item (VUint (ev_TS e))" "storable c item (VUint wire_Version)"
    "storable c item (VText (ev_Room e))" "storable c item (VText (ev_Nick e))" "ev_Body e \<noteq> [] \<Longrightarrow> storable c item (VRaw (ev_Body e))"
    "\<forall>(k, v)\<in>set (ev_Ext e). k < 2 ^ 64 \<and> storable c item (VRaw v)"
    using assms(2) unfolding sendable_def wire_Version_def by (auto intro!: st(1) st(3) st(4))
  then show "\<forall>kv\<in>set (envelope_map e). fst kv < 2 ^ 64 \<and> storable c item (snd kv)"
    unfolding envelope_map_def ext by (auto simp: key_defs st(2) split: option.splits)
qed

lemma map_of_ext: "\<forall>x\<in>set ext. 64 \<le> fst x \<Longrightarrow> k < (64::nat) \<Longrightarrow> map_of (map (\<lambda>(k, v). (k, VRaw v)) ext) k = None"
  by (induction ext) auto

lemma envelope_map_fields:
  assumes "codec_laws c item" "sendable item lm e"
  defines "fs \<equiv> map (\<lambda>(k, v). (k, enc c v)) (envelope_map e)"
  shows "decode_fields c lm fs = Inr e"
proof -
  note ext = sendable_ext [OF assms(2)] and rb = reads_back [OF assms(1)]
  have none: "k < 64 \<Longrightarrow> map_of (map (\<lambda>(k, v). (k, VRaw v)) (ev_Ext e)) k = None" for k
    using assms(2) by (auto intro!: map_of_ext simp: sendable_def ExtensionMin_def)
  have ints: "decodeInt c (enc c (VUint wire_Version)) = Some 1" "decodeInt c (enc c (VUint (ev_Type e))) = Some (int (ev_Type e))"
    "decodeInt c (enc c (VUint (ev_TS e))) = Some (int (ev_TS e))" using assms(2) rb(1) by (auto simp: sendable_def wire_Version_def)
  have strs: "decodeString c (enc c (VText (ev_Room e))) = Some (ev_Room e)" "decodeString c (enc c (VText (ev_Nick e))) = Some (ev_Nick e)"
    using assms(2) rb(3) by (auto simp: sendable_def)
  have body: "ev_Body e \<noteq> [] \<Longrightarrow> enc c (VRaw (ev_Body e)) = ev_Body e" using assms(2) rb(4) by (auto simp: sendable_def)
  have "map (\<lambda>(k, v). (k, enc c v)) (map (\<lambda>(k, v). (k, VRaw v)) (ev_Ext e)) = ev_Ext e"
    using assms(2) rb(4) by (auto simp: sendable_def intro!: map_idI)
  then have exts: "ext_fields fs = ev_Ext e"
    unfolding fs_def envelope_map_def ext by (auto simp: ext_fields_def key_defs ExtensionMin_def ext [unfolded ExtensionMin_def] split: option.splits)
  have look: "map_of fs k = map_option (enc c) (map_of (envelope_map e) k)" for k unfolding fs_def by (rule map_of_enc)
  have keys: "map_of (envelope_map e) KeyV = Some (VUint wire_Version)" "map_of (envelope_map e) KeyT = Some (VUint (ev_Type e))"
    "map_of (envelope_map e) KeyID = Some (VBytes (ev_ID e))" "map_of (envelope_map e) KeyTS = Some (VUint (ev_TS e))"
    "map_of (envelope_map e) KeySrc = Some (VBytes (ev_Src e))"
    "map_of (envelope_map e) KeyRoom = (if ev_Room e \<noteq> '''' then Some (VText (ev_Room e)) else None)"
    "map_of (envelope_map e) KeyBody = (if ev_Body e \<noteq> [] then Some (VRaw (ev_Body e)) else None)"
    "map_of (envelope_map e) KeyNick = (if ev_Nick e \<noteq> '''' then Some (VText (ev_Nick e)) else None)"
    "map_of (envelope_map e) KeyDst = map_option VBytes (ev_Dst e)"
    unfolding envelope_map_def ext by (auto simp: key_defs none map_add_def split: option.splits)
  have vals: "field fs KeyV = enc c (VUint wire_Version)" "field fs KeyT = enc c (VUint (ev_Type e))" "field fs KeyID = enc c (VBytes (ev_ID e))"
    "field fs KeyTS = enc c (VUint (ev_TS e))" "field fs KeySrc = enc c (VBytes (ev_Src e))" "field fs KeyBody = ev_Body e"
    by (simp_all add: field_def look keys body)
  have opts: "optional fs KeyRoom (decodeString c) '''' r = Inr (ev_Room e)" "optional fs KeyNick (decodeString c) '''' r = Inr (ev_Nick e)"
    "optional fs KeyDst (\<lambda>r. map_option Some (decodeBytes c r)) None r = Inr (ev_Dst e)" for r
    by (simp_all add: optional_def look keys strs rb(2) split: option.splits)
  have "missing_key fs = None" by (simp add: missing_key_def look keys)
  moreover have "\<not> (0 < MaxIDBytes lm \<and> MaxIDBytes lm < int (length (ev_ID e)))" "\<not> (0 < MaxExtBytes lm \<and> MaxExtBytes lm < int (ext_size (ev_Ext e)))"
    using assms(2) by (auto simp: sendable_def)
  ultimately show ?thesis
    by (simp only: decode_fields_def exts vals opts ints rb(2) required_def requireE_def option.case bindE_simps Let_def simp_thms if_True of_nat_0_le_iff)
      (simp add: wire_Version_def)
qed

lemma Encode_read:
  assumes "codec_laws c item" "sendable item lm e"
  shows "\<exists>frame. Encode c e = Some frame \<and> Decode c frame lm =
    (if 0 < MaxFrameBytes lm \<and> MaxFrameBytes lm < int (length frame)
     then Inl (''frame too large: '' @ itoa (int (length frame)) @ '' bytes > '' @ itoa (MaxFrameBytes lm) @ '' bytes'') else Inr e)"
proof -
  obtain f where f: "marshal c (VMap (envelope_map e)) = Some f" "f \<noteq> []" "major f = 5"
    "un_map c f = Inr (map (\<lambda>(k, v). (AUint k, enc c v)) (envelope_map e))"
    using map_written [OF assms(1) envelope_map_ok [OF assms]] .
  then have "Decode c f lm = (if 0 < MaxFrameBytes lm \<and> MaxFrameBytes lm < int (length f)
     then Inl (''frame too large: '' @ itoa (int (length f)) @ '' bytes > '' @ itoa (MaxFrameBytes lm) @ '' bytes'') else Inr e)"
    by (simp add: Decode_def requireE_def envelope_fields_uint envelope_map_fields [OF assms])
  then show ?thesis using f(1) by (auto simp: Encode_def)
qed

text \<open>
  A codec of the laws, to show that they can hold: numbers, and the lengths of the values in a map, are tallies.
\<close>

definition tally :: "nat \<Rightarrow> bytes" where
  "tally n = replicate n (CHR 0x01) @ [CHR 0x00]"

definition untally :: "bytes \<Rightarrow> nat \<times> bytes" where
  "untally b = (length (takeWhile (\<lambda>c. c = CHR 0x01) b), tl (dropWhile (\<lambda>c. c = CHR 0x01) b))"

lemma untally [simp]: "untally (tally n @ r) = (n, r)"
proof -
  have "takeWhile (\<lambda>c. c = CHR 0x01) (replicate n (CHR 0x01) @ CHR 0x00 # r) = replicate n (CHR 0x01)" by (induction n) auto
  moreover have "dropWhile (\<lambda>c. c = CHR 0x01) (replicate n (CHR 0x01) @ CHR 0x00 # r) = CHR 0x00 # r" by (induction n) auto
  ultimately show ?thesis by (simp add: untally_def tally_def)
qed

fun untally_pairs :: "nat \<Rightarrow> bytes \<Rightarrow> (any \<times> bytes) list" where
  "untally_pairs 0 b = []"
| "untally_pairs (Suc n) b = (case untally b of (k, r) \<Rightarrow> (case untally r of (l, r') \<Rightarrow> (AUint k, take l r') # untally_pairs n (drop l r')))"

fun tally_marshal :: "val \<Rightarrow> bytes" where
  "tally_marshal (VUint n) = CHR 0x00 # replicate n (CHR 0x00)"
| "tally_marshal (VInt i) = CHR 0x00 # replicate (nat i) (CHR 0x00)"
| "tally_marshal (VBytes s) = CHR 0x40 # s"
| "tally_marshal (VText s) = CHR 0x60 # s"
| "tally_marshal (VBool b) = [CHR 0xF4]"
| "tally_marshal (VRaw b) = b"
| "tally_marshal (VList vs) = [CHR 0x80]"
| "tally_marshal (VMap kvs) = CHR 0xA0 # tally (length kvs) @
     concat (map (\<lambda>(k, v). tally k @ tally (length (tally_marshal v)) @ tally_marshal v) kvs)"

definition tally_codec :: codec where
  "tally_codec = \<lparr>un_any = (\<lambda>b. Some (AUint (length b - 1))), un_map = (\<lambda>b. case untally (tl b) of (n, r) \<Rightarrow> Inr (untally_pairs n r)),
     un_anymap = (\<lambda>b. Some []), un_bytes = (\<lambda>b. Some (tl b)), un_string = (\<lambda>b. Some (tl b)), un_textmap = (\<lambda>b. Some []), un_ext = (\<lambda>b. Some []),
     marshal = (\<lambda>v. Some (tally_marshal v)), marshal_ext = (\<lambda>e. Some [])\<rparr>"

lemma untally_pairs_written:
  "untally_pairs (length kvs) (concat (map (\<lambda>(k, v). tally k @ tally (length (tally_marshal v)) @ tally_marshal v) kvs)) =
     zip (map (\<lambda>kv. AUint (fst kv)) kvs) (map (tally_marshal \<circ> snd) kvs)"
  by (induction kvs) (auto split: prod.splits)

lemma tally_laws: "codec_laws tally_codec (\<lambda>_. True)"
proof -
  have "bs = map (tally_marshal \<circ> snd) kvs" if "list_all2 (\<lambda>kv b. tally_marshal (snd kv) = b) kvs bs" for kvs :: "(nat \<times> val) list" and bs
    using that by (induction rule: list_all2_induct) auto
  then have "\<exists>f. marshal tally_codec (VMap kvs) = Some f \<and> f \<noteq> [] \<and> major f = 5 \<and> un_map tally_codec f = Inr (zip (map (\<lambda>kv. AUint (fst kv)) kvs) bs)"
    if "list_all2 (\<lambda>kv b. marshal tally_codec (snd kv) = Some b \<and> True) kvs bs" for kvs :: "(nat \<times> val) list" and bs
    using that by (auto simp: tally_codec_def major_def untally_pairs_written)
  moreover have "marshal tally_codec v = Some (tally_marshal v)" for v by (simp add: tally_codec_def)
  ultimately show ?thesis unfolding codec_laws_def written_def by (auto simp: tally_codec_def major_def)
qed

definition hello_all :: Envelope where
  "hello_all = \<lparr>ev_Type = TypeMsg, ev_ID = ''id'', ev_TS = 7, ev_Src = ''alice'', ev_Room = ''scotmesh'', ev_Nick = ''Alice'', ev_Dst = None,
     ev_Body = TextBody tally_codec ''hi'', ev_Ext = [(64, ''r'')]\<rparr>"

text \<open>
  C37. What a hub or a client encodes, the other side decodes as it was: given what the CBOR library promises, an envelope with numbers
  within int64, valid text, a body and extensions that are CBOR items and sizes within the reader's limits always encodes,
  and decoding the frame gives the same envelope back, every field of it, or only says that the frame is larger than the reader takes.
\<close>

theorem Decode_Encode:
  assumes "codec_laws c item" "sendable item lm e"
  shows "\<exists>frame. Encode c e = Some frame \<and> Decode c frame lm =
    (if 0 < MaxFrameBytes lm \<and> MaxFrameBytes lm < int (length frame)
     then Inl (''frame too large: '' @ itoa (int (length frame)) @ '' bytes > '' @ itoa (MaxFrameBytes lm) @ '' bytes'') else Inr e)"
  using assms by (rule Encode_read)

theorem Decode_Encode_witness:
  "codec_laws tally_codec (\<lambda>_. True) \<and> sendable (\<lambda>_. True) DefaultLimits hello_all \<and>
   (\<exists>frame. Encode tally_codec hello_all = Some frame \<and> Decode tally_codec frame DefaultLimits = Inr hello_all)"
proof -
  have s: "sendable (\<lambda>_. True) DefaultLimits hello_all" by code_simp
  have len: "length (the (Encode tally_codec hello_all)) \<le> 1000" by code_simp
  show ?thesis using Decode_Encode [OF tally_laws s] s len tally_laws by (auto simp: DefaultLimits_def split: if_splits)
qed

lemma envelope_fields_Inr: "envelope_fields raw = Inr fs \<Longrightarrow> raw = map (\<lambda>(k, v). (AUint k, v)) fs"
proof -
  assume "envelope_fields raw = Inr fs"
  then have "\<forall>x\<in>set raw. \<exists>n. fst x = AUint n" and fs: "fs = List.map_filter (\<lambda>(k, v). case k of AUint n \<Rightarrow> Some (n, v) | _ \<Rightarrow> None) raw"
    by (auto simp: envelope_fields_def invalid_def split: if_splits) (case_tac a; fastforce)
  then show ?thesis unfolding fs by (induction raw) (auto simp: List.map_filter_def)
qed

lemma missing_key_None: "missing_key fs = None \<Longrightarrow> {KeyV, KeyT, KeyID, KeyTS, KeySrc} \<subseteq> fst ` set fs"
  by (auto simp: missing_key_def find_None_set map_of_eq_None_iff split: if_splits)

lemma decodeInt_bound:
  assumes "decodeInt c raw = Some t" "\<forall>b i. un_any c b = Some (AInt i) \<longrightarrow> i < 2 ^ 63"
  shows "t < 2 ^ 63"
  using assms by (auto simp: decodeInt_def split: if_splits option.splits any.splits)

lemma required_Inr [simp]: "required v err = Inr x \<longleftrightarrow> v = Some x"
  by (auto simp: required_def invalid_def split: option.splits)

text \<open>The fields a decoded envelope was read from.\<close>

lemma decode_fields_Inr:
  assumes "decode_fields c lm fs = Inr e"
  obtains t ts where "missing_key fs = None" "decodeInt c (field fs KeyV) = Some 1" "decodeInt c (field fs KeyT) = Some t"
    "decodeInt c (field fs KeyTS) = Some ts" "0 \<le> t" "0 \<le> ts" "ev_Type e = nat t" "ev_TS e = nat ts" "decodeBytes c (field fs KeySrc) = Some (ev_Src e)"
    "ev_Ext e = ext_fields fs" "\<not> (0 < MaxIDBytes lm \<and> MaxIDBytes lm < int (length (ev_ID e)))"
    "\<not> (0 < MaxExtBytes lm \<and> MaxExtBytes lm < int (ext_size (ev_Ext e)))"
  using assms unfolding decode_fields_def
  by (auto simp: Let_def wire_Version_def invalid_def simp del: not_less split: option.splits elim!: bindE_InrE)

text \<open>
  C38. What Decode lets through is bounded and typed: the frame, the message ID and the extensions are within the limits, the type and the
  timestamp are int64 numbers, the extension keys are those of the extension range, and the version was this one's. Frames that are not a map with
  unsigned integer keys, or that lack one of the five fields every envelope has, never get through.
\<close>

theorem Decode_bounds:
  assumes "Decode c frame lm = Inr e"
    and "\<forall>b i. un_any c b = Some (AInt i) \<longrightarrow> i < 2 ^ 63"
  shows "(MaxFrameBytes lm \<le> 0 \<or> int (length frame) \<le> MaxFrameBytes lm) \<and> (MaxIDBytes lm \<le> 0 \<or> int (length (ev_ID e)) \<le> MaxIDBytes lm) \<and>
    (MaxExtBytes lm \<le> 0 \<or> int (ext_size (ev_Ext e)) \<le> MaxExtBytes lm) \<and> ev_Type e < 2 ^ 63 \<and> ev_TS e < 2 ^ 63 \<and>
    list_all (\<lambda>x. ExtensionMin \<le> fst x) (ev_Ext e) \<and>
    (\<exists>fs. un_map c frame = Inr (map (\<lambda>(k, v). (AUint k, v)) fs) \<and> {KeyV, KeyT, KeyID, KeyTS, KeySrc} \<subseteq> fst ` set fs \<and>
       decodeInt c (field fs KeyV) = Some 1 \<and> decodeBytes c (field fs KeySrc) = Some (ev_Src e))"
proof -
  obtain raw fs where frame: "\<not> (0 < MaxFrameBytes lm \<and> MaxFrameBytes lm < int (length frame))" "un_map c frame = Inr raw"
    and fs: "envelope_fields raw = Inr fs" "decode_fields c lm fs = Inr e"
    using assms(1) unfolding Decode_def by (auto simp: invalid_def split: sum.splits)
  from fs(2) show ?thesis
  proof (rule decode_fields_Inr)
    fix t ts
    assume r: "missing_key fs = None" "decodeInt c (field fs KeyV) = Some 1" "decodeInt c (field fs KeyT) = Some t"
      "decodeInt c (field fs KeyTS) = Some ts" "0 \<le> t" "0 \<le> ts" "ev_Type e = nat t" "ev_TS e = nat ts" "decodeBytes c (field fs KeySrc) = Some (ev_Src e)"
      "ev_Ext e = ext_fields fs" "\<not> (0 < MaxIDBytes lm \<and> MaxIDBytes lm < int (length (ev_ID e)))"
      "\<not> (0 < MaxExtBytes lm \<and> MaxExtBytes lm < int (ext_size (ev_Ext e)))"
    have "ev_Type e < 2 ^ 63" "ev_TS e < 2 ^ 63" using decodeInt_bound [OF r(3) assms(2)] decodeInt_bound [OF r(4) assms(2)] r(5-8) by auto
    moreover have "list_all (\<lambda>x. ExtensionMin \<le> fst x) (ev_Ext e)" by (auto simp: r(10) ext_fields_def list_all_iff)
    moreover have "un_map c frame = Inr (map (\<lambda>(k, v). (AUint k, v)) fs)" using frame(2) envelope_fields_Inr [OF fs(1)] by simp
    moreover have "{KeyV, KeyT, KeyID, KeyTS, KeySrc} \<subseteq> fst ` set fs" by (rule missing_key_None [OF r(1)])
    moreover have "MaxFrameBytes lm \<le> 0 \<or> int (length frame) \<le> MaxFrameBytes lm" "MaxIDBytes lm \<le> 0 \<or> int (length (ev_ID e)) \<le> MaxIDBytes lm"
      "MaxExtBytes lm \<le> 0 \<or> int (ext_size (ev_Ext e)) \<le> MaxExtBytes lm" using frame(1) r(11,12) by linarith+
    ultimately show ?thesis using r(2,9) by blast
  qed
qed

theorem Decode_bounds_witness:
  "\<exists>frame. Encode tally_codec hello_all = Some frame \<and> Decode tally_codec frame DefaultLimits = Inr hello_all \<and> int (length frame) \<le> 256 * 1024"
proof -
  have s: "sendable (\<lambda>_. True) DefaultLimits hello_all" by code_simp
  have len: "length (the (Encode tally_codec hello_all)) \<le> 1000" by code_simp
  obtain f where f: "Encode tally_codec hello_all = Some f" "Decode tally_codec f DefaultLimits = Inr hello_all"
    using Encode_read [OF tally_laws s] len by (auto simp: DefaultLimits_def split: if_splits)
  have "\<forall>b i. un_any tally_codec b = Some (AInt i) \<longrightarrow> i < 2 ^ 63" by (simp add: tally_codec_def)
  from Decode_bounds [OF f(2) this] f show ?thesis by (auto simp: DefaultLimits_def)
qed

end
