(* ===== verification/RrcServer.thy ===== *)
theory RrcServer
  imports RrcSplit Wire Adapter "HOL-Library.Word"
begin

unbundle bit_operations_syntax

text \<open>
  internal/rrcsrv: the state of the RRC server (server.go), its sessions (session.go), and the frames it builds (envelopes.go).

  The server is a record of what the Go struct keeps, with the hub it talks to, what its writers gave to the transport and the links it
  asked to be torn down. A session is found by its link, where the code has a pointer; an identity is indexed by the links of its sessions, as
  byIdentity does. The clock is the hub's. A handler is a function from the server to its result and the server after it, or \<open>None\<close>
  when it never returns, which only splitText can make happen.

  Not under src, and so parameters (\<open>net\<close>): the CBOR library, the transport's sends, the random message IDs, and the hash that makes an
  identity of a public key. float64 tokens are rationals. Logging and contexts are left out.
\<close>

section \<open>Configuration\<close>

record rrc_config =
  sc_HubName :: string
  sc_Version :: string
  sc_Greeting :: "string list"
  sc_GroupRoom :: string
  sc_MaxNickBytes :: int
  sc_MaxRoomNameBytes :: int
  sc_MaxMsgBodyBytes :: int
  sc_MaxRoomsPerSession :: int
  sc_RatePerMinute :: int
  sc_IncludeJoinedMemberList :: bool
  sc_PingInterval :: int
  sc_PingTimeout :: int
  sc_HelloTimeout :: int
  sc_Workers :: int
  sc_SendQueue :: int

definition rrc_Defaults :: rrc_config where
  "rrc_Defaults = \<lparr>sc_HubName = ''ScotMesh'', sc_Version = ''dev'', sc_Greeting = [], sc_GroupRoom = '''', sc_MaxNickBytes = DefaultMaxNickBytes,
     sc_MaxRoomNameBytes = 64, sc_MaxMsgBodyBytes = 350, sc_MaxRoomsPerSession = 32, sc_RatePerMinute = 240, sc_IncludeJoinedMemberList = False,
     sc_PingInterval = 30 * second_ns, sc_PingTimeout = 30 * second_ns, sc_HelloTimeout = 30 * second_ns, sc_Workers = 4, sc_SendQueue = 256\<rparr>"

definition fill_pos :: "int \<Rightarrow> int \<Rightarrow> int" where
  "fill_pos v d = (if v \<le> 0 then d else v)"

definition rrc_fill :: "rrc_config \<Rightarrow> rrc_config" where
  "rrc_fill c = (let d = rrc_Defaults in c\<lparr>
     sc_HubName := if sc_HubName c = '''' then sc_HubName d else sc_HubName c,
     sc_Version := if sc_Version c = '''' then sc_Version d else sc_Version c,
     sc_MaxNickBytes := fill_pos (sc_MaxNickBytes c) (sc_MaxNickBytes d),
     sc_MaxRoomNameBytes := fill_pos (sc_MaxRoomNameBytes c) (sc_MaxRoomNameBytes d),
     sc_MaxMsgBodyBytes := fill_pos (sc_MaxMsgBodyBytes c) (sc_MaxMsgBodyBytes d),
     sc_MaxRoomsPerSession := fill_pos (sc_MaxRoomsPerSession c) (sc_MaxRoomsPerSession d),
     sc_RatePerMinute := fill_pos (sc_RatePerMinute c) (sc_RatePerMinute d),
     sc_Workers := fill_pos (sc_Workers c) (sc_Workers d),
     sc_SendQueue := fill_pos (sc_SendQueue c) (sc_SendQueue d),
     sc_PingInterval := fill_pos (sc_PingInterval c) (sc_PingInterval d),
     sc_PingTimeout := fill_pos (sc_PingTimeout c) (sc_PingTimeout d),
     sc_HelloTimeout := fill_pos (sc_HelloTimeout c) (sc_HelloTimeout d)\<rparr>)"

section \<open>Sessions\<close>

definition maxPending :: nat where "maxPending = 8"
definition maxBuffered :: nat where "maxBuffered = 256"

record buffered =
  bf_id :: int
  bf_frames :: "bytes list"

text \<open>Zero times are \<open>None\<close>; Go's maps to bool that only ever hold true are sets, kept as lists; the channel \<^verbatim>\<open>out\<close> is a bounded list.\<close>

record session =
  ss_link :: bytes
  ss_start :: int
  ss_identity :: "ident option"
  ss_pubKey :: bytes
  ss_welcomed :: bool
  ss_nick :: string
  ss_triedNick :: "string list"
  ss_caps :: "(nat \<times> bool) list"
  ss_rooms :: "string list"
  ss_joining :: "(string \<times> buffered list) list"
  ss_lastHeard :: int
  ss_pingSent :: "int option"
  ss_pending :: "bytes list"
  ss_tokens :: rat
  ss_tokensAt :: int
  ss_errorAt :: "int option"
  ss_out :: "bytes list"
  ss_stopped :: bool
  ss_closing :: bool
  ss_writing :: bool

definition newSession :: "bytes \<Rightarrow> int \<Rightarrow> int \<Rightarrow> session" where
  "newSession lk now ratePerMinute = \<lparr>ss_link = lk, ss_start = now, ss_identity = None, ss_pubKey = [], ss_welcomed = False, ss_nick = '''',
     ss_triedNick = [], ss_caps = [], ss_rooms = [], ss_joining = [], ss_lastHeard = now, ss_pingSent = None, ss_pending = [],
     ss_tokens = of_int ratePerMinute, ss_tokensAt = now, ss_errorAt = None, ss_out = [], ss_stopped = False, ss_closing = False, ss_writing = True\<rparr>"

definition inRoom :: "string \<Rightarrow> session \<Rightarrow> bool" where
  "inRoom room ss \<longleftrightarrow> ss_welcomed ss \<and> room \<in> set (ss_rooms ss)"

definition session_take :: "int \<Rightarrow> int \<Rightarrow> session \<Rightarrow> bool \<times> session" where
  "session_take now perMinute ss = (let capacity = of_int perMinute;
       tokens = min capacity (ss_tokens ss + of_int (now - ss_tokensAt ss) / of_int minute_ns * capacity) in
     if tokens < 1 then (False, ss\<lparr>ss_tokens := tokens, ss_tokensAt := now\<rparr>)
     else (True, ss\<lparr>ss_tokens := tokens - 1, ss_tokensAt := now\<rparr>))"

definition session_enqueue :: "int \<Rightarrow> bytes \<Rightarrow> session \<Rightarrow> session option" where
  "session_enqueue queue fr ss = (if ss_stopped ss \<or> ss_closing ss then None
     else if int (length (ss_out ss)) < queue then Some (ss\<lparr>ss_out := ss_out ss @ [fr]\<rparr>) else None)"

definition closeAfterFlush :: "session \<Rightarrow> session" where
  "closeAfterFlush ss = (if ss_stopped ss \<or> ss_closing ss then ss else ss\<lparr>ss_closing := True\<rparr>)"

definition stop_session :: "session \<Rightarrow> session" where
  "stop_session ss = ss\<lparr>ss_stopped := True\<rparr>"

section \<open>The server\<close>

record rrc_stats =
  rs_FramesIn :: nat
  rs_FramesOut :: nat
  rs_FramesDropped :: nat
  rs_JobsDropped :: nat
  rs_RateLimited :: nat
  rs_BadFrames :: nat
  rs_LinksAccepted :: nat
  rs_LinksClosed :: nat
  rs_InternalErrors :: nat

datatype jobKind = jobEstablished | jobIdentified | jobData | jobResource | jobClosed

record job =
  jb_kind :: jobKind
  jb_link :: bytes
  jb_data :: bytes

record net =
  nt_codec :: codec
  nt_newID :: "nat \<Rightarrow> bytes"
  nt_IdentityHash :: "bytes \<Rightarrow> ident"
  nt_SendOnLink :: "(bytes \<times> bytes) list \<Rightarrow> bytes \<Rightarrow> bytes \<Rightarrow> bool"

text \<open>\<open>sv_late\<close> holds the lifecycle jobs whose goroutines wait for room in a queue.\<close>

record server =
  sv_cfg :: rrc_config
  sv_hub :: hub
  sv_hubHash :: ident
  sv_sessions :: "(bytes \<times> session) list"
  sv_byIdentity :: "(ident \<times> bytes list) list"
  sv_jobs :: "job list list"
  sv_late :: "(nat \<times> job) list"
  sv_stats :: rrc_stats
  sv_fresh :: nat
  sv_sent :: "(bytes \<times> bytes) list"
  sv_torn :: "bytes list"

definition rrc_New :: "rrc_config \<Rightarrow> hub \<Rightarrow> ident \<Rightarrow> server" where
  "rrc_New c h hubHash = \<lparr>sv_cfg = rrc_fill c, sv_hub = h, sv_hubHash = hubHash, sv_sessions = [], sv_byIdentity = [],
     sv_jobs = replicate (nat (sc_Workers (rrc_fill c))) [], sv_late = [], sv_stats = \<lparr>rs_FramesIn = 0, rs_FramesOut = 0, rs_FramesDropped = 0,
       rs_JobsDropped = 0, rs_RateLimited = 0, rs_BadFrames = 0, rs_LinksAccepted = 0, rs_LinksClosed = 0, rs_InternalErrors = 0\<rparr>,
     sv_fresh = 0, sv_sent = [], sv_torn = []\<rparr>"

subsection \<open>Handlers\<close>

type_synonym 'a sm = "server \<Rightarrow> ('a \<times> server) option"

definition retS :: "'a \<Rightarrow> 'a sm" where
  "retS a s = Some (a, s)"

definition bindS :: "'a sm \<Rightarrow> ('a \<Rightarrow> 'b sm) \<Rightarrow> 'b sm" where
  "bindS m f s = (case m s of None \<Rightarrow> None | Some (a, s') \<Rightarrow> f a s')"

definition thenS :: "'a sm \<Rightarrow> 'b sm \<Rightarrow> 'b sm" where
  "thenS m k = bindS m (\<lambda>_. k)"

definition getS :: "(server \<Rightarrow> 'a) \<Rightarrow> 'a sm" where
  "getS f s = Some (f s, s)"

definition modS :: "(server \<Rightarrow> server) \<Rightarrow> unit sm" where
  "modS f s = Some ((), f s)"

text \<open>A call on the hub, and a computation that may not return.\<close>

definition callS :: "'a hm \<Rightarrow> (err + 'a) sm" where
  "callS m s = (case m (sv_hub s) of (r, h) \<Rightarrow> Some (r, s\<lparr>sv_hub := h\<rparr>))"

definition waitS :: "'a option \<Rightarrow> 'a sm" where
  "waitS x s = (case x of None \<Rightarrow> None | Some a \<Rightarrow> Some (a, s))"

primrec eachS :: "('x \<Rightarrow> 'a sm) \<Rightarrow> 'x list \<Rightarrow> unit sm" where
  "eachS f [] = retS ()"
| "eachS f (x # xs) = thenS (f x) (eachS f xs)"

primrec gatherS :: "('x \<Rightarrow> 'y list sm) \<Rightarrow> 'x list \<Rightarrow> 'y list sm" where
  "gatherS f [] = retS []"
| "gatherS f (x # xs) = bindS (f x) (\<lambda>ys. bindS (gatherS f xs) (\<lambda>zs. retS (ys @ zs)))"

definition whenS :: "bool \<Rightarrow> unit sm \<Rightarrow> unit sm" where
  "whenS b m = (if b then m else retS ())"

definition countS :: "(rrc_stats \<Rightarrow> rrc_stats) \<Rightarrow> unit sm" where
  "countS f = modS (\<lambda>s. s\<lparr>sv_stats := f (sv_stats s)\<rparr>)"

subsection \<open>Finding sessions\<close>

text \<open>A session that is not in the table any more has been stopped.\<close>

definition gone :: "bytes \<Rightarrow> session" where
  "gone lk = (newSession lk 0 0)\<lparr>ss_stopped := True\<rparr>"

definition session_of :: "bytes \<Rightarrow> server \<Rightarrow> session" where
  "session_of lk s = (case map_of (sv_sessions s) lk of Some ss \<Rightarrow> ss | None \<Rightarrow> gone lk)"

definition readS :: "bytes \<Rightarrow> (session \<Rightarrow> 'a) \<Rightarrow> 'a sm" where
  "readS lk f = getS (\<lambda>s. f (session_of lk s))"

definition change_session :: "bytes \<Rightarrow> (session \<Rightarrow> session) \<Rightarrow> server \<Rightarrow> server" where
  "change_session lk f s = s\<lparr>sv_sessions := map (\<lambda>(k, ss). (k, if k = lk then f ss else ss)) (sv_sessions s)\<rparr>"

definition writeS :: "bytes \<Rightarrow> (session \<Rightarrow> session) \<Rightarrow> unit sm" where
  "writeS lk f = modS (change_session lk f)"

definition sessionsOf :: "ident \<Rightarrow> server \<Rightarrow> bytes list" where
  "sessionsOf i s = (case map_of (sv_byIdentity s) i of Some ls \<Rightarrow> ls | None \<Rightarrow> [])"

definition allSessions :: "server \<Rightarrow> bytes list" where
  "allSessions s = map fst (sv_sessions s)"

definition sessionsIn :: "string \<Rightarrow> server \<Rightarrow> bytes list" where
  "sessionsIn room s = filter (\<lambda>l. inRoom room (session_of l s)) (allSessions s)"

text \<open>Running handlers.\<close>

lemma bindS_run: "m s = Some (a, t) \<Longrightarrow> bindS m f s = f a t"
  by (simp add: bindS_def)

lemma thenS_run: "m s = Some (a, t) \<Longrightarrow> thenS m k s = k t"
  by (simp add: thenS_def bindS_def)

lemma writeS_run: "writeS lk f s = Some ((), change_session lk f s)"
  by (simp add: writeS_def modS_def)

lemma readS_run: "readS lk f s = Some (f (session_of lk s), s)"
  by (simp add: readS_def getS_def)

section \<open>Frames\<close>

text \<open>rns.LinkMDU of the vendored reticulum-go, ((500 - 1 - 19 - 48) / 16) * 16 - 1.\<close>

definition maxFrame :: int where
  "maxFrame = 431"

definition newID :: "net \<Rightarrow> bytes sm" where
  "newID nt s = Some (nt_newID nt (sv_fresh s), s\<lparr>sv_fresh := sv_fresh s + 1\<rparr>)"

definition hubEnvelope :: "net \<Rightarrow> nat \<Rightarrow> string \<Rightarrow> Envelope sm" where
  "hubEnvelope nt t room = bindS (newID nt) (\<lambda>i. getS (\<lambda>s. \<lparr>ev_Type = t, ev_ID = i, ev_TS = nat (nowMS (sv_hub s)), ev_Src = sv_hubHash s,
     ev_Room = room, ev_Nick = '''', ev_Dst = None, ev_Body = [], ev_Ext = []\<rparr>))"

definition encode :: "net \<Rightarrow> Envelope \<Rightarrow> bytes option" where
  "encode nt e = (case Encode (nt_codec nt) e of None \<Rightarrow> None | Some b \<Rightarrow> if maxFrame < int (length b) then None else Some b)"

definition bodyBudget :: "net \<Rightarrow> rrc_config \<Rightarrow> Envelope \<Rightarrow> int" where
  "bodyBudget nt c e = (case Encode (nt_codec nt) (e\<lparr>ev_ID := replicate (max (length (ev_ID e)) 8) (CHR 0x00), ev_Body := TextBody (nt_codec nt) ''''\<rparr>) of
     None \<Rightarrow> 16
   | Some probe \<Rightarrow> max (min (maxFrame - int (length probe) - 2) (sc_MaxMsgBodyBytes c)) 16)"

definition fitText :: "net \<Rightarrow> rrc_config \<Rightarrow> Envelope \<Rightarrow> string \<Rightarrow> string list option" where
  "fitText nt c e txt = splitText txt (nat (bodyBudget nt c e))"

text \<open>The loop over the pieces of a text: a fresh ID each, and a frame unless it cannot be built.\<close>

definition piece_frame :: "net \<Rightarrow> Envelope \<Rightarrow> string \<Rightarrow> bytes list sm" where
  "piece_frame nt e p = bindS (newID nt) (\<lambda>i.
     retS (case encode nt (e\<lparr>ev_ID := i, ev_Body := TextBody (nt_codec nt) p\<rparr>) of Some b \<Rightarrow> [b] | None \<Rightarrow> []))"

definition line_frames :: "net \<Rightarrow> nat \<Rightarrow> string \<Rightarrow> string \<Rightarrow> bytes list sm" where
  "line_frames nt t room line = (if TrimSpace line = '''' then retS []
     else bindS (hubEnvelope nt t room) (\<lambda>e. bindS (getS sv_cfg) (\<lambda>c. bindS (waitS (fitText nt c e line)) (gatherS (piece_frame nt e)))))"

definition noticeFrames :: "net \<Rightarrow> nat \<Rightarrow> string \<Rightarrow> string \<Rightarrow> bytes list sm" where
  "noticeFrames nt t room txt = gatherS (line_frames nt t room) (SplitByte txt (CHR 0x0A))"

definition whisper_envelope :: "whisper \<Rightarrow> ident \<Rightarrow> Envelope" where
  "whisper_envelope w to = \<lparr>ev_Type = TypeNotice, ev_ID = [], ev_TS = nat (max (w_SaidAt w) 0), ev_Src = w_From w, ev_Room = '''',
     ev_Nick = w_FromName w, ev_Dst = Some to, ev_Body = [], ev_Ext = []\<rparr>"

definition whisperFrames :: "net \<Rightarrow> whisper \<Rightarrow> ident \<Rightarrow> bytes list sm" where
  "whisperFrames nt w to = bindS (getS sv_cfg) (\<lambda>c. bindS (waitS (fitText nt c (whisper_envelope w to) (''(whisper) '' @ w_Body w)))
     (gatherS (piece_frame nt (whisper_envelope w to))))"

text \<open>binary.BigEndian.PutUint64.\<close>

definition big_endian :: "int \<Rightarrow> bytes" where
  "big_endian n = map (\<lambda>k. char_of (nat (n mod 2 ^ 64) div 256 ^ k mod 256)) [7, 6, 5, 4, 3, 2, 1, 0]"

definition messageID :: "(bytes \<Rightarrow> bytes) \<Rightarrow> message \<Rightarrow> nat \<Rightarrow> bytes" where
  "messageID sha m k = (case m_OriginID m of
     Some orig \<Rightarrow> if k = 0 \<and> m_Via m = ViaRRC \<and> orig \<noteq> [] then orig else take 8 (sha (''scotmesh-chat/'' @ m_Room m @ ''/'' @ nat_digits k @ ''/'' @ big_endian (m_ID m)))
   | None \<Rightarrow> take 8 (sha (''scotmesh-chat/'' @ m_Room m @ ''/'' @ nat_digits k @ ''/'' @ big_endian (m_ID m))))"

definition message_envelope :: "net \<Rightarrow> (bytes \<Rightarrow> bytes) \<Rightarrow> message \<Rightarrow> Envelope" where
  "message_envelope nt sha m = \<lparr>ev_Type = (if m_Kind m = KindAction then TypeAction else TypeMsg), ev_ID = messageID sha m 0, ev_TS = nat (max (m_SaidAt m) 0),
     ev_Src = m_Author m, ev_Room = m_Room m, ev_Nick = m_AuthorName m, ev_Dst = None, ev_Body = [],
     ev_Ext = (case m_Ext m of Some x \<Rightarrow> if x = [] then [] else (case un_ext (nt_codec nt) x of Some ext \<Rightarrow> ext | None \<Rightarrow> []) | None \<Rightarrow> [])\<rparr>"

text \<open>The parts of a message: its body, or numbered pieces without the extensions when it does not fit one frame.\<close>

definition message_parts :: "net \<Rightarrow> (bytes \<Rightarrow> bytes) \<Rightarrow> rrc_config \<Rightarrow> message \<Rightarrow> (Envelope \<times> string list) option" where
  "message_parts nt sha c m = (let e = message_envelope nt sha m; plain = e\<lparr>ev_Ext := []\<rparr> in
     if int (length (m_Body m)) \<le> bodyBudget nt c e then Some (e, [m_Body m])
     else map_option (\<lambda>ps. (plain, ps)) (splitText (m_Body m) (nat (bodyBudget nt c plain - int (length '' (00/00)'')))))"

definition part_frame :: "net \<Rightarrow> (bytes \<Rightarrow> bytes) \<Rightarrow> message \<Rightarrow> Envelope \<Rightarrow> nat \<Rightarrow> nat \<times> string \<Rightarrow> bytes list" where
  "part_frame nt sha m e n ip = (case ip of (i, p) \<Rightarrow>
     let e' = (if 1 < n then e\<lparr>ev_ID := messageID sha m (i + 1), ev_Body := TextBody (nt_codec nt) (p @ '' ('' @ nat_digits (i + 1) @ ''/'' @ nat_digits n @ '')'')\<rparr>
       else e\<lparr>ev_Body := TextBody (nt_codec nt) p\<rparr>)
     in case encode nt e' of Some b \<Rightarrow> [b] | None \<Rightarrow> [])"

definition messageFrames :: "net \<Rightarrow> message \<Rightarrow> bytes list sm" where
  "messageFrames nt m = bindS (getS (\<lambda>s. (sha256 (env (sv_hub s)), sv_cfg s))) (\<lambda>(sha, c).
     bindS (waitS (message_parts nt sha c m)) (\<lambda>(e, ps). retS (concat (map (part_frame nt sha m e (length ps)) (List.enumerate 0 ps)))))"

section \<open>Sending\<close>

definition sendFrame :: "bytes \<Rightarrow> bytes \<Rightarrow> bool sm" where
  "sendFrame lk fr s = (case session_enqueue (sc_SendQueue (sv_cfg s)) fr (session_of lk s) of
     Some ss \<Rightarrow> Some (True, change_session lk (\<lambda>_. ss) s)
   | None \<Rightarrow> Some (False, s\<lparr>sv_stats := (sv_stats s)\<lparr>rs_FramesDropped := rs_FramesDropped (sv_stats s) + 1\<rparr>\<rparr>))"

definition sendFrames :: "bytes \<Rightarrow> bytes list \<Rightarrow> unit sm" where
  "sendFrames lk frames = eachS (sendFrame lk) frames"

definition send_envelope :: "net \<Rightarrow> bytes \<Rightarrow> Envelope \<Rightarrow> bool sm" where
  "send_envelope nt lk e = (case encode nt e of None \<Rightarrow> retS False | Some fr \<Rightarrow> sendFrame lk fr)"

definition notify :: "net \<Rightarrow> bytes \<Rightarrow> nat \<Rightarrow> string \<Rightarrow> string \<Rightarrow> unit sm" where
  "notify nt lk t room txt = bindS (noticeFrames nt t room txt) (sendFrames lk)"

definition sendError :: "net \<Rightarrow> bytes \<Rightarrow> string \<Rightarrow> string \<Rightarrow> unit sm" where
  "sendError nt lk room txt = notify nt lk TypeError room txt"

definition userText :: "err \<Rightarrow> string sm" where
  "userText e = (case e of UserError t \<Rightarrow> retS t
     | _ \<Rightarrow> thenS (countS (\<lambda>c. c\<lparr>rs_InternalErrors := rs_InternalErrors c + 1\<rparr>)) (retS ''internal error, sorry; the hub operator has been told''))"

text \<open>offerMessage: a room message for a link that is in the room, or held while the link is joining it.\<close>

definition hold_message :: "string \<Rightarrow> buffered \<Rightarrow> session \<Rightarrow> session" where
  "hold_message room b ss = ss\<lparr>ss_joining := map (\<lambda>(r, bs). (r, if r = room \<and> length bs < maxBuffered then bs @ [b] else bs)) (ss_joining ss)\<rparr>"

definition offerMessage :: "string \<Rightarrow> int \<Rightarrow> bytes list \<Rightarrow> bytes \<Rightarrow> unit sm" where
  "offerMessage room mid frames lk = bindS (readS lk id) (\<lambda>ss. case map_of (ss_joining ss) room of
     Some buf \<Rightarrow> thenS (writeS lk (hold_message room \<lparr>bf_id = mid, bf_frames = frames\<rparr>))
       (whenS (maxBuffered \<le> length buf) (countS (\<lambda>c. c\<lparr>rs_FramesDropped := rs_FramesDropped c + length frames\<rparr>)))
   | None \<Rightarrow> whenS (inRoom room ss) (sendFrames lk frames))"

text \<open>The writer of a session sends one queued frame.\<close>

definition writer_send :: "net \<Rightarrow> bytes \<Rightarrow> server \<Rightarrow> server" where
  "writer_send nt lk s = (case ss_out (session_of lk s) of
     [] \<Rightarrow> s
   | f # fs \<Rightarrow> if \<not> ss_writing (session_of lk s) then s else let s1 = change_session lk (\<lambda>ss. ss\<lparr>ss_out := fs\<rparr>) s in
       if nt_SendOnLink nt (sv_sent s) lk f
       then s1\<lparr>sv_sent := sv_sent s @ [(lk, f)], sv_stats := (sv_stats s)\<lparr>rs_FramesOut := rs_FramesOut (sv_stats s) + 1\<rparr>\<rparr>
       else s1)"

definition teardown :: "bytes \<Rightarrow> server \<Rightarrow> server" where
  "teardown lk s = s\<lparr>sv_torn := sv_torn s @ [lk]\<rparr>"

text \<open>
  How a writer ends: it sees the channel closed and empty (\<open>flushed\<close>), or \<^verbatim>\<open>done\<close> closed, which only stop does. Go's
  select may take either when both hold.
\<close>

definition writer_end :: "bool \<Rightarrow> bytes \<Rightarrow> server \<Rightarrow> server" where
  "writer_end flushed lk s = (let ss = session_of lk s; ended = change_session lk (\<lambda>ss. ss\<lparr>ss_writing := False\<rparr>) s in
     if \<not> ss_writing ss then s
     else if flushed then (if ss_out ss = [] \<and> (ss_closing ss \<or> ss_stopped ss) then (if ss_closing ss then teardown lk ended else ended) else s)
     else if ss_stopped ss then ended else s)"

section \<open>Jobs\<close>

definition job_queue :: nat where "job_queue = 1024"

text \<open>hash/fnv's 32-bit FNV-1a.\<close>

definition fnv32a :: "bytes \<Rightarrow> 32 word" where
  "fnv32a b = fold (\<lambda>c h. (h XOR of_char c) * 16777619) b 2166136261"

definition worker_of :: "bytes \<Rightarrow> server \<Rightarrow> nat" where
  "worker_of lk s = unat (fnv32a lk mod of_nat (length (sv_jobs s)))"

definition server_enqueue :: "job \<Rightarrow> bool \<Rightarrow> server \<Rightarrow> server" where
  "server_enqueue j mustDeliver s = (let q = worker_of (jb_link j) s in
     if length (sv_jobs s ! q) < job_queue then s\<lparr>sv_jobs := (sv_jobs s)[q := sv_jobs s ! q @ [j]]\<rparr>
     else if mustDeliver then s\<lparr>sv_late := sv_late s @ [(q, j)]\<rparr>
     else s\<lparr>sv_stats := (sv_stats s)\<lparr>rs_JobsDropped := rs_JobsDropped (sv_stats s) + 1\<rparr>\<rparr>)"

text \<open>The hooks of the rrc.hub destination.\<close>

definition lifecycle :: "jobKind \<Rightarrow> bool" where
  "lifecycle k \<longleftrightarrow> k \<in> {jobEstablished, jobIdentified, jobClosed}"

definition Hooks :: "job \<Rightarrow> server \<Rightarrow> server" where
  "Hooks j = server_enqueue j (lifecycle (jb_kind j))"

text \<open>The goroutine of a waiting lifecycle job, once its queue has room; any of them may come first.\<close>

definition late_push :: "nat \<Rightarrow> server \<Rightarrow> server" where
  "late_push k s = (case sv_late s ! k of (q, j) \<Rightarrow>
     if length (sv_jobs s ! q) < job_queue
     then s\<lparr>sv_jobs := (sv_jobs s)[q := sv_jobs s ! q @ [j]], sv_late := take k (sv_late s) @ drop (k + 1) (sv_late s)\<rparr> else s)"

definition closeAll :: "server \<Rightarrow> server" where
  "closeAll s = fold (\<lambda>l s. teardown l (change_session l stop_session s)) (allSessions s) s"

end
