(* ===== verification/RrcHandle.thy ===== *)
theory RrcHandle
  imports RrcServer
begin

text \<open>
  internal/rrcsrv/handle.go, fanout.go and the workers of server.go: what the server does with a link's lifecycle, a frame, a hub event and
  the keepalive's tick, and \<open>server_step\<close>, everything that can happen to it. A handler runs as a whole, but for JOIN: the code
  relies on what may happen between its three stretches (\<open>join_begin\<close>, \<open>join_commit\<close>, \<open>finishJoin\<close>), so a worker may be seen between them.
\<close>

section \<open>Links\<close>

definition established :: "bytes \<Rightarrow> unit sm" where
  "established lk s = (if map_of (sv_sessions s) lk \<noteq> None then Some ((), s)
     else Some ((), s\<lparr>sv_sessions := sv_sessions s @ [(lk, newSession lk (now_ns (sv_hub s)) (sc_RatePerMinute (sv_cfg s)))],
       sv_stats := (sv_stats s)\<lparr>rs_LinksAccepted := rs_LinksAccepted (sv_stats s) + 1\<rparr>\<rparr>))"

text \<open>sessionFor: established does nothing when the session is there.\<close>

definition sessionFor :: "bytes \<Rightarrow> unit sm" where
  "sessionFor lk = established lk"

definition index_link :: "ident \<Rightarrow> bytes \<Rightarrow> server \<Rightarrow> server" where
  "index_link i lk s = s\<lparr>sv_byIdentity := (i, if lk \<in> set (sessionsOf i s) then sessionsOf i s else sessionsOf i s @ [lk]) #
     filter (\<lambda>(k, _). k \<noteq> i) (sv_byIdentity s)\<rparr>"

definition unindex_link :: "ident \<Rightarrow> bytes \<Rightarrow> server \<Rightarrow> server" where
  "unindex_link i lk s = (let ls = removeAll lk (sessionsOf i s); rest = filter (\<lambda>(k, _). k \<noteq> i) (sv_byIdentity s) in
     s\<lparr>sv_byIdentity := if ls = [] then rest else (i, ls) # rest\<rparr>)"

definition refusal_text :: "err \<Rightarrow> string sm" where
  "refusal_text e = (case e of UserError t \<Rightarrow> retS (if LastIndex t ''banned'' \<noteq> None then ''banned'' else t)
     | _ \<Rightarrow> thenS (countS (\<lambda>c. c\<lparr>rs_InternalErrors := rs_InternalErrors c + 1\<rparr>)) (retS ''internal error''))"

definition refuseLink :: "net \<Rightarrow> bytes \<Rightarrow> err \<Rightarrow> unit sm" where
  "refuseLink nt lk e = bindS (refusal_text e) (\<lambda>t. thenS (sendError nt lk '''' t) (writeS lk closeAfterFlush))"

text \<open>A session that is closed leaves the table and the index.\<close>

definition forget_session :: "bytes \<Rightarrow> session \<Rightarrow> server \<Rightarrow> server" where
  "forget_session lk ss s = (let s1 = s\<lparr>sv_sessions := filter (\<lambda>(k, _). k \<noteq> lk) (sv_sessions s),
       sv_stats := (sv_stats s)\<lparr>rs_LinksClosed := rs_LinksClosed (sv_stats s) + 1\<rparr>\<rparr> in
     case ss_identity ss of None \<Rightarrow> s1 | Some i \<Rightarrow> unindex_link i lk s1)"

definition srv_closed :: "bytes \<Rightarrow> unit sm" where
  "srv_closed lk s = (case map_of (sv_sessions s) lk of
     None \<Rightarrow> Some ((), s)
   | Some ss \<Rightarrow> (case ss_identity ss of
         None \<Rightarrow> retS ()
       | Some i \<Rightarrow> whenS (ss_rooms ss \<noteq> []) (thenS (callS (Disconnect i (ss_rooms ss))) (retS ()))) (forget_session lk ss s))"

section \<open>HELLO\<close>

text \<open>The start of a HELLO: the session forgets its rooms, and the hub hears of the ones a welcomed link was in.\<close>

definition leave_rooms :: "bytes \<Rightarrow> (nat \<times> bool) list \<Rightarrow> unit sm" where
  "leave_rooms lk caps = bindS (readS lk id) (\<lambda>ss.
     thenS (writeS lk (\<lambda>ss. ss\<lparr>ss_rooms := [], ss_welcomed := False, ss_caps := caps\<rparr>))
       (case ss_identity ss of
          None \<Rightarrow> retS ()
        | Some i \<Rightarrow> whenS (ss_welcomed ss \<and> ss_rooms ss \<noteq> []) (thenS (callS (Disconnect i (ss_rooms ss))) (retS ()))))"

text \<open>The nick a HELLO asks for, when it is a new one: the person after it, and what to tell them.\<close>

definition hello_nick :: "bytes \<Rightarrow> ident \<Rightarrow> string \<Rightarrow> Person \<Rightarrow> (Person \<times> string) sm" where
  "hello_nick lk i nick pn = bindS (getS sv_cfg) (\<lambda>c. case NormalizeNick nick (sc_MaxNickBytes c) of (n, ok) \<Rightarrow>
     if ok \<and> n \<noteq> ps_Name pn
     then bindS (callS (hub_ClaimName i n)) (\<lambda>r.
       bindS (case r of Inl e \<Rightarrow> bindS (userText e) (\<lambda>t. retS (pn, t)) | Inr p \<Rightarrow> retS (p, '''')) (\<lambda>res.
       thenS (writeS lk (\<lambda>ss. ss\<lparr>ss_triedNick := n # ss_triedNick ss\<rparr>)) (retS res)))
     else retS (pn, ''''))"

definition welcome_of :: "rrc_config \<Rightarrow> Welcome" where
  "welcome_of c = \<lparr>we_Hub = sc_HubName c, we_Version = sc_Version c, we_Caps = [(CapAction, True), (CapDirectNotice, True)],
     we_Limits = \<lparr>hl_MaxNickBytes = sc_MaxNickBytes c, hl_MaxRoomNameBytes = sc_MaxRoomNameBytes c, hl_MaxMsgBodyBytes = sc_MaxMsgBodyBytes c,
       hl_MaxRoomsPerSession = sc_MaxRoomsPerSession c, hl_RatePerMinute = sc_RatePerMinute c\<rparr>\<rparr>"

definition greeting :: "rrc_config \<Rightarrow> Person \<Rightarrow> string \<Rightarrow> string" where
  "greeting c pn note = GoStrings.Join (sc_Greeting c @ [''Commands start with / or, in NomadNet, with ! (try !help).''] @
     (if note \<noteq> '''' then [note]
      else if \<not> ps_Claimed pn then [''You are '' @ ps_Name pn @ ''. Set a nickname in your app, or send /nick YourName, to claim a name.''] else [])) [CHR 0x0A]"

definition sendMissedWhispers :: "net \<Rightarrow> bytes \<Rightarrow> ident \<Rightarrow> unit sm" where
  "sendMissedWhispers nt lk i = bindS (callS (hub_UnsentRRCWhispers i)) (\<lambda>r. case r of
     Inl _ \<Rightarrow> retS ()
   | Inr ws \<Rightarrow> eachS (\<lambda>w. thenS (bindS (whisperFrames nt w i) (sendFrames lk)) (callS (WhisperSentRRC (w_ID w)))) ws)"

text \<open>WELCOME and what follows it; a link that WELCOME could not be queued for is not welcomed.\<close>

definition send_welcome :: "net \<Rightarrow> bytes \<Rightarrow> ident \<Rightarrow> Person \<Rightarrow> string \<Rightarrow> unit sm" where
  "send_welcome nt lk i pn note = bindS (getS sv_cfg) (\<lambda>c. case Welcome_Encode (nt_codec nt) (welcome_of c) of
     None \<Rightarrow> retS ()
   | Some body \<Rightarrow> bindS (hubEnvelope nt TypeWelcome '''') (\<lambda>e. bindS (send_envelope nt lk (e\<lparr>ev_Body := body\<rparr>)) (\<lambda>sent.
       whenS sent (thenS (writeS lk (\<lambda>ss. ss\<lparr>ss_welcomed := True, ss_nick := ps_Name pn\<rparr>))
         (thenS (notify nt lk TypeNotice '''' (greeting c pn note)) (sendMissedWhispers nt lk i))))))"

definition hello :: "net \<Rightarrow> bytes \<Rightarrow> ident \<Rightarrow> Envelope \<Rightarrow> unit sm" where
  "hello nt lk i e = (let h = ParseHello (nt_codec nt) (ev_Body e) in
     thenS (leave_rooms lk (he_Caps h)) (bindS (readS lk ss_pubKey) (\<lambda>pk. bindS (callS (Identify i (Some pk))) (\<lambda>r. case r of
       Inl er \<Rightarrow> refuseLink nt lk er
     | Inr pn \<Rightarrow> bindS (hello_nick lk i (if ev_Nick e = '''' then he_LegacyNick h else ev_Nick e) pn) (\<lambda>(p, note). send_welcome nt lk i p note)))))"

section \<open>JOIN and PART\<close>

definition norm_room :: "string \<Rightarrow> (err + string) sm" where
  "norm_room room = getS (\<lambda>s. NormalizeRoom (ulower (env (sv_hub s))) room (sc_MaxRoomNameBytes (sv_cfg s)))"

definition modeString :: "string \<Rightarrow> bool \<Rightarrow> bool \<Rightarrow> string" where
  "modeString modes key registered = (let b = filter (\<lambda>m. m = CHR ''k'' \<and> key \<or> m = CHR ''r'' \<and> registered \<or> m \<noteq> CHR ''k'' \<and> m \<noteq> CHR ''r'' \<and> m \<in> set modes) ''ikmnprt''
     in if b = '''' then ''(none)'' else ''+'' @ b)"

text \<open>A JOIN up to the hub: answered at once for a room the link is in or when it is in too many, and otherwise the room's messages are held from here on.\<close>

definition join_begin :: "net \<Rightarrow> bytes \<Rightarrow> Envelope \<Rightarrow> bool sm" where
  "join_begin nt lk e = bindS (norm_room (ev_Room e)) (\<lambda>r. case r of
     Inl _ \<Rightarrow> retS True
   | Inr room \<Rightarrow> bindS (readS lk id) (\<lambda>ss. bindS (getS sv_cfg) (\<lambda>c.
       if inRoom room ss then bindS (hubEnvelope nt TypeJoined room) (\<lambda>j. thenS (send_envelope nt lk j) (retS False))
       else if sc_MaxRoomsPerSession c \<le> int (length (ss_rooms ss)) then thenS (sendError nt lk (ev_Room e) ''too many rooms'') (retS False)
       else thenS (writeS lk (\<lambda>ss. ss\<lparr>ss_joining := (room, []) # filter (\<lambda>(k, _). k \<noteq> room) (ss_joining ss)\<rparr>)) (retS True))))"

definition forget_held :: "string \<Rightarrow> session \<Rightarrow> session" where
  "forget_held room ss = ss\<lparr>ss_joining := filter (\<lambda>(k, _). k \<noteq> room) (ss_joining ss)\<rparr>"

definition joined_body :: "net \<Rightarrow> rrc_config \<Rightarrow> JoinResult \<Rightarrow> Envelope \<Rightarrow> Envelope" where
  "joined_body nt c res e = (if \<not> sc_IncludeJoinedMemberList c then e
     else let e' = (case SetBody (nt_codec nt) (VList (map (\<lambda>m. VBytes (me_Identity m)) (js_Members res))) e of Some x \<Rightarrow> x | None \<Rightarrow> e)
     in if encode nt e' = None then e'\<lparr>ev_Body := []\<rparr> else e')"

definition room_info :: "room \<Rightarrow> string" where
  "room_info r = ''room '' @ rm_Name r @ '': '' @ (if rm_Registered r then ''registered'' else ''unregistered'') @ ''; mode='' @
     modeString (rm_Modes r) (rm_Key r \<noteq> '''') (rm_Registered r) @ ''; topic='' @ (if rm_Topic r = '''' then ''(none)'' else rm_Topic r)"

text \<open>The end-of-history line, between em dashes.\<close>

definition end_of_history :: string where
  "end_of_history = [CHR 0xE2, CHR 0x80, CHR 0x94] @ '' end of history '' @ [CHR 0xE2, CHR 0x80, CHR 0x94]"

definition send_history :: "net \<Rightarrow> bytes \<Rightarrow> string \<Rightarrow> string \<Rightarrow> message list \<Rightarrow> unit sm" where
  "send_history nt lk room note ms = whenS (ms \<noteq> []) (thenS (notify nt lk TypeNotice room note)
     (thenS (eachS (\<lambda>m. bindS (messageFrames nt m) (sendFrames lk)) ms) (notify nt lk TypeNotice room end_of_history)))"

text \<open>The hub's part of a JOIN, and the frames that answer it; the room and the last message the answer covers.\<close>

definition join_commit :: "net \<Rightarrow> bytes \<Rightarrow> ident \<Rightarrow> Envelope \<Rightarrow> (string \<times> int) option sm" where
  "join_commit nt lk i e = bindS (norm_room (ev_Room e)) (\<lambda>pending.
     let key = (case BodyString (nt_codec nt) e of Some k \<Rightarrow> k | None \<Rightarrow> '''') in
     bindS (callS (Join_request \<lparr>jr_Identity = i, jr_Room = ev_Room e, jr_Key = key\<rparr>)) (\<lambda>r. case r of
       Inl er \<Rightarrow> thenS (case pending of Inr room \<Rightarrow> writeS lk (forget_held room) | Inl _ \<Rightarrow> retS ())
         (bindS (userText er) (\<lambda>t. thenS (sendError nt lk (ev_Room e) t) (retS None)))
     | Inr res \<Rightarrow> let room = rm_Name (js_Room res) in
         bindS (getS sv_cfg) (\<lambda>c. bindS (hubEnvelope nt TypeJoined room) (\<lambda>j. thenS (send_envelope nt lk (joined_body nt c res j))
         (thenS (notify nt lk TypeNotice room (room_info (js_Room res)))
         (thenS (send_history nt lk room (js_ReplayNote res) (js_Replay res)) (retS (Some (room, js_SeenUpTo res)))))))))"

definition finishJoin :: "bytes \<Rightarrow> string \<Rightarrow> int \<Rightarrow> unit sm" where
  "finishJoin lk room seenUpTo = bindS (readS lk (\<lambda>ss. case map_of (ss_joining ss) room of Some b \<Rightarrow> b | None \<Rightarrow> [])) (\<lambda>held.
     thenS (writeS lk (\<lambda>ss. (forget_held room ss)\<lparr>ss_rooms := List.insert room (ss_rooms ss)\<rparr>))
       (eachS (\<lambda>b. whenS (seenUpTo < bf_id b) (sendFrames lk (bf_frames b))) held))"

text \<open>What is left of a JOIN that got past its beginning.\<close>

definition join_rest :: "net \<Rightarrow> bytes \<Rightarrow> ident \<Rightarrow> Envelope \<Rightarrow> unit sm" where
  "join_rest nt lk i e = bindS (join_commit nt lk i e) (\<lambda>r. case r of None \<Rightarrow> retS () | Some (room, seen) \<Rightarrow> finishJoin lk room seen)"

definition room_error :: "err \<Rightarrow> string" where
  "room_error e = (case e of ErrInvalid t \<Rightarrow> t | _ \<Rightarrow> '''')"

definition part_link :: "net \<Rightarrow> bytes \<Rightarrow> ident \<Rightarrow> string \<Rightarrow> unit sm" where
  "part_link nt lk i raw = (if raw = '''' then sendError nt lk '''' ''PART requires room name''
     else bindS (norm_room raw) (\<lambda>r. case r of
       Inl er \<Rightarrow> sendError nt lk raw (room_error er)
     | Inr room \<Rightarrow> bindS (readS lk (\<lambda>ss. room \<in> set (ss_rooms ss))) (\<lambda>present.
         thenS (writeS lk (\<lambda>ss. ss\<lparr>ss_rooms := removeAll room (ss_rooms ss)\<rparr>))
         (thenS (whenS present (bindS (callS (Part i room)) (\<lambda>r. case r of
            Inl er \<Rightarrow> bindS (userText er) (sendError nt lk raw) | Inr _ \<Rightarrow> retS ())))
         (bindS (hubEnvelope nt TypeParted room) (\<lambda>e.
           thenS (send_envelope nt lk (case SetBody (nt_codec nt) (VList [VBytes i]) e of Some x \<Rightarrow> x | None \<Rightarrow> e)) (retS ())))))))"

section \<open>Messages, commands and notices\<close>

definition maybeClaimNick :: "net \<Rightarrow> bytes \<Rightarrow> ident \<Rightarrow> string \<Rightarrow> unit sm" where
  "maybeClaimNick nt lk i nick = bindS (getS sv_cfg) (\<lambda>c. bindS (readS lk id) (\<lambda>ss. case NormalizeNick nick (sc_MaxNickBytes c) of (n, ok) \<Rightarrow>
     thenS (whenS ok (writeS lk (\<lambda>ss. ss\<lparr>ss_triedNick := n # ss_triedNick ss\<rparr>)))
     (if \<not> ok \<or> n = ss_nick ss \<or> n \<in> set (ss_triedNick ss) then retS ()
      else bindS (callS (hub_ClaimName i n)) (\<lambda>r. case r of
        Inl er \<Rightarrow> bindS (userText er) (notify nt lk TypeNotice '''')
      | Inr p \<Rightarrow> writeS lk (\<lambda>ss. ss\<lparr>ss_nick := ps_Name p\<rparr>)))))"

definition reply_text :: "Reply \<Rightarrow> string" where
  "reply_text r = GoStrings.Join (Lines r) [CHR 0x0A]"

text \<open>The lines of a reply: as one frame when it is to be whole and fits, and otherwise line by line.\<close>

definition send_lines :: "net \<Rightarrow> bytes \<Rightarrow> Reply \<Rightarrow> unit sm" where
  "send_lines nt lk rep = (let t = (if Reply_Error rep \<and> length (Lines rep) = 1 then TypeError else TypeNotice) in
     if Lines rep = [] then retS ()
     else if \<not> Whole rep then notify nt lk t '''' (reply_text rep)
     else bindS (hubEnvelope nt t '''') (\<lambda>e0. bindS (getS sv_cfg) (\<lambda>c. let e = e0\<lparr>ev_Body := TextBody (nt_codec nt) (reply_text rep)\<rparr> in
       if int (length (reply_text rep)) \<le> bodyBudget nt c e \<and> encode nt e \<noteq> None
       then thenS (send_envelope nt lk e) (retS ()) else notify nt lk t '''' (reply_text rep))))"

text \<open>A command's text for the hub; \<open>code\<close> is the code a /link would be given. A reply may part the room, send history and lines.\<close>

definition srv_command :: "net \<Rightarrow> string \<Rightarrow> bytes \<Rightarrow> ident \<Rightarrow> Envelope \<Rightarrow> string \<Rightarrow> unit sm" where
  "srv_command nt code lk i e txt = bindS (norm_room (ev_Room e)) (\<lambda>r.
     let room = (if ev_Room e = '''' then '''' else case r of Inr x \<Rightarrow> x | Inl _ \<Rightarrow> ev_Room e) in
     bindS (callS (Command code \<lparr>cr_Via = ViaRRC, cr_Identity = i, cr_Room = room, cr_Text = txt\<rparr>)) (\<lambda>r. case r of
       Inl er \<Rightarrow> bindS (userText er) (sendError nt lk '''')
     | Inr rep \<Rightarrow> bindS (readS lk (inRoom (PartRoom rep))) (\<lambda>present.
         thenS (whenS (PartRoom rep \<noteq> '''' \<and> present) (part_link nt lk i (PartRoom rep)))
         (thenS (case History rep of [] \<Rightarrow> retS () | m # ms \<Rightarrow> send_history nt lk (m_Room m) (HistoryNote rep) (m # ms))
           (send_lines nt lk rep)))))"

definition nameOf :: "ident \<Rightarrow> string sm" where
  "nameOf i = bindS (callS (hub_PersonOf i)) (\<lambda>r. retS (case r of Inl _ \<Rightarrow> GuestName i | Inr p \<Rightarrow> ps_Name p))"

definition direct_notice :: "net \<Rightarrow> bytes \<Rightarrow> ident \<Rightarrow> ident \<Rightarrow> Envelope \<Rightarrow> unit sm" where
  "direct_notice nt lk i to e = (if ev_Room e \<noteq> '''' then sendError nt lk '''' ''direct notice must not include room''
     else bindS (callS (MayNotifyDirect i to)) (\<lambda>r. case r of
       Inl er \<Rightarrow> bindS (userText er) (sendError nt lk '''')
     | Inr _ \<Rightarrow> bindS (getS (sessionsOf to)) (\<lambda>targets.
         if targets = [] then sendError nt lk '''' ''destination not connected''
         else bindS (nameOf i) (\<lambda>name. case encode nt ((Clone e)\<lparr>ev_Src := i, ev_Nick := name\<rparr>) of
           None \<Rightarrow> sendError nt lk '''' ''message too large''
         | Some fr \<Rightarrow> eachS (\<lambda>t. sendFrame t fr) targets))))"

definition room_notice :: "net \<Rightarrow> bytes \<Rightarrow> ident \<Rightarrow> Envelope \<Rightarrow> unit sm" where
  "room_notice nt lk i e = bindS (norm_room (ev_Room e)) (\<lambda>r. bindS (readS lk id) (\<lambda>ss. case r of
     Inl _ \<Rightarrow> sendError nt lk (ev_Room e) ''no outside messages (+n)''
   | Inr room \<Rightarrow> if \<not> inRoom room ss then sendError nt lk (ev_Room e) ''no outside messages (+n)''
     else bindS (callS (MayNotice i room)) (\<lambda>r. case r of
       Inl er \<Rightarrow> bindS (userText er) (sendError nt lk room)
     | Inr _ \<Rightarrow> bindS (nameOf i) (\<lambda>name. case encode nt ((Clone e)\<lparr>ev_Src := i, ev_Room := room, ev_Nick := name\<rparr>) of
         None \<Rightarrow> retS ()
       | Some fr \<Rightarrow> bindS (getS (sessionsIn room)) (eachS (\<lambda>t. sendFrame t fr))))))"

definition srv_notice :: "net \<Rightarrow> bytes \<Rightarrow> ident \<Rightarrow> Envelope \<Rightarrow> unit sm" where
  "srv_notice nt lk i e = (case ev_Dst e of
     Some to \<Rightarrow> direct_notice nt lk i to e
   | None \<Rightarrow> if ev_Room e = '''' then retS () else room_notice nt lk i e)"

text \<open>A MSG that reads "!me ..." becomes an ACTION.\<close>

definition as_action :: "codec \<Rightarrow> Envelope \<Rightarrow> string option \<Rightarrow> Envelope \<times> string option" where
  "as_action c e txt = (case txt of
     None \<Rightarrow> (e, None)
   | Some t \<Rightarrow> if ev_Type e = TypeMsg \<and> HasPrefix (TrimSpace t) ''!''
       then (case ActionText t of Some a \<Rightarrow> ((Clone e)\<lparr>ev_Type := TypeAction, ev_Body := TextBody c a\<rparr>, Some a) | None \<Rightarrow> (e, Some t))
       else (e, Some t))"

definition post_request :: "codec \<Rightarrow> ident \<Rightarrow> Envelope \<Rightarrow> string \<Rightarrow> PostRequest" where
  "post_request c i e txt = \<lparr>pr_Via = ViaRRC, pr_Identity = i, pr_Room = ev_Room e, pr_Action = (ev_Type e = TypeAction), pr_Body = txt,
     pr_OriginID = Some (ev_ID e), pr_SaidAt = int (min (ev_TS e) (2 ^ 62)), pr_Ext = (if ev_Ext e = [] then None else marshal_ext c (ev_Ext e))\<rparr>"

definition say_message :: "net \<Rightarrow> bytes \<Rightarrow> ident \<Rightarrow> Envelope \<Rightarrow> string \<Rightarrow> unit sm" where
  "say_message nt lk i e txt = bindS (getS sv_cfg) (\<lambda>c.
     if sc_MaxMsgBodyBytes c < int (length txt)
     then sendError nt lk '''' (''message too large: '' @ itoa (int (length txt)) @ '' bytes > '' @ itoa (sc_MaxMsgBodyBytes c) @ '' bytes'')
     else thenS (maybeClaimNick nt lk i (ev_Nick e)) (bindS (callS (Post (post_request (nt_codec nt) i e txt))) (\<lambda>r. case r of
       Inl er \<Rightarrow> bindS (userText er) (sendError nt lk (ev_Room e)) | Inr _ \<Rightarrow> retS ())))"

definition srv_message :: "net \<Rightarrow> string \<Rightarrow> bytes \<Rightarrow> ident \<Rightarrow> Envelope \<Rightarrow> unit sm" where
  "srv_message nt code lk i e0 = bindS (getS (\<lambda>s. ulower (env (sv_hub s)))) (\<lambda>ul.
     case as_action (nt_codec nt) e0 (BodyString (nt_codec nt) e0) of (e, txt) \<Rightarrow>
       (case txt of
          Some t \<Rightarrow> if (ev_Type e = TypeMsg \<or> ev_Type e = TypeNotice) \<and> IsCommand ul t then srv_command nt code lk i e t
            else if ev_Type e = TypeNotice then srv_notice nt lk i e
            else if ev_Room e = '''' then sendError nt lk '''' ''message requires room name''
            else say_message nt lk i e t
        | None \<Rightarrow> if ev_Type e = TypeNotice then srv_notice nt lk i e
            else if ev_Room e = '''' then sendError nt lk '''' ''message requires room name''
            else sendError nt lk (ev_Room e) ''message body must be text''))"

section \<open>Frames\<close>

definition frame_limits :: DecodeLimits where
  "frame_limits = DefaultLimits\<lparr>MaxFrameBytes := maxFrame\<rparr>"

text \<open>An envelope of an identified link, in the order of the code's switch; the result is the JOIN it began, if any.\<close>

definition doneS :: "unit sm \<Rightarrow> (ident \<times> Envelope) option sm" where
  "doneS m = thenS m (retS None)"

definition handle_envelope :: "net \<Rightarrow> string \<Rightarrow> bytes \<Rightarrow> ident \<Rightarrow> Envelope \<Rightarrow> (ident \<times> Envelope) option sm" where
  "handle_envelope nt code lk i e = bindS (readS lk ss_welcomed) (\<lambda>welcomed.
     if ev_Type e = TypePong then retS None
     else if ev_Type e = TypePing then doneS (bindS (hubEnvelope nt TypePong '''') (\<lambda>p. thenS (send_envelope nt lk (p\<lparr>ev_Body := ev_Body e\<rparr>)) (retS ())))
     else if ev_Type e = TypeResourceEnvelope then doneS (case ParseResourceEnvelope (nt_codec nt) (ev_Body e) of
       Inl t \<Rightarrow> sendError nt lk (ev_Room e) t | Inr _ \<Rightarrow> retS ())
     else if ev_Type e = TypeHello then doneS (hello nt lk i e)
     else if \<not> welcomed then doneS (sendError nt lk '''' ''send HELLO first'')
     else if ev_Type e = TypeJoin then bindS (join_begin nt lk e) (\<lambda>go. retS (if go then Some (i, e) else None))
     else if ev_Type e = TypePart then doneS (part_link nt lk i (ev_Room e))
     else if ev_Type e \<in> {TypeMsg, TypeNotice, TypeAction} then doneS (srv_message nt code lk i e)
     else retS None)"

definition rate_limited :: "net \<Rightarrow> bytes \<Rightarrow> int \<Rightarrow> unit sm" where
  "rate_limited nt lk now = thenS (countS (\<lambda>c. c\<lparr>rs_RateLimited := rs_RateLimited c + 1\<rparr>))
     (bindS (readS lk (\<lambda>ss. case ss_errorAt ss of None \<Rightarrow> True | Some t \<Rightarrow> 10 * second_ns < now - t)) (\<lambda>tell.
       whenS tell (thenS (writeS lk (\<lambda>ss. ss\<lparr>ss_errorAt := Some now\<rparr>)) (sendError nt lk '''' ''rate limited''))))"

definition heard :: "int \<Rightarrow> session \<Rightarrow> session" where
  "heard now ss = ss\<lparr>ss_lastHeard := now, ss_pingSent := None\<rparr>"

text \<open>A frame before the link identified is kept for later, up to eight of them.\<close>

definition hold_frame :: "bytes \<Rightarrow> session \<Rightarrow> session" where
  "hold_frame fr ss = (if length (ss_pending ss) < maxPending then ss\<lparr>ss_pending := ss_pending ss @ [fr]\<rparr> else ss)"

definition srv_frame :: "net \<Rightarrow> string \<Rightarrow> bytes \<Rightarrow> bytes \<Rightarrow> (ident \<times> Envelope) option sm" where
  "srv_frame nt code lk fr = thenS (countS (\<lambda>c. c\<lparr>rs_FramesIn := rs_FramesIn c + 1\<rparr>)) (thenS (sessionFor lk)
     (bindS (getS (\<lambda>s. (now_ns (sv_hub s), sc_RatePerMinute (sv_cfg s)))) (\<lambda>(now, perMinute). bindS (readS lk id) (\<lambda>ss. case ss_identity ss of
       None \<Rightarrow> doneS (writeS lk (hold_frame fr))
     | Some i \<Rightarrow> thenS (writeS lk (\<lambda>ss. snd (session_take now perMinute (heard now ss))))
         (if \<not> fst (session_take now perMinute (heard now ss)) then doneS (rate_limited nt lk now)
          else case Decode (nt_codec nt) fr frame_limits of
            Inl t \<Rightarrow> doneS (thenS (countS (\<lambda>c. c\<lparr>rs_BadFrames := rs_BadFrames c + 1\<rparr>)) (sendError nt lk '''' (''bad message: '' @ t)))
          | Inr e \<Rightarrow> handle_envelope nt code lk i e)))))"

definition srv_data :: "net \<Rightarrow> string \<Rightarrow> bytes \<Rightarrow> bytes \<Rightarrow> unit sm" where
  "srv_data nt code lk fr = bindS (srv_frame nt code lk fr) (\<lambda>r. case r of None \<Rightarrow> retS () | Some (i, e) \<Rightarrow> join_rest nt lk i e)"

text \<open>A session that has identified, and its place in the index.\<close>

definition adopt :: "ident \<Rightarrow> bytes \<Rightarrow> bytes \<Rightarrow> server \<Rightarrow> server" where
  "adopt i pubKey lk s = index_link i lk (change_session lk (\<lambda>ss. ss\<lparr>ss_identity := Some i, ss_pubKey := pubKey, ss_pending := []\<rparr>) s)"

definition identified :: "net \<Rightarrow> string \<Rightarrow> bytes \<Rightarrow> bytes \<Rightarrow> unit sm" where
  "identified nt code lk pubKey = thenS (sessionFor lk) (bindS (readS lk id) (\<lambda>ss. let i = nt_IdentityHash nt pubKey in
     if ss_identity ss \<noteq> None then retS ()
     else thenS (modS (adopt i pubKey lk)) (bindS (callS (Identify i (Some pubKey))) (\<lambda>r. case r of
          Inl er \<Rightarrow> refuseLink nt lk er
        | Inr _ \<Rightarrow> eachS (srv_data nt code lk) (ss_pending ss)))))"

definition handleJob :: "net \<Rightarrow> string \<Rightarrow> job \<Rightarrow> unit sm" where
  "handleJob nt code j = (case jb_kind j of
     jobEstablished \<Rightarrow> established (jb_link j)
   | jobIdentified \<Rightarrow> identified nt code (jb_link j) (jb_data j)
   | jobData \<Rightarrow> srv_data nt code (jb_link j) (jb_data j)
   | jobResource \<Rightarrow> retS ()
   | jobClosed \<Rightarrow> srv_closed (jb_link j))"

section \<open>Events\<close>

definition presenceChange :: "net \<Rightarrow> nat \<Rightarrow> string \<Rightarrow> ident \<Rightarrow> string \<Rightarrow> unit sm" where
  "presenceChange nt t room i name = (if room = '''' then retS ()
     else bindS (hubEnvelope nt t room) (\<lambda>e0. case SetBody (nt_codec nt) (VList [VBytes i]) (e0\<lparr>ev_Nick := name\<rparr>) of
       None \<Rightarrow> retS ()
     | Some e \<Rightarrow> (case encode nt e of
         None \<Rightarrow> retS ()
       | Some fr \<Rightarrow> bindS (getS (\<lambda>s. filter (\<lambda>l. ss_identity (session_of l s) \<noteq> Some i) (sessionsIn room s))) (eachS (\<lambda>l. sendFrame l fr)))))"

definition deliver_whisper :: "net \<Rightarrow> whisper \<Rightarrow> ident list \<Rightarrow> unit sm" where
  "deliver_whisper nt w to = bindS (getS (\<lambda>s. concat (map (\<lambda>i. map (Pair i) (sessionsOf i s)) to))) (\<lambda>targets.
     thenS (eachS (\<lambda>(i, l). bindS (whisperFrames nt w i) (sendFrames l)) targets)
       (whenS (targets \<noteq> []) (thenS (callS (WhisperSentRRC (w_ID w))) (retS ()))))"

definition remove_link :: "net \<Rightarrow> string \<Rightarrow> string \<Rightarrow> bytes \<Rightarrow> unit sm" where
  "remove_link nt room reason lk = bindS (readS lk (\<lambda>ss. room \<in> set (ss_rooms ss))) (\<lambda>present.
     thenS (writeS lk (\<lambda>ss. ss\<lparr>ss_rooms := removeAll room (ss_rooms ss)\<rparr>)) (whenS present (sendError nt lk room reason)))"

definition ban_link :: "net \<Rightarrow> string \<Rightarrow> bytes \<Rightarrow> unit sm" where
  "ban_link nt reason lk = thenS (writeS lk (\<lambda>ss. ss\<lparr>ss_rooms := []\<rparr>))
     (thenS (sendError nt lk '''' (if reason \<noteq> '''' then reason else ''banned'')) (writeS lk closeAfterFlush))"

definition srv_deliver :: "net \<Rightarrow> Event \<Rightarrow> unit sm" where
  "srv_deliver nt ev = (case ev of
     WhisperEvent w to \<Rightarrow> deliver_whisper nt w to
   | MessageEvent m to \<Rightarrow> bindS (messageFrames nt m) (\<lambda>frames. bindS (getS allSessions) (eachS (offerMessage (m_Room m) (m_ID m) frames)))
   | JoinedEvent room i name via \<Rightarrow> presenceChange nt TypeJoined room i name
   | PartedEvent room i name via \<Rightarrow> presenceChange nt TypeParted room i name
   | GroupEvent i name joined \<Rightarrow> bindS (getS (\<lambda>s. sc_GroupRoom (sv_cfg s))) (\<lambda>room.
       presenceChange nt (if joined then TypeJoined else TypeParted) room i name)
   | NameEvent i old new \<Rightarrow> bindS (getS (sessionsOf i)) (eachS (\<lambda>l. writeS l (\<lambda>ss. ss\<lparr>ss_nick := new\<rparr>)))
   | RoomNoticeEvent room txt \<Rightarrow> bindS (noticeFrames nt TypeNotice room txt) (\<lambda>frames. bindS (getS (sessionsIn room)) (eachS (\<lambda>l. sendFrames l frames)))
   | NoticeEvent i room txt toLXMF \<Rightarrow> bindS (noticeFrames nt TypeNotice '''' txt) (\<lambda>frames. bindS (getS (sessionsOf i)) (eachS (\<lambda>l. sendFrames l frames)))
   | RemovedEvent room i reason \<Rightarrow> bindS (getS (sessionsOf i)) (eachS (remove_link nt room reason))
   | BannedEvent i reason \<Rightarrow> bindS (getS (sessionsOf i)) (eachS (ban_link nt reason))
   | LXMFResumeEvent i missed \<Rightarrow> retS ())"

section \<open>Keepalive\<close>

definition close_link :: "bytes \<Rightarrow> unit sm" where
  "close_link lk = thenS (writeS lk stop_session) (modS (teardown lk))"

definition keepalive_link :: "net \<Rightarrow> int \<Rightarrow> bytes \<Rightarrow> unit sm" where
  "keepalive_link nt now lk = bindS (readS lk id) (\<lambda>ss. bindS (getS sv_cfg) (\<lambda>c.
     if \<not> ss_welcomed ss then whenS (sc_HelloTimeout c < now - ss_start ss) (close_link lk)
     else case ss_pingSent ss of
       Some t \<Rightarrow> whenS (sc_PingTimeout c < now - t) (close_link lk)
     | None \<Rightarrow> whenS (sc_PingInterval c < now - ss_lastHeard ss) (bindS (hubEnvelope nt TypePing '''') (\<lambda>p.
         case SetBody (nt_codec nt) (VUint (nat (now div 1000000))) p of
           None \<Rightarrow> retS ()
         | Some e \<Rightarrow> bindS (send_envelope nt lk e) (\<lambda>sent. whenS sent (writeS lk (\<lambda>ss. ss\<lparr>ss_pingSent := Some now\<rparr>)))))))"

definition keepalive :: "net \<Rightarrow> unit sm" where
  "keepalive nt = bindS (getS (\<lambda>s. (now_ns (sv_hub s), allSessions s))) (\<lambda>(now, ls). eachS (keepalive_link nt now) ls)"

section \<open>The server at work\<close>

text \<open>
  Everything that can happen, in any order: a transport callback queues a job, a waiting job gets its place, a worker does the job at
  the head of its queue, an event of the server's subscription (number \<open>n\<close>) is fanned out, the keepalive ticks, a
  writer sends a frame or ends, the hub serves somebody else, and the server shuts down. A worker may be seen in the middle of a JOIN: it is
  then busy with the hub's part or with its end, and everything else goes on meanwhile.
\<close>

datatype phase = Committing bytes ident Envelope | Finishing bytes string int

record world =
  wd_server :: server
  wd_busy :: "(nat \<times> phase) list"

definition idle :: "nat \<Rightarrow> world \<Rightarrow> bool" where
  "idle q w \<longleftrightarrow> q \<notin> fst ` set (wd_busy w)"

definition take_job :: "nat \<Rightarrow> server \<Rightarrow> server" where
  "take_job q s = s\<lparr>sv_jobs := (sv_jobs s)[q := tl (sv_jobs s ! q)]\<rparr>"

inductive server_step :: "net \<Rightarrow> nat \<Rightarrow> world \<Rightarrow> world \<Rightarrow> bool" for nt n where
  s_hook: "server_step nt n w (w\<lparr>wd_server := Hooks j (wd_server w)\<rparr>)"
| s_late: "k < length (sv_late (wd_server w)) \<Longrightarrow> server_step nt n w (w\<lparr>wd_server := late_push k (wd_server w)\<rparr>)"
| s_work: "q < length (sv_jobs (wd_server w)) \<Longrightarrow> idle q w \<Longrightarrow> sv_jobs (wd_server w) ! q = j # js \<Longrightarrow>
    handleJob nt code j (take_job q (wd_server w)) = Some (u, s') \<Longrightarrow> server_step nt n w (w\<lparr>wd_server := s'\<rparr>)"
| s_join_begin: "q < length (sv_jobs (wd_server w)) \<Longrightarrow> idle q w \<Longrightarrow> sv_jobs (wd_server w) ! q = j # js \<Longrightarrow> jb_kind j = jobData \<Longrightarrow>
    srv_frame nt code (jb_link j) (jb_data j) (take_job q (wd_server w)) = Some (Some (i, e), s') \<Longrightarrow>
    server_step nt n w (w\<lparr>wd_server := s', wd_busy := (q, Committing (jb_link j) i e) # wd_busy w\<rparr>)"
| s_join_refused: "(q, Committing lk i e) \<in> set (wd_busy w) \<Longrightarrow> join_commit nt lk i e (wd_server w) = Some (None, s') \<Longrightarrow>
    server_step nt n w (w\<lparr>wd_server := s', wd_busy := removeAll (q, Committing lk i e) (wd_busy w)\<rparr>)"
| s_join_commit: "(q, Committing lk i e) \<in> set (wd_busy w) \<Longrightarrow> join_commit nt lk i e (wd_server w) = Some (Some (room, seen), s') \<Longrightarrow>
    server_step nt n w (w\<lparr>wd_server := s', wd_busy := (q, Finishing lk room seen) # removeAll (q, Committing lk i e) (wd_busy w)\<rparr>)"
| s_join_finish: "(q, Finishing lk room seen) \<in> set (wd_busy w) \<Longrightarrow> finishJoin lk room seen (wd_server w) = Some (u, s') \<Longrightarrow>
    server_step nt n w (w\<lparr>wd_server := s', wd_busy := removeAll (q, Finishing lk room seen) (wd_busy w)\<rparr>)"
| s_fanOut: "n < length (subs (sv_hub (wd_server w))) \<Longrightarrow> sub_ch (subs (sv_hub (wd_server w)) ! n) = ev # evs \<Longrightarrow>
    srv_deliver nt ev ((wd_server w)\<lparr>sv_hub := receive n (sv_hub (wd_server w))\<rparr>) = Some (u, s') \<Longrightarrow> server_step nt n w (w\<lparr>wd_server := s'\<rparr>)"
| s_keepalive: "keepalive nt (wd_server w) = Some (u, s') \<Longrightarrow> server_step nt n w (w\<lparr>wd_server := s'\<rparr>)"
| s_write: "server_step nt n w (w\<lparr>wd_server := writer_send nt lk (wd_server w)\<rparr>)"
| s_write_end: "server_step nt n w (w\<lparr>wd_server := writer_end flushed lk (wd_server w)\<rparr>)"
| s_other: "hub_step (sv_hub (wd_server w)) h \<Longrightarrow> server_step nt n w (w\<lparr>wd_server := (wd_server w)\<lparr>sv_hub := h\<rparr>\<rparr>)"
| s_closeAll: "server_step nt n w (w\<lparr>wd_server := closeAll (wd_server w)\<rparr>)"

inductive server_reach :: "net \<Rightarrow> nat \<Rightarrow> world \<Rightarrow> bool" for nt n where
  server_start: "hub_reach h \<Longrightarrow> server_reach nt n \<lparr>wd_server = rrc_New c h hubHash, wd_busy = []\<rparr>"
| server_more: "server_reach nt n w \<Longrightarrow> server_step nt n w w' \<Longrightarrow> server_reach nt n w'"

end
