(* ===== verification/RrcSafety.thy ===== *)
theory RrcSafety
  imports RrcHandle
begin

text \<open>
  What the RRC server keeps while it runs. The two locales say what a relation between server states must allow for every handler
  to be within it: \<open>sending\<close> for building and queueing frames, \<open>handling\<close> for the handlers. They are interpreted for the
  hub (everything the server does to it is a request of the hub), for the invariant of the sessions, and, \<open>sending\<close> alone, for a
  link that may only be sent to.
\<close>

section \<open>What building and queueing frames relies on\<close>

named_theorems server_ok "handlers stay within a relation"

locale sending =
  fixes pre :: "server \<Rightarrow> bool" and R :: "server \<Rightarrow> server \<Rightarrow> bool" and fits :: "bytes \<Rightarrow> bool" and sendto :: "bytes \<Rightarrow> bool"
  assumes R_refl: "pre s \<Longrightarrow> R s s"
    and R_trans: "R s t \<Longrightarrow> R t u \<Longrightarrow> R s u"
    and R_pre: "pre s \<Longrightarrow> R s t \<Longrightarrow> pre t"
    and R_fresh: "pre s \<Longrightarrow> R s (s\<lparr>sv_fresh := k\<rparr>)"
    and R_count: "pre s \<Longrightarrow> R s (s\<lparr>sv_stats := c\<rparr>)"
    and R_enqueue: "pre s \<Longrightarrow> sendto lk \<Longrightarrow> fits fr \<Longrightarrow> session_enqueue (sc_SendQueue (sv_cfg s)) fr (session_of lk s) = Some ss \<Longrightarrow>
      R s (change_session lk (\<lambda>_. ss) s)"
    and encode_fits: "encode nt e = Some b \<Longrightarrow> fits b"
begin

definition ok :: "('a \<Rightarrow> bool) \<Rightarrow> 'a sm \<Rightarrow> bool" where
  "ok Q m \<longleftrightarrow> (\<forall>s a s'. pre s \<longrightarrow> m s = Some (a, s') \<longrightarrow> R s s' \<and> Q a)"

lemma okI: "(\<And>s a s'. pre s \<Longrightarrow> m s = Some (a, s') \<Longrightarrow> R s s' \<and> Q a) \<Longrightarrow> ok Q m"
  by (simp add: ok_def)

lemma okD: "ok Q m \<Longrightarrow> pre s \<Longrightarrow> m s = Some (a, s') \<Longrightarrow> R s s' \<and> Q a"
  by (simp add: ok_def)

lemma ok_weaken: "ok Q m \<Longrightarrow> ok (\<lambda>_. True) m"
  by (simp add: ok_def)

lemma ok_retS [server_ok]: "ok (\<lambda>_. True) (retS a)"
  by (auto simp: ok_def retS_def R_refl)

lemma ok_retS_such: "Q a \<Longrightarrow> ok Q (retS a)"
  by (auto simp: ok_def retS_def R_refl)

lemma ok_getS [server_ok]: "ok (\<lambda>_. True) (getS f)"
  by (auto simp: ok_def getS_def R_refl)

lemma ok_readS [server_ok]: "ok (\<lambda>_. True) (readS lk f)"
  unfolding readS_def by (rule ok_getS)

lemma ok_waitS [server_ok]: "ok (\<lambda>_. True) (waitS x)"
  by (auto simp: ok_def waitS_def R_refl split: option.splits)

lemma ok_bindS [server_ok]: "ok Q m \<Longrightarrow> (\<And>a. Q a \<Longrightarrow> ok Q' (f a)) \<Longrightarrow> ok Q' (bindS m f)"
proof (rule okI)
  fix s b t
  assume m: "ok Q m" and f: "\<And>a. Q a \<Longrightarrow> ok Q' (f a)" and s: "pre s" and run: "bindS m f s = Some (b, t)"
  from run obtain a s1 where a: "m s = Some (a, s1)" "f a s1 = Some (b, t)" by (auto simp: bindS_def split: option.splits)
  from okD [OF m s a(1)] have 1: "R s s1" "Q a" by auto
  from okD [OF f [OF 1(2)] R_pre [OF s 1(1)] a(2)] show "R s t \<and> Q' b" using R_trans [OF 1(1)] by blast
qed

lemma ok_thenS [server_ok]: "ok Q m \<Longrightarrow> ok Q' k \<Longrightarrow> ok Q' (thenS m k)"
  unfolding thenS_def by (rule ok_bindS)

lemma ok_whenS [server_ok]: "ok (\<lambda>_. True) m \<Longrightarrow> ok (\<lambda>_. True) (whenS b m)"
  by (simp add: whenS_def ok_retS)

lemma ok_countS [server_ok]: "ok (\<lambda>_. True) (countS f)"
  by (auto simp: ok_def countS_def modS_def R_count)

lemma ok_if [server_ok]: "(b \<Longrightarrow> ok Q m) \<Longrightarrow> (\<not> b \<Longrightarrow> ok Q k) \<Longrightarrow> ok Q (if b then m else k)"
  by simp

lemma ok_let [server_ok]: "(\<And>a. ok Q (f a)) \<Longrightarrow> ok Q (let a = x in f a)"
  by simp

lemma ok_prod [server_ok]: "(\<And>a b. ok Q (f a b)) \<Longrightarrow> ok Q (case x of (a, b) \<Rightarrow> f a b)"
  by (cases x) simp

lemma ok_option [server_ok]: "ok Q m \<Longrightarrow> (\<And>a. x = Some a \<Longrightarrow> ok Q (f a)) \<Longrightarrow> ok Q (case x of None \<Rightarrow> m | Some a \<Rightarrow> f a)"
  by (cases x) simp_all

lemma ok_sum [server_ok]: "(\<And>a. ok Q (f a)) \<Longrightarrow> (\<And>b. ok Q (g b)) \<Longrightarrow> ok Q (case x of Inl a \<Rightarrow> f a | Inr b \<Rightarrow> g b)"
  by (cases x) simp_all

lemma ok_list [server_ok]: "ok Q m \<Longrightarrow> (\<And>a as. ok Q (f a as)) \<Longrightarrow> ok Q (case x of [] \<Rightarrow> m | a # as \<Rightarrow> f a as)"
  by (cases x) simp_all

lemma ok_eachS: "(\<And>x. x \<in> set xs \<Longrightarrow> ok (\<lambda>_. True) (f x)) \<Longrightarrow> ok (\<lambda>_. True) (eachS f xs)"
  by (induction xs) (auto intro: ok_retS ok_thenS)

lemma ok_eachS_any [server_ok]: "(\<And>x. ok (\<lambda>_. True) (f x)) \<Longrightarrow> ok (\<lambda>_. True) (eachS f xs)"
  by (rule ok_eachS)

lemma ok_gatherS: "(\<And>x. ok (list_all P) (f x)) \<Longrightarrow> ok (list_all P) (gatherS f xs)"
  by (induction xs) (auto intro!: ok_bindS [where Q = "list_all P"] ok_retS_such)

lemma ok_newID [server_ok]: "ok (\<lambda>_. True) (newID nt)"
  by (auto simp: ok_def newID_def R_fresh)

lemma ok_hubEnvelope [server_ok]: "ok (\<lambda>_. True) (hubEnvelope nt t room)"
  unfolding hubEnvelope_def by (rule server_ok | assumption)+

text \<open>Every frame fits a link.\<close>

lemma ok_piece_frame [server_ok]: "ok (list_all fits) (piece_frame nt e p)"
  unfolding piece_frame_def by (rule ok_bindS [OF ok_newID]) (auto intro!: ok_retS_such split: option.splits dest: encode_fits)

lemma ok_noticeFrames [server_ok]: "ok (list_all fits) (noticeFrames nt t room txt)"
  unfolding noticeFrames_def
proof (rule ok_gatherS)
  show "ok (list_all fits) (line_frames nt t room line)" for line
    unfolding line_frames_def by (auto intro!: ok_retS_such ok_bindS [OF ok_hubEnvelope] ok_bindS [OF ok_getS] ok_bindS [OF ok_waitS] ok_gatherS ok_piece_frame)
qed

lemma ok_whisperFrames [server_ok]: "ok (list_all fits) (whisperFrames nt w to)"
  unfolding whisperFrames_def by (intro ok_bindS [OF ok_getS] ok_bindS [OF ok_waitS] ok_gatherS ok_piece_frame)

lemma ok_messageFrames [server_ok]: "ok (list_all fits) (messageFrames nt m)"
proof -
  have "list_all fits (part_frame nt sha m e n ip)" for sha e n ip
    by (cases ip) (auto simp: part_frame_def Let_def split: option.splits dest: encode_fits)
  then have "list_all fits (concat (map (part_frame nt sha m e n) ips))" for sha e n ips by (auto simp: list_all_iff)
  then show ?thesis
    unfolding messageFrames_def by (auto intro!: ok_bindS [OF ok_getS] ok_bindS [OF ok_waitS] ok_retS_such)
qed

lemma ok_sendFrame [server_ok]: "sendto lk \<Longrightarrow> fits fr \<Longrightarrow> ok (\<lambda>_. True) (sendFrame lk fr)"
  by (auto simp: ok_def sendFrame_def R_count R_enqueue split: option.splits)

lemma ok_sendFrames [server_ok]: "sendto lk \<Longrightarrow> list_all fits frs \<Longrightarrow> ok (\<lambda>_. True) (sendFrames lk frs)"
  unfolding sendFrames_def by (auto simp: list_all_iff intro!: ok_eachS ok_sendFrame)

lemma ok_send_envelope [server_ok]: "sendto lk \<Longrightarrow> ok (\<lambda>_. True) (send_envelope nt lk e)"
  unfolding send_envelope_def by (auto intro!: ok_retS ok_sendFrame dest: encode_fits split: option.splits)

lemma ok_notify [server_ok]: "sendto lk \<Longrightarrow> ok (\<lambda>_. True) (notify nt lk t room txt)"
  unfolding notify_def by (intro ok_bindS [OF ok_noticeFrames] ok_sendFrames)

lemma ok_sendError [server_ok]: "sendto lk \<Longrightarrow> ok (\<lambda>_. True) (sendError nt lk room txt)"
  unfolding sendError_def by (rule ok_notify)

lemma ok_userText [server_ok]: "ok (\<lambda>_. True) (userText er)"
  unfolding userText_def by (cases er) (simp_all only: err.case, (rule server_ok)+)

lemma ok_refusal_text [server_ok]: "ok (\<lambda>_. True) (refusal_text er)"
  unfolding refusal_text_def by (cases er) (simp_all only: err.case, (rule server_ok)+)

lemma ok_send_history [server_ok]: "sendto lk \<Longrightarrow> ok (\<lambda>_. True) (send_history nt lk room note ms)"
  unfolding send_history_def by (rule server_ok | assumption)+

lemma ok_send_lines [server_ok]: "sendto lk \<Longrightarrow> ok (\<lambda>_. True) (send_lines nt lk rep)"
  unfolding send_lines_def Let_def by (rule server_ok | assumption)+

end

section \<open>What the handlers rely on\<close>

text \<open>What a session is at any time: its queue within the configured bound and of frames that fit, at most eight early frames, bounded buffers.\<close>

definition frame_fits :: "bytes \<Rightarrow> bool" where
  "frame_fits fr \<longleftrightarrow> int (length fr) \<le> maxFrame"

definition buffer_ok :: "buffered list \<Rightarrow> bool" where
  "buffer_ok bs \<longleftrightarrow> length bs \<le> maxBuffered \<and> (\<forall>b\<in>set bs. list_all frame_fits (bf_frames b))"

definition session_ok :: "rrc_config \<Rightarrow> session \<Rightarrow> bool" where
  "session_ok c ss \<longleftrightarrow> int (length (ss_out ss)) \<le> sc_SendQueue c \<and> list_all frame_fits (ss_out ss) \<and> length (ss_pending ss) \<le> maxPending \<and>
     distinct (ss_rooms ss) \<and> distinct (map fst (ss_joining ss)) \<and> (\<forall>x\<in>set (ss_joining ss). buffer_ok (snd x))"

text \<open>Updates of a session that keep it so and leave its link and identity alone.\<close>

definition tame :: "(session \<Rightarrow> session) \<Rightarrow> bool" where
  "tame f \<longleftrightarrow> (\<forall>c ss. session_ok c ss \<longrightarrow> session_ok c (f ss)) \<and> (\<forall>ss. ss_link (f ss) = ss_link ss \<and> ss_identity (f ss) = ss_identity ss)"

named_theorems tame_rules "updates of a session that are tame"

lemma tame_updates [tame_rules]:
  "tame closeAfterFlush" "tame stop_session" "tame (\<lambda>ss. ss\<lparr>ss_rooms := [], ss_welcomed := False, ss_caps := caps\<rparr>)"
  "tame (\<lambda>ss. ss\<lparr>ss_triedNick := n # ss_triedNick ss\<rparr>)" "tame (\<lambda>ss. ss\<lparr>ss_welcomed := True, ss_nick := nick\<rparr>)" "tame (\<lambda>ss. ss\<lparr>ss_nick := nick\<rparr>)"
  "tame (\<lambda>ss. ss\<lparr>ss_rooms := removeAll room (ss_rooms ss)\<rparr>)" "tame (\<lambda>ss. ss\<lparr>ss_rooms := []\<rparr>)" "tame (\<lambda>ss. ss\<lparr>ss_errorAt := t\<rparr>)" "tame (\<lambda>ss. ss\<lparr>ss_pingSent := p\<rparr>)"
  "tame (hold_frame fr)" "tame (\<lambda>ss. snd (session_take now perMinute (heard now ss)))" "tame (\<lambda>ss. ss\<lparr>ss_writing := w\<rparr>)"
  by (auto simp: tame_def session_ok_def closeAfterFlush_def stop_session_def hold_frame_def session_take_def heard_def Let_def maxPending_def distinct_removeAll)

lemma forget_held_ok: "session_ok c ss \<Longrightarrow> session_ok c (forget_held room ss)"
  by (auto simp: session_ok_def forget_held_def distinct_map_filter)

lemma tame_joining [tame_rules]:
  "tame (forget_held room)" "tame (\<lambda>ss. ss\<lparr>ss_joining := (room, []) # filter (\<lambda>(k, _). k \<noteq> room) (ss_joining ss)\<rparr>)"
  "tame (\<lambda>ss. (forget_held room ss)\<lparr>ss_rooms := List.insert room (ss_rooms ss)\<rparr>)"
proof -
  show "tame (forget_held room)" using forget_held_ok by (auto simp: tame_def forget_held_def)
  show "tame (\<lambda>ss. ss\<lparr>ss_joining := (room, []) # filter (\<lambda>(k, _). k \<noteq> room) (ss_joining ss)\<rparr>)"
    by (auto simp: tame_def session_ok_def buffer_ok_def distinct_map_filter)
  show "tame (\<lambda>ss. (forget_held room ss)\<lparr>ss_rooms := List.insert room (ss_rooms ss)\<rparr>)"
    by (auto simp: tame_def session_ok_def forget_held_def distinct_map_filter)
qed

lemma tame_hold [tame_rules]: "list_all frame_fits frs \<Longrightarrow> tame (hold_message room \<lparr>bf_id = k, bf_frames = frs\<rparr>)"
proof -
  assume f: "list_all frame_fits frs"
  let ?g = "\<lambda>(r, bs). (r, if r = room \<and> length bs < maxBuffered then bs @ [\<lparr>bf_id = k, bf_frames = frs\<rparr>] else bs)"
  have "map fst (map ?g js) = map fst js" for js :: "(string \<times> buffered list) list" by (induction js) auto
  moreover have "buffer_ok (snd x) \<Longrightarrow> buffer_ok (snd (?g x))" for x using f by (cases x) (auto simp: buffer_ok_def)
  ultimately show ?thesis by (auto simp: tame_def session_ok_def hold_message_def simp del: map_map)
qed

lemma established_there: "\<exists>s' ss. established lk s = Some ((), s') \<and> map_of (sv_sessions s') lk = Some ss"
  by (cases "map_of (sv_sessions s) lk") (auto simp: established_def map_add_def)

locale handling = sending pre R frame_fits "\<lambda>_. True" for pre R +
  assumes R_hub: "pre s \<Longrightarrow> hub_step\<^sup>*\<^sup>* (sv_hub s) h \<Longrightarrow> R s (s\<lparr>sv_hub := h\<rparr>)"
    and R_tame: "pre s \<Longrightarrow> tame f \<Longrightarrow> R s (change_session lk f s)"
    and R_torn: "pre s \<Longrightarrow> R s (s\<lparr>sv_torn := ls\<rparr>)"
    and R_established: "pre s \<Longrightarrow> established lk s = Some (u, t) \<Longrightarrow> R s t"
    and R_adopt: "pre s \<Longrightarrow> map_of (sv_sessions s) lk = Some ss \<Longrightarrow> ss_identity ss = None \<Longrightarrow> R s (adopt i pk lk s)"
    and R_forget: "pre s \<Longrightarrow> map_of (sv_sessions s) lk = Some ss \<Longrightarrow> R s (forget_session lk ss s)"
    and pre_held: "pre s \<Longrightarrow> map_of (ss_joining (session_of lk s)) room = Some bs \<Longrightarrow> b \<in> set bs \<Longrightarrow> list_all frame_fits (bf_frames b)"
begin

lemma ok_callS [server_ok]: "calls m \<Longrightarrow> ok (\<lambda>_. True) (callS m)"
  by (auto simp: ok_def callS_def calls_def split: prod.splits intro: R_hub)

lemma ok_writeS [server_ok]: "tame f \<Longrightarrow> ok (\<lambda>_. True) (writeS lk f)"
  by (auto simp: ok_def writeS_def modS_def R_tame)

lemma ok_established [server_ok]: "ok (\<lambda>_. True) (established lk)"
  by (auto simp: ok_def intro: R_established)

lemma ok_sessionFor [server_ok]: "ok (\<lambda>_. True) (sessionFor lk)"
  unfolding sessionFor_def by (rule ok_established)

lemma ok_finishJoin [server_ok]: "ok (\<lambda>_. True) (finishJoin lk room seen)"
proof (rule okI)
  fix s u t assume s: "pre s" and run: "finishJoin lk room seen s = Some (u, t)"
  let ?s = "change_session lk (\<lambda>ss. (forget_held room ss)\<lparr>ss_rooms := List.insert room (ss_rooms ss)\<rparr>) s"
  let ?held = "case map_of (ss_joining (session_of lk s)) room of Some b \<Rightarrow> b | None \<Rightarrow> []"
  have r: "R s ?s" by (rule R_tame [OF s]) (rule tame_rules)
  have "b \<in> set ?held \<Longrightarrow> list_all frame_fits (bf_frames b)" for b using pre_held [OF s, of lk room] by (cases "map_of (ss_joining (session_of lk s)) room") auto
  then have "ok (\<lambda>_. True) (eachS (\<lambda>b. whenS (seen < bf_id b) (sendFrames lk (bf_frames b))) ?held)"
    by (intro ok_eachS ok_whenS ok_sendFrames) auto
  moreover have "eachS (\<lambda>b. whenS (seen < bf_id b) (sendFrames lk (bf_frames b))) ?held ?s = Some (u, t)"
    using run by (simp add: finishJoin_def bindS_def thenS_def readS_def getS_def writeS_def modS_def)
  ultimately have "R ?s t \<and> True" by (rule okD [OF _ R_pre [OF s r]])
  then show "R s t \<and> True" using R_trans [OF r, of t] by simp
qed

lemma ok_links [server_ok]:
  "ok (\<lambda>_. True) (refuseLink nt lk er)" "ok (\<lambda>_. True) (leave_rooms lk caps)" "ok (\<lambda>_. True) (hello_nick lk i nick pn)"
  unfolding refuseLink_def leave_rooms_def hello_nick_def by (rule server_ok tame_rules hub_calls TrueI | assumption)+

lemma ok_welcome [server_ok]:
  "ok (\<lambda>_. True) (sendMissedWhispers nt lk i)" "ok (\<lambda>_. True) (send_welcome nt lk i pn note)"
proof -
  show *: "ok (\<lambda>_. True) (sendMissedWhispers nt lk i)" for nt lk i
    unfolding sendMissedWhispers_def by (rule server_ok hub_calls TrueI | assumption)+
  show "ok (\<lambda>_. True) (send_welcome nt lk i pn note)"
    unfolding send_welcome_def by (rule * server_ok tame_rules hub_calls TrueI | assumption)+
qed

lemma ok_hello [server_ok]: "ok (\<lambda>_. True) (hello nt lk i e)"
  unfolding hello_def by (rule server_ok tame_rules hub_calls TrueI | assumption)+

lemma ok_join [server_ok]:
  "ok (\<lambda>_. True) (norm_room room)" "ok (\<lambda>_. True) (join_begin nt lk e)" "ok (\<lambda>_. True) (join_commit nt lk i e)" "ok (\<lambda>_. True) (join_rest nt lk i e)"
proof -
  show n: "ok (\<lambda>_. True) (norm_room room)" for room unfolding norm_room_def by (rule server_ok)
  show "ok (\<lambda>_. True) (join_begin nt lk e)"
    unfolding join_begin_def by (rule n server_ok tame_rules hub_calls TrueI | assumption)+
  show c: "ok (\<lambda>_. True) (join_commit nt lk i e)"
    unfolding join_commit_def by (rule n server_ok tame_rules hub_calls TrueI | assumption)+
  show "ok (\<lambda>_. True) (join_rest nt lk i e)"
    unfolding join_rest_def by (rule c server_ok | assumption)+
qed

lemma ok_part_link [server_ok]: "ok (\<lambda>_. True) (part_link nt lk i raw)"
  unfolding part_link_def by (rule server_ok tame_rules hub_calls TrueI | assumption)+

lemma ok_maybeClaimNick [server_ok]: "ok (\<lambda>_. True) (maybeClaimNick nt lk i nick)"
  unfolding maybeClaimNick_def by (rule server_ok tame_rules hub_calls TrueI | assumption)+

lemma ok_srv_command [server_ok]: "ok (\<lambda>_. True) (srv_command nt code lk i e txt)"
  unfolding srv_command_def by (rule server_ok tame_rules hub_calls TrueI | assumption)+

lemma ok_nameOf [server_ok]: "ok (\<lambda>_. True) (nameOf i)"
  unfolding nameOf_def by (rule server_ok hub_calls)+

lemma ok_notices [server_ok]: "ok (\<lambda>_. True) (srv_notice nt lk i e)"
proof -
  have d: "ok (\<lambda>_. True) (direct_notice nt lk i to e)" for to
    unfolding direct_notice_def by (rule server_ok hub_calls TrueI encode_fits | assumption)+
  have r: "ok (\<lambda>_. True) (room_notice nt lk i e)"
    unfolding room_notice_def by (rule server_ok hub_calls TrueI encode_fits | assumption)+
  show ?thesis unfolding srv_notice_def by (rule d r server_ok | assumption)+
qed

lemma ok_srv_message [server_ok]: "ok (\<lambda>_. True) (srv_message nt code lk i e)"
proof -
  have m: "ok (\<lambda>_. True) (say_message nt lk i e t)" for e t
    unfolding say_message_def by (rule server_ok hub_calls TrueI | assumption)+
  show ?thesis unfolding srv_message_def by (rule m server_ok TrueI | assumption)+
qed

lemma ok_doneS [server_ok]: "ok (\<lambda>_. True) m \<Longrightarrow> ok (\<lambda>_. True) (doneS m)"
  unfolding doneS_def by (rule server_ok | assumption)+

lemma ok_srv_frame [server_ok]: "ok (\<lambda>_. True) (srv_frame nt code lk fr)"
proof -
  have h: "ok (\<lambda>_. True) (handle_envelope nt code lk i e)" for i e
    unfolding handle_envelope_def by (rule server_ok TrueI | assumption)+
  have l: "ok (\<lambda>_. True) (rate_limited nt lk now)" for now
    unfolding rate_limited_def by (rule server_ok tame_rules TrueI | assumption)+
  show ?thesis unfolding srv_frame_def by (rule h l server_ok tame_rules TrueI | assumption)+
qed

lemma ok_srv_data [server_ok]: "ok (\<lambda>_. True) (srv_data nt code lk fr)"
  unfolding srv_data_def by (rule server_ok | assumption)+

lemma ok_identified [server_ok]: "ok (\<lambda>_. True) (identified nt code lk pk)"
proof (rule okI)
  fix s u t assume s: "pre s" and run: "identified nt code lk pk s = Some (u, t)"
  let ?i = "nt_IdentityHash nt pk"
  obtain s1 ss where e: "established lk s = Some ((), s1)" and ss: "map_of (sv_sessions s1) lk = Some ss" using established_there by blast
  note r1 = R_established [OF s e] and at = session_of_def [of lk s1, unfolded ss option.case]
  note p1 = R_pre [OF s r1]
  show "R s t \<and> True"
  proof (cases "ss_identity ss = None")
    case False
    then show ?thesis using run e at r1 by (simp add: identified_def thenS_def bindS_def sessionFor_def readS_def getS_def retS_def)
  next
    case True
    have r2: "R s1 (adopt ?i pk lk s1)" by (rule R_adopt [OF p1 ss True])
    have "ok (\<lambda>_. True) (bindS (callS (Identify ?i (Some pk))) (\<lambda>r. case r of Inl er \<Rightarrow> refuseLink nt lk er
        | Inr _ \<Rightarrow> eachS (srv_data nt code lk) (ss_pending ss)))" by (rule server_ok hub_calls)+
    moreover have "bindS (callS (Identify ?i (Some pk))) (\<lambda>r. case r of Inl er \<Rightarrow> refuseLink nt lk er
        | Inr _ \<Rightarrow> eachS (srv_data nt code lk) (ss_pending ss)) (adopt ?i pk lk s1) = Some (u, t)"
      using run e at True by (simp add: identified_def thenS_def bindS_def sessionFor_def readS_def getS_def modS_def Let_def)
    ultimately have "R (adopt ?i pk lk s1) t \<and> True" by (rule okD [OF _ R_pre [OF p1 r2]])
    then show ?thesis using R_trans [OF R_trans [OF r1 r2], of t] by simp
  qed
qed

lemma ok_srv_closed [server_ok]: "ok (\<lambda>_. True) (srv_closed lk)"
proof (rule okI)
  fix s u t assume s: "pre s" and run: "srv_closed lk s = Some (u, t)"
  show "R s t \<and> True"
  proof (cases "map_of (sv_sessions s) lk")
    case None
    then show ?thesis using run R_refl [OF s] by (simp add: srv_closed_def)
  next
    case (Some ss)
    let ?m = "case ss_identity ss of None \<Rightarrow> retS () | Some i \<Rightarrow> whenS (ss_rooms ss \<noteq> []) (thenS (callS (Disconnect i (ss_rooms ss))) (retS ()))"
    note r = R_forget [OF s Some]
    have "ok (\<lambda>_. True) ?m" by (rule server_ok hub_calls)+
    moreover have "?m (forget_session lk ss s) = Some (u, t)" using run Some by (simp add: srv_closed_def)
    ultimately have "R (forget_session lk ss s) t \<and> True" by (rule okD [OF _ R_pre [OF s r]])
    then show ?thesis using R_trans [OF r, of t] by simp
  qed
qed

lemma ok_handleJob [server_ok]: "ok (\<lambda>_. True) (handleJob nt code j)"
  unfolding handleJob_def by (cases "jb_kind j") (simp_all only: jobKind.case, (rule server_ok)+)

lemma ok_offerMessage: "list_all frame_fits frs \<Longrightarrow> ok (\<lambda>_. True) (offerMessage room k frs lk)"
  unfolding offerMessage_def by (rule server_ok tame_rules TrueI | assumption)+

lemma ok_event_parts [server_ok]:
  "ok (\<lambda>_. True) (presenceChange nt t room i name)" "ok (\<lambda>_. True) (deliver_whisper nt w to)"
  "ok (\<lambda>_. True) (remove_link nt room reason lk)" "ok (\<lambda>_. True) (ban_link nt reason lk)"
  unfolding presenceChange_def deliver_whisper_def remove_link_def ban_link_def
  by (rule server_ok tame_rules hub_calls TrueI encode_fits | assumption)+

lemma ok_srv_deliver [server_ok]: "ok (\<lambda>_. True) (srv_deliver nt ev)"
  unfolding srv_deliver_def
  by (cases ev) (simp_all only: Event.case, (rule ok_offerMessage server_ok tame_rules TrueI | assumption)+)

lemma ok_keepalive [server_ok]: "ok (\<lambda>_. True) (keepalive nt)"
proof -
  have c: "ok (\<lambda>_. True) (close_link lk)" for lk
  proof -
    have "ok (\<lambda>_. True) (modS (teardown lk))" by (auto simp: ok_def modS_def teardown_def R_torn)
    then show ?thesis unfolding close_link_def by (rule ok_thenS [OF ok_writeS [OF tame_updates(2)]])
  qed
  have "ok (\<lambda>_. True) (keepalive_link nt now lk)" for now lk
    unfolding keepalive_link_def by (rule c server_ok tame_rules TrueI | assumption)+
  then show ?thesis unfolding keepalive_def by (intro ok_bindS [OF ok_getS] ok_prod ok_eachS_any)
qed

end

section \<open>The invariant\<close>

text \<open>
  One session per link, each as above; and the index holds, for every identity, exactly the links of its sessions, each once, and no
  identity without links.
\<close>

definition index_ok :: "server \<Rightarrow> bool" where
  "index_ok s \<longleftrightarrow> distinct (map fst (sv_byIdentity s)) \<and> (\<forall>x\<in>set (sv_byIdentity s). snd x \<noteq> [] \<and> distinct (snd x)) \<and>
     (\<forall>i l. l \<in> set (sessionsOf i s) \<longleftrightarrow> (\<exists>ss. map_of (sv_sessions s) l = Some ss \<and> ss_identity ss = Some i))"

definition server_inv :: "server \<Rightarrow> bool" where
  "server_inv s \<longleftrightarrow> 0 \<le> sc_SendQueue (sv_cfg s) \<and> distinct (map fst (sv_sessions s)) \<and> index_ok s \<and>
     (\<forall>l ss. map_of (sv_sessions s) l = Some ss \<longrightarrow> ss_link ss = l \<and> session_ok (sv_cfg s) ss)"

lemma change_session_simps [simp]:
  "map fst (sv_sessions (change_session lk f s)) = map fst (sv_sessions s)" "sv_cfg (change_session lk f s) = sv_cfg s"
  "sv_hub (change_session lk f s) = sv_hub s" "sv_byIdentity (change_session lk f s) = sv_byIdentity s" "sv_jobs (change_session lk f s) = sv_jobs s"
  "sv_late (change_session lk f s) = sv_late s" "sessionsOf i (change_session lk f s) = sessionsOf i s"
  by (auto simp: change_session_def sessionsOf_def)

lemma sessionsOf_frame [simp]: "sessionsOf i (s\<lparr>sv_sessions := x\<rparr>) = sessionsOf i s" "sessionsOf i (s\<lparr>sv_stats := y\<rparr>) = sessionsOf i s"
  by (simp_all add: sessionsOf_def)

lemma index_okD: "server_inv s \<Longrightarrow> l \<in> set (sessionsOf j s) \<longleftrightarrow> (\<exists>ss. map_of (sv_sessions s) l = Some ss \<and> ss_identity ss = Some j)"
  by (simp add: server_inv_def index_ok_def)

lemma map_of_change_session:
  "map_of (sv_sessions (change_session lk f s)) l = (if l = lk then map_option f (map_of (sv_sessions s) l) else map_of (sv_sessions s) l)"
proof -
  have "map_of (map (\<lambda>(k, ss). (k, if k = lk then f ss else ss)) xs) l = (if l = lk then map_option f (map_of xs l) else map_of xs l)"
    for xs :: "(bytes \<times> session) list" by (induction xs) auto
  then show ?thesis by (simp add: change_session_def)
qed

lemma session_change_inv:
  assumes inv: "server_inv s"
    and f: "\<And>ss. map_of (sv_sessions s) lk = Some ss \<Longrightarrow>
      session_ok (sv_cfg s) (f ss) \<and> ss_link (f ss) = ss_link ss \<and> ss_identity (f ss) = ss_identity ss"
  shows "server_inv (change_session lk f s)"
proof -
  have "index_ok (change_session lk f s)"
    using inv f unfolding server_inv_def index_ok_def by (auto simp: map_of_change_session)
  then show ?thesis using inv f unfolding server_inv_def by (auto simp: map_of_change_session split: if_splits)
qed

definition serves :: "server \<Rightarrow> server \<Rightarrow> bool" where
  "serves s t \<longleftrightarrow> server_inv t \<and> hub_step\<^sup>*\<^sup>* (sv_hub s) (sv_hub t) \<and> sv_cfg t = sv_cfg s \<and> sv_jobs t = sv_jobs s \<and> sv_late t = sv_late s"

lemma servesI: "server_inv t \<Longrightarrow> sv_hub t = sv_hub s \<Longrightarrow> sv_cfg t = sv_cfg s \<Longrightarrow> sv_jobs t = sv_jobs s \<Longrightarrow> sv_late t = sv_late s \<Longrightarrow> serves s t"
  by (simp add: serves_def)

lemma server_inv_frame [simp]:
  "server_inv (s\<lparr>sv_fresh := k\<rparr>) = server_inv s" "server_inv (s\<lparr>sv_stats := c\<rparr>) = server_inv s" "server_inv (s\<lparr>sv_hub := h\<rparr>) = server_inv s"
  "server_inv (s\<lparr>sv_torn := ls\<rparr>) = server_inv s" "server_inv (s\<lparr>sv_sent := xs\<rparr>) = server_inv s" "server_inv (s\<lparr>sv_jobs := js\<rparr>) = server_inv s"
  "server_inv (s\<lparr>sv_late := ys\<rparr>) = server_inv s"
  by (simp_all add: server_inv_def index_ok_def sessionsOf_def)

lemma enqueue_inv:
  assumes "server_inv s" "frame_fits fr" "session_enqueue (sc_SendQueue (sv_cfg s)) fr (session_of lk s) = Some ss"
  shows "server_inv (change_session lk (\<lambda>_. ss) s)"
proof (rule session_change_inv [OF assms(1)])
  fix ss0 assume at: "map_of (sv_sessions s) lk = Some ss0"
  then have "ss = ss0\<lparr>ss_out := ss_out ss0 @ [fr]\<rparr>" "int (length (ss_out ss0)) < sc_SendQueue (sv_cfg s)"
    using assms(3) by (auto simp: session_enqueue_def session_of_def split: if_splits)
  moreover have "session_ok (sv_cfg s) ss0" using assms(1) at by (simp add: server_inv_def)
  ultimately show "session_ok (sv_cfg s) ss \<and> ss_link ss = ss_link ss0 \<and> ss_identity ss = ss_identity ss0"
    using assms(2) by (simp add: session_ok_def)
qed

lemma established_inv:
  assumes "server_inv s" "established lk s = Some (u, t)"
  shows "serves s t"
proof (cases "map_of (sv_sessions s) lk")
  case (Some ss)
  then show ?thesis using assms by (auto simp: established_def serves_def)
next
  case None
  let ?ss = "newSession lk (now_ns (sv_hub s)) (sc_RatePerMinute (sv_cfg s))"
  have t: "t = s\<lparr>sv_sessions := sv_sessions s @ [(lk, ?ss)], sv_stats := (sv_stats s)\<lparr>rs_LinksAccepted := rs_LinksAccepted (sv_stats s) + 1\<rparr>\<rparr>"
    using assms(2) None by (simp add: established_def)
  have new: "session_ok (sv_cfg s) ?ss" using assms(1) by (simp add: server_inv_def session_ok_def newSession_def)
  have "lk \<notin> fst ` set (sv_sessions s)" using None by (simp add: map_of_eq_None_iff)
  moreover have look: "map_of (sv_sessions t) l = (if l = lk then Some ?ss else map_of (sv_sessions s) l)" for l
    using None by (auto simp: t map_add_def split: option.splits)
  moreover have "index_ok t"
  proof -
    have "l \<in> set (sessionsOf i s) \<longleftrightarrow> (\<exists>ss. map_of (sv_sessions t) l = Some ss \<and> ss_identity ss = Some i)" for i l
      unfolding look using index_okD [OF assms(1), of l i] None by (auto simp: newSession_def)
    moreover have "sessionsOf i t = sessionsOf i s" "sv_byIdentity t = sv_byIdentity s" for i by (simp_all add: t)
    ultimately show ?thesis using assms(1) by (simp add: server_inv_def index_ok_def)
  qed
  ultimately have "server_inv t" using assms(1) new by (auto simp: server_inv_def t newSession_def)
  then show ?thesis by (rule servesI) (simp_all add: t)
qed

text \<open>The index as it changes.\<close>

lemma map_of_filter_key: "map_of (filter (\<lambda>(k, _). k \<noteq> i) xs) j = (if j = i then None else map_of xs j)"
  by (induction xs) auto

lemma sessionsOf_index: "sessionsOf j (index_link i lk s) =
    (if j = i then if lk \<in> set (sessionsOf i s) then sessionsOf i s else sessionsOf i s @ [lk] else sessionsOf j s)"
  by (simp add: sessionsOf_def index_link_def map_of_filter_key)

lemma sessionsOf_unindex: "sessionsOf j (unindex_link i lk s) = (if j = i then removeAll lk (sessionsOf i s) else sessionsOf j s)"
  by (simp add: sessionsOf_def unindex_link_def map_of_filter_key Let_def)

lemma sessionsOf_distinct: "index_ok s \<Longrightarrow> distinct (sessionsOf i s)"
  by (auto simp: index_ok_def sessionsOf_def split: option.splits dest!: map_of_SomeD)

lemma index_link_shape:
  assumes "index_ok s"
  shows "distinct (map fst (sv_byIdentity (index_link i lk s)))" "\<forall>x\<in>set (sv_byIdentity (index_link i lk s)). snd x \<noteq> [] \<and> distinct (snd x)"
proof -
  have "(if lk \<in> set (sessionsOf i s) then sessionsOf i s else sessionsOf i s @ [lk]) \<noteq> []" by (cases "sessionsOf i s") auto
  then show "\<forall>x\<in>set (sv_byIdentity (index_link i lk s)). snd x \<noteq> [] \<and> distinct (snd x)"
    using assms sessionsOf_distinct [OF assms, of i] by (auto simp: index_link_def index_ok_def)
  show "distinct (map fst (sv_byIdentity (index_link i lk s)))" using assms by (auto simp: index_link_def index_ok_def distinct_map_filter)
qed

lemma unindex_link_shape:
  assumes "index_ok s"
  shows "distinct (map fst (sv_byIdentity (unindex_link i lk s)))" "\<forall>x\<in>set (sv_byIdentity (unindex_link i lk s)). snd x \<noteq> [] \<and> distinct (snd x)"
  using assms sessionsOf_distinct [OF assms, of i]
  by (auto simp: unindex_link_def index_ok_def distinct_map_filter Let_def distinct_removeAll)

lemma adopt_inv:
  assumes inv: "server_inv s" and at: "map_of (sv_sessions s) lk = Some ss" "ss_identity ss = None"
  shows "serves s (adopt i pk lk s)"
proof -
  let ?s = "change_session lk (\<lambda>ss. ss\<lparr>ss_identity := Some i, ss_pubKey := pk, ss_pending := []\<rparr>) s"
  have fr: "sv_sessions (adopt i pk lk s) = sv_sessions ?s" "sv_cfg (adopt i pk lk s) = sv_cfg s" "sv_hub (adopt i pk lk s) = sv_hub s"
    "sv_jobs (adopt i pk lk s) = sv_jobs s" "sv_late (adopt i pk lk s) = sv_late s"
    by (simp_all add: adopt_def index_link_def)
  note ix = index_okD [OF inv]
  have look: "map_of (sv_sessions (adopt i pk lk s)) l =
      (if l = lk then Some (ss\<lparr>ss_identity := Some i, ss_pubKey := pk, ss_pending := []\<rparr>) else map_of (sv_sessions s) l)" for l
    using at by (simp add: fr(1) map_of_change_session)
  have listed: "set (sessionsOf j (adopt i pk lk s)) = (if j = i then insert lk (set (sessionsOf i s)) else set (sessionsOf j s))" for j
    by (auto simp: adopt_def sessionsOf_index)
  have byI: "sv_byIdentity (adopt i pk lk s) = sv_byIdentity (index_link i lk s)" by (simp add: adopt_def index_link_def)
  have no: "lk \<notin> set (sessionsOf j s)" for j using at ix [of lk j] by simp
  have "l \<in> set (sessionsOf j (adopt i pk lk s)) \<longleftrightarrow> (\<exists>ss. map_of (sv_sessions (adopt i pk lk s)) l = Some ss \<and> ss_identity ss = Some j)" for j l
    using no [of j] ix [of l j] unfolding listed look by (cases "l = lk") auto
  then have "index_ok (adopt i pk lk s)"
    using index_link_shape [of s i lk] inv unfolding index_ok_def [of "adopt i pk lk s"] byI by (simp add: server_inv_def)
  moreover have "session_ok (sv_cfg s) (ss\<lparr>ss_identity := Some i, ss_pubKey := pk, ss_pending := []\<rparr>)" "ss_link ss = lk"
    using inv at by (auto simp: server_inv_def session_ok_def)
  moreover have "ss_link x = l \<and> session_ok (sv_cfg s) x" if "map_of (sv_sessions s) l = Some x" for l x using inv that by (simp add: server_inv_def)
  ultimately have "\<forall>l x. map_of (sv_sessions (adopt i pk lk s)) l = Some x \<longrightarrow> ss_link x = l \<and> session_ok (sv_cfg s) x" unfolding look by auto
  with \<open>index_ok (adopt i pk lk s)\<close> have "server_inv (adopt i pk lk s)"
    using inv unfolding server_inv_def fr(2) by (auto simp: fr(1))
  then show ?thesis by (rule servesI) (simp_all add: fr)
qed

lemma forget_inv:
  assumes inv: "server_inv s" and at: "map_of (sv_sessions s) lk = Some ss"
  shows "serves s (forget_session lk ss s)"
proof -
  let ?t = "forget_session lk ss s"
  have fr: "sv_sessions ?t = filter (\<lambda>(k, _). k \<noteq> lk) (sv_sessions s)" "sv_cfg ?t = sv_cfg s" "sv_hub ?t = sv_hub s" "sv_jobs ?t = sv_jobs s" "sv_late ?t = sv_late s"
    by (simp_all add: forget_session_def unindex_link_def Let_def split: option.splits)
  note ix = index_okD [OF inv]
  have look: "map_of (sv_sessions ?t) l = (if l = lk then None else map_of (sv_sessions s) l)" for l
    by (simp add: fr map_of_filter_key)
  have listed: "set (sessionsOf j ?t) = set (sessionsOf j s) - {lk}" for j
  proof (cases "ss_identity ss = Some j")
    case True
    then show ?thesis by (auto simp: forget_session_def sessionsOf_unindex Let_def)
  next
    case False
    then have "lk \<notin> set (sessionsOf j s)" using at by (auto simp: ix)
    then show ?thesis using False by (cases "ss_identity ss") (auto simp: forget_session_def sessionsOf_unindex Let_def)
  qed
  have "distinct (map fst (sv_byIdentity ?t)) \<and> (\<forall>x\<in>set (sv_byIdentity ?t). snd x \<noteq> [] \<and> distinct (snd x))"
  proof (cases "ss_identity ss")
    case None
    then show ?thesis using inv by (simp add: forget_session_def Let_def server_inv_def index_ok_def)
  next
    case (Some j)
    have "sv_byIdentity ?t = sv_byIdentity (unindex_link j lk s)" by (simp add: forget_session_def Some unindex_link_def Let_def sessionsOf_def)
    then show ?thesis using unindex_link_shape [of s j lk] inv by (simp add: server_inv_def)
  qed
  moreover have "l \<in> set (sessionsOf j ?t) \<longleftrightarrow> (\<exists>ss. map_of (sv_sessions ?t) l = Some ss \<and> ss_identity ss = Some j)" for j l
    using ix [of l j] unfolding listed look by auto
  ultimately have "index_ok ?t" unfolding index_ok_def by blast
  then have "server_inv ?t" using inv by (auto simp: server_inv_def look fr distinct_map_filter)
  then show ?thesis by (rule servesI) (simp_all add: fr)
qed

interpretation srv: handling server_inv serves
proof unfold_locales
  fix s t u :: server and lk k c fr ss f h ls i pk room bs and nt :: net and e b and x :: buffered and v :: unit
  show "server_inv s \<Longrightarrow> serves s s" by (rule servesI) simp_all
  show "serves s t \<Longrightarrow> serves t u \<Longrightarrow> serves s u" by (auto simp: serves_def)
  show "server_inv s \<Longrightarrow> serves s t \<Longrightarrow> server_inv t" by (simp add: serves_def)
  show "server_inv s \<Longrightarrow> serves s (s\<lparr>sv_fresh := k\<rparr>)" "server_inv s \<Longrightarrow> serves s (s\<lparr>sv_stats := c\<rparr>)" "server_inv s \<Longrightarrow> serves s (s\<lparr>sv_torn := ls\<rparr>)"
    by (simp_all add: serves_def)
  show "server_inv s \<Longrightarrow> frame_fits fr \<Longrightarrow> session_enqueue (sc_SendQueue (sv_cfg s)) fr (session_of lk s) = Some ss \<Longrightarrow> serves s (change_session lk (\<lambda>_. ss) s)"
    by (rule servesI [OF enqueue_inv]) simp_all
  show "encode nt e = Some b \<Longrightarrow> frame_fits b" by (auto simp: encode_def frame_fits_def split: option.splits if_splits)
  show "server_inv s \<Longrightarrow> hub_step\<^sup>*\<^sup>* (sv_hub s) h \<Longrightarrow> serves s (s\<lparr>sv_hub := h\<rparr>)" by (simp add: serves_def)
  show "server_inv s \<Longrightarrow> tame f \<Longrightarrow> serves s (change_session lk f s)"
    by (rule servesI [OF session_change_inv]) (auto simp: tame_def server_inv_def)
  show "server_inv s \<Longrightarrow> established lk s = Some (v, t) \<Longrightarrow> serves s t" by (rule established_inv)
  show "server_inv s \<Longrightarrow> map_of (sv_sessions s) lk = Some ss \<Longrightarrow> ss_identity ss = None \<Longrightarrow> serves s (adopt i pk lk s)" by (rule adopt_inv)
  show "server_inv s \<Longrightarrow> map_of (sv_sessions s) lk = Some ss \<Longrightarrow> serves s (forget_session lk ss s)" by (rule forget_inv)
  show "server_inv s \<Longrightarrow> map_of (ss_joining (session_of lk s)) room = Some bs \<Longrightarrow> x \<in> set bs \<Longrightarrow> list_all frame_fits (bf_frames x)"
    by (auto simp: session_of_def server_inv_def session_ok_def buffer_ok_def gone_def newSession_def split: option.splits dest!: map_of_SomeD)
qed

end
