(* ===== verification/RrcRun.thy ===== *)
theory RrcRun
  imports RrcSafety
begin

text \<open>
  The RRC server at work: every step keeps the invariant of the sessions and the index, keeps the workers' queues in order, and does to the hub
  only what its requests do. Then what a client can rely on: nothing but a HELLO is acted on before WELCOME.
\<close>

section \<open>Workers\<close>

text \<open>Every job waits at the worker of its link, in a bounded queue; a worker is busy with one JOIN at most, of a link of its own.\<close>

definition phase_link :: "phase \<Rightarrow> bytes" where
  "phase_link p = (case p of Committing lk i e \<Rightarrow> lk | Finishing lk room seen \<Rightarrow> lk)"

definition jobs_ok :: "server \<Rightarrow> bool" where
  "jobs_ok s \<longleftrightarrow> (\<forall>q<length (sv_jobs s). length (sv_jobs s ! q) \<le> job_queue \<and> (\<forall>j\<in>set (sv_jobs s ! q). worker_of (jb_link j) s = q)) \<and>
     (\<forall>x\<in>set (sv_late s). fst x = worker_of (jb_link (snd x)) s)"

definition world_inv :: "world \<Rightarrow> bool" where
  "world_inv w \<longleftrightarrow> server_inv (wd_server w) \<and> jobs_ok (wd_server w) \<and> distinct (map fst (wd_busy w)) \<and>
     (\<forall>x\<in>set (wd_busy w). fst x = worker_of (phase_link (snd x)) (wd_server w))"

lemma worker_of_cong: "length (sv_jobs t) = length (sv_jobs s) \<Longrightarrow> worker_of lk t = worker_of lk s"
  by (simp add: worker_of_def)

lemma serves_worker: "serves s t \<Longrightarrow> worker_of lk t = worker_of lk s"
  by (simp add: worker_of_def serves_def)

lemma serves_jobs: "serves s t \<Longrightarrow> jobs_ok t = jobs_ok s"
  by (simp add: jobs_ok_def serves_worker) (simp add: serves_def)

text \<open>A step of the server alone, with the workers as they are.\<close>

lemma world_serves: "world_inv w \<Longrightarrow> serves (wd_server w) t \<Longrightarrow> world_inv (w\<lparr>wd_server := t\<rparr>)"
  using serves_jobs serves_worker by (simp add: world_inv_def) (simp add: serves_def)

lemma jobs_push:
  assumes "jobs_ok s" "length (sv_jobs s ! q) < job_queue" "q = worker_of (jb_link j) s"
  shows "jobs_ok (s\<lparr>sv_jobs := (sv_jobs s)[q := sv_jobs s ! q @ [j]]\<rparr>)"
proof -
  let ?t = "s\<lparr>sv_jobs := (sv_jobs s)[q := sv_jobs s ! q @ [j]]\<rparr>"
  have w: "worker_of lk ?t = worker_of lk s" for lk by (rule worker_of_cong) simp
  have look: "k < length (sv_jobs s) \<Longrightarrow> (sv_jobs s)[q := sv_jobs s ! q @ [j]] ! k = (if k = q then sv_jobs s ! q @ [j] else sv_jobs s ! k)" for k
    by (simp add: nth_list_update)
  show ?thesis using assms(1,2) unfolding jobs_ok_def w by (auto simp: look assms(3) [symmetric])
qed

lemma Hooks_jobs: "jobs_ok s \<Longrightarrow> jobs_ok (Hooks j s)"
  by (auto simp: Hooks_def server_enqueue_def Let_def intro: jobs_push) (auto simp: jobs_ok_def worker_of_def)

lemma late_jobs:
  assumes "jobs_ok s" "k < length (sv_late s)"
  shows "jobs_ok (late_push k s)"
proof -
  obtain q j where k: "sv_late s ! k = (q, j)" by force
  then have "q = worker_of (jb_link j) s" using assms nth_mem [OF assms(2)] by (auto simp: jobs_ok_def)
  then have "length (sv_jobs s ! q) < job_queue \<Longrightarrow> jobs_ok (s\<lparr>sv_jobs := (sv_jobs s)[q := sv_jobs s ! q @ [j]]\<rparr>)"
    using jobs_push [OF assms(1)] by blast
  moreover have "set (take k (sv_late s) @ drop (k + 1) (sv_late s)) \<subseteq> set (sv_late s)" using set_take_subset set_drop_subset by fastforce
  ultimately show ?thesis using assms(1) by (auto simp: late_push_def k jobs_ok_def worker_of_def)
qed

lemma take_job_jobs: "jobs_ok s \<Longrightarrow> q < length (sv_jobs s) \<Longrightarrow> sv_jobs s ! q = j # js \<Longrightarrow> jobs_ok (take_job q s)"
  by (auto simp: jobs_ok_def take_job_def worker_of_def nth_list_update)

lemma world_frame:
  "world_inv w \<Longrightarrow> jobs_ok t \<Longrightarrow> server_inv t \<Longrightarrow> length (sv_jobs t) = length (sv_jobs (wd_server w)) \<Longrightarrow> world_inv (w\<lparr>wd_server := t\<rparr>)"
  using worker_of_cong [of t "wd_server w"] by (simp add: world_inv_def)

lemma take_job_inv [simp]: "server_inv (take_job q s) = server_inv s" "sv_hub (take_job q s) = sv_hub s"
  by (simp_all add: take_job_def)

lemma world_take_job: "world_inv w \<Longrightarrow> q < length (sv_jobs (wd_server w)) \<Longrightarrow> sv_jobs (wd_server w) ! q = j # js \<Longrightarrow>
    world_inv (w\<lparr>wd_server := take_job q (wd_server w)\<rparr>)"
  by (rule world_frame) (auto simp: world_inv_def intro: take_job_jobs, simp add: take_job_def)

section \<open>Writers and the end\<close>

lemma serves_trans: "serves s t \<Longrightarrow> serves t u \<Longrightarrow> serves s u"
  by (rule srv.R_trans)

lemma serves_inv: "serves s t \<Longrightarrow> server_inv t"
  by (simp add: serves_def)

lemma server_inv_session: "server_inv s \<Longrightarrow> map_of (sv_sessions s) lk = Some ss \<Longrightarrow> session_ok (sv_cfg s) ss"
  by (simp add: server_inv_def)

lemma writer_send_serves:
  assumes "server_inv s"
  shows "serves s (writer_send nt lk s)"
proof (cases "ss_out (session_of lk s)")
  case Nil
  then show ?thesis using srv.R_refl [OF assms] by (simp add: writer_send_def)
next
  case (Cons f fs)
  have "server_inv (change_session lk (\<lambda>ss. ss\<lparr>ss_out := fs\<rparr>) s)"
  proof (rule session_change_inv [OF assms])
    fix ss assume at: "map_of (sv_sessions s) lk = Some ss"
    then have "ss_out ss = f # fs" using Cons by (simp add: session_of_def)
    then show "session_ok (sv_cfg s) (ss\<lparr>ss_out := fs\<rparr>) \<and> ss_link (ss\<lparr>ss_out := fs\<rparr>) = ss_link ss \<and> ss_identity (ss\<lparr>ss_out := fs\<rparr>) = ss_identity ss"
      using server_inv_session [OF assms at] by (simp add: session_ok_def)
  qed
  then show ?thesis using srv.R_refl [OF assms] by (auto simp: writer_send_def Cons Let_def intro: servesI)
qed

lemma teardown_serves: "server_inv s \<Longrightarrow> serves s (teardown lk s)"
  unfolding teardown_def by (rule srv.R_torn)

lemma writer_end_serves: "server_inv s \<Longrightarrow> serves s (writer_end flushed lk s)"
proof -
  assume s: "server_inv s"
  let ?e = "change_session lk (\<lambda>ss. ss\<lparr>ss_writing := False\<rparr>) s"
  have e: "serves s ?e" by (rule srv.R_tame [OF s]) (rule tame_rules)
  have "serves s (teardown lk ?e)" by (rule serves_trans [OF e teardown_serves [OF serves_inv [OF e]]])
  then show ?thesis using e srv.R_refl [OF s] by (simp add: writer_end_def Let_def)
qed

lemma closeAll_serves: "server_inv s \<Longrightarrow> serves s (closeAll s)"
proof -
  have "server_inv t \<Longrightarrow> serves t (fold (\<lambda>l s. teardown l (change_session l stop_session s)) ls t)" for ls t
  proof (induction ls arbitrary: t)
    case (Cons l ls)
    have a: "serves t (change_session l stop_session t)" by (rule srv.R_tame [OF Cons.prems]) (rule tame_rules)
    note b = serves_trans [OF a teardown_serves [OF serves_inv [OF a], of l]]
    show ?case using serves_trans [OF b Cons.IH [OF serves_inv [OF b]]] by simp
  qed (simp add: srv.R_refl)
  then show "server_inv s \<Longrightarrow> serves s (closeAll s)" unfolding closeAll_def .
qed

section \<open>Every step\<close>

lemma step_ok:
  assumes "srv.ok Q m" "server_inv s" "m s = Some (a, t)"
  shows "serves s t"
  using srv.okD [OF assms] by simp

lemma world_runs:
  assumes "world_inv w" "srv.ok Q m" "m (wd_server w) = Some (a, t)"
  shows "world_inv (w\<lparr>wd_server := t\<rparr>)"
  using assms step_ok world_serves by (metis world_inv_def)

lemma busy_change:
  assumes "world_inv w" "(q, p) \<in> set (wd_busy w)" "phase_link p' = phase_link p"
  shows "world_inv (w\<lparr>wd_busy := removeAll (q, p) (wd_busy w)\<rparr>)" "world_inv (w\<lparr>wd_busy := (q, p') # removeAll (q, p) (wd_busy w)\<rparr>)"
proof -
  have d: "distinct (map fst (wd_busy w))" using assms(1) by (simp add: world_inv_def)
  then have "distinct (map fst (removeAll (q, p) (wd_busy w)))" by (simp add: removeAll_filter_not_eq distinct_map_filter)
  moreover have "q \<notin> fst ` set (removeAll (q, p) (wd_busy w))" using d assms(2) by (force simp: distinct_map inj_on_def)
  ultimately show "world_inv (w\<lparr>wd_busy := removeAll (q, p) (wd_busy w)\<rparr>)" "world_inv (w\<lparr>wd_busy := (q, p') # removeAll (q, p) (wd_busy w)\<rparr>)"
    using assms by (auto simp: world_inv_def)
qed

lemma world_comm: "w\<lparr>wd_busy := b, wd_server := t\<rparr> = w\<lparr>wd_server := t, wd_busy := b\<rparr>"
  by (cases w) simp

lemma server_step_keeps: "server_step nt n w w' \<Longrightarrow> world_inv w \<Longrightarrow> world_inv w'"
proof (induction rule: server_step.induct)
  case (s_hook w j)
  then show ?case by (intro world_frame) (auto simp: world_inv_def Hooks_jobs, auto simp: Hooks_def server_enqueue_def Let_def)
next
  case (s_late k w)
  then show ?case by (intro world_frame) (auto simp: world_inv_def late_jobs, auto simp: late_push_def split: prod.splits)
next
  case (s_work q w j js code u s')
  have "world_inv (w\<lparr>wd_server := take_job q (wd_server w)\<rparr>)" using world_take_job s_work by blast
  from world_runs [OF this srv.ok_handleJob] s_work(4) show ?case by simp
next
  case (s_join_begin q w j js code i e s')
  let ?w = "w\<lparr>wd_server := take_job q (wd_server w)\<rparr>"
  have j: "worker_of (jb_link j) (wd_server w) = q" using s_join_begin by (auto simp: world_inv_def jobs_ok_def)
  have w: "world_inv ?w" using world_take_job s_join_begin by blast
  then have sv: "serves (take_job q (wd_server w)) s'" using step_ok [OF srv.ok_srv_frame] s_join_begin(5) by (auto simp: world_inv_def)
  from world_serves [OF w] sv have "world_inv (w\<lparr>wd_server := s'\<rparr>)" by simp
  moreover have "worker_of (jb_link j) s' = q" using serves_worker [OF sv] j by (simp add: take_job_def worker_of_def)
  ultimately show ?case using s_join_begin(2) by (auto simp: world_inv_def idle_def phase_link_def)
next
  case (s_join_refused q lk i e w s')
  show ?case using world_runs [OF busy_change(1) [OF s_join_refused(3,1) refl] srv.ok_join(3), unfolded world_comm] s_join_refused(2) by simp
next
  case (s_join_commit q lk i e w room seen s')
  have "phase_link (Finishing lk room seen) = phase_link (Committing lk i e)" by (simp add: phase_link_def)
  from world_runs [OF busy_change(2) [OF s_join_commit(3,1) this] srv.ok_join(3), unfolded world_comm] s_join_commit(2) show ?case by simp
next
  case (s_join_finish q lk room seen w u s')
  show ?case using world_runs [OF busy_change(1) [OF s_join_finish(3,1) refl] srv.ok_finishJoin, unfolded world_comm] s_join_finish(2) by simp
next
  case (s_fanOut w ev evs u s')
  let ?s = "(wd_server w)\<lparr>sv_hub := receive n (sv_hub (wd_server w))\<rparr>"
  have "world_inv (w\<lparr>wd_server := ?s\<rparr>)" using s_fanOut(4) by (intro world_frame) (auto simp: world_inv_def jobs_ok_def worker_of_def)
  from world_runs [OF this srv.ok_srv_deliver] s_fanOut(3) show ?case by simp
next
  case (s_keepalive w u s')
  then show ?case using world_runs [OF _ srv.ok_keepalive] by blast
next
  case (s_write w lk)
  then show ?case by (intro world_serves writer_send_serves) (simp_all add: world_inv_def)
next
  case (s_write_end w flushed lk)
  then show ?case by (intro world_serves writer_end_serves) (simp_all add: world_inv_def)
next
  case (s_other w h)
  then show ?case by (intro world_frame) (auto simp: world_inv_def jobs_ok_def worker_of_def)
next
  case (s_closeAll w)
  then show ?case by (intro world_serves closeAll_serves) (simp_all add: world_inv_def)
qed

text \<open>The hub only sees requests.\<close>

lemma server_step_runs: "server_step nt n w w' \<Longrightarrow> world_inv w \<Longrightarrow> hub_step\<^sup>*\<^sup>* (sv_hub (wd_server w)) (sv_hub (wd_server w'))"
proof -
  assume "server_step nt n w w'" and inv: "world_inv w"
  have run: "hub_step\<^sup>*\<^sup>* (sv_hub s) (sv_hub t)" if "srv.ok Q m" "server_inv s" "m s = Some (a, t)" for Q and m :: "'a sm" and s a t
    using step_ok [OF that] by (simp add: serves_def)
  have s: "server_inv (wd_server w)" using inv by (simp add: world_inv_def)
  from \<open>server_step nt n w w'\<close> show ?thesis
  proof cases
    case (s_hook j)
    then show ?thesis by (simp add: Hooks_def server_enqueue_def Let_def)
  next
    case (s_late k)
    then show ?thesis by (simp add: late_push_def split: prod.splits)
  next
    case (s_work q j js code u s')
    then show ?thesis using step_ok [OF srv.ok_handleJob _ s_work(5)] s by (simp add: serves_def)
  next
    case (s_join_begin q j js code i e s')
    then show ?thesis using step_ok [OF srv.ok_srv_frame _ s_join_begin(6)] s by (simp add: serves_def)
  next
    case (s_join_refused q lk i e s')
    then show ?thesis using step_ok [OF srv.ok_join(3) s] by (simp add: serves_def)
  next
    case (s_join_commit q lk i e room seen s')
    then show ?thesis using step_ok [OF srv.ok_join(3) s] by (simp add: serves_def)
  next
    case (s_join_finish q lk room seen u s')
    then show ?thesis using step_ok [OF srv.ok_finishJoin s] by (simp add: serves_def)
  next
    case (s_fanOut ev evs u s')
    have "serves ((wd_server w)\<lparr>sv_hub := receive n (sv_hub (wd_server w))\<rparr>) s'" using step_ok [OF srv.ok_srv_deliver _ s_fanOut(4)] s by simp
    moreover have "hub_step\<^sup>*\<^sup>* (sv_hub (wd_server w)) (receive n (sv_hub (wd_server w)))" by (simp add: do_receive r_into_rtranclp)
    ultimately show ?thesis using s_fanOut(1) by (auto simp: serves_def)
  next
    case (s_keepalive u s')
    then show ?thesis using step_ok [OF srv.ok_keepalive s] by (simp add: serves_def)
  next
    case (s_write lk)
    then show ?thesis using writer_send_serves [OF s, of nt lk] by (simp add: serves_def)
  next
    case (s_write_end flushed lk)
    then show ?thesis using writer_end_serves [OF s, of flushed lk] by (simp add: serves_def)
  next
    case (s_other h)
    then show ?thesis by (simp add: r_into_rtranclp)
  next
    case s_closeAll
    then show ?thesis using closeAll_serves [OF s] by (simp add: serves_def)
  qed
qed

interpretation rh: adapter sv_hub "\<lambda>h s. s\<lparr>sv_hub := h\<rparr>"
  by unfold_locales simp

lemma server_start_inv: "world_inv \<lparr>wd_server = rrc_New c h hubHash, wd_busy = []\<rparr>"
  by (auto simp: world_inv_def rrc_New_def server_inv_def index_ok_def sessionsOf_def jobs_ok_def rrc_fill_def fill_pos_def rrc_Defaults_def Let_def job_queue_def)

lemma server_reach_inv: "server_reach nt n w \<Longrightarrow> world_inv w \<and> hub_reach (sv_hub (wd_server w))"
proof (induction rule: server_reach.induct)
  case (server_start h c hubHash)
  then show ?case using server_start_inv by (simp add: rrc_New_def)
next
  case (server_more w w')
  then show ?case using server_step_keeps server_step_runs rh.runs_reach unfolding rh.runs_to_def by blast
qed

text \<open>
  C10. Whatever happens to the RRC server, in whatever order - links coming and going, frames, hub events, keepalives, writers, other
  requests to the hub, workers caught in the middle of a JOIN - the hub is only ever changed by its own requests, so that all that is proved of the hub
  holds with the server running; the index of identities holds exactly the links of each identity's sessions; every session's queue,
  early frames and held messages are within their bounds, and every queued frame fits a link; every job waits at its link's worker; and no worker is in two JOINs.
\<close>

theorem server_reach_sound:
  assumes "server_reach nt n w"
  shows "hub_reach (sv_hub (wd_server w)) \<and>
    (\<forall>i l. l \<in> set (sessionsOf i (wd_server w)) \<longleftrightarrow> (\<exists>ss. map_of (sv_sessions (wd_server w)) l = Some ss \<and> ss_identity ss = Some i)) \<and>
    (\<forall>l ss. map_of (sv_sessions (wd_server w)) l = Some ss \<longrightarrow> ss_link ss = l \<and> session_ok (sv_cfg (wd_server w)) ss) \<and>
    jobs_ok (wd_server w) \<and> distinct (map fst (wd_busy w))"
  using server_reach_inv [OF assms] index_okD by (auto simp: world_inv_def server_inv_def)

section \<open>Before WELCOME\<close>

text \<open>What a session's place in the chat is, and the steps that change nothing of the hub, of the index and of any place.\<close>

definition place :: "session \<Rightarrow> ident option \<times> bool \<times> string \<times> string list \<times> (string \<times> buffered list) list" where
  "place ss = (ss_identity ss, ss_welcomed ss, ss_nick ss, ss_rooms ss, ss_joining ss)"

definition outside :: "bytes \<Rightarrow> server \<Rightarrow> server \<Rightarrow> bool" where
  "outside lk s t \<longleftrightarrow> sv_hub t = sv_hub s \<and> sv_byIdentity t = sv_byIdentity s \<and> (\<forall>l. l \<noteq> lk \<longrightarrow> map_of (sv_sessions t) l = map_of (sv_sessions s) l) \<and>
     map_option place (map_of (sv_sessions t) lk) = map_option place (map_of (sv_sessions s) lk)"

lemma outside_change: "(\<And>ss. map_of (sv_sessions s) lk = Some ss \<Longrightarrow> place (f ss) = place ss) \<Longrightarrow> outside lk s (change_session lk f s)"
  by (cases "map_of (sv_sessions s) lk") (auto simp: outside_def map_of_change_session)

interpretation quiet: sending "\<lambda>_. True" "outside lk" "\<lambda>_. True" "\<lambda>l. l = lk" for lk
proof unfold_locales
  fix s and fr :: bytes and l ss
  assume "l = lk" "session_enqueue (sc_SendQueue (sv_cfg s)) fr (session_of l s) = Some ss"
  then show "outside lk s (change_session l (\<lambda>_. ss) s)"
    by (auto intro!: outside_change simp: session_enqueue_def session_of_def place_def split: if_splits)
qed (auto simp: outside_def)

lemma quiet_writeS: "(\<And>ss. place (f ss) = place ss) \<Longrightarrow> quiet.ok lk (\<lambda>_. True) (writeS lk f)"
  by (auto simp: quiet.ok_def writeS_def modS_def intro: outside_change)

lemma quiet_frames:
  "quiet.ok lk (\<lambda>_. True) (writeS lk (hold_frame fr))" "quiet.ok lk (\<lambda>_. True) (writeS lk (\<lambda>ss. snd (session_take now perMinute (heard now ss))))"
  "quiet.ok lk (\<lambda>_. True) (rate_limited nt lk now)"
proof -
  show "quiet.ok lk (\<lambda>_. True) (writeS lk (hold_frame fr))" "quiet.ok lk (\<lambda>_. True) (writeS lk (\<lambda>ss. snd (session_take now perMinute (heard now ss))))"
    by (auto intro!: quiet_writeS simp: place_def hold_frame_def session_take_def heard_def Let_def)
  have "quiet.ok lk (\<lambda>_. True) (writeS lk (\<lambda>ss. ss\<lparr>ss_errorAt := Some now\<rparr>))" by (rule quiet_writeS) (simp add: place_def)
  then show "quiet.ok lk (\<lambda>_. True) (rate_limited nt lk now)" unfolding rate_limited_def
    by (intro quiet.ok_thenS [OF quiet.ok_countS] quiet.ok_bindS [OF quiet.ok_readS] quiet.ok_whenS quiet.ok_thenS [OF _ quiet.ok_sendError] refl)
qed

lemma quiet_done:
  assumes "quiet.ok lk (\<lambda>_. True) m" "doneS m s = Some (r, t)"
  shows "outside lk s t \<and> r = None"
proof -
  obtain a where "m s = Some (a, t)" "r = None" using assms(2) by (auto simp: doneS_def thenS_def bindS_def retS_def split: option.splits)
  then show ?thesis using quiet.okD [OF assms(1) TrueI] by blast
qed

text \<open>An envelope that is not a HELLO, on a link that is not welcomed.\<close>

lemma unwelcomed_envelope:
  assumes "\<not> ss_welcomed (session_of lk s)" "ev_Type e \<noteq> TypeHello" "handle_envelope nt code lk i e s = Some (r, t)"
  shows "outside lk s t \<and> r = None"
proof -
  note calc = quiet.ok_sendError quiet.ok_bindS [OF quiet.ok_hubEnvelope] quiet.ok_thenS [OF quiet.ok_send_envelope] quiet.ok_retS
  have ping: "quiet.ok lk (\<lambda>_. True) (bindS (hubEnvelope nt TypePong '''') (\<lambda>p. thenS (send_envelope nt lk (p\<lparr>ev_Body := ev_Body e\<rparr>)) (retS ())))"
    by (intro calc refl)
  have res: "quiet.ok lk (\<lambda>_. True) (case ParseResourceEnvelope (nt_codec nt) (ev_Body e) of Inl t \<Rightarrow> sendError nt lk (ev_Room e) t | Inr _ \<Rightarrow> retS ())"
    by (intro quiet.ok_sum calc refl)
  have err: "quiet.ok lk (\<lambda>_. True) (sendError nt lk '''' ''send HELLO first'')" by (intro calc refl)
  note fin = quiet_done [where s = s and r = r and t = t]
  have none: "outside lk s t \<and> r = None" if "retS None s = Some (r, t)" using that by (auto simp: retS_def outside_def)
  show ?thesis using assms fin [OF ping] fin [OF res] fin [OF err] none
    by (auto simp: handle_envelope_def bindS_def readS_def getS_def split: if_splits)
qed

lemma unwelcomed_frame:
  assumes at: "map_of (sv_sessions s) lk = Some ss" "\<not> ss_welcomed ss"
    and no: "\<forall>e. Decode (nt_codec nt) fr frame_limits = Inr e \<longrightarrow> ev_Type e \<noteq> TypeHello" and run: "srv_frame nt code lk fr s = Some (r, t)"
  shows "outside lk s t \<and> r = None"
proof -
  let ?s = "s\<lparr>sv_stats := (sv_stats s)\<lparr>rs_FramesIn := rs_FramesIn (sv_stats s) + 1\<rparr>\<rparr>"
  let ?tk = "session_take (now_ns (sv_hub s)) (sc_RatePerMinute (sv_cfg s))" and ?hd = "heard (now_ns (sv_hub s))"
  let ?s1 = "change_session lk (\<lambda>ss. snd (?tk (?hd ss))) ?s"
  have s: "outside lk s ?s" by (simp add: outside_def)
  have ss: "session_of lk ?s = ss" "established lk ?s = Some ((), ?s)" using at by (simp_all add: session_of_def established_def)
  have s1: "outside lk s ?s1" using quiet.R_trans [OF s] quiet.okD [OF quiet_frames(2) TrueI, of lk] by (auto simp: writeS_def modS_def)
  have w1: "\<not> ss_welcomed (session_of lk ?s1)"
    using at by (simp add: session_of_def map_of_change_session session_take_def heard_def Let_def)
  have bad: "quiet.ok lk (\<lambda>_. True) (thenS (countS (\<lambda>c. c\<lparr>rs_BadFrames := rs_BadFrames c + 1\<rparr>)) (sendError nt lk '''' (''bad message: '' @ m)))" for m
    by (intro quiet.ok_thenS [OF quiet.ok_countS] quiet.ok_sendError refl)
  have go: "srv_frame nt code lk fr s = (case ss_identity ss of None \<Rightarrow> doneS (writeS lk (hold_frame fr)) ?s
      | Some i \<Rightarrow> (if \<not> fst (?tk (?hd ss)) then doneS (rate_limited nt lk (now_ns (sv_hub s)))
        else case Decode (nt_codec nt) fr frame_limits of
          Inl t \<Rightarrow> doneS (thenS (countS (\<lambda>c. c\<lparr>rs_BadFrames := rs_BadFrames c + 1\<rparr>)) (sendError nt lk '''' (''bad message: '' @ t)))
        | Inr e \<Rightarrow> handle_envelope nt code lk i e) ?s1)"
    using ss by (simp add: srv_frame_def bindS_def thenS_def countS_def modS_def sessionFor_def getS_def readS_def writeS_def del: One_nat_def split: option.splits)
  show ?thesis
  proof (cases "ss_identity ss")
    case None
    then have "doneS (writeS lk (hold_frame fr)) ?s = Some (r, t)" using run go by simp
    from quiet_done [OF quiet_frames(1) this] show ?thesis using quiet.R_trans [OF s] by blast
  next
    case (Some i)
    have step: "(if \<not> fst (?tk (?hd ss)) then doneS (rate_limited nt lk (now_ns (sv_hub s)))
        else case Decode (nt_codec nt) fr frame_limits of
          Inl t \<Rightarrow> doneS (thenS (countS (\<lambda>c. c\<lparr>rs_BadFrames := rs_BadFrames c + 1\<rparr>)) (sendError nt lk '''' (''bad message: '' @ t)))
        | Inr e \<Rightarrow> handle_envelope nt code lk i e) ?s1 = Some (r, t)"
      using run go Some by simp
    have "outside lk ?s1 t \<and> r = None"
    proof (cases "fst (?tk (?hd ss))")
      case False
      then show ?thesis using step quiet_done [OF quiet_frames(3)] by simp
    next
      case True
      then show ?thesis using step quiet_done [OF bad] unwelcomed_envelope [OF w1] no by (cases "Decode (nt_codec nt) fr frame_limits") auto
    qed
    then show ?thesis using quiet.R_trans [OF s1] by blast
  qed
qed

text \<open>
  C11. Nothing but a HELLO is acted on before WELCOME: on a link that has a session and was not welcomed, a frame that does not decode to
  a HELLO leaves the hub, the index of identities and every other session untouched, and its own session keeps its identity, its name, its rooms and what it
  is joining. At most early frames are kept, tokens taken and answers queued.
\<close>

theorem nothing_before_HELLO:
  assumes "map_of (sv_sessions s) lk = Some ss" "\<not> ss_welcomed ss" "\<forall>e. Decode (nt_codec nt) fr frame_limits = Inr e \<longrightarrow> ev_Type e \<noteq> TypeHello"
    and "srv_data nt code lk fr s = Some (u, t)"
  shows "sv_hub t = sv_hub s \<and> sv_byIdentity t = sv_byIdentity s \<and> (\<forall>l. l \<noteq> lk \<longrightarrow> map_of (sv_sessions t) l = map_of (sv_sessions s) l) \<and>
    (\<exists>ss'. map_of (sv_sessions t) lk = Some ss' \<and> place ss' = place ss)"
proof -
  obtain r t1 where f: "srv_frame nt code lk fr s = Some (r, t1)" "outside lk s t1" "r = None"
    using assms(4) unwelcomed_frame [OF assms(1-3)] by (fastforce simp: srv_data_def bindS_def split: option.splits)
  then have "t = t1" using assms(4) by (simp add: srv_data_def bindS_def retS_def)
  then show ?thesis using f(2) assms(1) by (cases "map_of (sv_sessions t1) lk") (auto simp: outside_def)
qed

section \<open>A server at work\<close>

definition town_net :: net where
  "town_net = \<lparr>nt_codec = tally_codec, nt_newID = (\<lambda>_. replicate 8 (CHR 0x00)), nt_IdentityHash = id, nt_SendOnLink = (\<lambda>_ _ _. True)\<rparr>"

definition town_server :: server where
  "town_server = rrc_New rrc_Defaults town_started ''hub''"

definition first_job :: job where
  "first_job = \<lparr>jb_kind = jobEstablished, jb_link = ''L'', jb_data = []\<rparr>"

definition linked_server :: server where
  "linked_server = snd (the (established ''L'' (take_job (worker_of ''L'' town_server) (Hooks first_job town_server))))"

lemma linked_server_reach: "server_reach town_net 0 \<lparr>wd_server = linked_server, wd_busy = []\<rparr>"
proof -
  let ?w0 = "\<lparr>wd_server = town_server, wd_busy = []\<rparr>" and ?q = "worker_of ''L'' town_server"
  let ?w1 = "?w0\<lparr>wd_server := Hooks first_job town_server\<rparr>"
  have "server_reach town_net 0 ?w0" unfolding town_server_def by (rule server_start [OF town_started_reach])
  moreover have "server_step town_net 0 ?w0 ?w1" using s_hook [of town_net 0 ?w0 first_job] by simp
  ultimately have "server_reach town_net 0 ?w1" by (rule server_more)
  moreover have "?q < length (sv_jobs town_server)" "sv_jobs (Hooks first_job town_server) ! ?q = [first_job]" "length (sv_jobs (Hooks first_job town_server)) = length (sv_jobs town_server)"
    by code_simp+
  moreover from established_there have "handleJob town_net '''' first_job (take_job ?q (Hooks first_job town_server)) = Some ((), linked_server)"
    unfolding linked_server_def handleJob_def first_job_def by (metis (no_types, lifting) job.select_convs(1,2) jobKind.case(1) option.sel snd_conv)
  ultimately show ?thesis using server_more [of town_net 0 ?w1, OF _ s_work [of ?q ?w1 first_job "[]" town_net "''''" "()" linked_server]] by (simp add: idle_def)
qed

theorem server_reach_sound_witness:
  "map fst (sv_sessions linked_server) = [''L''] \<and> sessionsOf alice linked_server = [] \<and> hub_reach (sv_hub linked_server)"
proof -
  have "map fst (sv_sessions linked_server) = [''L'']" "sessionsOf alice linked_server = []" by code_simp+
  then show ?thesis using server_reach_sound [OF linked_server_reach] by simp
qed

text \<open>A client that has not said who it is sends a frame: it is kept for later.\<close>

definition unwelcomed_server :: server where
  "unwelcomed_server = town_server\<lparr>sv_sessions := [(''L'', newSession ''L'' 100000000 240)]\<rparr>"

theorem nothing_before_HELLO_witness:
  "\<exists>t ss. srv_data town_net '''' ''L'' [] unwelcomed_server = Some ((), t) \<and> sv_hub t = sv_hub unwelcomed_server \<and> sv_byIdentity t = [] \<and>
     map_of (sv_sessions t) ''L'' = Some ss \<and> ss_pending ss = [[]] \<and> ss_rooms ss = []"
proof -
  let ?ss = "newSession ''L'' 100000000 240"
  let ?u = "unwelcomed_server\<lparr>sv_stats := (sv_stats unwelcomed_server)\<lparr>rs_FramesIn := rs_FramesIn (sv_stats unwelcomed_server) + 1\<rparr>\<rparr>"
  let ?t = "change_session ''L'' (hold_frame []) ?u"
  have at: "map_of (sv_sessions unwelcomed_server) ''L'' = Some ?ss" by (simp add: unwelcomed_server_def)
  have run: "srv_data town_net '''' ''L'' [] unwelcomed_server = Some ((), ?t)"
    using at by (simp add: srv_data_def srv_frame_def established_def sessionFor_def bindS_def thenS_def countS_def modS_def getS_def readS_run writeS_run session_of_def
        newSession_def doneS_def retS_def del: One_nat_def)
  have "\<not> ss_welcomed ?ss" by (simp add: newSession_def)
  moreover have "\<forall>e. Decode (nt_codec town_net) [] frame_limits = Inr e \<longrightarrow> ev_Type e \<noteq> TypeHello" by (simp add: Decode_def requireE_def)
  ultimately have "sv_hub ?t = sv_hub unwelcomed_server \<and> sv_byIdentity ?t = sv_byIdentity unwelcomed_server \<and>
      (\<exists>ss. map_of (sv_sessions ?t) ''L'' = Some ss \<and> place ss = place ?ss)"
    using nothing_before_HELLO [OF at _ _ run] by blast
  moreover have "map_of (sv_sessions ?t) ''L'' = Some (hold_frame [] ?ss)" using at by (simp add: map_of_change_session)
  moreover have "ss_pending (hold_frame [] ?ss) = [[]]" "sv_byIdentity unwelcomed_server = []" by code_simp+
  ultimately show ?thesis using run by (auto simp: place_def newSession_def)
qed

end
