(* ===== verification/PageText.thy ===== *)
theory PageText
  imports Adapter GoText
begin

text \<open>
  internal/nomadpage/page.go: what a page request is, the Micron text the pages are made of, the banner, and the tokens
  that tie a link to the visitor it was rendered for.

  A page's text is a string; a line of the builder is its text with a line feed. Formatting of times in London's time zone is a
  parameter (\<open>london\<close>), as the random bytes are (\<open>rand\<close>: what the n-th read of crypto/rand gives, \<open>None\<close> for an error).
\<close>

section \<open>Micron\<close>

definition backtick :: char where "backtick = CHR 0x60"
definition backslash :: char where "backslash = CHR 0x5C"

definition esc_char :: "char \<Rightarrow> string" where
  "esc_char c = (if c = backslash then [backslash, backslash] else if c = backtick then [backslash, backtick] else [c])"

definition esc :: "string \<Rightarrow> string" where
  "esc s = concat (map esc_char s)"

definition label_char :: "char \<Rightarrow> char" where
  "label_char c = (if c = backtick then CHR 0x27 else if c = CHR '']'' then CHR '')'' else c)"

definition escLabel :: "string \<Rightarrow> string" where
  "escLabel s = map label_char s"

definition page_link :: "string \<Rightarrow> string \<Rightarrow> string \<Rightarrow> string" where
  "page_link label path vars = (if vars \<noteq> '''' then ''`F5af`_`['' @ escLabel label @ ''`:'' @ path @ ''`'' @ vars @ '']`_`f''
     else ''`F5af`_`['' @ escLabel label @ ''`:'' @ path @ '']`_`f'')"

definition fullLink :: "string \<Rightarrow> string \<Rightarrow> string" where
  "fullLink label url = ''`F5af`_`['' @ escLabel label @ ''`'' @ url @ '']`_`f''"

definition fieldLink :: "string \<Rightarrow> string \<Rightarrow> string \<Rightarrow> string \<Rightarrow> string" where
  "fieldLink label path field_name vars = ''`F5af`_`['' @ escLabel label @ ''`:'' @ path @ ''`'' @ field_name @ ''|'' @ vars @ '']`_`f''"

definition ln :: "string \<Rightarrow> string" where
  "ln s = s @ [CHR 0x0A]"

definition blank :: string where
  "blank = [CHR 0x0A]"

text \<open>strings.ReplaceAll of one byte.\<close>

definition ReplaceByte :: "char \<Rightarrow> string \<Rightarrow> string \<Rightarrow> string" where
  "ReplaceByte c new s = concat (map (\<lambda>x. if x = c then new else [x]) s)"

definition bar :: string where "bar = ''  '' @ middot @ ''  ''"
definition long_dash :: string where "long_dash = [CHR 0xE2, CHR 0x80, CHR 0x94]"
definition rule_char :: string where "rule_char = [CHR 0xE2, CHR 0x94, CHR 0x80]"
definition bullet :: string where "bullet = [CHR 0xE2, CHR 0x97, CHR 0x8F]"
definition times_sign :: string where "times_sign = [CHR 0xC3, CHR 0x97]"
definition dots :: string where "dots = [CHR 0xE2, CHR 0x80, CHR 0xA6]"

section \<open>The banner\<close>

definition MaxBannerLines :: nat where "MaxBannerLines = 24"
definition MaxBannerBytes :: nat where "MaxBannerBytes = 4096"

fun drop_cr :: "string \<Rightarrow> string" where
  "drop_cr (a # b # s) = (if a = CHR 0x0D \<and> b = CHR 0x0A then CHR 0x0A # drop_cr s else a # drop_cr (b # s))"
| "drop_cr s = s"

definition ParseBanner :: "bytes \<Rightarrow> string + string list" where
  "ParseBanner raw =
     (if MaxBannerBytes < length raw then Inl (''banner: larger than '' @ itoa (int MaxBannerBytes) @ '' bytes'')
      else if \<not> ValidString raw then Inl ''banner: not valid UTF-8''
      else let text = TrimRightSet (drop_cr raw) [CHR 0x0A]; lines = (if text \<noteq> '''' then Split_lines text else []) in
        if MaxBannerLines < length lines then Inl (''banner: more than '' @ itoa (int MaxBannerLines) @ '' lines'')
        else if \<exists>l\<in>set lines. HasPrefix l ''#!'' then Inl ''banner: a line starts with #!, which is a page directive''
        else Inr lines)"

text \<open>banners/saltire.mu, the embedded default.\<close>

definition block4 :: string where
  "block4 = concat (replicate 4 [CHR 0xE2, CHR 0x96, CHR 0x88])"

definition saltire_rows :: "string list" where
  "saltire_rows = (let s4 = ''    ''; s8 = s4 @ s4; s12 = s8 @ s4; row = (\<lambda>t. ''`B05b`Ffff'' @ t @ ''`f`b'') in
     [row (block4 @ s12 @ block4), row (s4 @ block4 @ s4 @ block4 @ s4), row (s8 @ block4 @ s8),
      row (s4 @ block4 @ s4 @ block4 @ s4), row (block4 @ s12 @ block4)])"

definition saltireBanner :: bytes where
  "saltireBanner = Join saltire_rows [CHR 0x0A]"

text \<open>defaultBanner panics when the embedded file does not parse; \<open>defaultBanner_parses\<close> below shows that it does.\<close>

definition defaultBanner :: "string list" where
  "defaultBanner = projr (ParseBanner saltireBanner)"

section \<open>The page and its requests\<close>

definition PathIndex :: string where "PathIndex = ''/page/index.mu''"
definition PathOlder :: string where "PathOlder = ''/page/older.mu''"
definition PathMessages :: string where "PathMessages = ''/page/messages.mu''"
definition PathProfile :: string where "PathProfile = ''/page/profile.mu''"
definition PathMe :: string where "PathMe = ''/page/me.mu''"
definition PathHelp :: string where "PathHelp = ''/page/help.mu''"

record page_config =
  pc_Title :: string
  pc_GroupRoom :: string
  pc_HubAddress :: string
  pc_GroupAddress :: string
  pc_NodeAddress :: string
  pc_WikiURL :: string
  pc_Banner :: "string list option"

record london =
  lo_Year :: "millis \<Rightarrow> int"
  lo_YearDay :: "millis \<Rightarrow> int"
  lo_time :: "millis \<Rightarrow> string"
  lo_day_time :: "millis \<Rightarrow> string"
  lo_date :: "millis \<Rightarrow> string"

text \<open>sessions: the tokens, by token with their visitor and expiry, and by visitor.\<close>

record sessions =
  byToken :: "(string \<times> ident \<times> int) list"
  byID :: "(ident \<times> string) list"

record page =
  pg_cfg :: page_config
  pg_hub :: hub
  pg_london :: london
  pg_rand :: "nat \<Rightarrow> bytes option"
  pg_draws :: nat
  pg_sessions :: sessions

definition page_New :: "page_config \<Rightarrow> hub \<Rightarrow> london \<Rightarrow> (nat \<Rightarrow> bytes option) \<Rightarrow> page" where
  "page_New c h lon rnd = \<lparr>pg_cfg = c\<lparr>pc_Title := (if pc_Title c = '''' then ''ScotMesh Chat'' else pc_Title c),
       pc_GroupRoom := (if pc_GroupRoom c = '''' then ''scotmesh'' else pc_GroupRoom c),
       pc_Banner := (case pc_Banner c of None \<Rightarrow> Some defaultBanner | Some b \<Rightarrow> Some b)\<rparr>,
     pg_hub = h, pg_london = lon, pg_rand = rnd, pg_draws = 0, pg_sessions = \<lparr>byToken = [], byID = []\<rparr>\<rparr>"

record Request =
  rq_Path :: string
  rq_Fields :: "(string \<times> string) list"
  rq_Identity :: "ident option"
  rq_PublicKey :: "bytes option"
  rq_RequestID :: "bytes option"

text \<open>A field of a request; Go gives the empty string for a missing one.\<close>

definition fld :: "(string \<times> string) list \<Rightarrow> string \<Rightarrow> string" where
  "fld f k = (case map_of f k of Some v \<Rightarrow> v | None \<Rightarrow> '''')"

datatype any_value = AnyString string | AnyBytes bytes | AnyOther

definition key_string :: "any_value \<Rightarrow> string" where
  "key_string v = (case v of AnyString s \<Rightarrow> s | _ \<Rightarrow> '''')"

definition value_string :: "any_value \<Rightarrow> string" where
  "value_string v = (case v of AnyString s \<Rightarrow> s | AnyBytes b \<Rightarrow> b | AnyOther \<Rightarrow> '''')"

text \<open>fields: the entries in the order Go's map gives them; a later entry replaces an earlier one.\<close>

definition add_field :: "any_value \<times> any_value \<Rightarrow> (string \<times> string) list \<Rightarrow> (string \<times> string) list" where
  "add_field kv out = (case kv of (k, v) \<Rightarrow> let ks = key_string k; put = (\<lambda>name. (name, value_string v) # filter (\<lambda>e. fst e \<noteq> name) out) in
     if HasPrefix ks ''field_'' then put (drop 6 ks) else if HasPrefix ks ''var_'' then put (drop 4 ks) else out)"

definition page_fields :: "(any_value \<times> any_value) list option \<Rightarrow> (string \<times> string) list" where
  "page_fields data = (case data of None \<Rightarrow> [] | Some m \<Rightarrow> fold add_field m [])"

record RequestContext =
  rc_Path :: string
  rc_Data :: "(any_value \<times> any_value) list option"
  rc_RemoteIdentity :: "bytes option"
  rc_LinkID :: bytes
  rc_Timestamp :: int

text \<open>Handler: the request from the link's context. The identity hash of a public key is the network stack's.\<close>

definition page_request :: "(bytes \<Rightarrow> ident) \<Rightarrow> env \<Rightarrow> RequestContext \<Rightarrow> Request" where
  "page_request identityHash v rc = (let fs = page_fields (rc_Data rc) in
     \<lparr>rq_Path = rc_Path rc, rq_Fields = fs, rq_Identity = map_option identityHash (rc_RemoteIdentity rc), rq_PublicKey = rc_RemoteIdentity rc,
      rq_RequestID = Some (take 16 (sha256 v (hexID (rc_LinkID rc) @ ''|'' @ itoa (rc_Timestamp rc) @ ''|'' @ fld fs ''action'' @ ''|'' @ fld fs ''message'')))\<rparr>)"

section \<open>Page handlers\<close>

text \<open>A page handler reads and changes the page; its calls on the hub may be refused.\<close>

type_synonym 'a pm = "page \<Rightarrow> 'a \<times> page"

definition retP :: "'a \<Rightarrow> 'a pm" where
  "retP a p = (a, p)"

definition bindP :: "'a pm \<Rightarrow> ('a \<Rightarrow> 'b pm) \<Rightarrow> 'b pm" where
  "bindP m f p = (case m p of (a, p') \<Rightarrow> f a p')"

definition askP :: "(page \<Rightarrow> 'a) \<Rightarrow> 'a pm" where
  "askP f p = (f p, p)"

definition callP :: "'a hm \<Rightarrow> (err + 'a) pm" where
  "callP m p = (case m (pg_hub p) of (r, h) \<Rightarrow> (r, p\<lparr>pg_hub := h\<rparr>))"

definition page_userText :: "err \<Rightarrow> string" where
  "page_userText e = (case e of UserError t \<Rightarrow> t | _ \<Rightarrow> ''something went wrong on the hub; please try again'')"

definition page_clock :: "page \<Rightarrow> millis \<Rightarrow> string" where
  "page_clock p ms = (let lo = pg_london p; now = nowMS (pg_hub p) in
     if lo_YearDay lo ms = lo_YearDay lo now \<and> lo_Year lo ms = lo_Year lo now then lo_time lo ms else lo_day_time lo ms)"

section \<open>Tokens\<close>

definition sessionTTL :: int where
  "sessionTTL = 2 * 60 * 60 * 1000000000"

definition expired :: "int \<Rightarrow> string \<times> ident \<times> int \<Rightarrow> bool" where
  "expired now e = (snd (snd e) < now)"

definition purge :: "int \<Rightarrow> sessions \<Rightarrow> sessions" where
  "purge now s = (let dead = map (fst \<circ> snd) (filter (expired now) (byToken s)) in
     \<lparr>byToken = filter (\<lambda>e. \<not> expired now e) (byToken s), byID = filter (\<lambda>e. fst e \<notin> set dead) (byID s)\<rparr>)"

definition renew :: "string \<Rightarrow> ident \<Rightarrow> int \<Rightarrow> sessions \<Rightarrow> sessions" where
  "renew tok i now s = s\<lparr>byToken := (tok, i, now + sessionTTL) # filter (\<lambda>e. fst e \<noteq> tok) (byToken s)\<rparr>"

definition issue :: "ident \<Rightarrow> string pm" where
  "issue i p = (let now = now_ns (pg_hub p); s = purge now (pg_sessions p) in
     case map_of (byID s) i of
       Some tok \<Rightarrow> (tok, p\<lparr>pg_sessions := renew tok i now s\<rparr>)
     | None \<Rightarrow> (case pg_rand p (pg_draws p) of
         None \<Rightarrow> ('''', p\<lparr>pg_sessions := s, pg_draws := pg_draws p + 1\<rparr>)
       | Some b \<Rightarrow> let tok = hexID b in (tok, p\<lparr>pg_draws := pg_draws p + 1,
           pg_sessions := renew tok i now (s\<lparr>byID := (i, tok) # byID s\<rparr>)\<rparr>)))"

definition token_identity :: "string \<Rightarrow> page \<Rightarrow> ident option" where
  "token_identity tok p = (case map_of (byToken (pg_sessions p)) tok of None \<Rightarrow> None
     | Some (i, expires) \<Rightarrow> if expires < now_ns (pg_hub p) then None else Some i)"

definition actionToken :: "ident \<Rightarrow> string pm" where
  "actionToken i = issue i"

text \<open>bytes.Equal takes nil, the identity of no token, for empty.\<close>

definition validAction :: "Request \<Rightarrow> ident \<Rightarrow> page \<Rightarrow> bool" where
  "validAction r i p = (let tok = fld (rq_Fields r) ''tok'' in tok \<noteq> '''' \<and> (case token_identity tok p of None \<Rightarrow> [] | Some j \<Rightarrow> j) = i)"

text \<open>The built-in banner parses, so defaultBanner never panics.\<close>

lemma defaultBanner_parses: "ParseBanner saltireBanner = Inr saltire_rows"
  by code_simp

end
