(* ===== verification/PageChat.thy ===== *)
theory PageChat
  imports PageText
begin

text \<open>
  internal/nomadpage/chat.go: the chat page. A view is what a visitor chose to see; the conversation, the buttons and the forms are
  text; sending, changing the view and deleting a message go through the hub. The random code of /link, which a visitor may type,
  is an argument.
\<close>

section \<open>Views\<close>

record view_choice =
  vw_lines :: int
  vw_flag :: bool
  vw_refresh :: int
  vw_carried :: bool

definition choice_of :: "(string \<times> string) list \<Rightarrow> string \<Rightarrow> int list \<Rightarrow> int \<Rightarrow> int" where
  "choice_of f k choices old = (case Atoi (fld f k) of Some n \<Rightarrow> if n \<in> set choices then n else old | None \<Rightarrow> old)"

definition flag_of :: "(string \<times> string) list \<Rightarrow> bool \<Rightarrow> bool" where
  "flag_of f old = (let v = fld f ''flag'' in if v = ''0'' \<or> v = ''1'' then v = ''1'' else old)"

definition viewFor :: "(string \<times> string) list \<Rightarrow> Person option \<Rightarrow> view_choice" where
  "viewFor f who = (case who of
     Some p \<Rightarrow> \<lparr>vw_lines = PageLines (ps_Prefs p), vw_flag = PageFlag (ps_Prefs p), vw_refresh = PageRefresh (ps_Prefs p), vw_carried = False\<rparr>
   | None \<Rightarrow> \<lparr>vw_lines = choice_of f ''lines'' PageLineChoices (PageLines DefaultPrefs), vw_flag = flag_of f (PageFlag DefaultPrefs),
       vw_refresh = choice_of f ''refresh'' PageRefreshChoices (PageRefresh DefaultPrefs), vw_carried = True\<rparr>)"

definition b2i :: "bool \<Rightarrow> int" where
  "b2i b = (if b then 1 else 0)"

definition view_text :: "int \<Rightarrow> int \<Rightarrow> int \<Rightarrow> string" where
  "view_text n flag refresh = ''lines='' @ itoa n @ ''|flag='' @ itoa flag @ ''|refresh='' @ itoa refresh"

definition view_vars :: "view_choice \<Rightarrow> string" where
  "view_vars v = (if \<not> vw_carried v then '''' else view_text (vw_lines v) (b2i (vw_flag v)) (vw_refresh v))"

definition with_vars :: "string list \<Rightarrow> string" where
  "with_vars vs = Join (filter (\<lambda>v. v \<noteq> '''') vs) ''|''"

section \<open>The conversation\<close>

definition no_view :: view_choice where
  "no_view = \<lparr>vw_lines = 0, vw_flag = False, vw_refresh = 0, vw_carried = False\<rparr>"

definition author_text :: "message \<Rightarrow> Person option \<Rightarrow> view_choice \<Rightarrow> string" where
  "author_text m visitor v = (case visitor of
     Some p \<Rightarrow> if Owns p (m_Author m) then ''`F5d8'' @ esc (m_AuthorName m) @ ''`f''
       else ''`!'' @ page_link (m_AuthorName m) PathProfile (with_vars [''id='' @ hexID (m_Author m), view_vars v]) @ ''`!''
   | None \<Rightarrow> ''`!'' @ page_link (m_AuthorName m) PathProfile (with_vars [''id='' @ hexID (m_Author m), view_vars v]) @ ''`!'')"

definition body_text :: "message \<Rightarrow> string" where
  "body_text m = ReplaceByte (CHR 0x0A) (CHR 0x0A # ''          '') (esc (m_Body m))"

definition may_remove :: "message \<Rightarrow> Person option \<Rightarrow> bool" where
  "may_remove m visitor = (case visitor of None \<Rightarrow> False | Some p \<Rightarrow> Owns p (m_Author m) \<or> RankMod \<le> ps_Rank p)"

definition messageLine :: "page \<Rightarrow> message \<Rightarrow> Person option \<Rightarrow> view_choice \<Rightarrow> string" where
  "messageLine p m visitor v = (let tm = page_clock p (m_SaidAt m); name = author_text m visitor v in
     (if m_Kind m = KindAction then ''`F9ab'' @ tm @ ''`f  * '' @ name @ '' '' @ body_text m
      else ''`F9ab'' @ tm @ ''`f  '' @ name @ ''  '' @ body_text m) @
     (if may_remove m visitor then ''  `F667`['' @ times_sign @ ''`:'' @ PathIndex @ ''`action=delete_confirm|msg='' @ itoa (m_ID m) @ '']`f'' else ''''))"

text \<open>Your own messages move the marker along: the first loop of conversation, which ends at the first message of somebody else after it.\<close>

fun move_marker :: "Person \<Rightarrow> int \<Rightarrow> message list \<Rightarrow> int" where
  "move_marker p k [] = k"
| "move_marker p k (m # ms) = (if k < m_ID m \<and> Owns p (m_Author m) then move_marker p (m_ID m) ms
     else if k < m_ID m then k else move_marker p k ms)"

definition new_line :: string where
  "new_line = ln (''`Fe93'' @ rule_char @ rule_char @ '' new since your last visit '' @ concat (replicate 14 rule_char) @ ''`f'')"

text \<open>The second loop: \<open>first\<close> is i = 0, \<open>shown\<close> is markerShown.\<close>

fun message_lines :: "(message \<Rightarrow> string) \<Rightarrow> int \<Rightarrow> bool \<Rightarrow> bool \<Rightarrow> message list \<Rightarrow> string" where
  "message_lines line marker first shown [] = ''''"
| "message_lines line marker first shown (m # ms) = (let now_shown = (0 < marker \<and> \<not> shown \<and> marker < m_ID m \<and> \<not> first) in
     (if now_shown then new_line else '''') @ ln (line m) @ message_lines line marker False (shown \<or> now_shown) ms)"

definition conversation :: "page \<Rightarrow> message list \<Rightarrow> Person option \<Rightarrow> int \<Rightarrow> bool \<Rightarrow> view_choice \<Rightarrow> string" where
  "conversation p msgs who marker latest v = (if msgs = [] \<and> latest then ln ''`F9abNothing said in the last 7 days. Say hello!`f''
     else let k = (case who of Some x \<Rightarrow> if 0 < marker then move_marker x marker msgs else marker | None \<Rightarrow> marker) in
       message_lines (\<lambda>m. messageLine p m who v) k True False msgs)"

section \<open>Header, buttons, boxes\<close>

definition banner_rows :: "page \<Rightarrow> string list" where
  "banner_rows p = (case pc_Banner (pg_cfg p) of None \<Rightarrow> [] | Some b \<Rightarrow> b)"

definition header_text :: "page \<Rightarrow> string \<Rightarrow> Person option \<Rightarrow> view_choice \<Rightarrow> string" where
  "header_text p sub who v = (let shown = (vw_flag v \<and> banner_rows p \<noteq> []); title = ''`!`F2c8'' @ esc (pc_Title (pg_cfg p)) @ ''`f`!'' in
     ln ''#!c=0'' @ ln ''`c'' @ (if shown then concat (map ln (banner_rows p)) @ blank else '''') @
     (if shown then ln title @ ln (''`F9ab'' @ esc sub @ ''`f'') else ln (title @ ''  `F9ab'' @ esc sub @ ''`f'')) @
     ln ''`a'' @ ln ''-'' @
     (case who of None \<Rightarrow> '''' | Some x \<Rightarrow> ln (''You are `F5d8`!'' @ esc (ps_Name x) @ ''`!`f'' @ bar @ page_link ''Change name or settings'' PathMe '''') @ blank))"

definition page_header :: "Person option \<Rightarrow> view_choice \<Rightarrow> string pm" where
  "page_header who v = bindP (askP (\<lambda>p. pc_GroupRoom (pg_cfg p))) (\<lambda>room.
     bindP (callP (hub_Members room)) (\<lambda>ms. bindP (callP (hub_Room room)) (\<lambda>rm.
     let sub = ''#'' @ room @ (case ms of Inr l \<Rightarrow> '' '' @ middot @ '' '' @ itoa (int (length l)) @ '' here now'' | Inl _ \<Rightarrow> '''') @
       (case rm of Inr (Some r) \<Rightarrow> if rm_Topic r \<noteq> '''' then '' '' @ middot @ '' '' @ rm_Topic r else '''' | _ \<Rightarrow> '''') in
     askP (\<lambda>p. header_text p sub who v))))"

definition view_button :: "string \<Rightarrow> bool \<Rightarrow> string \<Rightarrow> string" where
  "view_button label current vars = (if current then ''`!`F2c8['' @ esc label @ '']`f`!'' else page_link label PathIndex vars)"

definition view_change :: "int \<Rightarrow> int \<Rightarrow> int \<Rightarrow> string" where
  "view_change n flag refresh = ''action=view|'' @ view_text n flag refresh"

definition viewButtons :: "page \<Rightarrow> Person option \<Rightarrow> view_choice \<Rightarrow> string" where
  "viewButtons p who v = (let fl = b2i (vw_flag v);
       show_row = Join (map (\<lambda>n. view_button (itoa n) (n = vw_lines v) (view_change n fl (vw_refresh v))) PageLineChoices) '' '';
       refresh_row = Join (map (\<lambda>n. view_button (if 0 < n then itoa n @ ''s'' else ''off'') (n = vw_refresh v) (view_change (vw_lines v) fl n)) PageRefreshChoices) '' '';
       flag_part = (if \<not> vw_flag v then page_link ''show'' PathIndex (view_change (vw_lines v) 1 (vw_refresh v))
         else page_link ''hide'' PathIndex (view_change (vw_lines v) 0 (vw_refresh v)));
       hasBanner = (banner_rows p \<noteq> []);
       changed = (vw_lines v \<noteq> PageLines DefaultPrefs \<or> vw_refresh v \<noteq> PageRefresh DefaultPrefs \<or> hasBanner \<and> \<not> vw_flag v) in
     (if hasBanner then ln (''`F9abShow:`f '' @ show_row @ ''  `F9abFlag:`f '' @ flag_part @ ''  `F9abRefresh:`f '' @ refresh_row)
      else ln (''`F9abShow:`f '' @ show_row @ ''  `F9abRefresh:`f '' @ refresh_row)) @
     (if who = None \<and> changed then ln ''`F9abThese choices last for this visit; identify to keep them.`f'' else '''') @ blank)"

definition replyBox :: "page \<Rightarrow> Reply \<Rightarrow> string" where
  "replyBox p rep = (let colour = (if Reply_Error rep then ''fb3'' else ''9df'') in
     ln (''`B223`F'' @ colour @ ''  Only you see this:`f`b'') @
     concat (map (\<lambda>l. ln (''`B223`F'' @ colour @ ''  '' @ esc l @ ''`f`b'')) (Lines rep)) @
     (if History rep \<noteq> [] then ln (''`B223`F9ab  '' @ esc (HistoryNote rep) @ ''`f`b'') @
        concat (map (\<lambda>m. ln (''`B223  '' @ messageLine p m None no_view @ ''`b'')) (History rep)) else '''') @
     (if Lines rep = [] \<and> History rep = [] then ln (''`B223`F'' @ colour @ ''  Done.`f`b'') else '''') @ blank)"

definition postForm :: "Person option \<Rightarrow> string pm" where
  "postForm who = (case who of
     None \<Rightarrow> retP (ln ''`F9abTo post, identify yourself to this node: the fingerprint button in MeshChatX, or \"Identify when connecting\" in NomadNet's node settings.`f'')
   | Some x \<Rightarrow> bindP (actionToken (ps_Identity x)) (\<lambda>tok. retP (
       ln (''Say: `B334`<52|message`>`b  '' @ fieldLink ''Send'' PathIndex ''message'' (''action=send|tok='' @ tok)) @
       ln ''`F9abCommands work here too, starting with / or !: try /help.`f'' @
       (if ps_Claimed x then '''' else ln (''`F9abYou're shown as '' @ esc (ps_Name x) @ '' until you '' @ page_link ''choose a name'' PathMe '''' @ ''.`f'')))))"

section \<open>Actions\<close>

definition error_box :: "string \<Rightarrow> Reply" where
  "error_box t = no_reply\<lparr>Lines := [t], Reply_Error := True\<rparr>"

definition apply_view :: "(string \<times> string) list \<Rightarrow> prefs \<Rightarrow> prefs" where
  "apply_view f pr = pr\<lparr>PageLines := choice_of f ''lines'' PageLineChoices (PageLines pr), PageFlag := flag_of f (PageFlag pr),
     PageRefresh := choice_of f ''refresh'' PageRefreshChoices (PageRefresh pr)\<rparr>"

definition changeView :: "Request \<Rightarrow> Person option \<Rightarrow> string pm" where
  "changeView r who = (case who of None \<Rightarrow> retP ''''
   | Some x \<Rightarrow> bindP (callP (hub_SetPrefs (ps_Identity x) (apply_view (rq_Fields r)))) (\<lambda>res.
       retP (case res of Inl e \<Rightarrow> page_userText e | Inr _ \<Rightarrow> '''')))"

definition page_command :: "ident \<Rightarrow> string \<Rightarrow> CommandRequest" where
  "page_command i line = \<lparr>cr_Via = ViaPage, cr_Identity = i, cr_Room = '''', cr_Text = line\<rparr>"

definition page_say :: "Request \<Rightarrow> ident \<Rightarrow> string \<Rightarrow> bool \<Rightarrow> PostRequest" where
  "page_say r i body act = \<lparr>pr_Via = ViaPage, pr_Identity = i, pr_Room = '''', pr_Action = act, pr_Body = body, pr_OriginID = rq_RequestID r, pr_SaidAt = 0, pr_Ext = None\<rparr>"

definition page_post :: "string \<Rightarrow> Request \<Rightarrow> Person option \<Rightarrow> (string \<times> Reply option) pm" where
  "page_post code r who = (case who of
     None \<Rightarrow> retP (''Identify to post: the fingerprint button in MeshChatX, or \"Identify when connecting\" for this node in NomadNet.'', None)
   | Some x \<Rightarrow> let msg = TrimSpace (fld (rq_Fields r) ''message''); i = ps_Identity x;
         say_it = (\<lambda>body act. bindP (callP (Post (page_say r i body act))) (\<lambda>res. retP (case res of Inl e \<Rightarrow> ''Not sent: '' @ page_userText e | Inr _ \<Rightarrow> '''', None))) in
       if msg = '''' then retP ('''', None)
       else case ActionText msg of Some a \<Rightarrow> say_it a True
       | None \<Rightarrow> bindP (askP (\<lambda>p. IsCommand (ulower (env (pg_hub p))) msg)) (\<lambda>is_cmd.
           if is_cmd then bindP (callP (Command code (page_command i msg))) (\<lambda>res. retP (case res of Inl e \<Rightarrow> (page_userText e, None) | Inr rep \<Rightarrow> ('''', Some rep)))
           else say_it msg False))"

definition deleteMessage :: "Request \<Rightarrow> Person option \<Rightarrow> Reply option pm" where
  "deleteMessage r who = (case who of None \<Rightarrow> retP (Some (error_box ''Identify first to remove messages.''))
   | Some x \<Rightarrow> (case Atoi (fld (rq_Fields r) ''msg'') of None \<Rightarrow> retP None
       | Some k \<Rightarrow> bindP (callP (DeleteMessage (ps_Identity x) k)) (\<lambda>res. retP (Some (case res of Inl e \<Rightarrow> error_box (page_userText e) | Inr rep \<Rightarrow> rep)))))"

definition confirm_box :: "view_choice \<Rightarrow> env \<Rightarrow> message \<Rightarrow> string \<Rightarrow> string" where
  "confirm_box v ev m tok = (let body = m_Body m; excerpt = (if 60 < length body then toValidUTF8 ev (take 60 body) @ dots else body);
       yes = with_vars [''action=delete|msg='' @ itoa (m_ID m) @ ''|tok='' @ tok, view_vars v] in
     ln (''`B223`Ffb3  Remove this message from '' @ esc (m_AuthorName m) @ ''? \"'' @ esc excerpt @ ''\"`f`b'') @
     ln (''`B223  '' @ page_link ''Yes, remove it'' PathIndex yes @ bar @ page_link ''No, keep it'' PathIndex (view_vars v) @ ''`b'') @ blank)"

definition confirmDelete :: "Request \<Rightarrow> view_choice \<Rightarrow> Person option \<Rightarrow> string pm" where
  "confirmDelete r v who = (case (Atoi (fld (rq_Fields r) ''msg''), who) of
     (Some k, Some x) \<Rightarrow> bindP (askP (\<lambda>p. pc_GroupRoom (pg_cfg p))) (\<lambda>room. bindP (callP (Recent room 100 0)) (\<lambda>res. case res of
         Inl _ \<Rightarrow> retP ''''
       | Inr msgs \<Rightarrow> (case find (\<lambda>m. m_ID m = k) msgs of None \<Rightarrow> retP ''''
           | Some m \<Rightarrow> bindP (actionToken (ps_Identity x)) (\<lambda>tok. askP (\<lambda>p. confirm_box v (env (pg_hub p)) m tok)))))
   | _ \<Rightarrow> retP '''')"

section \<open>The chat page\<close>

definition expired_text :: string where
  "expired_text = ''That link has expired; reload the page and try again.''"

definition forged :: "Request \<Rightarrow> Person option \<Rightarrow> page \<Rightarrow> bool" where
  "forged r who p = (case who of None \<Rightarrow> False | Some x \<Rightarrow> \<not> validAction r (ps_Identity x) p)"

text \<open>The switch on the action: the notice and the reply to show.\<close>

definition index_action :: "string \<Rightarrow> Request \<Rightarrow> Person option \<Rightarrow> (string \<times> Reply option) pm" where
  "index_action code r who = (let a = fld (rq_Fields r) ''action'' in bindP (askP (forged r who)) (\<lambda>bad.
     if a = ''send'' then (if bad then retP (expired_text, None) else page_post code r who)
     else if a = ''view'' then bindP (changeView r who) (\<lambda>n. retP (n, None))
     else if a = ''delete'' then (if bad then retP ('''', Some (error_box expired_text)) else bindP (deleteMessage r who) (\<lambda>rep. retP ('''', rep)))
     else retP ('''', None)))"

definition fresh_person :: "Person option \<Rightarrow> Person option pm" where
  "fresh_person who = (case who of None \<Rightarrow> retP None
   | Some x \<Rightarrow> bindP (callP (hub_PersonOf (ps_Identity x))) (\<lambda>res. retP (case res of Inr y \<Rightarrow> Some y | Inl _ \<Rightarrow> Some x)))"

text \<open>strconv.ParseInt with its error ignored: 0 for what is no number, the nearest int64 for one out of range.\<close>

definition parse_loose :: "string \<Rightarrow> int" where
  "parse_loose s = (let neg = HasPrefix s ''-''; ds = (if HasPrefix s ''-'' \<or> HasPrefix s ''+'' then drop 1 s else s) in
     if ds = [] then 0 else case digits_val 0 ds of None \<Rightarrow> 0
     | Some v \<Rightarrow> max (- (2 ^ 63)) (min (2 ^ 63 - 1) (if neg then - v else v)))"

text \<open>The marker: where this visitor had read to, and the cursor moved to the last message shown.\<close>

definition read_marker :: "Person option \<Rightarrow> int \<Rightarrow> message list \<Rightarrow> int pm" where
  "read_marker who before msgs = (case who of
     Some x \<Rightarrow> if before \<noteq> 0 then retP 0
       else bindP (askP (\<lambda>p. pc_GroupRoom (pg_cfg p))) (\<lambda>room. bindP (callP (ReadCursor (ps_Identity x) room ViaPage)) (\<lambda>c.
         let marker = (case c of Inr (Some cr) \<Rightarrow> c_MessageID cr | _ \<Rightarrow> 0) in
         if msgs = [] then retP marker
         else bindP (callP (MarkRead (ps_Identity x) room ViaPage (m_ID (last msgs)))) (\<lambda>_. retP marker)))
   | None \<Rightarrow> retP 0)"

text \<open>The conversation, or the partial that reloads it.\<close>

definition conversation_part :: "message list \<Rightarrow> Person option \<Rightarrow> int \<Rightarrow> int \<Rightarrow> view_choice \<Rightarrow> string pm" where
  "conversation_part msgs who marker before v = (if 0 < vw_refresh v \<and> before = 0
     then bindP (case who of None \<Rightarrow> retP '''' | Some x \<Rightarrow> bindP (issue (ps_Identity x)) (\<lambda>tok. retP (''t='' @ tok))) (\<lambda>token.
       askP (\<lambda>p. ln (''`{'' @ pc_NodeAddress (pg_cfg p) @ '':'' @ PathMessages @ ''`'' @ itoa (vw_refresh v) @ ''`'' @
         with_vars [''pid=chat'', ''lines='' @ itoa (vw_lines v), ''m='' @ itoa marker, token] @ ''}'')))
     else askP (\<lambda>p. conversation p msgs who marker (before = 0) v))"

definition index_nav :: "page \<Rightarrow> message list \<Rightarrow> int \<Rightarrow> view_choice \<Rightarrow> string" where
  "index_nav p msgs before v = ln (Join (
     [page_link ''Reload'' PathIndex (view_vars v)] @
     (if 0 < vw_refresh v \<and> before = 0 then [''`F5af`_`[Refresh now`p:chat]`_`f''] else []) @
     (if msgs \<noteq> [] then [page_link ''Older'' PathOlder (with_vars [''before='' @ itoa (m_ID (hd msgs)), view_vars v])] else []) @
     [page_link ''Your name & settings'' PathMe '''', page_link ''How to join'' PathHelp (view_vars v)] @
     (if pc_WikiURL (pg_cfg p) \<noteq> '''' then [fullLink ''About the chat (wiki)'' (pc_WikiURL (pg_cfg p))] else [])) bar)"

definition index_page :: "string \<Rightarrow> Request \<Rightarrow> Person option \<Rightarrow> string \<Rightarrow> string pm" where
  "index_page code r who0 refusal =
     bindP (if refusal = '''' then bindP (index_action code r who0) (\<lambda>(n, rep). bindP (fresh_person who0) (\<lambda>who. retP (n, rep, who)))
            else retP (refusal, None, who0)) (\<lambda>(notice0, rep, who).
     let v = viewFor (rq_Fields r) who; before = (if rq_Path r = PathOlder then parse_loose (fld (rq_Fields r) ''before'') else 0) in
     bindP (askP (\<lambda>p. pc_GroupRoom (pg_cfg p))) (\<lambda>room. bindP (callP (Recent room (vw_lines v) before)) (\<lambda>res.
     let msgs = (case res of Inr ms \<Rightarrow> ms | Inl _ \<Rightarrow> []);
         notice = (case res of Inr _ \<Rightarrow> notice0 | Inl _ \<Rightarrow> ''The conversation couldn't be loaded just now. Please reload.'') in
     bindP (read_marker who before msgs) (\<lambda>marker. bindP (page_header who v) (\<lambda>head. bindP (askP (\<lambda>p. viewButtons p who v)) (\<lambda>buttons.
     bindP (if fld (rq_Fields r) ''action'' = ''delete_confirm'' then confirmDelete r v who else retP '''') (\<lambda>confirm.
     bindP (askP (\<lambda>p. case rep of None \<Rightarrow> '''' | Some x \<Rightarrow> replyBox p x)) (\<lambda>box.
     bindP (conversation_part msgs who marker before v) (\<lambda>conv. bindP (postForm who) (\<lambda>form.
     askP (\<lambda>p. head @ buttons @ (if notice \<noteq> '''' then ln (''`Ffb3'' @ esc notice @ ''`f'') @ blank else '''') @ confirm @ box @
       (if 0 < before then ln (''`F9ab'' @ long_dash @ '' older messages '' @ long_dash @ ''`f'') @ blank else '''') @ conv @
       blank @ ln ''-'' @ form @ blank @ index_nav p msgs before v)))))))))))"

definition page_messages :: "Request \<Rightarrow> string pm" where
  "page_messages r =
     bindP (askP (token_identity (fld (rq_Fields r) ''t''))) (\<lambda>tid.
     bindP (case tid of None \<Rightarrow> retP None | Some i \<Rightarrow> bindP (callP (hub_PersonOf i)) (\<lambda>res. retP (case res of Inr x \<Rightarrow> Some x | Inl _ \<Rightarrow> None))) (\<lambda>who.
     let v = (case who of Some _ \<Rightarrow> viewFor (rq_Fields r) who | None \<Rightarrow> viewFor [(''lines'', fld (rq_Fields r) ''lines'')] None) in
     bindP (askP (\<lambda>p. pc_GroupRoom (pg_cfg p))) (\<lambda>room. bindP (callP (Recent room (vw_lines v) 0)) (\<lambda>res. case res of
       Inl _ \<Rightarrow> retP ''`Ffb3The conversation couldn't be loaded just now.`f''
     | Inr msgs \<Rightarrow> askP (\<lambda>p. TrimRightSet (conversation p msgs who (parse_loose (fld (rq_Fields r) ''m'')) True v) [CHR 0x0A])))))"

end
