(* ===== verification/PageMe.thy ===== *)
theory PageMe
  imports PageChat
begin

text \<open>
  internal/nomadpage/me.go, profile.go and help.go: the settings page, a person's profile with the moderation buttons, the help page, and
  Serve, which picks the page by its path. Links that change something carry the visitor's token; the commands a button stands for are the ones anyone types.
\<close>

section \<open>Small texts\<close>

definition mode_word :: "LXMFMode \<Rightarrow> string" where
  "mode_word m = (case m of LXMFOn \<Rightarrow> ''on'' | LXMFOff \<Rightarrow> ''off'' | LXMFAuto \<Rightarrow> ''auto'')"

definition via_word :: "Via option \<Rightarrow> string" where
  "via_word v = (case v of None \<Rightarrow> '''' | Some ViaRRC \<Rightarrow> ''rrc'' | Some ViaLXMF \<Rightarrow> ''lxmf'' | Some ViaPage \<Rightarrow> ''page'' | Some ViaImport \<Rightarrow> ''import'')"

definition notice_text :: "string \<Rightarrow> string" where
  "notice_text n = (if n \<noteq> '''' then ln (''`Ffb3'' @ esc n @ ''`f'') @ blank else '''')"

definition back_link :: "string \<Rightarrow> string" where
  "back_link vars = ln (page_link ''Back to the chat'' PathIndex vars)"

section \<open>What a button stands for\<close>

definition linkCommand :: "(string \<times> string) list \<Rightarrow> string" where
  "linkCommand f = (let app = TrimSpace (fld f ''app''); a = fld f ''action''; s = fld f ''set''; code = TrimSpace (fld f ''code'') in
     if a = ''unignore'' then (if app \<noteq> '''' then ''/unignore '' @ app else '''')
     else if a = ''whispers'' then (if s = ''on'' \<or> s = ''off'' then ''/whispers '' @ s
       else if s = ''lxmf-on'' \<or> s = ''lxmf-off'' then ''/whispers lxmf '' @ TrimPrefix s ''lxmf-'' else '''')
     else if a = ''link'' then ''/link''
     else if a = ''redeem'' then (if code = '''' then '''' else if fld f ''confirm'' = ''1'' then ''/link '' @ code @ '' confirm'' else ''/link '' @ code)
     else if a = ''unlink'' then TrimSpace (''/unlink '' @ app)
     else if a = ''approve'' \<or> a = ''deny'' then (if app \<noteq> '''' then ''/link '' @ a @ '' '' @ app else '''')
     else '''')"

definition profileCommand :: "(string \<times> string) list \<Rightarrow> string \<Rightarrow> string" where
  "profileCommand f idHex = (let reason = TrimSpace (fld f ''reason''); a = fld f ''action''; said = TrimSpace (fld f ''whisper'');
       len = (if fld f ''len'' \<in> {''1h'', ''1d'', ''7d'', ''perm''} then fld f ''len'' else ''perm''); name = TrimSpace (fld f ''newname'') in
     if a = ''whisper'' then (if said \<noteq> '''' then ''/whisper '' @ idHex @ '' '' @ said else '''')
     else if a = ''kick'' then TrimSpace (''/kick '' @ idHex @ '' '' @ reason)
     else if a = ''ban'' then TrimSpace (''/ban '' @ idHex @ '' '' @ len @ '' '' @ reason)
     else if a = ''rename'' then (if name \<noteq> '''' then ''/rename '' @ idHex @ '' '' @ name else '''')
     else if a = ''mod'' \<or> a = ''admin'' \<or> a = ''demote'' then ''/'' @ a @ '' '' @ idHex
     else if a = ''deletelast'' then ''/delete '' @ idHex
     else '''')"

section \<open>The settings page: actions\<close>

text \<open>The person as the action left them, and the notice.\<close>

definition me_nick :: "(string \<times> string) list \<Rightarrow> Person \<Rightarrow> (Person \<times> string) pm" where
  "me_nick f x = bindP (callP (hub_ClaimName (ps_Identity x) (fld f ''nick''))) (\<lambda>res. retP (case res of
     Inl e \<Rightarrow> (x, page_userText e)
   | Inr y \<Rightarrow> (y, if ps_Name y \<noteq> ps_Name x
       then ''You are now '' @ ps_Name y @ ''. The name is yours on RRC, the LXMF group and this page until you forget it.'' else '''')))"

definition me_lxmf :: "(string \<times> string) list \<Rightarrow> Person \<Rightarrow> (Person \<times> string) pm" where
  "me_lxmf f x = bindP (askP (\<lambda>p. ParseLXMFMode (ulower (env (pg_hub p))) (fld f ''mode''))) (\<lambda>m. case m of None \<Rightarrow> retP (x, '''')
   | Some mode \<Rightarrow> bindP (callP (hub_SetLXMFMode (ps_Identity x) mode)) (\<lambda>res. retP (case res of
       Inl e \<Rightarrow> (x, page_userText e) | Inr y \<Rightarrow> (y, ''LXMF delivery is now '' @ mode_word mode @ ''.''))))"

definition me_mine :: "(string \<times> string) list \<Rightarrow> Person \<Rightarrow> (Person \<times> string) pm" where
  "me_mine f x = (let on = (fld f ''on'' = ''1'') in bindP (callP (hub_SetLXMFMine (ps_Identity x) on)) (\<lambda>res. retP (case res of
     Inl e \<Rightarrow> (x, page_userText e)
   | Inr y \<Rightarrow> (y, if on then ''Your own messages from RRC and this page will come to you by LXMF too.''
       else ''Your own messages won't be sent to you by LXMF any more.''))))"

definition me_share :: "(string \<times> string) list \<Rightarrow> Person \<Rightarrow> (Person \<times> string) pm" where
  "me_share f x = (let on = (fld f ''on'' = ''1'') in bindP (callP (hub_SetPrefs (ps_Identity x) (\<lambda>pr. pr\<lparr>ShareLXMF := on\<rparr>))) (\<lambda>res. retP (case res of
     Inl e \<Rightarrow> (x, page_userText e)
   | Inr y \<Rightarrow> (y, if on then ''Your LXMF address is shown on your profile now, so people can message you.''
       else ''Your LXMF address is hidden from your profile now.''))))"

definition me_leave :: "Person \<Rightarrow> (Person \<times> string) pm" where
  "me_leave x = bindP (callP (LeaveGroup (ps_Identity x))) (\<lambda>res. retP (case res of
     Inl e \<Rightarrow> (x, page_userText e)
   | Inr left \<Rightarrow> if left then (x\<lparr>ps_Member := False\<rparr>, ''You have left the LXMF group. Your name stays yours.'')
       else (x, ''You weren't in the LXMF group.'')))"

definition me_forget :: "Person \<Rightarrow> (Person \<times> string) pm" where
  "me_forget x = bindP (callP (Forget (ps_Identity x))) (\<lambda>res. retP (case res of
     Inl e \<Rightarrow> (x, page_userText e)
   | Inr y \<Rightarrow> (y, if ps_Claimed x \<and> ps_Member x then ps_Name x @ '' is free again and you have left the LXMF group.''
       else if ps_Claimed x then ps_Name x @ '' is free again.''
       else if ps_Member x then ''You have left the LXMF group.'' else ''There was nothing to forget.'')))"

definition me_switch :: "string \<Rightarrow> (string \<times> string) list \<Rightarrow> Person \<Rightarrow> string \<Rightarrow> (Person \<times> string) pm" where
  "me_switch a f x note0 = (let told = (\<lambda>m. bindP m (\<lambda>(y, n). retP (y, if n = '''' then note0 else n))) in
     if a = ''nick'' then told (me_nick f x) else if a = ''lxmf'' then told (me_lxmf f x) else if a = ''mine'' then told (me_mine f x)
     else if a = ''share'' then told (me_share f x) else if a = ''leave'' then told (me_leave x) else if a = ''forget'' then told (me_forget x)
     else retP (x, note0))"

text \<open>The command a link, whisper or ignore button stands for, run before the switch.\<close>

definition me_command :: "string \<Rightarrow> string \<Rightarrow> Person \<Rightarrow> string \<Rightarrow> (Person \<times> string \<times> Reply option) pm" where
  "me_command code line x note0 = bindP (callP (Command code (page_command (ps_Identity x) line))) (\<lambda>res. case res of
     Inl e \<Rightarrow> retP (x, page_userText e, None)
   | Inr rep \<Rightarrow> bindP (fresh_person (Some x)) (\<lambda>y. retP (case y of Some z \<Rightarrow> z | None \<Rightarrow> x, note0, Some rep)))"

definition HasSuffix :: "string \<Rightarrow> string \<Rightarrow> bool" where
  "HasSuffix s suf = HasPrefix (rev s) (rev suf)"

definition me_actions :: "string \<Rightarrow> Request \<Rightarrow> Person \<Rightarrow> (Person \<times> string \<times> Reply option) pm" where
  "me_actions code r x = (let f = rq_Fields r; a0 = fld f ''action'' in bindP (askP (validAction r (ps_Identity x))) (\<lambda>ok.
     let bad = (a0 \<noteq> '''' \<and> \<not> HasSuffix a0 ''_confirm'' \<and> \<not> ok); a = (if bad then '''' else a0); note0 = (if bad then expired_text else '''');
         line = linkCommand f in
     bindP (if a \<noteq> '''' \<and> line \<noteq> '''' then me_command code line x note0 else retP (x, note0, None)) (\<lambda>(y, n, rep).
     bindP (me_switch a f y n) (\<lambda>(z, n2). retP (z, n2, rep)))))"

section \<open>The settings page: sections\<close>

definition name_section :: "page \<Rightarrow> Person \<Rightarrow> string \<Rightarrow> string" where
  "name_section p x tok = ln ''>>Name'' @
     (if ps_Claimed x then ln (''You are `!'' @ esc (ps_Name x) @ ''`!, yours since '' @ lo_date (pg_london p) (ps_ClaimedAt x) @ ''.'')
      else ln (''You haven't claimed a name, so people see you as `!'' @ esc (ps_Name x) @ ''`!.'')) @
     ln (''New name: `B334`<24|nick`>`b  '' @ fieldLink ''Take this name'' PathMe ''nick'' (''action=nick|tok='' @ tok)) @
     ln ''`F9ab2 to 24 letters, digits, - _ or . with no spaces, starting with a letter. A name is held by one identity, on RRC, the LXMF group and this page; names that look alike (A1ex and Alex) count as the same.`f'' @
     blank"

definition mode_option :: "Person \<Rightarrow> string \<Rightarrow> string \<times> string \<Rightarrow> string" where
  "mode_option x tok ml = (case ml of (m, label) \<Rightarrow> ln ((if mode_word (ps_LXMFMode x) = m then ''`F5d8'' @ bullet @ ''`f '' else ''  '') @
     page_link label PathMe (''action=lxmf|mode='' @ m @ ''|tok='' @ tok)))"

definition lxmf_section :: "page \<Rightarrow> Person \<Rightarrow> string \<Rightarrow> string" where
  "lxmf_section p x tok = ln ''>>LXMF delivery'' @
     (if ps_Member x then concat (map (mode_option x tok) [(''on'', ''On: every message''), (''auto'', ''Auto: pause while I'm in the RRC room''),
          (''off'', ''Off: nothing, but keep my name and membership'')]) @ blank @
        (if ps_LXMFMine x then ln (''`F5d8'' @ bullet @ ''`f Your own messages from RRC and this page also come to you by LXMF.  '' @ page_link ''Stop'' PathMe (''action=mine|on=0|tok='' @ tok))
         else ln (''Your own messages from RRC and this page don't come to you by LXMF.  '' @ page_link ''Send them to me too'' PathMe (''action=mine|on=1|tok='' @ tok)))
      else ln (''You're not in the LXMF group. Send `!/join`! from any LXMF messenger to '' @ esc (pc_GroupAddress (pg_cfg p)) @ '' to get messages there.'')) @ blank"

definition sharing_section :: "Person \<Rightarrow> string \<Rightarrow> string" where
  "sharing_section x tok = ln ''>>Sharing'' @
     (if RankMod \<le> ps_PersonRank x then ln (''Your LXMF address is always shown on your profile while you're '' @ Rank_String (ps_PersonRank x) @ '', so people can reach you.'')
      else if ShareLXMF (ps_Prefs x) then ln (''`F5d8'' @ bullet @ ''`f Your LXMF address is shown on your profile, so people can message you.  '' @ page_link ''Hide it'' PathMe (''action=share|on=0|tok='' @ tok))
      else ln (''Your LXMF address is hidden from your profile.  '' @ page_link ''Show it'' PathMe (''action=share|on=1|tok='' @ tok))) @ blank"

definition view_section :: "page \<Rightarrow> view_choice \<Rightarrow> string" where
  "view_section p v = (let refresh = (if 0 < vw_refresh v then ''every '' @ itoa (vw_refresh v) @ ''s'' else ''off'') in
     ln ''>>Chat page view'' @
     (if banner_rows p \<noteq> [] then ln (''Messages shown: '' @ itoa (vw_lines v) @ bar @ ''Flag: '' @ (if vw_flag v then ''shown'' else ''hidden'') @ bar @ ''Refresh: '' @ refresh)
      else ln (''Messages shown: '' @ itoa (vw_lines v) @ bar @ ''Refresh: '' @ refresh)) @
     ln (''`F9abChange these with the buttons on the '' @ page_link ''chat page'' PathIndex '''' @ '', or /page lines|flag|refresh. Refresh off suits a slow link, such as LoRa.`f'') @ blank)"

definition new_whispers :: string where
  "new_whispers = ln (''`Fe93'' @ rule_char @ rule_char @ '' new '' @ rule_char @ rule_char @ ''`f'')"

text \<open>The whispers from the index \<open>k\<close> on; newFrom may be negative when more are unread than shown.\<close>

fun whisper_lines :: "(whisper \<Rightarrow> string) \<Rightarrow> int \<Rightarrow> nat \<Rightarrow> int \<Rightarrow> whisper list \<Rightarrow> string" where
  "whisper_lines line newFrom unread k [] = ''''"
| "whisper_lines line newFrom unread k (w # ws) = (if k = newFrom \<and> 0 < unread then new_whispers else '''') @ ln (line w) @ whisper_lines line newFrom unread (k + 1) ws"

definition whisper_line :: "page \<Rightarrow> whisper \<Rightarrow> string" where
  "whisper_line p w = ''`F9ab'' @ page_clock p (w_SaidAt w) @ ''`f  `!'' @ esc (w_FromName w) @ ''`! whispers: '' @ esc (ReplaceByte (CHR 0x0A) '' '' (w_Body w))"

definition whisper_settings :: "Person \<Rightarrow> string \<Rightarrow> string" where
  "whisper_settings x tok = (let turn = (\<lambda>label s. page_link label PathMe (''action=whispers|set='' @ s @ ''|tok='' @ tok)) in
     ln (''Whispers to you: '' @ on_off (Whispers_pref (ps_Prefs x)) @ ''  '' @ (if Whispers_pref (ps_Prefs x) then turn ''Turn off'' ''off'' else turn ''Turn on'' ''on'') @
       bar @ ''Also to your LXMF app: '' @ on_off (WhispersLXMF (ps_Prefs x)) @ ''  '' @
       (if WhispersLXMF (ps_Prefs x) then turn ''Turn off'' ''lxmf-off'' else turn ''Turn on'' ''lxmf-on'')))"

definition whisperSection :: "Person \<Rightarrow> string \<Rightarrow> string pm" where
  "whisperSection x tok = bindP (callP (Whispers (ps_Identity x) 10)) (\<lambda>res. case res of
     Inl _ \<Rightarrow> retP (ln ''>>Whispers'' @ ln ''`Ffb3Your whispers couldn't be shown just now.`f'' @ blank)
   | Inr wi \<Rightarrow> askP (\<lambda>p. ln ''>>Whispers'' @ (if wi_Whispers wi = [] then ln ''`F9abNo whispers in the last 7 days.`f'' else '''') @
       whisper_lines (whisper_line p) (int (length (wi_Whispers wi)) - int (wi_Unread wi)) (wi_Unread wi) 0 (wi_Whispers wi) @
       whisper_settings x tok @
       concat (map (\<lambda>ig. ln (''Ignoring `!'' @ esc (ign_Name ig) @ ''`!  '' @
         page_link ''Unignore'' PathMe (''action=unignore|app='' @ hexID (ign_Identity ig) @ ''|tok='' @ tok))) (wi_Ignored wi)) @
       ln ''`F9abTo whisper to someone, open their profile, or send /whisper Name text. /ignore Name blocks someone's whispers.`f'' @ blank))"

definition app_notes :: "page \<Rightarrow> Person \<Rightarrow> App \<Rightarrow> string list" where
  "app_notes p x a = (if ap_Identity a = ps_Identity x then [''this app''] else []) @ (if ap_RRC a then [''on RRC now''] else []) @
     (if ap_LXMF a then [''LXMF group''] else []) @ (if 0 < ap_LastSeen a then [''seen '' @ page_clock p (ap_LastSeen a)] else [])"

definition app_line :: "page \<Rightarrow> Person \<Rightarrow> string \<Rightarrow> bool \<Rightarrow> App \<Rightarrow> string" where
  "app_line p x tok several a = (let short = take 8 (hexID (ap_Identity a)) in
     ln (''  `!'' @ short @ ''`!  '' @ esc (Join (app_notes p x a) ('' '' @ middot @ '' '')) @
       (if several then ''  '' @ page_link ''Unlink'' PathMe (''action=unlink|app='' @ short @ ''|tok='' @ tok) else '''')))"

definition pending_line :: "page \<Rightarrow> string \<Rightarrow> App \<Rightarrow> string" where
  "pending_line p tok a = (let short = take 8 (hexID (ap_Identity a)) in
     ln (''`Fe93  '' @ short @ '' wants to join your name (via '' @ via_word (ap_Via a) @ '', until '' @ page_clock p (ap_ExpiresAt a) @ ''):`f  '' @
       page_link ''Approve'' PathMe (''action=approve|app='' @ short @ ''|tok='' @ tok) @ bar @ page_link ''Deny'' PathMe (''action=deny|app='' @ short @ ''|tok='' @ tok)))"

definition linkSection :: "Person \<Rightarrow> string \<Rightarrow> string pm" where
  "linkSection x tok = bindP (callP (LinkedApps (ps_Identity x))) (\<lambda>res. case res of
     Inl _ \<Rightarrow> retP (ln ''>>Your apps'' @ ln ''`Ffb3Your apps couldn't be listed just now.`f'' @ blank)
   | Inr la \<Rightarrow> askP (\<lambda>p. ln ''>>Your apps'' @ ln ''One name can be shared by up to 5 apps, such as your phone and your laptop.'' @
       concat (map (app_line p x tok (1 < length (la_Apps la))) (la_Apps la)) @ concat (map (pending_line p tok) (la_Pending la)) @
       ln (page_link ''Get a link code'' PathMe (''action=link|tok='' @ tok) @ ''  on this app, then enter it on the other one.'') @
       ln (''Code from your other app: `B334`<12|code`>`b  '' @ fieldLink ''Link this app'' PathMe ''code'' (''action=redeem|tok='' @ tok)) @ blank))"

definition leave_section :: "string \<Rightarrow> Person \<Rightarrow> string \<Rightarrow> string" where
  "leave_section a x tok = ln ''>>Leave or forget'' @
     (if ps_Member x then (if a = ''leave_confirm''
        then ln ''This takes you out of the LXMF group, so nothing more comes to you by LXMF. Your name stays yours.'' @
          ln (page_link ''Yes, leave the group'' PathMe (''action=leave|tok='' @ tok) @ bar @ page_link ''No, stay'' PathMe '''')
        else ln (page_link (''Leave the LXMF group'' @ dots) PathMe ''action=leave_confirm'')) else '''') @
     (if a = ''forget_confirm''
      then ln ''This frees your name for anyone and takes you out of the LXMF group. Messages you've sent keep your name.'' @
        ln (page_link ''Yes, forget me'' PathMe (''action=forget|tok='' @ tok) @ bar @ page_link ''No, keep everything'' PathMe '''')
      else ln (page_link (''Free my name and leave everything'' @ dots) PathMe ''action=forget_confirm'')) @
     blank @ ln (''`F9abYour identity: '' @ hexID (ps_Identity x) @ ''`f'') @ blank @ back_link ''''"

definition me_anonymous :: "Request \<Rightarrow> string \<Rightarrow> string pm" where
  "me_anonymous r refusal = bindP (page_header None (viewFor (rq_Fields r) None)) (\<lambda>head. retP (head @ ln ''>Your name & settings'' @ blank @
     notice_text refusal @
     ln ''Names and settings belong to your Reticulum identity, so this page needs to know who you are.'' @
     ln ''Identify to this node first: the fingerprint button in MeshChatX, or \"Identify when connecting\" in NomadNet's node settings, then reload.'' @
     blank @ back_link ''''))"

definition me_page :: "string \<Rightarrow> Request \<Rightarrow> Person option \<Rightarrow> string \<Rightarrow> string pm" where
  "me_page code r who refusal = (case who of None \<Rightarrow> me_anonymous r refusal
   | Some x0 \<Rightarrow> bindP (actionToken (ps_Identity x0)) (\<lambda>tok. bindP (me_actions code r x0) (\<lambda>(x, note0, rep).
       let v = viewFor (rq_Fields r) (Some x) in
       bindP (page_header (Some x) v) (\<lambda>head. bindP (askP (\<lambda>p. case rep of None \<Rightarrow> '''' | Some y \<Rightarrow> replyBox p y)) (\<lambda>box.
       bindP (askP (\<lambda>p. name_section p x tok @ lxmf_section p x tok @ sharing_section x tok @ view_section p v)) (\<lambda>own.
       bindP (whisperSection x tok) (\<lambda>wh. bindP (linkSection x tok) (\<lambda>apps.
       retP (head @ ln ''>Your name & settings'' @ blank @ notice_text note0 @ box @ own @ wh @ apps @ leave_section (fld (rq_Fields r) ''action'') x tok)))))))))"

section \<open>Profiles\<close>

definition profile_action :: "string \<Rightarrow> Request \<Rightarrow> Person option \<Rightarrow> string \<Rightarrow> (string \<times> string) pm" where
  "profile_action code r viewer idHex = (let a = fld (rq_Fields r) ''action''; line = profileCommand (rq_Fields r) idHex in case viewer of
     None \<Rightarrow> retP ('''', a)
   | Some x \<Rightarrow> if line = '''' then retP ('''', a)
     else bindP (askP (validAction r (ps_Identity x))) (\<lambda>ok.
       bindP (if \<not> ok then retP (error_box expired_text)
              else bindP (callP (Command code (page_command (ps_Identity x) line))) (\<lambda>res. retP (case res of Inl e \<Rightarrow> error_box (page_userText e) | Inr rep \<Rightarrow> rep))) (\<lambda>rep.
       askP (\<lambda>p. (replyBox p rep, '''')))))"

definition profile_head :: "page \<Rightarrow> Profile \<Rightarrow> string" where
  "profile_head p pf = (let who = pf_Person pf; t = Title (ps_PersonRank who) in
     ln (''>'' @ esc (ps_Name who) @ (if t \<noteq> '''' then ''  `F9ab'' @ middot @ ''`f `Fe93'' @ esc t @ ''`f'' else '''')) @ blank @
     (if ps_Claimed who then ln (''Name held since '' @ lo_date (pg_london p) (ps_ClaimedAt who) @ ''.'')
      else ln ''No name claimed; shown by the start of their identity.'') @
     (if pf_Here pf \<noteq> [] then ln (''Here now: '' @ esc (Join (pf_Here pf) '' and '') @ ''.'')
      else if 0 < pf_LastSeen pf then ln (''Last seen '' @ page_clock p (pf_LastSeen pf) @ ''.'') else '''') @ blank)"

definition profile_addresses :: "Profile \<Rightarrow> string" where
  "profile_addresses pf = ln ''>>Message them'' @ (if pf_Shared pf
     then concat (map (\<lambda>a. ln (fullLink ''Message on LXMF'' (''lxmf@'' @ hexID a) @ ''  `F9ab'' @ hexID a @ ''`f'' @
       (if pf_Derived pf then ''  `F9ab(if they use LXMF with this identity)`f'' else ''''))) (pf_Addresses pf))
     else ln ''`F9abTheir LXMF address isn't shared.`f'')"

definition whisper_form :: "Person option \<Rightarrow> Person \<Rightarrow> string \<Rightarrow> string pm" where
  "whisper_form viewer who idHex = (case viewer of None \<Rightarrow> retP ''''
   | Some x \<Rightarrow> if ps_PersonID x = ps_PersonID who then retP ''''
     else bindP (actionToken (ps_Identity x)) (\<lambda>tok. retP (
       ln (''Whisper: `B334`<44|whisper`>`b  '' @ fieldLink ''Whisper'' PathProfile ''whisper'' (''action=whisper|id='' @ idHex @ ''|tok='' @ tok)) @
       ln ''`F9abOnly they see a whisper: on RRC, in their LXMF app and on this page.`f'')))"

definition mod_buttons :: "(Action \<times> bool) list \<Rightarrow> bool \<Rightarrow> Person \<Rightarrow> string \<Rightarrow> string list" where
  "mod_buttons allowed self who idHex = (let add = (\<lambda>a label confirm. if map_of allowed a = Some True \<and> (\<not> self \<or> a = ActDelete)
       then [page_link label PathProfile (''action='' @ confirm @ ''|id='' @ idHex)] else []); rk = ps_PersonRank who in
     add ActKick ''Kick'' ''kick_confirm'' @ add ActBan ''Ban'' ''ban_confirm'' @ add ActRename ''Rename'' ''rename_confirm'' @
     add ActDelete ''Remove their last message'' ''deletelast_confirm'' @
     (if rk < RankMod then add ActMakeMod ''Make a mod'' ''mod_confirm'' else []) @
     (if rk < RankAdmin then add ActMakeAdmin ''Make an admin'' ''admin_confirm'' else []) @
     (if rk = RankMod \<or> rk = RankAdmin then add ActDemote ''Take their role away'' ''demote_confirm'' else []))"

definition no_link :: "string \<Rightarrow> string" where
  "no_link idHex = page_link ''No'' PathProfile (''id='' @ idHex)"

definition reason_box :: string where
  "reason_box = ln ''`B223  Reason (optional): `B334`<40|reason`>`b`b''"

definition confirm_action :: "string \<Rightarrow> string \<Rightarrow> string \<Rightarrow> string \<Rightarrow> string \<Rightarrow> bool \<Rightarrow> string" where
  "confirm_action idHex tok question yes vars0 reason = (let vars = vars0 @ ''|tok='' @ tok @ ''|id='' @ idHex in
     ln (''`B223`Ffb3  '' @ question @ ''`f`b'') @
     (if reason then reason_box @ ln (''`B223  '' @ fieldLink yes PathProfile ''reason'' vars @ bar @ no_link idHex @ ''`b'')
      else ln (''`B223  '' @ page_link yes PathProfile vars @ bar @ no_link idHex @ ''`b'')) @ blank)"

definition ban_box :: "string \<Rightarrow> string \<Rightarrow> string \<Rightarrow> string" where
  "ban_box idHex tok name = ln (''`B223`Ffb3  Ban '' @ name @ ''? Every app of theirs is banned and their name is freed.`f`b'') @ reason_box @
     ln (''`B223  Ban for: '' @ Join (map (\<lambda>(label, val). fieldLink label PathProfile ''reason'' (''action=ban|len='' @ val @ ''|id='' @ idHex @ ''|tok='' @ tok))
       [(''1 hour'', ''1h''), (''1 day'', ''1d''), (''7 days'', ''7d''), (''for good'', ''perm'')]) ''  '' @ bar @ no_link idHex @ ''`b'') @ blank"

definition rename_box :: "string \<Rightarrow> string \<Rightarrow> string \<Rightarrow> string" where
  "rename_box idHex tok name = ln (''`B223`Ffb3  Rename '' @ name @ '' to:`f `B334`<24|newname`>`b  '' @
     fieldLink ''Rename'' PathProfile ''newname'' (''action=rename|id='' @ idHex @ ''|tok='' @ tok) @ bar @ no_link idHex @ ''`b'') @ blank"

definition mod_confirm :: "string \<Rightarrow> string \<Rightarrow> string \<Rightarrow> Person \<Rightarrow> string" where
  "mod_confirm a idHex tok who = (let name = esc (ps_Name who); ask = confirm_action idHex tok in
     if a = ''kick_confirm'' then ask (''Kick '' @ name @ ''? They're put out everywhere and their name is freed.'') ''Yes, kick'' ''action=kick'' True
     else if a = ''ban_confirm'' then ban_box idHex tok name
     else if a = ''rename_confirm'' then rename_box idHex tok name
     else if a = ''deletelast_confirm'' then ask (''Remove '' @ name @ [CHR 0x27] @ ''s last message from the chat?'') ''Yes, remove it'' ''action=deletelast'' False
     else if a = ''mod_confirm'' then ask (''Make '' @ name @ '' a mod?'') ''Yes, make them a mod'' ''action=mod'' False
     else if a = ''admin_confirm'' then ask (''Make '' @ name @ '' an admin?'') ''Yes, make them an admin'' ''action=admin'' False
     else if a = ''demote_confirm'' then ask (''Take '' @ name @ [CHR 0x27] @ ''s '' @ Rank_String (ps_PersonRank who) @ '' role away?'') ''Yes, take it away'' ''action=demote'' False
     else '''')"

definition moderation :: "Person \<Rightarrow> Person \<Rightarrow> string \<Rightarrow> string \<Rightarrow> string pm" where
  "moderation viewer who idHex a = bindP (callP (Permissions (ps_Identity viewer) (ps_Identity who))) (\<lambda>res. case res of Inl _ \<Rightarrow> retP ''''
   | Inr allowed \<Rightarrow> let buttons = mod_buttons allowed (ps_PersonID viewer = ps_PersonID who) who idHex in
       if buttons = [] then retP ''''
       else bindP (actionToken (ps_Identity viewer)) (\<lambda>tok. retP (ln ''>>Moderation'' @ mod_confirm a idHex tok who @ ln (Join buttons bar) @ blank)))"

definition lately :: "page \<Rightarrow> Profile \<Rightarrow> Person option \<Rightarrow> view_choice \<Rightarrow> string" where
  "lately p pf viewer v = (if pf_Recent pf \<noteq> [] then ln ''>>Lately'' @ concat (map (\<lambda>m. ln (messageLine p m viewer v)) (pf_Recent pf)) @ blank else '''')"

definition profile_page :: "string \<Rightarrow> Request \<Rightarrow> Person option \<Rightarrow> string \<Rightarrow> string pm" where
  "profile_page code r viewer refusal = (let v = viewFor (rq_Fields r) viewer in bindP (page_header viewer v) (\<lambda>head.
     let nobody = retP (head @ ln ''`Ffb3There's nobody here by that link.`f'' @ blank @ back_link (view_vars v)) in
     case hex_decode (fld (rq_Fields r) ''id'') of None \<Rightarrow> nobody
     | Some target \<Rightarrow> if length target \<noteq> 16 then nobody
       else let idHex = hexID target in
       bindP (profile_action code r viewer idHex) (\<lambda>(box, a). bindP (callP (ProfileOf target)) (\<lambda>res. case res of
         Inl _ \<Rightarrow> retP (head @ notice_text refusal @ box @ ln ''`Ffb3This profile couldn't be loaded just now. Please reload.`f'')
       | Inr pf \<Rightarrow> bindP (askP (\<lambda>p. profile_head p pf @ profile_addresses pf)) (\<lambda>top.
           bindP (whisper_form viewer (pf_Person pf) idHex) (\<lambda>form. bindP (askP (\<lambda>p. lately p pf viewer v)) (\<lambda>recent.
           bindP (case viewer of None \<Rightarrow> retP '''' | Some x \<Rightarrow> moderation x (pf_Person pf) idHex a) (\<lambda>mods.
           retP (head @ notice_text refusal @ box @ top @ form @ blank @ recent @ mods @ back_link (view_vars v))))))))))"

section \<open>Help\<close>

definition help_page :: "page \<Rightarrow> view_choice \<Rightarrow> string" where
  "help_page p v = (let c = pg_cfg p in
     ln ''#!c=3600'' @ ln (''`c`!`F2c8How to join '' @ esc (pc_Title c) @ ''`f`!'') @ ln ''`a'' @ ln ''-'' @
     ln (''There's one conversation, #'' @ esc (pc_GroupRoom c) @ '', and three ways into it. Everyone sees the same messages whichever they use.'') @ blank @
     ln ''>This page'' @
     ln ''Read without doing anything. To post, identify yourself to this node (the fingerprint button in MeshChatX, or \"Identify when connecting\" in NomadNet), then reload.'' @ blank @
     ln ''>An LXMF messenger'' @
     ln (''From Sideband, MeshChatX, NomadNet or Columba, send `!/join`! to `!'' @ esc (pc_GroupAddress c) @ ''`!. Messages arrive like any conversation, as \"Name: message\". Send /help there for commands.'') @ blank @
     ln ''>An RRC client'' @
     ln (''In MeshChatX, NomadNet, rrc-tui or WeeChat, connect to hub `!'' @ esc (pc_HubAddress c) @ ''`! and join `!'' @ esc (pc_GroupRoom c) @ ''`!. When you reconnect you get what was said since you left.'') @ blank @
     ln ''>Names'' @
     ln (''Your name is tied to your Reticulum identity and is the same everywhere. Nobody else can take it or a lookalike of it. Free it with /forget, or on '' @ page_link ''Your name & settings'' PathMe '''' @ ''.'') @ blank @
     ln ''>Commands'' @
     ln ''The same commands work everywhere: here in Say, in the LXMF group and in the RRC room. Start them with / or !, which also works in NomadNet's RRC screen. Type /help to see them.'' @ blank @
     ln (Join ([page_link ''Back to the chat'' PathIndex (view_vars v)] @
       (if pc_WikiURL c \<noteq> '''' then [fullLink ''Everything about the chat, on the wiki'' (pc_WikiURL c)] else [])) bar))"

section \<open>Serve\<close>

definition page_identify :: "Request \<Rightarrow> (Person option \<times> string) pm" where
  "page_identify r = (case rq_Identity r of None \<Rightarrow> retP (None, '''')
   | Some i \<Rightarrow> bindP (callP (Identify i (rq_PublicKey r))) (\<lambda>res. retP (case res of Inl e \<Rightarrow> (None, page_userText e) | Inr x \<Rightarrow> (Some x, ''''))))"

definition page_of :: "string \<Rightarrow> Request \<Rightarrow> Person option \<Rightarrow> string \<Rightarrow> string pm" where
  "page_of code r who refusal = (if rq_Path r = PathMe then me_page code r who refusal
     else if rq_Path r = PathHelp then askP (\<lambda>p. help_page p (viewFor (rq_Fields r) who))
     else if rq_Path r = PathMessages then page_messages r
     else if rq_Path r = PathProfile then profile_page code r who refusal
     else index_page code r who refusal)"

definition Serve :: "string \<Rightarrow> Request \<Rightarrow> string pm" where
  "Serve code r = bindP (page_identify r) (\<lambda>(who, refusal). page_of code r who refusal)"

end
