(* ===== verification/PageSafety.thy ===== *)
theory PageSafety
  imports PageMe
begin

text \<open>
  What the page promises. \<open>paging\<close> says what a relation between page states must allow for every part of a page that only shows something;
  \<open>acting\<close> adds the calls behind the buttons, \<open>refusing\<close> that a request's token is not the visitor's. The first gives the histories of the page, the second
  that a link made elsewhere changes nothing that matters.
\<close>

section \<open>Calls within a relation\<close>

definition inside :: "(hub \<Rightarrow> hub \<Rightarrow> bool) \<Rightarrow> 'a hm \<Rightarrow> bool" where
  "inside H m \<longleftrightarrow> (\<forall>h r h'. m h = (r, h') \<longrightarrow> H h h')"

definition mine_opt :: "(ident \<Rightarrow> bool) \<Rightarrow> Person option \<Rightarrow> bool" where
  "mine_opt mine who \<longleftrightarrow> (case who of None \<Rightarrow> True | Some x \<Rightarrow> mine (ps_Identity x))"

lemma mine_opt_simps [simp]: "mine_opt mine None" "mine_opt mine (Some x) \<longleftrightarrow> mine (ps_Identity x)"
  by (simp_all add: mine_opt_def)

named_theorems page_ok "parts of a page stay within a relation"

lemma view_same: "reads m \<Longrightarrow> view m h = (r, h') \<Longrightarrow> h' = h"
  by (auto simp: view_def split: prod.splits dest: readsD)

lemma reads_group: "reads (add_group gs ms)"
  using reads_people by (induction gs arbitrary: ms) (auto simp: reads_def add_group_member_def intro!: hub_keeps)

lemma reads_pages:
  "reads (person i)" "reads (query (LatestMessages room b n))" "reads (hub_members room)" "reads (query (Room room))" "reads (query (Cursor i room via))"
  "reads (profile i k)"
  using reads_people reads_group unfolding profile_def hub_members_def reads_def by (auto intro!: hub_keeps)

lemma person_identity: "person i h = (Inr y, h') \<Longrightarrow> ps_Identity y = i"
  by (auto simp: person_def bnd_def asks_def queryE_def person_db_def with_person_def base_person_def Let_def bindE_def split: option.splits sum.splits)

locale paging =
  fixes pre :: "page \<Rightarrow> bool" and R :: "page \<Rightarrow> page \<Rightarrow> bool" and H :: "hub \<Rightarrow> hub \<Rightarrow> bool" and mine :: "ident \<Rightarrow> bool"
  assumes R_refl: "pre p \<Longrightarrow> R p p"
    and R_trans: "R p q \<Longrightarrow> R q s \<Longrightarrow> R p s"
    and R_call: "pre p \<Longrightarrow> H (pg_hub p) h \<Longrightarrow> R p (p\<lparr>pg_hub := h\<rparr>) \<and> pre (p\<lparr>pg_hub := h\<rparr>)"
    and R_issue: "pre p \<Longrightarrow> mine i \<Longrightarrow> issue i p = (t, p') \<Longrightarrow> R p p' \<and> pre p'"
    and H_refl: "H h h"
    and H_MarkRead: "mine i \<Longrightarrow> inside H (MarkRead i room ViaPage k)"
    and H_Whispers: "mine i \<Longrightarrow> inside H (Whispers i n)"
    and H_view: "mine i \<Longrightarrow> inside H (hub_SetPrefs i (apply_view f))"
begin

definition ok :: "('a \<Rightarrow> bool) \<Rightarrow> 'a pm \<Rightarrow> bool" where
  "ok Q m \<longleftrightarrow> (\<forall>p a p'. pre p \<longrightarrow> m p = (a, p') \<longrightarrow> R p p' \<and> pre p' \<and> Q a)"

lemma okI: "(\<And>p a p'. pre p \<Longrightarrow> m p = (a, p') \<Longrightarrow> R p p' \<and> pre p' \<and> Q a) \<Longrightarrow> ok Q m"
  by (simp add: ok_def)

lemma okD: "ok Q m \<Longrightarrow> pre p \<Longrightarrow> m p = (a, p') \<Longrightarrow> R p p' \<and> pre p' \<and> Q a"
  by (simp add: ok_def)

lemma ok_weak: "ok Q m \<Longrightarrow> ok (\<lambda>_. True) m"
  by (simp add: ok_def)

lemma ok_retP_such: "Q a \<Longrightarrow> ok Q (retP a)"
  by (auto simp: ok_def retP_def R_refl)

lemma ok_pure [page_ok]: "ok (\<lambda>_. True) (retP a)" "ok (\<lambda>_. True) (askP f)"
  by (auto simp: ok_def retP_def askP_def R_refl)

lemma ok_bindP:
  assumes "ok Q m" "\<And>a. Q a \<Longrightarrow> ok Q' (f a)"
  shows "ok Q' (bindP m f)"
proof (rule okI)
  fix p b p'
  assume p: "pre p" and run: "bindP m f p = (b, p')"
  obtain a q where m: "m p = (a, q)" by force
  from okD [OF assms(1) p this] have q: "R p q" "pre q" "Q a" by auto
  from okD [OF assms(2) [OF q(3)] q(2), of b p'] run m show "R p p' \<and> pre p' \<and> Q' b" using R_trans [OF q(1)] by (auto simp: bindP_def)
qed

lemma ok_bind [page_ok]: "ok (\<lambda>_. True) m \<Longrightarrow> (\<And>a. ok Q (f a)) \<Longrightarrow> ok Q (bindP m f)"
  by (rule ok_bindP)

lemma ok_callP [page_ok]: "inside H m \<Longrightarrow> ok (\<lambda>_. True) (callP m)"
  by (auto simp: ok_def callP_def inside_def R_call split: prod.splits)

lemma ok_if [page_ok]: "(b \<Longrightarrow> ok Q m) \<Longrightarrow> (\<not> b \<Longrightarrow> ok Q k) \<Longrightarrow> ok Q (if b then m else k)"
  by simp

lemma ok_let [page_ok]: "(\<And>a. ok Q (f a)) \<Longrightarrow> ok Q (let a = x in f a)"
  by simp

lemma ok_prod [page_ok]: "(\<And>a b. x = (a, b) \<Longrightarrow> ok Q (f a b)) \<Longrightarrow> ok Q (case x of (a, b) \<Rightarrow> f a b)"
  by (cases x) simp

lemma ok_option [page_ok]: "(x = None \<Longrightarrow> ok Q m) \<Longrightarrow> (\<And>a. x = Some a \<Longrightarrow> ok Q (f a)) \<Longrightarrow> ok Q (case x of None \<Rightarrow> m | Some a \<Rightarrow> f a)"
  by (cases x) simp_all

lemma ok_sum [page_ok]: "(\<And>a. ok Q (f a)) \<Longrightarrow> (\<And>b. ok Q (g b)) \<Longrightarrow> ok Q (case x of Inl a \<Rightarrow> f a | Inr b \<Rightarrow> g b)"
  by (cases x) simp_all

lemma ok_issue [page_ok]: "mine i \<Longrightarrow> ok (\<lambda>_. True) (issue i)" "mine i \<Longrightarrow> ok (\<lambda>_. True) (actionToken i)"
  unfolding actionToken_def ok_def using R_issue by blast+

lemma inside_view: "reads m \<Longrightarrow> inside H (view m)"
  unfolding inside_def using view_same H_refl by blast

lemma inside_reads [page_ok]:
  "inside H (hub_PersonOf i)" "inside H (Recent room n b)" "inside H (hub_Members room)" "inside H (hub_Room room)" "inside H (ReadCursor i room via)"
  "inside H (LinkedApps i)" "inside H (ProfileOf i)" "inside H (Permissions i j)"
proof -
  show "inside H (hub_PersonOf i)" "inside H (Recent room n b)" "inside H (hub_Members room)" "inside H (hub_Room room)" "inside H (ReadCursor i room via)"
    "inside H (ProfileOf i)"
    unfolding hub_PersonOf_def Recent_def hub_Members_def hub_Room_def ReadCursor_def ProfileOf_def by (rule inside_view, rule reads_pages)+
  show "inside H (LinkedApps i)" unfolding LinkedApps_def by (intro inside_view readsI hub_keeps)
  have "keeps ((=) h) (person k)" for h k using reads_people(1) by (simp add: reads_def)
  then show "inside H (Permissions i j)" unfolding Permissions_def by (intro inside_view readsI keeps_bnd keeps_pure)
qed

lemma ok_person: "mine i \<Longrightarrow> ok (\<lambda>r. \<forall>y. r = Inr y \<longrightarrow> mine (ps_Identity y)) (callP (hub_PersonOf i))"
proof (rule okI)
  fix p a p'
  assume i: "mine i" and p: "pre p" and run: "callP (hub_PersonOf i) p = (a, p')"
  obtain r h where h: "hub_PersonOf i (pg_hub p) = (r, h)" by force
  then have r: "a = r" "p' = p\<lparr>pg_hub := h\<rparr>" using run by (simp_all add: callP_def)
  have "H (pg_hub p) h" using inside_reads(1) h unfolding inside_def by blast
  moreover obtain h1 where "person i (pg_hub p) = (r, h1)" using h by (auto simp: hub_PersonOf_def view_def split: prod.splits)
  then have "ps_Identity y = i" if "r = Inr y" for y using that person_identity by blast
  ultimately show "R p p' \<and> pre p' \<and> (\<forall>y. a = Inr y \<longrightarrow> mine (ps_Identity y))" using R_call [OF p] i r by simp
qed

lemma ok_fresh_person:
  assumes "mine_opt mine who"
  shows "ok (mine_opt mine) (fresh_person who)"
proof (cases who)
  case (Some x)
  then have "mine (ps_Identity x)" using assms by simp
  then show ?thesis unfolding fresh_person_def Some by (auto intro!: ok_bindP [OF ok_person] ok_retP_such split: sum.splits)
qed (simp add: fresh_person_def ok_retP_such)

lemma ok_header [page_ok]: "ok (\<lambda>_. True) (page_header who v)"
  unfolding page_header_def by (intro page_ok)

lemma ok_chat_parts:
  assumes "mine_opt mine who"
  shows "ok (\<lambda>_. True) (postForm who)" "ok (\<lambda>_. True) (changeView r who)" "ok (\<lambda>_. True) (confirmDelete r v who)" "ok (\<lambda>_. True) (read_marker who before msgs)"
    "ok (\<lambda>_. True) (conversation_part msgs who marker before v)"
  using assms H_MarkRead H_view
  unfolding postForm_def changeView_def confirmDelete_def read_marker_def conversation_part_def
  by (cases who; auto intro!: page_ok)+

lemma ok_index:
  assumes who: "mine_opt mine who" and act: "ok (\<lambda>_. True) (index_action code r who)"
  shows "ok (\<lambda>_. True) (index_page code r who refusal)"
proof -
  have first: "ok (\<lambda>(n, rep, w). mine_opt mine w)
      (if refusal = '''' then bindP (index_action code r who) (\<lambda>(n, rep). bindP (fresh_person who) (\<lambda>w. retP (n, rep, w))) else retP (refusal, None, who))"
    using who by (auto intro!: ok_bind [OF act] ok_prod ok_bindP [OF ok_fresh_person [OF who]] ok_retP_such)
  show ?thesis unfolding index_page_def
    by (rule ok_bindP [OF first]) (auto intro!: page_ok ok_chat_parts)
qed

lemma ok_messages: "ok (\<lambda>_. True) (page_messages r)"
  unfolding page_messages_def by (auto intro!: page_ok)

lemma ok_sections:
  "mine (ps_Identity x) \<Longrightarrow> ok (\<lambda>_. True) (whisperSection x tok)" "ok (\<lambda>_. True) (linkSection x tok)"
  unfolding whisperSection_def linkSection_def using H_Whispers by (auto intro!: page_ok)

lemma ok_me:
  assumes who: "mine_opt mine who" and act: "\<And>x. who = Some x \<Longrightarrow> ok (\<lambda>(y, n, rep). mine (ps_Identity y)) (me_actions code r x)"
  shows "ok (\<lambda>_. True) (me_page code r who refusal)"
proof (cases who)
  case (Some x)
  have x: "mine (ps_Identity x)" using who Some by simp
  show ?thesis unfolding me_page_def Some
    by (simp, rule ok_bind [OF ok_issue(2) [OF x]], rule ok_bindP [OF act [OF Some]]) (auto intro!: page_ok ok_sections)
qed (auto simp: me_page_def me_anonymous_def intro!: page_ok)

lemma ok_profile_parts: "mine_opt mine viewer \<Longrightarrow> ok (\<lambda>_. True) (whisper_form viewer who idHex)"
  "mine (ps_Identity x) \<Longrightarrow> ok (\<lambda>_. True) (moderation x who idHex a)"
  unfolding whisper_form_def moderation_def by (cases viewer; auto intro!: page_ok)+

lemma ok_profile:
  assumes who: "mine_opt mine viewer" and act: "\<And>idHex. ok (\<lambda>_. True) (profile_action code r viewer idHex)"
  shows "ok (\<lambda>_. True) (profile_page code r viewer refusal)"
  unfolding profile_page_def Let_def by (intro page_ok act ok_profile_parts(1) [OF who] ok_profile_parts(2)) (use who in auto)

lemma ok_page_of:
  assumes "mine_opt mine who" "ok (\<lambda>_. True) (index_action code r who)"
    and "\<And>x. who = Some x \<Longrightarrow> ok (\<lambda>(y, n, rep). mine (ps_Identity y)) (me_actions code r x)"
    and "\<And>idHex. ok (\<lambda>_. True) (profile_action code r who idHex)"
  shows "ok (\<lambda>_. True) (page_of code r who refusal)"
  unfolding page_of_def by (intro ok_if ok_me ok_pure ok_messages ok_profile ok_index assms)

lemma ok_ask_same: "(\<And>p. pre p \<Longrightarrow> g p = c) \<Longrightarrow> ok Q (f c) \<Longrightarrow> ok Q (bindP (askP g) f)"
  by (simp add: ok_def bindP_def askP_def)

end

section \<open>Every button\<close>

locale acting = paging +
  assumes all_mine: "mine i"
    and H_Command: "inside H (Command code cr)" and H_Post: "inside H (Post pr)" and H_Delete: "inside H (DeleteMessage i k)"
    and H_Claim: "inside H (hub_ClaimName i want)" and H_Mode: "inside H (hub_SetLXMFMode i m)" and H_Mine: "inside H (hub_SetLXMFMine i b)"
    and H_Prefs: "inside H (hub_SetPrefs i g)" and H_Leave: "inside H (LeaveGroup i)" and H_Forget: "inside H (Forget i)"
begin

lemmas acts = H_Command H_Post H_Delete H_Claim H_Mode H_Mine H_Prefs H_Leave H_Forget

lemma mine_any: "mine_opt mine who" "(\<lambda>(y, n, rep). mine (ps_Identity y)) = (\<lambda>_. True)"
  by (auto simp: mine_opt_def all_mine fun_eq_iff split: option.splits)

lemma ok_index_action: "ok (\<lambda>_. True) (index_action code r who)"
  unfolding index_action_def page_post_def deleteMessage_def Let_def by (intro page_ok acts ok_chat_parts mine_any)

lemma ok_me_switch [page_ok]: "ok (\<lambda>_. True) (me_switch a f x n)"
  unfolding me_switch_def me_nick_def me_lxmf_def me_mine_def me_share_def me_leave_def me_forget_def Let_def by (intro page_ok acts)

lemma ok_me_actions: "ok (\<lambda>_. True) (me_actions code r x)"
  unfolding me_actions_def me_command_def
  by (intro page_ok acts ok_weak [OF ok_fresh_person] mine_any)

lemma ok_profile_action: "ok (\<lambda>_. True) (profile_action code r viewer idHex)"
  unfolding profile_action_def by (auto intro!: page_ok acts)

lemma ok_any_page: "ok (\<lambda>_. True) (page_of code r who refusal)"
  by (intro ok_page_of mine_any(1) ok_index_action ok_profile_action) (simp add: mine_any(2) ok_me_actions)

end

section \<open>A request without the visitor's token\<close>

definition buttons_of_me :: "string list" where
  "buttons_of_me = [''unignore'', ''whispers'', ''link'', ''redeem'', ''unlink'', ''approve'', ''deny'', ''nick'', ''lxmf'', ''mine'', ''share'', ''leave'', ''forget'']"

lemma no_button_confirms: "list_all (\<lambda>w. \<not> HasSuffix w ''_confirm'' \<and> w \<noteq> '''') buttons_of_me"
  by code_simp

lemma confirm_harmless:
  assumes "HasSuffix (fld f ''action'') ''_confirm'' \<or> fld f ''action'' = ''''"
  shows "linkCommand f = ''''" "me_switch (fld f ''action'') f x n = retP (x, n)"
proof -
  have "\<forall>b\<in>set buttons_of_me. fld f ''action'' \<noteq> b" using assms no_button_confirms by (auto simp: list_all_iff)
  then show "linkCommand f = ''''" "me_switch (fld f ''action'') f x n = retP (x, n)"
    by (simp_all add: buttons_of_me_def linkCommand_def me_switch_def)
qed

locale refusing = paging +
  fixes req :: Request
  assumes never_valid: "pre p \<Longrightarrow> mine i \<Longrightarrow> \<not> validAction req i p"
begin

lemma ok_index_action:
  assumes "mine_opt mine who"
  shows "ok (\<lambda>_. True) (index_action code req who)"
proof (cases who)
  case (Some x)
  then have "forged req who p" if "pre p" for p using that never_valid assms by (simp add: forged_def)
  then show ?thesis unfolding index_action_def
    by (auto intro!: page_ok ok_ask_same [where c = True] ok_chat_parts assms)
next
  case None
  then show ?thesis unfolding index_action_def page_post_def deleteMessage_def
    by (auto intro!: page_ok ok_ask_same [where c = False] ok_chat_parts simp: forged_def)
qed

lemma ok_me_actions:
  assumes "mine (ps_Identity x)"
  shows "ok (\<lambda>(y, n, rep). mine (ps_Identity y)) (me_actions code req x)"
proof -
  let ?f = "rq_Fields req" and ?bad = "\<lambda>a. a \<noteq> '''' \<and> \<not> HasSuffix a ''_confirm''"
  have idle: "me_switch '''' ?f y n = retP (y, n)" for y n by (simp add: me_switch_def)
  show ?thesis unfolding me_actions_def Let_def
  proof (rule ok_ask_same [where c = False])
    show "validAction req (ps_Identity x) p = False" if "pre p" for p using never_valid [OF that assms] by simp
  qed (use confirm_harmless [of ?f] idle assms in \<open>auto intro!: ok_bindP [OF ok_retP_such [where Q = "\<lambda>a. a = c" for c]] ok_retP_such simp: bindP_def retP_def\<close>)
qed

lemma ok_profile_action:
  assumes "mine_opt mine viewer"
  shows "ok (\<lambda>_. True) (profile_action code req viewer idHex)"
proof (cases viewer)
  case (Some x)
  then have "validAction req (ps_Identity x) p = False" if "pre p" for p using never_valid that assms by simp
  then show ?thesis unfolding profile_action_def Some by (auto intro!: page_ok ok_ask_same [where c = False])
qed (auto simp: profile_action_def intro!: page_ok)

lemma ok_refused: "mine_opt mine who \<Longrightarrow> ok (\<lambda>_. True) (page_of code req who refusal)"
  by (intro ok_page_of ok_index_action ok_profile_action ok_me_actions) simp_all

end

end
