(* ===== verification/PageRun.thy ===== *)
theory PageRun
  imports PageSafety
begin

text \<open>
  The page at work: the histories of its requests beside everything else the hub does, the tokens in them, what a request without
  the visitor's token can change, and why nobody's text can carry formatting.
\<close>

section \<open>Histories\<close>

inductive page_reach :: "page \<Rightarrow> bool" where
  page_start: "hub_reach h \<Longrightarrow> page_reach (page_New c h lon rnd)"
| page_served: "page_reach p \<Longrightarrow> Serve code r p = (out, p') \<Longrightarrow> page_reach p'"
| page_others: "page_reach p \<Longrightarrow> hub_step (pg_hub p) h \<Longrightarrow> page_reach (p\<lparr>pg_hub := h\<rparr>)"

section \<open>Tokens\<close>

text \<open>What is asked of crypto/rand: 16 bytes each time, and never the same ones twice.\<close>

definition good_rand :: "(nat \<Rightarrow> bytes option) \<Rightarrow> bool" where
  "good_rand rnd \<longleftrightarrow> (\<forall>n b. rnd n = Some b \<longrightarrow> length b = 16) \<and> (\<forall>m n. rnd m \<noteq> None \<longrightarrow> rnd m = rnd n \<longrightarrow> m = n)"

definition tables_ok :: "sessions \<Rightarrow> bool" where
  "tables_ok s \<longleftrightarrow> distinct (map fst (byToken s)) \<and> distinct (map fst (byID s)) \<and>
     (\<forall>i t. (i, t) \<in> set (byID s) \<longleftrightarrow> (\<exists>e. (t, i, e) \<in> set (byToken s)))"

definition sessions_ok :: "page \<Rightarrow> bool" where
  "sessions_ok p \<longleftrightarrow> tables_ok (pg_sessions p) \<and>
     (\<forall>t\<in>fst ` set (byToken (pg_sessions p)). \<exists>n b. n < pg_draws p \<and> pg_rand p n = Some b \<and> t = hexID b)"

lemma tables_one:
  assumes s: "tables_ok s" "(t, i, e) \<in> set (byToken s)" "(t', i, e') \<in> set (byToken s)"
  shows "t' = t \<and> e' = e"
proof -
  have "(i, t) \<in> set (byID s)" "(i, t') \<in> set (byID s)" "distinct (map fst (byID s))" using s unfolding tables_ok_def by blast+
  then have t: "t' = t" by (metis eq_key_imp_eq_value)
  have "distinct (map fst (byToken s))" using s(1) by (simp add: tables_ok_def)
  from eq_key_imp_eq_value [OF this s(2)] s(3) t show ?thesis by auto
qed

lemma tables_of: "tables_ok s \<Longrightarrow> map_of (byID s) i = Some t \<longleftrightarrow> (\<exists>e. map_of (byToken s) t = Some (i, e))"
  by (simp add: tables_ok_def)

lemma purge_sets:
  "(t, i, e) \<in> set (byToken (purge now s)) \<longleftrightarrow> (t, i, e) \<in> set (byToken s) \<and> \<not> e < now"
  "(i, t) \<in> set (byID (purge now s)) \<longleftrightarrow> (i, t) \<in> set (byID s) \<and> (\<forall>t' e. (t', i, e) \<in> set (byToken s) \<longrightarrow> \<not> e < now)"
  by (force simp: purge_def Let_def expired_def)+

lemma purge_distinct: "tables_ok s \<Longrightarrow> distinct (map fst (byToken (purge now s))) \<and> distinct (map fst (byID (purge now s)))"
  by (simp add: tables_ok_def purge_def Let_def distinct_map_filter)

lemma purge_ok:
  assumes s: "tables_ok s"
  shows "tables_ok (purge now s)"
proof -
  have "(i, t) \<in> set (byID (purge now s)) \<longleftrightarrow> (\<exists>e. (t, i, e) \<in> set (byToken (purge now s)))" for i t
  proof -
    have "(i, t) \<in> set (byID s) \<longleftrightarrow> (\<exists>e. (t, i, e) \<in> set (byToken s))" using s unfolding tables_ok_def by blast
    then show ?thesis using tables_one [OF s] unfolding purge_sets by metis
  qed
  then show ?thesis using purge_distinct [OF s] unfolding tables_ok_def by blast
qed

lemma renew_set: "(t', j, e) \<in> set (byToken (renew t i now s)) \<longleftrightarrow> (t' = t \<and> j = i \<and> e = now + sessionTTL) \<or> (t' \<noteq> t \<and> (t', j, e) \<in> set (byToken s))"
  by (auto simp: renew_def)

lemma renew_distinct: "distinct (map fst (byToken s)) \<Longrightarrow> distinct (map fst (byToken (renew t i now s)))" "byID (renew t i now s) = byID s"
  by (auto simp: renew_def distinct_map_filter)

lemma renew_ok:
  assumes "tables_ok s" "map_of (byID s) i = Some t"
  shows "tables_ok (renew t i now s)"
proof -
  have d: "distinct (map fst (byToken s))" "distinct (map fst (byID s))" and both: "\<And>i t. (i, t) \<in> set (byID s) \<longleftrightarrow> (\<exists>e. (t, i, e) \<in> set (byToken s))"
    using assms(1) unfolding tables_ok_def by blast+
  obtain e where e: "(t, i, e) \<in> set (byToken s)" using map_of_SomeD [OF assms(2)] both by blast
  have "j = i" if "(t, j, e') \<in> set (byToken s)" for j e' using eq_key_imp_eq_value [OF d(1) e that] by simp
  then have "(j, t') \<in> set (byID s) \<longleftrightarrow> (\<exists>e. (t', j, e) \<in> set (byToken (renew t i now s)))" for j t'
    unfolding both renew_set using e by blast
  then show ?thesis using renew_distinct d unfolding tables_ok_def by simp
qed

lemma new_token_ok:
  assumes "tables_ok s" "map_of (byID s) i = None" "t \<notin> fst ` set (byToken s)"
  shows "tables_ok (renew t i now (s\<lparr>byID := (i, t) # byID s\<rparr>))"
proof -
  have d: "distinct (map fst (byToken s))" "distinct (map fst (byID s))" and both: "\<And>i t. (i, t) \<in> set (byID s) \<longleftrightarrow> (\<exists>e. (t, i, e) \<in> set (byToken s))"
    using assms(1) unfolding tables_ok_def by blast+
  have no: "(t, j, e) \<notin> set (byToken s)" for j e using assms(3) by force
  have "(j, t') = (i, t) \<or> (j, t') \<in> set (byID s) \<longleftrightarrow> (\<exists>e. (t' = t \<and> j = i \<and> e = now + sessionTTL) \<or> (t' \<noteq> t \<and> (t', j, e) \<in> set (byToken s)))" for j t'
    unfolding both using no by blast
  moreover have "i \<notin> fst ` set (byID s)" using assms(2) by (simp add: map_of_eq_None_iff)
  ultimately show ?thesis using renew_distinct d unfolding tables_ok_def renew_set by simp
qed

lemma purge_tokens: "fst ` set (byToken (purge now s)) \<subseteq> fst ` set (byToken s)"
  by (auto simp: purge_def Let_def)

lemma drawn_tokens: "fst ` set (byToken (renew t i now s)) \<subseteq> insert t (fst ` set (byToken s))" "byToken (s\<lparr>byID := x\<rparr>) = byToken s"
  by (auto simp: renew_def)

definition drawn :: "page \<Rightarrow> nat \<Rightarrow> string set" where
  "drawn p k = {t. \<exists>n b. n < k \<and> pg_rand p n = Some b \<and> t = hexID b}"

lemma sessions_ok_drawn: "sessions_ok p \<longleftrightarrow> tables_ok (pg_sessions p) \<and> fst ` set (byToken (pg_sessions p)) \<subseteq> drawn p (pg_draws p)"
  by (auto simp: sessions_ok_def drawn_def)

lemma drawn_more: "drawn p k \<subseteq> drawn p (Suc k)" "pg_rand p k = Some b \<Longrightarrow> hexID b \<in> drawn p (Suc k)"
  "drawn (p\<lparr>pg_sessions := s\<rparr>) k = drawn p k" "drawn (p\<lparr>pg_draws := n\<rparr>) k = drawn p k" "drawn (p\<lparr>pg_hub := h\<rparr>) k = drawn p k"
  by (auto simp: drawn_def less_Suc_eq)

lemma issue_ok:
  assumes "good_rand (pg_rand p)" "sessions_ok p" "issue i p = (t, p')"
  shows "sessions_ok p' \<and> pg_hub p' = pg_hub p \<and> pg_rand p' = pg_rand p \<and> pg_cfg p' = pg_cfg p \<and> pg_draws p \<le> pg_draws p'"
proof -
  let ?now = "now_ns (pg_hub p)"
  let ?s = "purge ?now (pg_sessions p)"
  have "tables_ok (pg_sessions p)" and d: "fst ` set (byToken (pg_sessions p)) \<subseteq> drawn p (pg_draws p)" using assms(2) by (simp_all add: sessions_ok_drawn)
  then have s: "tables_ok ?s" "fst ` set (byToken ?s) \<subseteq> drawn p (pg_draws p)" by (simp add: purge_ok) (rule subset_trans [OF purge_tokens d])
  show ?thesis
  proof (cases "map_of (byID ?s) i")
    case (Some tok)
    then obtain e where "map_of (byToken ?s) tok = Some (i, e)" using tables_of [OF s(1)] by blast
    then have "tok \<in> fst ` set (byToken ?s)" by (force dest: map_of_SomeD)
    then have "fst ` set (byToken (renew tok i ?now ?s)) \<subseteq> drawn p (pg_draws p)" using s(2) drawn_tokens(1) by blast
    moreover have "p' = p\<lparr>pg_sessions := renew tok i ?now ?s\<rparr>" using Some assms(3) by (auto simp: issue_def Let_def)
    ultimately show ?thesis using renew_ok [OF s(1) Some] by (simp add: sessions_ok_drawn drawn_more(3-))
  next
    case None
    show ?thesis
    proof (cases "pg_rand p (pg_draws p)")
      case Nothing: None
      have "fst ` set (byToken ?s) \<subseteq> drawn p (Suc (pg_draws p))" using s(2) drawn_more(1) by blast
      moreover have "p' = p\<lparr>pg_sessions := ?s, pg_draws := Suc (pg_draws p)\<rparr>" using None Nothing assms(3) by (auto simp: issue_def Let_def)
      ultimately show ?thesis using s(1) by (simp add: sessions_ok_drawn drawn_more(3-))
    next
      case (Some b)
      have fresh: "hexID b \<notin> fst ` set (byToken ?s)"
      proof
        assume "hexID b \<in> fst ` set (byToken ?s)"
        then have "hexID b \<in> drawn p (pg_draws p)" using s(2) by blast
        then obtain n where "n < pg_draws p" "pg_rand p n = Some b" by (auto simp: drawn_def)
        then show False using assms(1) Some by (metis good_rand_def less_irrefl option.distinct(1))
      qed
      let ?t = "renew (hexID b) i ?now (?s\<lparr>byID := (i, hexID b) # byID ?s\<rparr>)"
      have "fst ` set (byToken ?t) \<subseteq> drawn p (Suc (pg_draws p))"
      proof -
        have "fst ` set (byToken ?t) \<subseteq> insert (hexID b) (fst ` set (byToken ?s))" using drawn_tokens(1) unfolding drawn_tokens(2) by (metis drawn_tokens(2))
        moreover have "insert (hexID b) (fst ` set (byToken ?s)) \<subseteq> drawn p (Suc (pg_draws p))" using s(2) drawn_more(1) drawn_more(2) [of p, OF Some] by blast
        ultimately show ?thesis by (rule subset_trans)
      qed
      moreover have "p' = p\<lparr>pg_draws := Suc (pg_draws p), pg_sessions := ?t\<rparr>" using None Some assms(3) by (auto simp: issue_def Let_def)
      ultimately show ?thesis using new_token_ok [OF s(1) None fresh] by (simp add: sessions_ok_drawn drawn_more(3-))
    qed
  qed
qed

section \<open>What showing a page may change\<close>

text \<open>
  Looking at a page moves the visitor's own page cursor, marks whispers read, notes when the visitor was seen, and, by the view buttons, sets how many lines,
  whether the flag and how often to refresh. \<open>core\<close> is the database without these.
\<close>

definition seen_off :: "identity_row \<Rightarrow> identity_row" where
  "seen_off r = r\<lparr>i_LastSeen := 0\<rparr>"

definition view_off :: "person_row \<Rightarrow> person_row" where
  "view_off r = r\<lparr>p_Prefs := (p_Prefs r)\<lparr>PageLines := 0, PageFlag := False, PageRefresh := 0\<rparr>\<rparr>"

definition read_off :: "whisper \<Rightarrow> whisper" where
  "read_off w = w\<lparr>w_ReadAt := 0\<rparr>"

definition core :: "ident \<Rightarrow> db \<Rightarrow> db" where
  "core i d = d\<lparr>identities := map seen_off (identities d), people := map view_off (people d), whispers := map read_off (whispers d),
     cursors := filter (\<lambda>c. \<not> (c_Identity c = i \<and> c_Via c = ViaPage)) (cursors d)\<rparr>"

definition untouched :: "ident \<Rightarrow> hub \<Rightarrow> hub \<Rightarrow> bool" where
  "untouched i h h' \<longleftrightarrow> core i (st h') = core i (st h) \<and> cfg h' = cfg h \<and> env h' = env h \<and> now_ns h' = now_ns h \<and> presence h' = presence h \<and>
     subs h' = subs h \<and> rate h' = rate h \<and> historyAt h' = historyAt h \<and> linkIssued h' = linkIssued h \<and> linkFailures h' = linkFailures h"

lemma untouched_refl: "untouched i h h"
  by (simp add: untouched_def)

lemma untouched_trans: "untouched i h h' \<Longrightarrow> untouched i h' h'' \<Longrightarrow> untouched i h h''"
  by (simp add: untouched_def)

lemma map_update_same: "(\<And>r. P r \<Longrightarrow> g (f r) = g r) \<Longrightarrow> map g (update_where P f t) = map g t"
  by (simp add: update_where_def)

lemma known_iff: "Identity j d \<noteq> None \<longleftrightarrow> j \<in> i_ID ` set (identities d)"
  by (auto simp: Identity_def find_None_iff)

lemma core_known: "core i d' = core i d \<Longrightarrow> Identity j d' \<noteq> None \<longleftrightarrow> Identity j d \<noteq> None"
proof -
  assume "core i d' = core i d"
  then have "identities (core i d') = identities (core i d)" by simp
  then have "map seen_off (identities d') = map seen_off (identities d)" by (simp add: core_def)
  then have "map i_ID (map seen_off (identities d')) = map i_ID (map seen_off (identities d))" by simp
  then have "map i_ID (identities d') = map i_ID (identities d)" by (simp add: seen_off_def comp_def)
  then have "i_ID ` set (identities d') = i_ID ` set (identities d)" by (metis set_map)
  then show ?thesis unfolding known_iff by simp
qed

text \<open>A handler under way that has changed nothing that matters: neither the core, nor what is kept in memory, nor is anything to be published.\<close>

definition mild :: "ident \<Rightarrow> hub \<Rightarrow> hub \<Rightarrow> bool" where
  "mild i h0 h \<longleftrightarrow> untouched i h0 h \<and> out_events h = [] \<and> out_after h = [] \<and> db_inv (st h) \<and> Identity i (st h) \<noteq> None"

lemma mild_st: "mild i h0 h \<Longrightarrow> core i d = core i (st h) \<Longrightarrow> db_inv d \<Longrightarrow> mild i h0 (h\<lparr>st := d\<rparr>)"
  using core_known [of i d "st h"] by (simp add: mild_def untouched_def)

lemma core_touch:
  assumes "TouchIdentity i None t d = Inr d'" "Identity i d \<noteq> None"
  shows "core i d' = core i d"
proof -
  have "0 < rows_where (\<lambda>r. i_ID r = i) (identities d)" using assms(2) by (auto simp: Identity_def rows_where_pos find_None_iff)
  then have "d' = d\<lparr>identities := update_where (\<lambda>r. i_ID r = i) (touch_row None t) (identities d)\<rparr>" using assms(1) by (auto simp: TouchIdentity_def)
  then show ?thesis by (simp add: core_def map_update_same [of _ seen_off] seen_off_def touch_row_def)
qed

lemma filter_update_out: "(\<And>r. P r \<Longrightarrow> \<not> Q r \<and> \<not> Q (f r)) \<Longrightarrow> filter Q (update_where P f t) = filter Q t"
  by (induction t) (auto simp: update_where_def)

lemma core_cursor:
  assumes "SetCursor i room ViaPage k t d = Inr d'"
  shows "core i d' = core i d"
proof -
  let ?new = "\<lparr>c_Identity = i, c_Room = room, c_Via = ViaPage, c_MessageID = k, c_UpdatedAt = t\<rparr>" and ?Q = "\<lambda>c. \<not> (c_Identity c = i \<and> c_Via c = ViaPage)"
  have d': "d' = d\<lparr>cursors := upsert cursor_key cursor_merge ?new (cursors d)\<rparr>" using assms by (auto simp: SetCursor_def)
  have "filter ?Q (update_where (\<lambda>r. cursor_key r = cursor_key ?new) (cursor_merge ?new) (cursors d)) = filter ?Q (cursors d)"
    by (rule filter_update_out) (simp add: cursor_key_def cursor_merge_def)
  then have "filter ?Q (upsert cursor_key cursor_merge ?new (cursors d)) = filter ?Q (cursors d)" by (simp add: upsert_def)
  then show ?thesis by (simp add: core_def d')
qed

lemma core_read: "core i (snd (MarkWhispersRead k u t d)) = core i d"
  by (simp add: MarkWhispersRead_def Let_def core_def map_update_same [of _ read_off] read_off_def)

lemma mild_parts:
  "keeps (mild i h0) (touch i)" "keeps (mild i h0) (exec (SetCursor i room ViaPage k t))" "keeps (mild i h0) (execR' (MarkWhispersRead p u t))"
proof -
  have "mild i h0 (snd (exec (TouchIdentity i None t) h))" if "mild i h0 h" for t h
  proof (cases "TouchIdentity i None t (st h)")
    case (Inr d)
    have "db_inv (st h)" "Identity i (st h) \<noteq> None" using that by (simp_all add: mild_def)
    then show ?thesis using Inr mild_st [OF that core_touch TouchIdentity_inv] by (simp add: exec_def)
  qed (simp add: exec_def that)
  then show "keeps (mild i h0) (touch i)" unfolding touch_def by (intro keeps_bnd keeps_pure keepsI)
  have "mild i h0 (snd (exec (SetCursor i room ViaPage k t) h))" if "mild i h0 h" for h
  proof (cases "SetCursor i room ViaPage k t (st h)")
    case (Inr d)
    have "db_inv (st h)" using that by (simp add: mild_def)
    then show ?thesis using Inr mild_st [OF that core_cursor SetCursor_inv] by (simp add: exec_def)
  qed (simp add: exec_def that)
  then show "keeps (mild i h0) (exec (SetCursor i room ViaPage k t))" by (rule keepsI)
  have "mild i h0 (snd (execR' (MarkWhispersRead p u t) h))" if "mild i h0 h" for h
  proof -
    have "db_inv (st h)" using that by (simp add: mild_def)
    then have "mild i h0 (h\<lparr>st := snd (MarkWhispersRead p u t (st h))\<rparr>)" by (intro mild_st [OF that core_read] MarkWhispersRead_inv)
    then show ?thesis by (simp add: execR'_def split: prod.splits)
  qed
  then show "keeps (mild i h0) (execR' (MarkWhispersRead p u t))" by (rule keepsI)
qed

lemma mild_update:
  assumes "db_inv (st h)" "Identity i (st h) \<noteq> None" "\<And>h0. keeps (mild i h0) m" "update m h = (r, h')"
  shows "untouched i h h'"
proof -
  let ?h = "h\<lparr>out_events := [], out_after := []\<rparr>"
  obtain q h1 where run: "m ?h = (q, h1)" by force
  have "mild i h ?h" using assms(1,2) by (simp add: mild_def untouched_def)
  from keepsD [OF assms(3) this run] have 1: "untouched i h h1" "out_events h1 = []" "out_after h1 = []" by (simp_all add: mild_def)
  show ?thesis using assms(4) run 1 by (cases q) (auto simp: update_def untouched_def publish_def fold_offer_map count_internal_def)
qed

lemma mild_MarkRead: "keeps (mild i h0) (seq (touch i) (bnd (asks nowMS) (\<lambda>t. exec (SetCursor i room ViaPage k t))))"
  by (intro keeps_seq keeps_bnd keeps_pure mild_parts)

lemma keeps_reads: "reads m \<Longrightarrow> keeps P m"
  by (metis keepsI readsD surjective_pairing)

lemma mild_inbox: "keeps (mild i h0) (Whispers_inbox i n)"
proof -
  have "keeps (mild i h0) (ignored_entry k)" for k
    unfolding ignored_entry_def by (intro hub_keeps keeps_reads reads_people(3))
  then have "keeps (mild i h0) (mapM ignored_entry ks)" for ks by (induction ks) (auto intro!: hub_keeps)
  then show ?thesis unfolding Whispers_inbox_def by (intro hub_keeps mild_parts)
qed

lemma SetPrefs_view:
  assumes inv: "db_inv d" and run: "person_db owners_list i d = Inr x" and set: "SetPrefs i (apply_view f (ps_Prefs x)) d = Inr d'" and known: "Identity i d \<noteq> None"
  shows "core i d' = core i d"
proof -
  obtain r where r: "Identity i d = Some r" using known by blast
  obtain sp where sp: "PersonOf i d = Some sp" "p_ID sp = i_Person r" using known_person [OF inv r] by blast
  have x: "ps_Prefs x = p_Prefs sp" using run r sp by (auto simp: person_db_def with_person_def Let_def bindE_def split: sum.splits option.splits)
  have spin: "sp \<in> set (people d)" using sp(1) r by (auto simp: PersonOf_def PersonByID_def find_Some_set)
  have same: "q = sp" if "q \<in> set (people d)" "p_ID q = i_Person r" for q
    using inv that spin sp(2) by (auto simp: db_inv_def inv_people_def dest: distinct_key_eq)
  have d': "d' = d\<lparr>people := update_where (\<lambda>q. p_ID q = i_Person r) (\<lambda>q. q\<lparr>p_Prefs := apply_view f (p_Prefs sp)\<rparr>) (people d)\<rparr>"
    using set r x by (auto simp: SetPrefs_def SetPrefsOfPerson_def personID_def)
  have "view_off (if p_ID q = i_Person r then q\<lparr>p_Prefs := apply_view f (p_Prefs sp)\<rparr> else q) = view_off q" if "q \<in> set (people d)" for q
    using same [OF that] by (auto simp: view_off_def apply_view_def)
  then have "map view_off (people d') = map view_off (people d)" by (simp add: d' update_where_def)
  then show ?thesis by (simp add: core_def d')
qed

lemma mild_change: "keeps (mild i h0) (change_prefs i (apply_view f))"
proof -
  have "keeps (mild i h0) (bnd (person i) (\<lambda>before. let p = apply_view f (ps_Prefs before) in
     case Prefs_Validate p of Inl e \<Rightarrow> refuse (err_text e) | Inr _ \<Rightarrow> seq (exec (SetPrefs i p)) (person i)))"
  proof (rule keepsI)
    fix h assume m: "mild i h0 h"
    then have d: "db_inv (st h)" "Identity i (st h) \<noteq> None" by (simp_all add: mild_def)
    obtain x where x: "person_db (Admins (cfg h)) i (st h) = Inr x" using person_db_Inr [OF d(1)] by blast
    then have run: "person i h = (Inr x, h)" by (simp add: person_def bnd_def asks_def queryE_def)
    let ?p = "apply_view f (ps_Prefs x)"
    have "mild i h0 (snd (exec (SetPrefs i ?p) h))"
    proof (cases "SetPrefs i ?p (st h)")
      case (Inr d')
      then show ?thesis using mild_st [OF m SetPrefs_view [OF d(1) x Inr d(2)] SetPrefs_inv [OF d(1) Inr]] by (simp add: exec_def)
    qed (simp add: exec_def m)
    moreover have "keeps (mild i h0) (person i)" by (rule keeps_reads [OF reads_people(1)])
    ultimately have "mild i h0 (snd (seq (exec (SetPrefs i ?p)) (person i) h))"
      by (cases "exec (SetPrefs i ?p) h") (auto simp: seq_def bnd_def keeps_def split: sum.splits)
    then show "mild i h0 (snd (bnd (person i) (\<lambda>before. let p = apply_view f (ps_Prefs before) in
        case Prefs_Validate p of Inl e \<Rightarrow> refuse (err_text e) | Inr _ \<Rightarrow> seq (exec (SetPrefs i p)) (person i)) h))"
      using run m by (simp add: bnd_def Let_def refuse_def thr_def split: sum.splits)
  qed
  then show ?thesis unfolding change_prefs_def by (intro keeps_seq mild_parts)
qed

definition gentle :: "ident \<Rightarrow> hub \<Rightarrow> hub \<Rightarrow> bool" where
  "gentle i h h' \<longleftrightarrow> (hub_reach h \<and> Identity i (st h) \<noteq> None \<longrightarrow> hub_reach h' \<and> untouched i h h')"

lemma reach_db: "hub_reach h \<Longrightarrow> db_inv (st h)"
  using hub_reach_sound by (auto simp: sound_def hub_inv_def)

lemma gentle_update:
  assumes "\<And>h0. keeps (mild i h0) m" "\<And>h r h'. update m h = (r, h') \<Longrightarrow> hub_step h h'"
  shows "inside (gentle i) (update m)"
  unfolding inside_def gentle_def using mild_update [OF reach_db _ assms(1)] stepped assms(2) by blast

lemma gentle_calls:
  "inside (gentle i) (MarkRead i room ViaPage k)" "inside (gentle i) (Whispers i n)" "inside (gentle i) (hub_SetPrefs i (apply_view f))"
  unfolding MarkRead_def Whispers_def hub_SetPrefs_def
  by (rule gentle_update [OF mild_MarkRead], blast intro: do_MarkRead [unfolded MarkRead_def],
      rule gentle_update [OF mild_inbox], blast intro: do_Whispers [unfolded Whispers_def],
      rule gentle_update [OF mild_change], blast intro: do_SetPrefs [unfolded hub_SetPrefs_def])

section \<open>Every request is a run of the hub\<close>

interpretation pg: adapter pg_hub "\<lambda>h p. p\<lparr>pg_hub := h\<rparr>"
  by unfold_locales simp

lemma all_calls: "calls (MarkRead i room via k)" "calls (Whispers i n)" "calls (hub_SetPrefs i g)" "calls (DeleteMessage i k)" "calls (hub_SetLXMFMode i m)"
  "calls (hub_SetLXMFMine i b)" "calls (LeaveGroup i)" "calls (Forget i)"
  unfolding calls_def by (blast intro: do_MarkRead do_Whispers do_SetPrefs do_DeleteMessage do_SetLXMFMode do_SetLXMFMine do_LeaveGroup do_Forget)+

definition runs_on :: "page \<Rightarrow> page \<Rightarrow> bool" where
  "runs_on p p' \<longleftrightarrow> pg.runs_to p p' \<and> pg_rand p' = pg_rand p \<and> pg_cfg p' = pg_cfg p"

definition tokens_kept :: "page \<Rightarrow> bool" where
  "tokens_kept p \<longleftrightarrow> (good_rand (pg_rand p) \<longrightarrow> sessions_ok p)"

lemma issue_frame: "issue i p = (t, p') \<Longrightarrow> pg_hub p' = pg_hub p \<and> pg_rand p' = pg_rand p \<and> pg_cfg p' = pg_cfg p"
  by (auto simp: issue_def Let_def split: option.splits)

lemma inside_calls: "calls m \<Longrightarrow> inside hub_step\<^sup>*\<^sup>* m"
  by (simp add: inside_def calls_def)

lemma issue_visit:
  assumes "tokens_kept p" "issue i p = (t, p')"
  shows "runs_on p p' \<and> tokens_kept p'"
proof -
  have f: "pg_hub p' = pg_hub p" "pg_rand p' = pg_rand p" "pg_cfg p' = pg_cfg p" using issue_frame [OF assms(2)] by simp_all
  have "sessions_ok p'" if "good_rand (pg_rand p)" using issue_ok [OF that _ assms(2)] assms(1) that by (simp add: tokens_kept_def)
  then show ?thesis using f by (simp add: runs_on_def tokens_kept_def pg.runs_refl)
qed

interpretation visit: acting tokens_kept runs_on "hub_step\<^sup>*\<^sup>*" "\<lambda>_. True"
proof unfold_locales
  fix p h and i :: ident and t p'
  show "runs_on p q \<Longrightarrow> runs_on q s \<Longrightarrow> runs_on p s" for q s unfolding runs_on_def using pg.runs_trans by auto
  show "tokens_kept p \<Longrightarrow> runs_on p p" by (simp add: runs_on_def pg.runs_refl)
  show "tokens_kept p \<Longrightarrow> hub_step\<^sup>*\<^sup>* (pg_hub p) h \<Longrightarrow> runs_on p (p\<lparr>pg_hub := h\<rparr>) \<and> tokens_kept (p\<lparr>pg_hub := h\<rparr>)"
    by (simp add: runs_on_def pg.runs_to_def tokens_kept_def sessions_ok_drawn drawn_more)
  show "tokens_kept p \<Longrightarrow> issue i p = (t, p') \<Longrightarrow> runs_on p p' \<and> tokens_kept p'"
    by (rule issue_visit)
qed (simp_all add: inside_calls all_calls hub_calls)

lemma serve_ok:
  assumes "tokens_kept p" "Serve code r p = (out, p')"
  shows "runs_on p p' \<and> tokens_kept p'"
proof -
  have "visit.ok (\<lambda>_. True) (page_identify r)"
    unfolding page_identify_def by (intro visit.ok_option visit.ok_pure visit.ok_bind visit.ok_callP inside_calls hub_calls(1))
  then have "visit.ok (\<lambda>_. True) (Serve code r)" unfolding Serve_def by (intro visit.ok_bind visit.ok_prod visit.ok_any_page)
  from visit.okD [OF this assms] show ?thesis by simp
qed

lemma page_reach_inv: "page_reach p \<Longrightarrow> tokens_kept p \<and> hub_reach (pg_hub p)"
proof (induction rule: page_reach.induct)
  case (page_start h c lon rnd)
  then show ?case by (simp add: page_New_def tokens_kept_def sessions_ok_def tables_ok_def)
next
  case (page_served p code r out p')
  then show ?case using serve_ok [of p code r out p'] pg.runs_reach by (auto simp: runs_on_def)
next
  case (page_others p h)
  then show ?case using stepped by (auto simp: tokens_kept_def sessions_ok_drawn drawn_more)
qed

text \<open>
  C16. In any history of page requests, whatever else happens to the hub in between: the hub is in a state its own requests lead to, and as long as the random bytes
  never repeat, every visitor has at most one token, no token is two visitors', the two tables of tokens agree, and a request counts as a visitor's own only with the token that was
  issued to just that visitor and has not run out.
\<close>

theorem page_reach_sound:
  assumes "page_reach p"
  shows "hub_reach (pg_hub p) \<and> (good_rand (pg_rand p) \<longrightarrow> distinct (map fst (byToken (pg_sessions p))) \<and> distinct (map fst (byID (pg_sessions p))) \<and>
    (\<forall>i t. map_of (byID (pg_sessions p)) i = Some t \<longleftrightarrow> (\<exists>e. map_of (byToken (pg_sessions p)) t = Some (i, e))) \<and>
    (\<forall>r i. i \<noteq> [] \<longrightarrow> validAction r i p \<longrightarrow> map_of (byID (pg_sessions p)) i = Some (fld (rq_Fields r) ''tok'') \<and>
      (\<exists>e. map_of (byToken (pg_sessions p)) (fld (rq_Fields r) ''tok'') = Some (i, e) \<and> now_ns (pg_hub p) \<le> e)))"
proof -
  have "map_of (byID (pg_sessions p)) i = Some (fld (rq_Fields r) ''tok'') \<and>
      (\<exists>e. map_of (byToken (pg_sessions p)) (fld (rq_Fields r) ''tok'') = Some (i, e) \<and> now_ns (pg_hub p) \<le> e)"
    if tk: "tables_ok (pg_sessions p)" and v: "i \<noteq> []" "validAction r i p" for r i
  proof -
    obtain e where "map_of (byToken (pg_sessions p)) (fld (rq_Fields r) ''tok'') = Some (i, e)" "now_ns (pg_hub p) \<le> e"
      using v by (auto simp: validAction_def token_identity_def Let_def split: option.splits if_splits)
    then show ?thesis using tables_of [OF tk] by blast
  qed
  moreover have "tables_ok (pg_sessions p)" if "good_rand (pg_rand p)" using page_reach_inv [OF assms] that by (simp add: tokens_kept_def sessions_ok_def)
  ultimately show ?thesis using page_reach_inv [OF assms] tables_of by (simp add: tables_ok_def)
qed

section \<open>A link made elsewhere\<close>

text \<open>The request's token is none of the visitor's, and none of the random tokens still to come.\<close>

definition unguessed :: "Request \<Rightarrow> page \<Rightarrow> bool" where
  "unguessed r p \<longleftrightarrow> (\<forall>n b. pg_draws p \<le> n \<longrightarrow> pg_rand p n = Some b \<longrightarrow> hexID b \<noteq> fld (rq_Fields r) ''tok'')"

definition forged_pre :: "ident \<Rightarrow> Request \<Rightarrow> page \<Rightarrow> bool" where
  "forged_pre i r p \<longleftrightarrow> good_rand (pg_rand p) \<and> sessions_ok p \<and> hub_reach (pg_hub p) \<and> Identity i (st (pg_hub p)) \<noteq> None \<and> unguessed r p \<and> \<not> validAction r i p \<and> i \<noteq> []"

lemma validAction_hub:
  assumes "now_ns h = now_ns (pg_hub p)"
  shows "validAction r i (p\<lparr>pg_hub := h\<rparr>) = validAction r i p"
proof -
  have "token_identity u (p\<lparr>pg_hub := h\<rparr>) = token_identity u p" for u using assms by (simp add: token_identity_def split: option.splits)
  then show ?thesis by (simp add: validAction_def)
qed

lemma issue_tokens:
  assumes "sessions_ok p" "issue i p = (t, p')"
  shows "now_ns (pg_hub p') = now_ns (pg_hub p)"
    "token_identity u p' = Some i \<Longrightarrow> token_identity u p = Some i \<or> (\<exists>b. pg_rand p (pg_draws p) = Some b \<and> u = hexID b)"
proof -
  let ?s = "purge (now_ns (pg_hub p)) (pg_sessions p)"
  show "now_ns (pg_hub p') = now_ns (pg_hub p)" using issue_frame [OF assms(2)] by simp
  have ok: "tables_ok (pg_sessions p)" "tables_ok ?s" using assms(1) purge_ok by (simp_all add: sessions_ok_def)
  have old: "token_identity u p = Some i" if "map_of (byToken ?s) u = Some (i, e)" for u e
  proof -
    have "(u, i, e) \<in> set (byToken (pg_sessions p))" "\<not> e < now_ns (pg_hub p)" using map_of_SomeD [OF that] by (simp_all add: purge_sets)
    then show ?thesis using ok(1) by (simp add: token_identity_def tables_ok_def)
  qed
  have kept: "map_of (byToken (renew v i n s)) u = (if u = v then Some (i, n + sessionTTL) else map_of (byToken s) u)" for v n s
  proof -
    have "map_of (filter (\<lambda>e. fst e \<noteq> v) xs) u = (if u = v then None else map_of xs u)" for xs :: "(string \<times> ident \<times> int) list"
      by (induction xs) auto
    then show ?thesis by (simp add: renew_def)
  qed
  assume u: "token_identity u p' = Some i"
  then obtain e where e: "map_of (byToken (pg_sessions p')) u = Some (i, e)" by (auto simp: token_identity_def split: option.splits if_splits)
  show "token_identity u p = Some i \<or> (\<exists>b. pg_rand p (pg_draws p) = Some b \<and> u = hexID b)"
  proof (cases "map_of (byID ?s) i")
    case (Some v)
    then obtain e' where "map_of (byToken ?s) v = Some (i, e')" using tables_of [OF ok(2)] by blast
    moreover have "pg_sessions p' = renew v i (now_ns (pg_hub p)) ?s" using Some assms(2) by (auto simp: issue_def Let_def)
    ultimately show ?thesis using e old by (auto simp: kept split: if_splits)
  next
    case None
    then show ?thesis using assms(2) e old by (auto simp: issue_def Let_def kept split: option.splits if_splits)
  qed
qed

lemma forged_issue:
  assumes "forged_pre i r p" "issue i p = (t, p')"
  shows "forged_pre i r p'"
proof -
  have p: "good_rand (pg_rand p)" "sessions_ok p" "unguessed r p" "\<not> validAction r i p" "i \<noteq> []" using assms(1) by (simp_all add: forged_pre_def)
  have f: "sessions_ok p'" "pg_hub p' = pg_hub p" "pg_rand p' = pg_rand p" "pg_draws p \<le> pg_draws p'" using issue_ok [OF p(1,2) assms(2)] by auto
  let ?u = "fld (rq_Fields r) ''tok''"
  have "\<not> validAction r i p'"
  proof
    assume "validAction r i p'"
    then have u: "?u \<noteq> ''''" "token_identity ?u p' = Some i" using p(5) by (auto simp: validAction_def Let_def split: option.splits)
    from issue_tokens(2) [OF p(2) assms(2) u(2)] show False
      using p(3,4) u(1) by (auto simp: validAction_def unguessed_def)
  qed
  moreover have "unguessed r p'" using p(3) f(3,4) unfolding unguessed_def by (metis order_trans)
  ultimately show ?thesis using assms(1) f by (simp add: forged_pre_def)
qed

interpretation elsewhere: refusing "forged_pre i r" "\<lambda>p p'. untouched i (pg_hub p) (pg_hub p')" "gentle i" "\<lambda>j. j = i" r for i r
proof unfold_locales
  fix p h j t p'
  show "forged_pre i r p \<Longrightarrow> gentle i (pg_hub p) h \<Longrightarrow> untouched i (pg_hub p) (pg_hub (p\<lparr>pg_hub := h\<rparr>)) \<and> forged_pre i r (p\<lparr>pg_hub := h\<rparr>)"
    using core_known [of i "st h" "st (pg_hub p)" i]
    by (auto simp: forged_pre_def gentle_def unguessed_def sessions_ok_drawn drawn_more validAction_hub untouched_def)
  show "forged_pre i r p \<Longrightarrow> j = i \<Longrightarrow> issue j p = (t, p') \<Longrightarrow> untouched i (pg_hub p) (pg_hub p') \<and> forged_pre i r p'"
    using forged_issue [of i r p t p'] issue_frame [of i p t p'] by (simp add: untouched_refl)
qed (auto simp: untouched_refl gentle_def gentle_calls forged_pre_def intro: untouched_trans)

lemma Identify_known:
  assumes "Identify i pk h = (Inr x, h')"
  shows "Identity i (st h') \<noteq> None \<and> i \<noteq> [] \<and> ps_Identity x = i"
proof -
  from assms obtain h1 where run: "seq (checkHubBan i) (bnd (asks nowMS) (\<lambda>t. seq (exec (TouchIdentity i pk t)) (person i))) (h\<lparr>out_events := [], out_after := []\<rparr>) = (Inr x, h1)"
    and st: "st h' = st h1" unfolding Identify_def by (rule update_Inr)
  from run obtain t d where d: "TouchIdentity i pk t (st h) = Inr d" and p: "person i (h\<lparr>out_events := [], out_after := [], st := d\<rparr>) = (Inr x, h1)"
    by (auto simp: seq_def bnd_def checkHubBan_run asks_def exec_def split: if_splits sum.splits)
  have "h1 = h\<lparr>out_events := [], out_after := [], st := d\<rparr>" using readsD [OF reads_people(1) p] .
  then have "st h' = d" using st by simp
  moreover have "i \<in> set (map i_ID (identities d))"
  proof (cases "0 < rows_where (\<lambda>r. i_ID r = i) (identities (st h))")
    case True
    then have "map i_ID (identities d) = map i_ID (identities (st h))" using d by (auto simp: TouchIdentity_def touch_row_def intro!: map_update_same)
    then show ?thesis using True by (auto simp: rows_where_pos simp del: set_map) (metis image_eqI set_map)
  next
    case False
    then show ?thesis using d by (auto simp: TouchIdentity_def newPerson_def Let_def rows_where_pos split: if_splits)
  qed
  then have "Identity i d \<noteq> None" unfolding known_iff by simp
  moreover have "length i = 16" using d by (auto simp: TouchIdentity_def)
  ultimately show ?thesis using person_identity [OF p] by auto
qed

text \<open>
  C9. A link made anywhere but on a page rendered for the visitor does nothing in the visitor's name. When an identified visitor's request carries no valid token of theirs (and no
  random token still to be drawn), whatever page it asks for and whatever else it says: rooms, messages, names, people and their ranks, linked apps, bans, members, deliveries, the log, the settings for
  LXMF and sharing, presence, the limits and everybody's event queues are after the request as they were when the visitor had been identified. What may change is the time the
  visitor was last seen, what they have read, and how their page looks.
\<close>

theorem forged_links_harmless:
  assumes "page_reach p" "good_rand (pg_rand p)" "rq_Identity r = Some i" "Identify i (rq_PublicKey r) (pg_hub p) = (Inr x, h)"
    and "\<not> validAction r i (p\<lparr>pg_hub := h\<rparr>)" "unguessed r p" "Serve code r p = (out, p')"
  shows "untouched i h (pg_hub p')"
proof -
  let ?p = "p\<lparr>pg_hub := h\<rparr>"
  have p: "hub_reach (pg_hub p)" "sessions_ok p" using page_reach_inv [OF assms(1)] assms(2) by (simp_all add: tokens_kept_def)
  have x: "Identity i (st h) \<noteq> None" "i \<noteq> []" "ps_Identity x = i" using Identify_known [OF assms(4)] by auto
  have "hub_reach h" using stepped [OF p(1) do_Identify [OF assms(4)]] .
  then have f: "forged_pre i r ?p" using assms(2,5,6) p(2) x by (simp add: forged_pre_def sessions_ok_drawn drawn_more unguessed_def)
  have run: "page_of code r (Some x) '''' ?p = (out, p')"
    using assms(3,4,7) by (simp add: Serve_def page_identify_def bindP_def callP_def retP_def)
  have "mine_opt (\<lambda>j. j = i) (Some x)" using x(3) by simp
  from elsewhere.okD [OF elsewhere.ok_refused [OF this] f run] show ?thesis by simp
qed

text \<open>Alice's client follows a link from somewhere else, which would post in her name.\<close>

definition plain_config :: page_config where
  "plain_config = \<lparr>pc_Title = '''', pc_GroupRoom = '''', pc_HubAddress = '''', pc_GroupAddress = '''', pc_NodeAddress = '''', pc_WikiURL = '''', pc_Banner = Some []\<rparr>"

definition no_zone :: london where
  "no_zone = \<lparr>lo_Year = (\<lambda>_. 2025), lo_YearDay = (\<lambda>_. 1), lo_time = (\<lambda>_. ''12:00''), lo_day_time = (\<lambda>_. ''Mon 12:00''), lo_date = (\<lambda>_. ''1 January 2025'')\<rparr>"

text \<open>Random bytes that never repeat: the number of the draw in unary up to 16, then an error.\<close>

definition counting :: "nat \<Rightarrow> bytes option" where
  "counting n = (if n < 16 then Some (replicate n (CHR 0x01) @ replicate (16 - n) (CHR 0x00)) else None)"

lemma good_counting: "good_rand counting"
proof -
  let ?b = "\<lambda>n. replicate n (CHR 0x01) @ replicate (16 - n) (CHR 0x00)"
  have ones: "length (filter ((=) (CHR 0x01)) (?b n)) = n" for n by (simp add: filter_replicate)
  have "m = n" if "counting m \<noteq> None" "counting m = counting n" for m n
  proof -
    have "?b m = ?b n" using that unfolding counting_def by (metis option.inject)
    then show ?thesis using ones by metis
  qed
  moreover have "length b = 16" if "counting n = Some b" for n b
    using that unfolding counting_def by (cases "n < 16") auto
  ultimately show ?thesis unfolding good_rand_def by blast
qed

definition town_page :: page where
  "town_page = page_New plain_config town_started no_zone counting"

definition forged_request :: Request where
  "forged_request = \<lparr>rq_Path = PathIndex, rq_Fields = [(''action'', ''send''), (''message'', ''spam'')], rq_Identity = Some alice, rq_PublicKey = None, rq_RequestID = None\<rparr>"

lemma town_page_reach: "page_reach town_page"
  unfolding town_page_def by (rule page_start [OF town_started_reach])

lemma alice_seen: "\<not> isl (fst (Identify alice None town_started))"
  "map m_ID (messages (st (snd (Identify alice None town_started)))) = map m_ID (messages (st town_started))"
  by code_simp+

theorem forged_links_harmless_witness:
  "\<exists>out p'. Serve '''' forged_request town_page = (out, p') \<and> map m_ID (messages (st (pg_hub p'))) = map m_ID (messages (st town_started))"
proof -
  obtain x h where x: "Identify alice None town_started = (Inr x, h)" using alice_seen(1) by (metis (full_types) fst_conv old.prod.exhaust sum.collapse(2))
  obtain out p' where run: "Serve '''' forged_request town_page = (out, p')" by force
  have t: "pg_hub town_page = town_started" "pg_rand town_page = counting" by (simp_all add: town_page_def page_New_def)
  have "fld (rq_Fields forged_request) ''tok'' = ''''" by code_simp
  moreover have "hexID b \<noteq> ''''" if "counting n = Some b" for n b
  proof -
    have "length b = 16" using good_counting that by (simp add: good_rand_def)
    then show ?thesis using length_hexID [of b] by force
  qed
  ultimately have "\<not> validAction forged_request alice (town_page\<lparr>pg_hub := h\<rparr>)" "unguessed forged_request town_page"
    by (auto simp: validAction_def unguessed_def t)
  then have "untouched alice h (pg_hub p')"
    using forged_links_harmless [OF town_page_reach _ _ _ _ _ run, of alice x h] x good_counting by (simp add: forged_request_def t)
  then have "messages (core alice (st (pg_hub p'))) = messages (core alice (st h))" by (simp add: untouched_def)
  then show ?thesis using run alice_seen(2) x by (auto simp: core_def)
qed

theorem page_reach_sound_witness: "page_reach town_page \<and> good_rand (pg_rand town_page) \<and> hub_reach (pg_hub town_page)"
  using page_reach_sound [OF town_page_reach] good_counting town_page_reach by (simp add: town_page_def page_New_def)

section \<open>Nobody's text carries formatting\<close>

text \<open>
  How a Micron reader takes text inside a line: a backslash makes the next character plain, a backtick starts formatting. \<open>None\<close> when there is formatting.
\<close>

fun micron_text :: "string \<Rightarrow> string option" where
  "micron_text [] = Some []"
| "micron_text (c # cs) = (if c = backslash then (case cs of [] \<Rightarrow> None | d # ds \<Rightarrow> map_option ((#) d) (micron_text ds))
     else if c = backtick then None else map_option ((#) c) (micron_text cs))"

lemma micron_esc: "micron_text (esc s @ rest) = map_option ((@) s) (micron_text rest)"
  by (induction s) (auto simp: esc_def esc_char_def backslash_def backtick_def option.map_comp comp_def option.map_ident)

lemma esc_lines: "ReplaceByte (CHR 0x0A) (CHR 0x0A # sp) (esc s) = concat (map (\<lambda>c. if c = CHR 0x0A then CHR 0x0A # sp else esc_char c) s)"
  by (induction s) (auto simp: esc_def ReplaceByte_def esc_char_def backslash_def backtick_def)

lemma micron_plain: "backslash \<notin> set s \<Longrightarrow> backtick \<notin> set s \<Longrightarrow> micron_text (s @ rest) = map_option ((@) s) (micron_text rest)"
  by (cases "micron_text rest"; induction s) auto

lemma micron_body: "micron_text (body_text m) = Some (ReplaceByte (CHR 0x0A) (CHR 0x0A # ''          '') (m_Body m))"
proof -
  let ?sp = "''          ''"
  have "micron_text (concat (map (\<lambda>c. if c = CHR 0x0A then CHR 0x0A # ?sp else esc_char c) s)) = Some (ReplaceByte (CHR 0x0A) (CHR 0x0A # ?sp) s)" for s
    using micron_plain [of "CHR 0x0A # ?sp"]
    by (induction s) (auto simp: ReplaceByte_def esc_char_def backslash_def backtick_def option.map_comp comp_def)
  then show ?thesis by (simp only: body_text_def esc_lines)
qed

lemma indented:
  assumes "CHR 0x0A \<notin> set sp" "ReplaceByte (CHR 0x0A) (CHR 0x0A # sp) s = a @ CHR 0x0A # b"
  shows "prefix sp b"
  using assms(2)
proof (induction s arbitrary: a)
  case (Cons x s)
  show ?case
  proof (cases "x = CHR 0x0A")
    case True
    then have eq: "CHR 0x0A # sp @ ReplaceByte (CHR 0x0A) (CHR 0x0A # sp) s = a @ CHR 0x0A # b" using Cons.prems by (simp add: ReplaceByte_def)
    show ?thesis
    proof (cases a)
      case (Cons y a')
      then have "sp @ ReplaceByte (CHR 0x0A) (CHR 0x0A # sp) s = a' @ CHR 0x0A # b" using eq by auto
      then obtain us where "sp = a' @ us \<and> us @ ReplaceByte (CHR 0x0A) (CHR 0x0A # sp) s = CHR 0x0A # b \<or>
          sp @ us = a' \<and> ReplaceByte (CHR 0x0A) (CHR 0x0A # sp) s = us @ CHR 0x0A # b" by (auto simp: append_eq_append_conv2)
      then show ?thesis
      proof (elim disjE conjE)
        assume "sp = a' @ us" "us @ ReplaceByte (CHR 0x0A) (CHR 0x0A # sp) s = CHR 0x0A # b"
        then show ?thesis using assms(1) Cons.IH [of "[]"] by (cases us) auto
      qed (rule Cons.IH)
    qed (use eq in \<open>auto simp: prefix_def\<close>)
  next
    case False
    then show ?thesis using Cons.prems Cons.IH by (cases a) (auto simp: ReplaceByte_def)
  qed
qed (simp add: ReplaceByte_def)



section \<open>Two places where the page is less careful\<close>

text \<open>The view buttons save an identified visitor's choices without asking for a token, so a link made elsewhere can set them.\<close>

definition forged_view :: Request where
  "forged_view = forged_request\<lparr>rq_Fields := [(''action'', ''view''), (''lines'', ''100'')]\<rparr>"

lemma view_unguarded:
  "let x = projr (fst (Identify alice None town_started)); p = snd (index_action '''' forged_view (Some x) town_page) in
   \<not> validAction forged_view alice town_page \<and> map (\<lambda>q. PageLines (p_Prefs q)) (people (st (pg_hub town_page))) = [30, 30] \<and>
   map (\<lambda>q. PageLines (p_Prefs q)) (people (st (pg_hub p))) = [100, 30]"
  by code_simp

text \<open>The excerpt in the question before a message is removed keeps its line breaks, so a line of somebody's text starts at the margin.\<close>

lemma excerpt_starts_line:
  "\<exists>a b. confirm_box v ev \<lparr>m_ID = 1, m_Room = ''r'', m_Kind = KindMsg, m_Author = [], m_AuthorName = ''A'', m_Body = [CHR ''x'', CHR 0x0A, CHR ''>''], m_Via = ViaRRC,
     m_OriginID = None, m_SaidAt = 0, m_HubAt = 0, m_Ext = None\<rparr> tok = a @ CHR 0x0A # CHR ''>'' # b"
  by (rule exI [of _ "''`B223`Ffb3  Remove this message from A? \"x''"])
     (simp add: confirm_box_def ln_def esc_def esc_char_def backslash_def backtick_def)

end
