(* ===== verification/Importer.thy ===== *)
theory Importer
  imports LxmfGroup
begin

text \<open>
  internal/importer/importer.go: the one-off import of the services the hub replaces. The decoders (TOML, JSON, CBOR) and the file system are not modelled: a file is what
  its decoder made of it (\<open>Found\<close>), missing or broken; a history file is its bytes, whose records are read here, with the decoder of one record as a parameter. Go's maps are lists in
  the order the iteration gives. The writing is the store's operations in the code's order, in one transaction.
\<close>

section \<open>What is read\<close>

record Report =
  rp_Identities :: nat
  rp_Names :: nat
  rp_Members :: nat
  rp_Rooms :: nat
  rp_Bans :: nat
  rp_Messages :: nat
  rp_Duplicates :: nat
  rp_Old :: nat
  rp_Notes :: "string list"

definition empty_report :: Report where
  "empty_report = \<lparr>rp_Identities = 0, rp_Names = 0, rp_Members = 0, rp_Rooms = 0, rp_Bans = 0, rp_Messages = 0, rp_Duplicates = 0, rp_Old = 0, rp_Notes = []\<rparr>"

definition rp_note :: "string \<Rightarrow> Report \<Rightarrow> Report" where
  "rp_note t r = r\<lparr>rp_Notes := rp_Notes r @ [t]\<rparr>"

definition Report_String :: "Report \<Rightarrow> string" where
  "Report_String r = ''identities '' @ itoa (int (rp_Identities r)) @ '', names '' @ itoa (int (rp_Names r)) @ '', group members '' @ itoa (int (rp_Members r)) @
     '', rooms '' @ itoa (int (rp_Rooms r)) @ '', bans '' @ itoa (int (rp_Bans r)) @ [CHR 0x0A] @
     ''messages '' @ itoa (int (rp_Messages r)) @ '' imported, '' @ itoa (int (rp_Duplicates r)) @ '' already there, '' @ itoa (int (rp_Old r)) @ '' past retention'' @ [CHR 0x0A] @
     concat (map (\<lambda>n. ''  - '' @ n @ [CHR 0x0A]) (rp_Notes r))"

record imp_peer =
  ip_id :: ident
  ip_publicKey :: "bytes option"
  ip_nick :: string
  ip_lastSeen :: millis

record imp_member =
  im_id :: ident
  im_nick :: string
  im_joinedAt :: millis
  im_lastSeen :: millis
  im_paused :: bool

record imp_room =
  ir_name :: string
  ir_founder :: "ident option"
  ir_topic :: string
  ir_modes :: string
  ir_ops :: "ident list"
  ir_voiced :: "ident list"
  ir_bans :: "ident list"
  ir_lastUsed :: millis

record imp_message =
  ig_room :: string
  ig_action :: bool
  ig_author :: ident
  ig_name :: string
  ig_body :: string
  ig_origin :: string
  ig_saidAt :: millis
  ig_hubAt :: millis

record sourceData =
  sd_peers :: "imp_peer list"
  sd_members :: "imp_member list"
  sd_rooms :: "imp_room list"
  sd_bans :: "ident list"
  sd_messages :: "imp_message list"

definition no_data :: sourceData where
  "no_data = \<lparr>sd_peers = [], sd_members = [], sd_rooms = [], sd_bans = [], sd_messages = []\<rparr>"

section \<open>The old files\<close>

datatype 'a source_file = Missing | Broken string | Found 'a

record toml_peer =
  tp_key :: string
  tp_public_key :: string
  tp_nick :: string
  tp_last_seen_ts :: rat

record toml_room =
  tr_name :: string
  tr_founder :: string
  tr_topic :: string
  tr_moderated :: bool
  tr_invite_only :: bool
  tr_topic_ops_only :: bool
  tr_no_outside_msgs :: bool
  tr_private :: bool
  tr_operators :: "string list"
  tr_voiced :: "string list"
  tr_bans :: "string list"
  tr_last_used_ts :: rat

record history_file =
  hf_path :: string
  hf_base :: string
  hf_dir :: string
  hf_raw :: "bytes source_file"

record rrchub_files =
  rf_peers :: "toml_peer list source_file"
  rf_rooms :: "toml_room list source_file"
  rf_klines :: "string list source_file"
  rf_history :: "history_file list"

datatype rec_value = RUint nat | RText string | RBytes bytes | ROther

type_synonym rec_decoder = "bytes \<Rightarrow> (nat \<times> rec_value) list option"

text \<open>Go's type assertions with the zero value for anything else.\<close>

definition rec_uint :: "(nat \<times> rec_value) list \<Rightarrow> nat \<Rightarrow> nat" where
  "rec_uint r k = (case map_of r k of Some (RUint n) \<Rightarrow> n | _ \<Rightarrow> 0)"

definition rec_text :: "(nat \<times> rec_value) list \<Rightarrow> nat \<Rightarrow> string" where
  "rec_text r k = (case map_of r k of Some (RText t) \<Rightarrow> t | _ \<Rightarrow> '''')"

definition rec_bytes :: "(nat \<times> rec_value) list \<Rightarrow> nat \<Rightarrow> bytes" where
  "rec_bytes r k = (case map_of r k of Some (RBytes b) \<Rightarrow> b | _ \<Rightarrow> [])"

definition int64_of :: "nat \<Rightarrow> int" where
  "int64_of n = (if n < 2 ^ 63 then int n else int n - 2 ^ 64)"

text \<open>int64 of a float64: towards zero.\<close>

definition trunc_ms :: "rat \<Rightarrow> int" where
  "trunc_ms x = (if 0 \<le> x then \<lfloor>x * 1000\<rfloor> else \<lceil>x * 1000\<rceil>)"

definition hashOrNil :: "string \<Rightarrow> ident option" where
  "hashOrNil s = (case hex_decode (TrimSpace (TrimPrefix s ''0x'')) of None \<Rightarrow> None | Some b \<Rightarrow> if length b \<noteq> 16 then None else Some b)"

definition imp_hashes :: "env \<Rightarrow> string \<Rightarrow> string list \<Rightarrow> Report \<Rightarrow> ident list \<times> Report" where
  "imp_hashes v place xs rep = fold (\<lambda>s (out, r). case hashOrNil s of Some b \<Rightarrow> (out @ [b], r)
     | None \<Rightarrow> (out, rp_note (place @ '': '' @ quote v s @ '' is not an identity hash; skipped'') r)) xs ([], rep)"

text \<open>The message of a history record, when it is one.\<close>

definition history_message :: "string \<Rightarrow> (nat \<times> rec_value) list \<Rightarrow> imp_message option" where
  "history_message room r = (let typ = rec_uint r 5; body = rec_text r 6; src = rec_bytes r 3; hubAt = rec_uint r 1; said = rec_uint r 7 in
     if (typ \<noteq> 20 \<and> typ \<noteq> 22) \<or> body = '''' \<or> length src \<noteq> 16 then None
     else Some \<lparr>ig_room = room, ig_action = (typ = 22), ig_author = src, ig_name = rec_text r 4, ig_body = body, ig_origin = ''rrc-hub:'' @ hexID (rec_bytes r 2),
       ig_saidAt = int64_of (if said = 0 then hubAt else said), ig_hubAt = int64_of hubAt\<rparr>)"

definition big_endian32 :: "bytes \<Rightarrow> nat" where
  "big_endian32 b = foldl (\<lambda>n c. 256 * n + of_char c) 0 (take 4 b)"

text \<open>readHistory: records of a four-byte length and a CBOR map; a torn end is noted.\<close>

function readHistory :: "rec_decoder \<Rightarrow> string \<Rightarrow> string \<Rightarrow> bytes \<Rightarrow> Report \<Rightarrow> imp_message list \<times> Report" where
  "readHistory dec base room raw rep =
     (if raw = [] then ([], rep)
      else if length raw < 4 then ([], rp_note (''history '' @ base @ '': torn length at the end, ignored'') rep)
      else let n = big_endian32 raw; rest = drop 4 raw in
        if 2 ^ 20 < n \<or> length rest < n then ([], rp_note (''history '' @ base @ '': torn or oversized record at the end, ignored'') rep)
        else case dec (take n rest) of
          None \<Rightarrow> readHistory dec base room (drop (4 + n) raw) (rp_note (''history '' @ base @ '': unreadable record skipped'') rep)
        | Some r \<Rightarrow> (case readHistory dec base room (drop (4 + n) raw) rep of (ms, rep') \<Rightarrow>
            (case history_message room r of None \<Rightarrow> (ms, rep') | Some m \<Rightarrow> (m # ms, rep'))))"
  by pat_completeness auto
termination
  by (relation "measure (\<lambda>(dec, base, room, raw, rep). length raw)") auto

declare readHistory.simps [simp del]

definition read_peer :: "env \<Rightarrow> toml_peer \<Rightarrow> sourceData \<times> Report \<Rightarrow> sourceData \<times> Report" where
  "read_peer v p s = (case s of (d, rep) \<Rightarrow> case hex_decode (tp_key p) of
       None \<Rightarrow> (d, rp_note (''rrc-hub peer '' @ quote v (tp_key p) @ '' skipped: not an identity hash'') rep)
     | Some i \<Rightarrow> if length i \<noteq> 16 then (d, rp_note (''rrc-hub peer '' @ quote v (tp_key p) @ '' skipped: not an identity hash'') rep)
       else let pk = (case hex_decode (tp_public_key p) of None \<Rightarrow> None | Some k \<Rightarrow> if length k \<noteq> 64 then None else Some k) in
         (d\<lparr>sd_peers := sd_peers d @ [\<lparr>ip_id = i, ip_publicKey = pk, ip_nick = tp_nick p, ip_lastSeen = trunc_ms (tp_last_seen_ts p)\<rparr>]\<rparr>, rep))"

text \<open>The mode letters. The code ranges over a map, in any order; SetMode sorts them.\<close>

definition toml_modes :: "(char \<times> (toml_room \<Rightarrow> bool)) list" where
  "toml_modes = [(CHR ''m'', tr_moderated), (CHR ''i'', tr_invite_only), (CHR ''t'', tr_topic_ops_only), (CHR ''n'', tr_no_outside_msgs), (CHR ''p'', tr_private)]"

definition read_room :: "env \<Rightarrow> toml_room \<Rightarrow> sourceData \<times> Report \<Rightarrow> sourceData \<times> Report" where
  "read_room v r s = (case s of (d, rep) \<Rightarrow>
     case imp_hashes v (tr_name r) (tr_operators r) rep of (ops, rep1) \<Rightarrow>
     case imp_hashes v (tr_name r) (tr_voiced r) rep1 of (voiced, rep2) \<Rightarrow>
     case imp_hashes v (tr_name r) (tr_bans r) rep2 of (bs, rep3) \<Rightarrow>
       (d\<lparr>sd_rooms := sd_rooms d @ [\<lparr>ir_name = ToLower (ulower v) (TrimSpace (tr_name r)), ir_founder = hashOrNil (tr_founder r), ir_topic = tr_topic r,
          ir_modes = map fst (filter (\<lambda>(c, on). on r) toml_modes), ir_ops = ops, ir_voiced = voiced, ir_bans = bs, ir_lastUsed = trunc_ms (tr_last_used_ts r)\<rparr>]\<rparr>, rep3))"

definition read_history_file :: "rec_decoder \<Rightarrow> history_file \<Rightarrow> sourceData \<times> Report \<Rightarrow> string + (sourceData \<times> Report)" where
  "read_history_file dec f s = (case s of (d, rep) \<Rightarrow> case hex_decode (hf_dir f) of
       None \<Rightarrow> Inr (d, rp_note (''history '' @ hf_path f @ '' skipped: room directory is not hex'') rep)
     | Some room \<Rightarrow> (case hf_raw f of
         Found raw \<Rightarrow> (case readHistory dec (hf_base f) room raw rep of (ms, rep') \<Rightarrow> Inr (d\<lparr>sd_messages := sd_messages d @ ms\<rparr>, rep'))
       | Broken e \<Rightarrow> Inl (''history '' @ hf_path f @ '': '' @ e)
       | Missing \<Rightarrow> Inl (''history '' @ hf_path f @ '': file does not exist'')))"

definition file_or :: "string \<Rightarrow> 'a list source_file \<Rightarrow> string + 'a list" where
  "file_or name f = (case f of Missing \<Rightarrow> Inr [] | Broken e \<Rightarrow> Inl (name @ '': '' @ e) | Found xs \<Rightarrow> Inr xs)"

definition readRRCHub :: "env \<Rightarrow> rec_decoder \<Rightarrow> rrchub_files \<Rightarrow> sourceData \<times> Report \<Rightarrow> string + (sourceData \<times> Report)" where
  "readRRCHub v dec fs s =
     bindE (file_or ''rrc-hub peers.toml'' (rf_peers fs)) (\<lambda>ps. let s1 = fold (read_peer v) ps s in
     bindE (file_or ''rrc-hub rooms.toml'' (rf_rooms fs)) (\<lambda>rs. let s2 = fold (read_room v) rs s1 in
     bindE (file_or ''rrc-hub klines.txt'' (rf_klines fs)) (\<lambda>ks.
     case s2 of (d, rep) \<Rightarrow> case imp_hashes v ''klines'' ks rep of (bs, rep') \<Rightarrow>
       foldE (read_history_file dec) (rf_history fs) (d\<lparr>sd_bans := sd_bans d @ bs\<rparr>, rep'))))"

record json_member =
  jm_addr :: string
  jm_identity :: string
  jm_nick :: string
  jm_paused :: bool
  jm_joined_at :: int
  jm_last_seen :: int

record json_message =
  jn_said_at :: int
  jn_received_at :: int
  jn_source :: string
  jn_origin_id :: string
  jn_author_identity :: string
  jn_author_name :: string
  jn_body :: string

text \<open>The lines of the log, \<open>None\<close> for one that is no JSON, and the error the scanner ended with.\<close>

record bridge_files =
  bf_state :: "(json_member list \<times> string list) source_file"
  bf_log :: "(json_message option list \<times> string option) source_file"

definition read_member :: "json_member \<Rightarrow> sourceData \<times> Report \<Rightarrow> sourceData \<times> Report" where
  "read_member m s = (case s of (d, rep) \<Rightarrow> case hashOrNil (jm_identity m) of
       None \<Rightarrow> (d, rp_note (''bridge member '' @ jm_addr m @ '' skipped: its identity was never learned'') rep)
     | Some i \<Rightarrow> (d\<lparr>sd_members := sd_members d @ [\<lparr>im_id = i, im_nick = jm_nick m, im_joinedAt = jm_joined_at m, im_lastSeen = jm_last_seen m, im_paused = jm_paused m\<rparr>]\<rparr>, rep))"

definition read_line :: "env \<Rightarrow> json_message option \<Rightarrow> sourceData \<times> Report \<Rightarrow> sourceData \<times> Report" where
  "read_line v l s = (case s of (d, rep) \<Rightarrow> case l of
       None \<Rightarrow> (d, rp_note ''bridge messages.jsonl: unreadable line skipped'' rep)
     | Some m \<Rightarrow> if jn_source m = ''rrc'' \<or> jn_body m = '''' then (d, rep)
       else case hashOrNil (jn_author_identity m) of
         None \<Rightarrow> (d, rp_note (''bridge message from '' @ quote v (jn_author_name m) @ '' skipped: no identity'') rep)
       | Some i \<Rightarrow> let act = HasPrefix (jn_body m) ''* '' in
           (d\<lparr>sd_messages := sd_messages d @ [\<lparr>ig_room = '''', ig_action = act, ig_author = i, ig_name = jn_author_name m,
              ig_body = (if act then TrimPrefix (jn_body m) ''* '' else jn_body m), ig_origin = ''bridge:'' @ jn_source m @ '':'' @ jn_origin_id m,
              ig_saidAt = jn_said_at m, ig_hubAt = jn_received_at m\<rparr>]\<rparr>, rep))"

definition readBridge :: "env \<Rightarrow> bridge_files \<Rightarrow> sourceData \<times> Report \<Rightarrow> string + (sourceData \<times> Report)" where
  "readBridge v fs s =
     bindE (case bf_state fs of Missing \<Rightarrow> Inr ([], []) | Broken e \<Rightarrow> Inl (''bridge state.json: '' @ e) | Found x \<Rightarrow> Inr x) (\<lambda>(ms, ks).
     case fold read_member ms s of (d, rep) \<Rightarrow> let s1 = (d\<lparr>sd_bans := sd_bans d @ List.map_filter hashOrNil ks\<rparr>, rep) in
     case bf_log fs of Missing \<Rightarrow> Inr s1 | Broken e \<Rightarrow> Inl (''bridge messages.jsonl: '' @ e)
     | Found (ls, bad) \<Rightarrow> (case bad of None \<Rightarrow> Inr (fold (read_line v) ls s1) | Some e \<Rightarrow> Inl e))"

section \<open>Writing\<close>

type_synonym progress = "Report \<times> db"

definition imp_touch :: "millis \<Rightarrow> ident \<Rightarrow> bytes option \<Rightarrow> millis \<Rightarrow> progress \<Rightarrow> err + progress" where
  "imp_touch now i pk seen s = (case s of (rep, d) \<Rightarrow>
     let rep' = (if Identity i d = None then rep\<lparr>rp_Identities := rp_Identities rep + 1\<rparr> else rep) in
     bindE (TouchIdentity i pk (if seen \<le> 0 then now else seen) d) (\<lambda>d'. Inr (rep', d')))"

record name_claim =
  cl_id :: ident
  cl_name :: string
  cl_lastSeen :: millis
  cl_source :: string

definition peer_claims :: "ident list \<Rightarrow> sourceData \<Rightarrow> name_claim list" where
  "peer_claims skip d = map (\<lambda>p. \<lparr>cl_id = ip_id p, cl_name = ip_nick p, cl_lastSeen = ip_lastSeen p, cl_source = ''rrc-hub''\<rparr>)
     (filter (\<lambda>p. ip_id p \<notin> set skip \<and> ip_nick p \<noteq> '''') (sd_peers d))"

definition member_claims :: "sourceData \<Rightarrow> name_claim list" where
  "member_claims d = map (\<lambda>m. \<lparr>cl_id = im_id m, cl_name = im_nick m, cl_lastSeen = im_lastSeen m, cl_source = ''bridge''\<rparr>) (filter (\<lambda>m. im_nick m \<noteq> '''') (sd_members d))"

text \<open>The name a claim comes to, with the note about it; \<open>None\<close> when it cannot be imported.\<close>

definition claim_name :: "env \<Rightarrow> name_claim \<Rightarrow> Report \<Rightarrow> (string \<times> string) option \<times> Report" where
  "claim_name v c rep = (let who = take 8 (hexID (cl_id c)) in case CleanName v (GoStrings.Join (Fields (cl_name c)) ''_'') of
     Inr cs \<Rightarrow> (Some cs, rep)
   | Inl e \<Rightarrow> let sug = SuggestName v (cl_name c) in
       if sug = '''' then (None, rp_note (cl_source c @ '' name '' @ quote v (cl_name c) @ '' for '' @ who @ '' not imported: '' @ e) rep)
       else (Some (case CleanName v sug of Inr cs \<Rightarrow> cs | Inl _ \<Rightarrow> ('''', '''')),
         rp_note (cl_source c @ '' name '' @ quote v (cl_name c) @ '' for '' @ who @ '' imported as '' @ quote v sug) rep))"

definition write_claim :: "env \<Rightarrow> millis \<Rightarrow> name_claim \<Rightarrow> ident list \<times> progress \<Rightarrow> err + ident list \<times> progress" where
  "write_claim v now c s = (case s of (named, rep, d) \<Rightarrow> if cl_id c \<in> set named then Inr s
     else case claim_name v c rep of (None, rep1) \<Rightarrow> Inr (named, rep1, d)
     | (Some (clean, sk), rep1) \<Rightarrow> bindE (NameBySkeleton sk d) (\<lambda>holder.
         case holder of Some h \<Rightarrow> if nm_Identity h \<noteq> cl_id c
             then Inr (named, rp_note (cl_source c @ '' name '' @ quote v clean @ '' for '' @ take 8 (hexID (cl_id c)) @ '' not imported: '' @
               take 8 (hexID (nm_Identity h)) @ '' already holds '' @ quote v (nm_Name h)) rep1, d)
             else bindE (ClaimName (cl_id c) clean sk now d) (\<lambda>d'. Inr (cl_id c # named, rep1\<lparr>rp_Names := rp_Names rep1 + 1\<rparr>, d'))
         | None \<Rightarrow> bindE (ClaimName (cl_id c) clean sk now d) (\<lambda>d'. Inr (cl_id c # named, rep1\<lparr>rp_Names := rp_Names rep1 + 1\<rparr>, d'))))"

definition write_member :: "imp_member \<Rightarrow> progress \<Rightarrow> err + progress" where
  "write_member m s = (case s of (rep, d) \<Rightarrow> bindE (AddMember (im_id m) (max (im_joinedAt m) 1) d) (\<lambda>(added, d1).
     let rep' = (if added then rep\<lparr>rp_Members := rp_Members rep + 1\<rparr> else rep) in
     if im_paused m then bindE (SetLXMFMode (im_id m) LXMFOff d1) (\<lambda>d2. Inr (rep', d2)) else Inr (rep', d1)))"

definition write_role :: "millis \<Rightarrow> string \<Rightarrow> ident \<times> Role \<Rightarrow> progress \<Rightarrow> err + progress" where
  "write_role now room ir s = (case ir of (i, role) \<Rightarrow> bindE (imp_touch now i None 0 s) (\<lambda>(rep, d).
     bindE (SetRole room i role True None now d) (\<lambda>d'. Inr (rep, d'))))"

definition imported_room :: "millis \<Rightarrow> imp_room \<Rightarrow> db \<Rightarrow> room" where
  "imported_room now r d = fold (\<lambda>c. SetMode c True) (ir_modes r)
     \<lparr>rm_Name = ir_name r, rm_Topic = ir_topic r, rm_Founder = ir_founder r, rm_Registered = True, rm_Modes = '''', rm_Key = '''',
      rm_CreatedAt = (case Room (ir_name r) d of Some old \<Rightarrow> rm_CreatedAt old | None \<Rightarrow> now), rm_LastUsed = max (ir_lastUsed r) 1\<rparr>"

definition room_roles_of :: "imp_room \<Rightarrow> (ident \<times> Role) list" where
  "room_roles_of r = map (\<lambda>i. (i, RoleOp)) (ir_ops r) @ map (\<lambda>i. (i, RoleVoice)) (ir_voiced r) @ map (\<lambda>i. (i, RoleBan)) (ir_bans r)"

definition write_room :: "millis \<Rightarrow> imp_room \<Rightarrow> progress \<Rightarrow> err + progress" where
  "write_room now r s = (let rm = imported_room now r (snd s) in
     bindE (case ir_founder r of None \<Rightarrow> Inr s | Some f \<Rightarrow> imp_touch now f None 0 s) (\<lambda>(rep, d).
     bindE (PutRoom rm d) (\<lambda>d1.
     bindE (foldE (write_role now (ir_name r)) (room_roles_of r) (rep, d1)) (\<lambda>(rep2, d2).
     Inr (rep2\<lparr>rp_Rooms := rp_Rooms rep2 + 1\<rparr>, d2)))))"

definition write_ban :: "millis \<Rightarrow> ident \<Rightarrow> progress \<Rightarrow> err + progress" where
  "write_ban now i s = (case s of (rep, d) \<Rightarrow>
     bindE (AddBan \<lparr>b_Identity = i, b_Name = '''', b_Reason = ''imported'', b_BannedBy = None, b_BannedAt = now, b_ExpiresAt = 0\<rparr> d) (\<lambda>d'.
     Inr (rep\<lparr>rp_Bans := rp_Bans rep + 1\<rparr>, d')))"

definition stored_message :: "string \<Rightarrow> imp_message \<Rightarrow> message" where
  "stored_message room m = \<lparr>m_ID = 0, m_Room = room, m_Kind = (if ig_action m then KindAction else KindMsg), m_Author = ig_author m,
     m_AuthorName = (if ig_name m = '''' then GuestName (ig_author m) else ig_name m), m_Body = ig_body m, m_Via = ViaImport, m_OriginID = Some (ig_origin m),
     m_SaidAt = ig_saidAt m, m_HubAt = ig_hubAt m, m_Ext = None\<rparr>"

definition note_last :: "string \<Rightarrow> int \<Rightarrow> (string \<times> int) list \<Rightarrow> (string \<times> int) list" where
  "note_last room k l = (room, max (case map_of l room of Some x \<Rightarrow> x | None \<Rightarrow> 0) k) # filter (\<lambda>e. fst e \<noteq> room) l"

definition err_words :: "err \<Rightarrow> string" where
  "err_words e = (case e of ErrInvalid t \<Rightarrow> t | _ \<Rightarrow> '''')"

definition write_message :: "env \<Rightarrow> ident list \<Rightarrow> millis \<Rightarrow> millis \<Rightarrow> imp_message \<Rightarrow> (string \<times> int) list \<times> progress \<Rightarrow> err + (string \<times> int) list \<times> progress" where
  "write_message v skip now cutoff m s = (case s of (lasts, rep, d) \<Rightarrow> if ig_author m \<in> set skip then Inr s
     else if ig_hubAt m < cutoff then Inr (lasts, rep\<lparr>rp_Old := rp_Old rep + 1\<rparr>, d)
     else let raw = (if ig_room m = '''' then ''scotmesh'' else ig_room m) in case NormalizeRoom (ulower v) raw 64 of
       Inl e \<Rightarrow> Inr (lasts, rp_note (''messages in room '' @ quote v raw @ '' not imported: '' @ err_words e) rep, d)
     | Inr room \<Rightarrow> bindE (imp_touch now (ig_author m) None (ig_hubAt m) (rep, d)) (\<lambda>(rep1, d1).
         bindE (AddMessage (stored_message room m) d1) (\<lambda>(k, dup, d2).
         Inr (note_last room k lasts, (if dup then rep1\<lparr>rp_Duplicates := rp_Duplicates rep1 + 1\<rparr> else rep1\<lparr>rp_Messages := rp_Messages rep1 + 1\<rparr>), d2))))"

definition write_cursor :: "millis \<Rightarrow> ident \<times> string \<times> int \<Rightarrow> db \<Rightarrow> err + db" where
  "write_cursor now x d = (case x of (i, room, k) \<Rightarrow> SetCursor i room ViaRRC k now d)"

definition write_peer :: "millis \<Rightarrow> imp_peer \<Rightarrow> progress \<Rightarrow> err + progress" where
  "write_peer now p s = imp_touch now (ip_id p) (ip_publicKey p) (ip_lastSeen p) s"

definition ordered_claims :: "ident list \<Rightarrow> sourceData \<Rightarrow> name_claim list" where
  "ordered_claims skip d = sort_key (\<lambda>c. - cl_lastSeen c) (peer_claims skip d @ member_claims d)"

definition sourceData_write :: "env \<Rightarrow> sourceData \<Rightarrow> ident list \<Rightarrow> int \<Rightarrow> int \<Rightarrow> progress \<Rightarrow> err + progress" where
  "sourceData_write v sd skip now_time retention s0 = (let now = now_time div 1000000; cutoff = (now_time - retention) div 1000000;
       peers = filter (\<lambda>p. ip_id p \<notin> set skip) (sd_peers sd) in
     bindE (foldE (write_peer now) peers s0) (\<lambda>s1.
     bindE (foldE (\<lambda>m. imp_touch now (im_id m) None (im_lastSeen m)) (sd_members sd) s1) (\<lambda>s2.
     bindE (foldE (write_claim v now) (ordered_claims skip sd) ([], s2)) (\<lambda>(named, s3).
     bindE (foldE write_member (sd_members sd) s3) (\<lambda>s4.
     bindE (foldE (write_room now) (sd_rooms sd) s4) (\<lambda>s5.
     bindE (foldE (write_ban now) (sd_bans sd) s5) (\<lambda>s6.
     bindE (foldE (write_message v skip now cutoff) (sort_key ig_hubAt (sd_messages sd)) ([], s6)) (\<lambda>(lasts, rep, d).
     bindE (foldE (write_cursor now) (concat (map (\<lambda>p. map (\<lambda>(room, k). (ip_id p, room, k)) lasts) peers)) d) (\<lambda>d'. Inr (rep, d'))))))))))"

definition read_sources :: "env \<Rightarrow> rec_decoder \<Rightarrow> rrchub_files option \<Rightarrow> bridge_files option \<Rightarrow> string + (sourceData \<times> Report)" where
  "read_sources v dec hubfs bridge = bindE (case hubfs of None \<Rightarrow> Inr (no_data, empty_report) | Some fs \<Rightarrow> readRRCHub v dec fs (no_data, empty_report)) (\<lambda>s.
     case bridge of None \<Rightarrow> Inr s | Some fs \<Rightarrow> readBridge v fs s)"

text \<open>The outcome of an import: the report, or the text of the error that stopped the reading, or the store's error (the report so far, which comes with it, is left out).\<close>

datatype import_result = Imported Report | ReadFailed string | WriteFailed err

definition Import :: "env \<Rightarrow> rec_decoder \<Rightarrow> rrchub_files option \<Rightarrow> bridge_files option \<Rightarrow> ident list \<Rightarrow> int \<Rightarrow> int \<Rightarrow> bool \<Rightarrow> db \<Rightarrow> import_result \<times> db" where
  "Import v dec hubfs bridge skip now_time retention dryRun d0 = (case read_sources v dec hubfs bridge of
     Inl t \<Rightarrow> (ReadFailed t, d0)
   | Inr (sd, rep0) \<Rightarrow> (case sourceData_write v sd skip now_time retention (rep0, d0) of
       Inl e \<Rightarrow> (WriteFailed e, d0)
     | Inr (rep, d) \<Rightarrow> if dryRun then (Imported rep, d0)
       else (Imported rep, Audit (now_time div 1000000) None ''import'' '''' (TrimSpace (Report_String rep)) d)))"

end
