(* ===== verification/ImportWrite.thy ===== *)
theory ImportWrite
  imports Importer
begin

text \<open>
  The writing half of the import: it succeeds on every store, and what it finds there already it does not add again. \<open>does\<close> is the contract of a writing step: from a sound store it succeeds,
  takes nothing away, reaches what it is for, and changes no count when that was there already; the steps compose by it.
\<close>

section \<open>Contracts of the writing steps\<close>

definition enrolled :: "ident \<Rightarrow> progress \<Rightarrow> bool" where
  "enrolled i s \<longleftrightarrow> i \<in> i_ID ` set (identities (snd s))"

definition grown :: "progress \<Rightarrow> progress \<Rightarrow> bool" where
  "grown s s' \<longleftrightarrow> i_ID ` set (identities (snd s)) \<subseteq> i_ID ` set (identities (snd s')) \<and> mb_Identity ` set (members (snd s)) \<subseteq> mb_Identity ` set (members (snd s')) \<and>
     rm_Name ` set (rooms (snd s)) \<subseteq> rm_Name ` set (rooms (snd s')) \<and> origin_key ` set (messages (snd s)) \<subseteq> origin_key ` set (messages (snd s'))"

definition still :: "progress \<Rightarrow> progress \<Rightarrow> bool" where
  "still s s' \<longleftrightarrow> rp_Identities (fst s') = rp_Identities (fst s) \<and> rp_Members (fst s') = rp_Members (fst s) \<and> rp_Messages (fst s') = rp_Messages (fst s) \<and>
     messages (snd s') = messages (snd s)"

definition lasting :: "(progress \<Rightarrow> bool) \<Rightarrow> bool" where
  "lasting Q \<longleftrightarrow> (\<forall>s s'. Q s \<longrightarrow> grown s s' \<longrightarrow> Q s')"

definition does :: "('a \<Rightarrow> progress) \<Rightarrow> ('b \<Rightarrow> progress) \<Rightarrow> (progress \<Rightarrow> bool) \<Rightarrow> (progress \<Rightarrow> bool) \<Rightarrow> ('a \<Rightarrow> err + 'b) \<Rightarrow> bool" where
  "does u w A Q g \<longleftrightarrow> (\<forall>s. store_reach (snd (u s)) \<longrightarrow> A (u s) \<longrightarrow>
     (\<exists>s'. g s = Inr s' \<and> store_reach (snd (w s')) \<and> grown (u s) (w s') \<and> Q (w s') \<and> (Q (u s) \<longrightarrow> still (u s) (w s'))))"

lemma grown_trans: "grown s s' \<Longrightarrow> grown s' s'' \<Longrightarrow> grown s s''"
  unfolding grown_def by (meson subset_trans)

lemma grown_refl [simp]: "grown s s"
  by (simp add: grown_def)

lemma still_trans: "still s s' \<Longrightarrow> still s' s'' \<Longrightarrow> still s s''"
  by (simp add: still_def)

lemma still_refl [simp]: "still s s"
  by (simp add: still_def)

lemma lastingD: "lasting Q \<Longrightarrow> grown s s' \<Longrightarrow> Q s \<Longrightarrow> Q s'"
  unfolding lasting_def by blast

named_theorems lasts "what stays true as the import writes on"

lemma lasting_basic [lasts]:
  "lasting (\<lambda>s. C)" "lasting (enrolled i)" "lasting (\<lambda>s. i \<in> mb_Identity ` set (members (snd s)))"
  "lasting (\<lambda>s. n \<in> rm_Name ` set (rooms (snd s)))" "lasting (\<lambda>s. k \<in> origin_key ` set (messages (snd s)))"
  by (auto simp: lasting_def enrolled_def grown_def)

lemma lasting_join [lasts]:
  "lasting P \<Longrightarrow> lasting Q \<Longrightarrow> lasting (\<lambda>s. P s \<and> Q s)" "lasting Q \<Longrightarrow> lasting (\<lambda>s. C \<longrightarrow> Q s)"
  "(\<And>x. x \<in> X \<Longrightarrow> lasting (F x)) \<Longrightarrow> lasting (\<lambda>s. \<forall>x\<in>X. F x s)"
  by (auto simp: lasting_def)

lemma doesI:
  assumes "\<And>s. store_reach (snd (u s)) \<Longrightarrow> A (u s) \<Longrightarrow>
    \<exists>s'. g s = Inr s' \<and> store_reach (snd (w s')) \<and> grown (u s) (w s') \<and> Q (w s') \<and> (Q (u s) \<longrightarrow> still (u s) (w s'))"
  shows "does u w A Q g"
  using assms by (simp add: does_def)

lemma doesE:
  assumes "does u w A Q g" "store_reach (snd (u s))" "A (u s)"
  obtains s' where "g s = Inr s'" "store_reach (snd (w s'))" "grown (u s) (w s')" "Q (w s')" "Q (u s) \<longrightarrow> still (u s) (w s')"
  using assms unfolding does_def by blast

lemma does_bind:
  assumes g: "does u v A Q g" and h: "does v w (\<lambda>s. A s \<and> Q s) R h" and la: "lasting A" "lasting Q" "lasting R"
  shows "does u w A (\<lambda>s. Q s \<and> R s) (\<lambda>s. bindE (g s) h)"
proof (rule doesI)
  fix s assume s: "store_reach (snd (u s))" "A (u s)"
  obtain t where t: "g s = Inr t" "store_reach (snd (v t))" "grown (u s) (v t)" "Q (v t)" "Q (u s) \<longrightarrow> still (u s) (v t)"
    by (rule doesE [OF g s])
  have "A (v t)" using la(1) t(3) s(2) by (rule lastingD)
  with t(4) have at: "A (v t) \<and> Q (v t)" by simp
  obtain r where r: "h t = Inr r" "store_reach (snd (w r))" "grown (v t) (w r)" "R (w r)" "R (v t) \<longrightarrow> still (v t) (w r)"
    by (rule doesE [OF h t(2) at])
  have "Q (w r)" using la(2) r(3) t(4) by (rule lastingD)
  moreover have "still (u s) (w r)" if "Q (u s) \<and> R (u s)"
    using that t(5) r(5) lastingD [OF la(3) t(3)] still_trans by blast
  ultimately show "\<exists>s'. bindE (g s) h = Inr s' \<and> store_reach (snd (w s')) \<and> grown (u s) (w s') \<and> (Q (w s') \<and> R (w s')) \<and> (Q (u s) \<and> R (u s) \<longrightarrow> still (u s) (w s'))"
    using t r grown_trans by auto
qed

lemma does_weaken: "does u w A Q g \<Longrightarrow> (\<And>s. B s \<Longrightarrow> A s) \<Longrightarrow> does u w B Q g"
  by (auto simp: does_def)

lemma does_from: "does u w A Q g \<Longrightarrow> (\<And>x. u (k x) = u' x) \<Longrightarrow> does u' w A Q (\<lambda>x. g (k x))"
  unfolding does_def by metis

lemma does_each:
  assumes "\<And>x. x \<in> set xs \<Longrightarrow> does u u A (Q x) (f x)" and la: "lasting A" "\<And>x. x \<in> set xs \<Longrightarrow> lasting (Q x)"
  shows "does u u A (\<lambda>s. \<forall>x\<in>set xs. Q x s) (foldE f xs)"
  using assms
proof (induction xs)
  case Nil
  show ?case by (rule doesI) simp
next
  case (Cons x xs)
  have "does u u A (\<lambda>s. Q x s \<and> (\<forall>y\<in>set xs. Q y s)) (\<lambda>s. bindE (f x s) (foldE f xs))"
  proof (rule does_bind)
    show "does u u (\<lambda>s. A s \<and> Q x s) (\<lambda>s. \<forall>y\<in>set xs. Q y s) (foldE f xs)"
      by (rule does_weaken [OF Cons.IH]) (use Cons.prems in auto)
    show "lasting (\<lambda>s. \<forall>y\<in>set xs. Q y s)" using Cons.prems(3) by (intro lasts) auto
  qed (use Cons.prems in auto)
  then show ?case by simp
qed

section \<open>The steps\<close>

lemma ids_touched:
  assumes "TouchIdentity i pk now d = Inr d'"
  shows "i_ID ` set (identities d') = insert i (i_ID ` set (identities d))"
proof -
  have "i_ID ` set (update_where (\<lambda>r. i_ID r = i) (touch_row pk now) (identities d)) = i_ID ` set (identities d)"
    by (rule image_update_where) (simp add: touch_row_def)
  then show ?thesis using assms
    by (auto simp: TouchIdentity_def newPerson_def Let_def rows_where_pos insert_absorb split: if_splits)
qed

lemma TouchIdentity_total: "length i = 16 \<Longrightarrow> key_ok pk \<Longrightarrow> \<exists>d'. TouchIdentity i pk now d = Inr d'"
  by (cases "newPerson now d") (simp add: TouchIdentity_def checkID_def IdentityLen_def requireE_def)

lemma frame_touch: "TouchIdentity i pk now d = Inr d' \<Longrightarrow> members d' = members d \<and> rooms d' = rooms d \<and> messages d' = messages d"
  by (auto simp: TouchIdentity_def newPerson_def Let_def split: if_splits)

lemma Identity_enrolled: "Identity i d = None \<longleftrightarrow> i \<notin> i_ID ` set (identities d)"
  by (auto simp: Identity_def find_None_set)

lemma does_touch:
  assumes "length i = 16" "key_ok pk"
  shows "does id id (\<lambda>s. True) (enrolled i) (imp_touch now i pk seen)"
proof (rule doesI)
  fix s :: progress assume s: "store_reach (snd (id s))"
  obtain rep d where sd: "s = (rep, d)" by (cases s)
  obtain d' where d': "TouchIdentity i pk (if seen \<le> 0 then now else seen) d = Inr d'"
    using TouchIdentity_total [OF assms] by blast
  have "store_reach d'" using s sd reach_step [OF _ step_TouchIdentity [OF d']] by simp
  then show "\<exists>s'. imp_touch now i pk seen s = Inr s' \<and> store_reach (snd (id s')) \<and> grown (id s) (id s') \<and> enrolled i (id s') \<and> (enrolled i (id s) \<longrightarrow> still (id s) (id s'))"
    using d' ids_touched [OF d'] frame_touch [OF d'] by (auto simp: sd imp_touch_def Let_def grown_def enrolled_def still_def Identity_enrolled)
qed

lemma AddMember_total:
  assumes "length i = 16" "i \<in> i_ID ` set (identities d)"
  shows "\<exists>b d'. AddMember i now d = Inr (b, d')"
  using assms by (cases "i \<in> mb_Identity ` set (members d)") (auto simp: AddMember_def checkID_def IdentityLen_def requireE_def)

lemma SetLXMFMode_total:
  assumes "i \<in> i_ID ` set (identities d)"
  shows "\<exists>d'. SetLXMFMode i mode d = Inr d'"
proof -
  from assms have "0 < rows_where (\<lambda>r. i_ID r = i) (identities d)" by (auto simp: rows_where_pos)
  then show ?thesis by (simp add: SetLXMFMode_def requireE_def)
qed

lemma does_member:
  assumes "length (im_id m) = 16"
  shows "does id id (enrolled (im_id m)) (\<lambda>s. im_id m \<in> mb_Identity ` set (members (snd s))) (write_member m)"
proof (rule doesI)
  fix s :: progress assume s: "store_reach (snd (id s))" "enrolled (im_id m) (id s)"
  obtain rep d where sd: "s = (rep, d)" by (cases s)
  obtain b d1 where d1: "AddMember (im_id m) (max (im_joinedAt m) 1) d = Inr (b, d1)"
    using AddMember_total [OF assms] s(2) sd by (fastforce simp: enrolled_def)
  have r1: "store_reach d1" using s(1) sd reach_step [OF _ step_AddMember [OF d1]] by simp
  have f1: "identities d1 = identities d" "rooms d1 = rooms d" "messages d1 = messages d"
    "mb_Identity ` set (members d1) = insert (im_id m) (mb_Identity ` set (members d))" "b \<longleftrightarrow> im_id m \<notin> mb_Identity ` set (members d)"
    using d1 by (auto simp: AddMember_def split: if_splits)
  obtain d2 where d2: "SetLXMFMode (im_id m) LXMFOff d1 = Inr d2"
    using SetLXMFMode_total [of "im_id m" d1 LXMFOff] s(2) sd f1(1) by (auto simp: enrolled_def)
  have r2: "store_reach d2" using reach_step [OF r1 step_SetLXMFMode [OF d2]] .
  have "i_ID ` set (identities d2) = i_ID ` set (identities d1)" "members d2 = members d1" "rooms d2 = rooms d1" "messages d2 = messages d1"
    using d2 by (clarsimp simp: SetLXMFMode_def image_update_where)+
  with r1 r2 f1 show "\<exists>s'. write_member m s = Inr s' \<and> store_reach (snd (id s')) \<and> grown (id s) (id s') \<and> im_id m \<in> mb_Identity ` set (members (snd (id s'))) \<and>
      (im_id m \<in> mb_Identity ` set (members (snd (id s))) \<longrightarrow> still (id s) (id s'))"
    by (cases "im_paused m") (auto simp: sd write_member_def d1 d2 grown_def still_def Let_def)
qed

lemma does_ban:
  assumes "length i = 16"
  shows "does id id (\<lambda>s. True) (\<lambda>s. True) (write_ban now i)"
proof (rule doesI)
  fix s :: progress assume s: "store_reach (snd (id s))"
  obtain rep d where sd: "s = (rep, d)" by (cases s)
  define b where "b = \<lparr>b_Identity = i, b_Name = '''', b_Reason = ''imported'', b_BannedBy = None, b_BannedAt = now, b_ExpiresAt = 0\<rparr>"
  obtain d' where d': "AddBan b d = Inr d'" "members d' = members d" "rooms d' = rooms d" "messages d' = messages d" "identities d' = identities d"
    using assms by (auto simp: AddBan_def b_def checkID_def IdentityLen_def)
  then have "store_reach d'" using s sd reach_step [OF _ step_AddBan [OF d'(1)]] by simp
  with d' show "\<exists>s'. write_ban now i s = Inr s' \<and> store_reach (snd (id s')) \<and> grown (id s) (id s') \<and> True \<and> (True \<longrightarrow> still (id s) (id s'))"
    by (auto simp: sd write_ban_def b_def [symmetric] grown_def still_def)
qed

lemma does_cursor:
  assumes "length i = 16"
  shows "does (Pair rep) (Pair rep) (\<lambda>s. True) (\<lambda>s. True) (write_cursor now (i, room, k))"
proof (rule doesI)
  fix d assume s: "store_reach (snd (Pair rep d))"
  obtain d' where d': "SetCursor i room ViaRRC k now d = Inr d'" "members d' = members d" "rooms d' = rooms d" "messages d' = messages d" "identities d' = identities d"
    using assms by (auto simp: SetCursor_def checkID_def IdentityLen_def requireE_def)
  then have "store_reach d'" using s reach_step [OF _ step_SetCursor [OF d'(1)]] by simp
  with d' show "\<exists>d'. write_cursor now (i, room, k) d = Inr d' \<and> store_reach (snd (rep, d')) \<and> grown (rep, d) (rep, d') \<and> True \<and> (True \<longrightarrow> still (rep, d) (rep, d'))"
    by (auto simp: write_cursor_def grown_def still_def)
qed

lemma does_role:
  assumes "length i = 16"
  shows "does id id (\<lambda>s. room \<in> rm_Name ` set (rooms (snd s))) (enrolled i) (write_role now room (i, role))"
proof -
  have "does id id (\<lambda>s. room \<in> rm_Name ` set (rooms (snd s)) \<and> enrolled i s) (\<lambda>s. True) (\<lambda>(rep, d). bindE (SetRole room i role True None now d) (\<lambda>d'. Inr (rep, d')))"
  proof (rule doesI)
    fix s :: progress assume s: "store_reach (snd (id s))" "room \<in> rm_Name ` set (rooms (snd (id s))) \<and> enrolled i (id s)"
    obtain rep d where sd: "s = (rep, d)" by (cases s)
    obtain d' where d': "SetRole room i role True None now d = Inr d'" "members d' = members d" "rooms d' = rooms d" "messages d' = messages d" "identities d' = identities d"
      using assms s(2) sd by (auto simp: SetRole_def checkID_def IdentityLen_def requireE_def)
    then have "store_reach d'" using s sd reach_step [OF _ step_SetRole [OF d'(1)]] by simp
    with d' show "\<exists>s'. (case s of (rep, d) \<Rightarrow> bindE (SetRole room i role True None now d) (\<lambda>d'. Inr (rep, d'))) = Inr s' \<and> store_reach (snd (id s')) \<and>
        grown (id s) (id s') \<and> True \<and> (True \<longrightarrow> still (id s) (id s'))"
      by (auto simp: sd grown_def still_def)
  qed
  moreover have "does id id (\<lambda>s. room \<in> rm_Name ` set (rooms (snd s))) (enrolled i) (imp_touch now i None 0)"
    by (rule does_weaken [OF does_touch]) (simp_all add: assms key_ok_def)
  ultimately have "does id id (\<lambda>s. room \<in> rm_Name ` set (rooms (snd s))) (\<lambda>s. enrolled i s \<and> True) (\<lambda>s. bindE (imp_touch now i None 0 s)
      (\<lambda>(rep, d). bindE (SetRole room i role True None now d) (\<lambda>d'. Inr (rep, d'))))"
    by (intro does_bind lasts)
  then show ?thesis by (simp add: write_role_def [abs_def])
qed

definition room_ids :: "imp_room \<Rightarrow> ident list" where
  "room_ids r = (case ir_founder r of None \<Rightarrow> [] | Some f \<Rightarrow> [f]) @ ir_ops r @ ir_voiced r @ ir_bans r"

definition room_fit :: "imp_room \<Rightarrow> bool" where
  "room_fit r \<longleftrightarrow> (\<forall>i\<in>set (room_ids r). length i = 16) \<and> set (ir_modes r) \<subseteq> set ''ikmnpt''"

lemma imported_room_fit:
  assumes "room_fit r"
  shows "set (rm_Modes (imported_room now r d)) \<subseteq> set ''ikmnpt''" "rm_Name (imported_room now r d) = ir_name r" "rm_Founder (imported_room now r d) = ir_founder r"
proof -
  have modes: "set (rm_Modes (fold (\<lambda>c. SetMode c True) cs rm)) \<subseteq> set (rm_Modes rm) \<union> set cs" for cs rm
    by (induction cs arbitrary: rm) (force simp: HasMode_def [symmetric] HasMode_SetMode subset_iff)+
  have other: "rm_Name (fold (\<lambda>c. SetMode c True) cs rm) = rm_Name rm \<and> rm_Founder (fold (\<lambda>c. SetMode c True) cs rm) = rm_Founder rm" for cs rm
    by (induction cs arbitrary: rm) simp_all
  show "set (rm_Modes (imported_room now r d)) \<subseteq> set ''ikmnpt''"
    using assms by (force simp: imported_room_def room_fit_def dest: subsetD [OF modes])
  show "rm_Name (imported_room now r d) = ir_name r" "rm_Founder (imported_room now r d) = ir_founder r" by (simp_all add: imported_room_def other)
qed

lemma does_put:
  assumes "set (rm_Modes rm) \<subseteq> set ''ikmnpt''" "case rm_Founder rm of None \<Rightarrow> True | Some f \<Rightarrow> length f = 16"
  shows "does id id (\<lambda>s. True) (\<lambda>s. rm_Name rm \<in> rm_Name ` set (rooms (snd s))) (\<lambda>(rep, d). bindE (PutRoom rm d) (\<lambda>d1. Inr (rep, d1)))"
proof (rule doesI)
  fix s :: progress assume s: "store_reach (snd (id s))"
  obtain rep d where sd: "s = (rep, d)" by (cases s)
  obtain d' where d': "PutRoom rm d = Inr d'" "rooms d' = upsert rm_Name room_merge rm (rooms d)" "members d' = members d" "messages d' = messages d" "identities d' = identities d"
    using assms by (auto simp: PutRoom_def checkID_def IdentityLen_def requireE_def split: option.splits)
  then have "store_reach d'" using s sd reach_step [OF _ step_PutRoom [OF d'(1)]] by simp
  with d' show "\<exists>s'. (case s of (rep, d) \<Rightarrow> bindE (PutRoom rm d) (\<lambda>d1. Inr (rep, d1))) = Inr s' \<and> store_reach (snd (id s')) \<and> grown (id s) (id s') \<and>
      rm_Name rm \<in> rm_Name ` set (rooms (snd (id s'))) \<and> (rm_Name rm \<in> rm_Name ` set (rooms (snd (id s))) \<longrightarrow> still (id s) (id s'))"
    using rt.upsert_key_set [of rm "rooms d"] by (auto simp: sd grown_def still_def)
qed

lemma does_count: "does id id A (\<lambda>s. True) (\<lambda>(rep, d). Inr (rep\<lparr>rp_Rooms := rp_Rooms rep + 1\<rparr>, d))"
  by (rule doesI) (auto simp: grown_def still_def)

text \<open>The steps of one room, composed as write does.\<close>

lemma does_room_steps:
  assumes "room_fit r" "rm_Name rm = ir_name r" "rm_Founder rm = ir_founder r" "set (rm_Modes rm) \<subseteq> set ''ikmnpt''"
  shows "does id id (\<lambda>s. True) (\<lambda>s. (case ir_founder r of None \<Rightarrow> True | Some f \<Rightarrow> enrolled f s) \<and> ir_name r \<in> rm_Name ` set (rooms (snd s)) \<and> (\<forall>x\<in>set (room_roles_of r). enrolled (fst x) s) \<and> True)
    (\<lambda>s. bindE (case ir_founder r of None \<Rightarrow> Inr s | Some f \<Rightarrow> imp_touch now f None 0 s) (\<lambda>s. bindE ((\<lambda>(rep, d). bindE (PutRoom rm d) (\<lambda>d1. Inr (rep, d1))) s)
      (\<lambda>s. bindE (foldE (write_role now (ir_name r)) (room_roles_of r) s) (\<lambda>(rep, d). Inr (rep\<lparr>rp_Rooms := rp_Rooms rep + 1\<rparr>, d)))))"
proof -
  have lf: "lasting (\<lambda>s. case ir_founder r of None \<Rightarrow> True | Some f \<Rightarrow> enrolled f s)" by (cases "ir_founder r") (simp_all add: lasts)
  have f: "does id id (\<lambda>s. True) (\<lambda>s. case ir_founder r of None \<Rightarrow> True | Some f \<Rightarrow> enrolled f s) (\<lambda>s. case ir_founder r of None \<Rightarrow> Inr s | Some f \<Rightarrow> imp_touch now f None 0 s)"
  proof (cases "ir_founder r")
    case None
    then show ?thesis by (auto intro: doesI)
  next
    case (Some f)
    with assms(1) have "length f = 16" by (simp add: room_fit_def room_ids_def)
    with Some show ?thesis using does_touch [of f None now 0] by (simp add: key_ok_def)
  qed
  have p: "does id id B (\<lambda>s. ir_name r \<in> rm_Name ` set (rooms (snd s))) (\<lambda>(rep, d). bindE (PutRoom rm d) (\<lambda>d1. Inr (rep, d1)))" for B
    using does_weaken [OF does_put [of rm], of B] assms by (simp add: room_fit_def room_ids_def split: option.splits)
  have w: "does id id (\<lambda>s. B s \<and> ir_name r \<in> rm_Name ` set (rooms (snd s))) (\<lambda>s. \<forall>x\<in>set (room_roles_of r). enrolled (fst x) s) (foldE (write_role now (ir_name r)) (room_roles_of r))"
    if "lasting B" for B
  proof (rule does_each)
    fix x assume "x \<in> set (room_roles_of r)"
    then have "length (fst x) = 16" using assms(1) by (auto simp: room_roles_of_def room_fit_def room_ids_def)
    then have "does id id (\<lambda>s. ir_name r \<in> rm_Name ` set (rooms (snd s))) (enrolled (fst x)) (write_role now (ir_name r) x)"
      using does_role [of "fst x" "ir_name r" now "snd x"] by simp
    then show "does id id (\<lambda>s. B s \<and> ir_name r \<in> rm_Name ` set (rooms (snd s))) (enrolled (fst x)) (write_role now (ir_name r) x)"
      by (rule does_weaken) simp
  qed (intro lasts that | assumption)+
  let ?A = "\<lambda>s::progress. True" and ?F = "\<lambda>s. case ir_founder r of None \<Rightarrow> True | Some f \<Rightarrow> enrolled f s"
  and ?N = "\<lambda>s. ir_name r \<in> rm_Name ` set (rooms (snd s))"
  have l1: "lasting (\<lambda>s. ?A s \<and> ?F s)" using lf by simp
  have l2: "lasting (\<lambda>s. (?A s \<and> ?F s) \<and> ?N s)" using lasting_join(1) [OF l1 lasting_basic(4)] by simp
  have l3: "lasting (\<lambda>s. \<forall>x\<in>set (room_roles_of r). enrolled (fst x) s)" by (intro lasts)
  have l4: "lasting (\<lambda>s. (\<forall>x\<in>set (room_roles_of r). enrolled (fst x) s) \<and> True)" using l3 by simp
  have l5: "lasting (\<lambda>s. ?N s \<and> (\<forall>x\<in>set (room_roles_of r). enrolled (fst x) s) \<and> True)" using lasting_join(1) [OF lasting_basic(4) l4] .
  show ?thesis
    by (rule does_bind [OF f does_bind [OF p does_bind [OF w [OF l1] does_count l2 l3 lasting_basic(1)] l1 lasting_basic(4) l4] lasting_basic(1) lf l5])
qed

definition room_there :: "imp_room \<Rightarrow> progress \<Rightarrow> bool" where
  "room_there r s \<longleftrightarrow> (\<forall>i\<in>set (room_ids r). enrolled i s) \<and> ir_name r \<in> rm_Name ` set (rooms (snd s))"

lemma room_there_iff:
  "room_there r s \<longleftrightarrow> (case ir_founder r of None \<Rightarrow> True | Some f \<Rightarrow> enrolled f s) \<and> ir_name r \<in> rm_Name ` set (rooms (snd s)) \<and> (\<forall>x\<in>set (room_roles_of r). enrolled (fst x) s) \<and> True"
  by (auto simp: room_there_def room_ids_def room_roles_of_def ball_Un split: option.splits)

lemma bindE_assoc: "bindE (bindE m f) g = bindE m (\<lambda>x. bindE (f x) g)"
  by (cases m) simp_all

lemma does_room:
  assumes "room_fit r"
  shows "does id id (\<lambda>s. True) (room_there r) (write_room now r)"
proof (rule doesI)
  fix s :: progress assume s: "store_reach (snd (id s))"
  have eq: "write_room now r s = bindE (case ir_founder r of None \<Rightarrow> Inr s | Some f \<Rightarrow> imp_touch now f None 0 s) (\<lambda>s'. bindE ((\<lambda>(rep, d). bindE (PutRoom (imported_room now r (snd s)) d) (\<lambda>d1. Inr (rep, d1))) s')
      (\<lambda>s. bindE (foldE (write_role now (ir_name r)) (room_roles_of r) s) (\<lambda>(rep, d). Inr (rep\<lparr>rp_Rooms := rp_Rooms rep + 1\<rparr>, d))))"
    by (simp add: write_room_def Let_def bindE_assoc case_prod_beta')
  from does_room_steps [OF assms imported_room_fit(2,3,1) [OF assms], of now now "snd s", folded room_there_iff] s
  show "\<exists>s'. write_room now r s = Inr s' \<and> store_reach (snd (id s')) \<and> grown (id s) (id s') \<and> room_there r (id s') \<and> (room_there r (id s) \<longrightarrow> still (id s) (id s'))"
    unfolding does_def eq by blast
qed

definition name_fit :: "env \<Rightarrow> string \<Rightarrow> bool" where
  "name_fit v s \<longleftrightarrow> (case CleanName v (GoStrings.Join (Fields s) ''_'') of Inr (n, sk) \<Rightarrow> sk \<noteq> ''''
     | Inl _ \<Rightarrow> SuggestName v s = '''' \<or> (case CleanName v (SuggestName v s) of Inr (n, sk) \<Rightarrow> sk \<noteq> '''' | Inl _ \<Rightarrow> False))"

lemma claim_name_fit:
  assumes "name_fit v (cl_name c)" "claim_name v c rep = (x, rep')"
  shows "(case x of None \<Rightarrow> True | Some (n, sk) \<Rightarrow> n \<noteq> '''' \<and> sk \<noteq> '''') \<and> still (rep, d) (rep', d)"
  using assms by (auto simp: name_fit_def claim_name_def Let_def still_def rp_note_def dest: CleanName_Inr(2) split: sum.splits if_splits)

lemma primary_person:
  assumes "inv_people d" "primaryOf k d = Inr i" "Identity i d = Some w"
  shows "k = i_Person w"
proof -
  from assms(2) obtain r where "r \<in> set (PersonIdentities k d)" "i_ID r = i" by (auto simp: primaryOf_def simp del: set_PersonIdentities split: list.splits)
  then show ?thesis using Identity_in [OF assms(1), of r] assms(3) by simp
qed

text \<open>A name whose skeleton nobody else holds is claimed.\<close>

lemma ClaimName_free:
  assumes r: "store_reach d" and i: "i \<in> i_ID ` set (identities d)" and ne: "n \<noteq> ''''" "sk \<noteq> ''''"
    and h: "NameBySkeleton sk d = Inr holder" "case holder of None \<Rightarrow> True | Some h \<Rightarrow> nm_Identity h = i"
  shows "\<exists>d'. ClaimName i n sk now d = Inr d'"
proof -
  have inv: "db_inv d" using reach_inv [OF r] .
  then have ip: "inv_people d" "inv_names d" by (simp_all add: db_inv_def)
  obtain w where w: "Identity i d = Some w" using i by (cases "Identity i d") (auto simp: Identity_enrolled)
  have "case holder of None \<Rightarrow> True | Some h \<Rightarrow> nm_Person h = i_Person w"
    using h primary_person [OF ip(1) _ w] by (auto elim!: NameBySkeleton_Some simp: name_view_def split: option.splits)
  then have "\<not> (\<exists>x\<in>set (names d). n_Skeleton x = sk \<and> n_Person x \<noteq> i_Person w)"
    using skeleton_holder [OF ip h(1), of "i_Person w"] by blast
  with ClaimName_result [OF inv w ne, of now] show ?thesis unfolding if_not_P by (auto split: if_splits)
qed

lemma does_claim:
  assumes fit: "name_fit v (cl_name c)"
  shows "does snd snd (enrolled (cl_id c)) (\<lambda>s. True) (write_claim v now c)"
proof (rule doesI)
  fix s :: "ident list \<times> progress" assume s: "store_reach (snd (snd s))" "enrolled (cl_id c) (snd s)"
  obtain named rep d where sd: "s = (named, rep, d)" by (cases s)
  obtain x rep1 where x: "claim_name v c rep = (x, rep1)" by fastforce
  from claim_name_fit [OF fit x] have fine: "case x of None \<Rightarrow> True | Some (n, sk) \<Rightarrow> n \<noteq> '''' \<and> sk \<noteq> ''''" "still (rep, d) (rep1, d)" for d by blast+
  have ip: "inv_people d" "inv_names d" using reach_inv s(1) sd by (auto simp: db_inv_def)
  show "\<exists>s'. write_claim v now c s = Inr s' \<and> store_reach (snd (snd s')) \<and> grown (snd s) (snd s') \<and> True \<and> (True \<longrightarrow> still (snd s) (snd s'))"
  proof (cases "cl_id c \<in> set named \<or> x = None")
    case True
    then show ?thesis using s fine(2) by (auto simp: sd write_claim_def x grown_def)
  next
    case False
    then obtain n sk where xs: "x = Some (n, sk)" "cl_id c \<notin> set named" by (cases x) auto
    obtain holder where h: "NameBySkeleton sk d = Inr holder" by (rule NameBySkeleton_total [OF ip])
    show ?thesis
    proof (cases "case holder of None \<Rightarrow> True | Some h \<Rightarrow> nm_Identity h = cl_id c")
      case True
      obtain d' where d': "ClaimName (cl_id c) n sk now d = Inr d'"
        using ClaimName_free [OF _ _ _ _ h True, of n now] s sd fine(1) xs by (auto simp: enrolled_def)
      have "members d' = members d" "rooms d' = rooms d" "messages d' = messages d" "identities d' = identities d"
        using d' by (auto elim!: ClaimName_eq)
      moreover have "store_reach d'" using s sd reach_step [OF _ step_ClaimName [OF d']] by simp
      ultimately show ?thesis using True fine(2) by (auto simp: sd write_claim_def x xs h d' grown_def still_def split: option.splits)
    next
      case False
      then show ?thesis using s fine(2) by (auto simp: sd write_claim_def x xs h grown_def still_def rp_note_def split: option.splits)
    qed
  qed
qed

definition message_there :: "env \<Rightarrow> ident list \<Rightarrow> millis \<Rightarrow> imp_message \<Rightarrow> progress \<Rightarrow> bool" where
  "message_there v skip cutoff m s \<longleftrightarrow> (ig_author m \<notin> set skip \<and> cutoff \<le> ig_hubAt m \<and> \<not> isl (NormalizeRoom (ulower v) (if ig_room m = '''' then ''scotmesh'' else ig_room m) 64)
     \<longrightarrow> enrolled (ig_author m) s \<and> (ViaImport, Some (ig_origin m)) \<in> origin_key ` set (messages (snd s)))"

lemma AddMessage_total:
  assumes "length (m_Author m) = 16" "m_OriginID m = Some x"
  shows "\<exists>k d'. AddMessage m d = Inr (k, origin_key m \<in> origin_key ` set (messages d), d')"
proof (cases "find (\<lambda>x. origin_key x = origin_key m) (messages d)")
  case None
  then have "origin_key m \<notin> origin_key ` set (messages d)" by (auto simp: find_None_set)
  with None assms show ?thesis by (simp add: AddMessage_def checkID_def IdentityLen_def Let_def)
next
  case (Some y)
  then have "origin_key m \<in> origin_key ` set (messages d)" by (auto dest!: find_Some_set intro!: image_eqI [of _ _ y])
  with Some assms show ?thesis by (simp add: AddMessage_def checkID_def IdentityLen_def)
qed

lemma does_message:
  assumes "length (ig_author m) = 16"
  shows "does snd snd (\<lambda>s. True) (message_there v skip cutoff m) (write_message v skip now cutoff m)"
proof (rule doesI)
  fix s :: "(string \<times> int) list \<times> progress" assume s: "store_reach (snd (snd s))"
  obtain lasts rep d where sd: "s = (lasts, rep, d)" by (cases s)
  let ?raw = "if ig_room m = '''' then ''scotmesh'' else ig_room m"
  show "\<exists>s'. write_message v skip now cutoff m s = Inr s' \<and> store_reach (snd (snd s')) \<and> grown (snd s) (snd s') \<and> message_there v skip cutoff m (snd s') \<and>
      (message_there v skip cutoff m (snd s) \<longrightarrow> still (snd s) (snd s'))"
  proof (cases "ig_author m \<notin> set skip \<and> cutoff \<le> ig_hubAt m \<and> \<not> isl (NormalizeRoom (ulower v) ?raw 64)")
    case False
    then show ?thesis using s
      by (auto simp: sd write_message_def Let_def message_there_def grown_def still_def rp_note_def split: sum.splits)
  next
    case True
    then obtain room where room: "NormalizeRoom (ulower v) ?raw 64 = Inr room" by (auto simp: isl_def) (metis sum.exhaust)
    obtain rep1 d1 where t: "imp_touch now (ig_author m) None (ig_hubAt m) (rep, d) = Inr (rep1, d1)" "store_reach d1" "grown (rep, d) (rep1, d1)"
        "enrolled (ig_author m) (rep1, d1)" "enrolled (ig_author m) (rep, d) \<longrightarrow> still (rep, d) (rep1, d1)"
      using does_touch [OF assms, of None now "ig_hubAt m"] s unfolding does_def key_ok_def sd by fastforce
    obtain k d2 where a: "AddMessage (stored_message room m) d1 = Inr (k, (ViaImport, Some (ig_origin m)) \<in> origin_key ` set (messages d1), d2)"
      using AddMessage_total [of "stored_message room m"] assms by (fastforce simp: stored_message_def origin_key_def)
    have "store_reach d2" using reach_step [OF t(2) step_AddMessage [OF a]] .
    moreover have "identities d2 = identities d1" "members d2 = members d1" "rooms d2 = rooms d1"
        "origin_key ` set (messages d2) = insert (ViaImport, Some (ig_origin m)) (origin_key ` set (messages d1))"
        "(ViaImport, Some (ig_origin m)) \<in> origin_key ` set (messages d1) \<longrightarrow> messages d2 = messages d1"
      using AddMessage_Inr(2,3) [OF a] by (cases "(ViaImport, Some (ig_origin m)) \<in> origin_key ` set (messages d1)"; force simp: stored_message_def origin_key_def)+
    ultimately show ?thesis using t(3-5) True room
      by (auto simp: sd write_message_def Let_def t(1) a message_there_def grown_def still_def enrolled_def)
  qed
qed

section \<open>The whole of write\<close>

lemma does_all:
  assumes "\<And>x. x \<in> set xs \<Longrightarrow> does u u (A x) (Q x) (f x)" "\<And>x s. x \<in> set xs \<Longrightarrow> B s \<Longrightarrow> A x s" "lasting B" "\<And>x. x \<in> set xs \<Longrightarrow> lasting (Q x)"
  shows "does u u B (\<lambda>s. \<forall>x\<in>set xs. Q x s) (foldE f xs)"
  using assms(3,4) by (intro does_each does_weaken [OF assms(1)] assms(2))

lemma lasting_room [lasts]: "lasting (room_there r)"
  unfolding room_there_def by (intro lasts)

lemma lasting_message [lasts]: "lasting (message_there v skip cutoff m)"
  unfolding message_there_def by (intro lasts)

definition data_fit :: "sourceData \<Rightarrow> bool" where
  "data_fit sd \<longleftrightarrow> (\<forall>p\<in>set (sd_peers sd). length (ip_id p) = 16 \<and> key_ok (ip_publicKey p)) \<and> (\<forall>m\<in>set (sd_members sd). length (im_id m) = 16) \<and>
     (\<forall>r\<in>set (sd_rooms sd). room_fit r) \<and> (\<forall>i\<in>set (sd_bans sd). length i = 16) \<and> (\<forall>m\<in>set (sd_messages sd). length (ig_author m) = 16)"

definition names_fit :: "env \<Rightarrow> ident list \<Rightarrow> sourceData \<Rightarrow> bool" where
  "names_fit v skip sd \<longleftrightarrow> (\<forall>c\<in>set (ordered_claims skip sd). name_fit v (cl_name c))"

definition people_there :: "ident list \<Rightarrow> sourceData \<Rightarrow> progress \<Rightarrow> bool" where
  "people_there skip sd s \<longleftrightarrow> (\<forall>p\<in>set (filter (\<lambda>p. ip_id p \<notin> set skip) (sd_peers sd)). enrolled (ip_id p) s) \<and> (\<forall>m\<in>set (sd_members sd). enrolled (im_id m) s)"

lemma lasting_people [lasts]: "lasting (people_there skip sd)"
  unfolding people_there_def by (intro lasts)

lemma claims_enrolled: "c \<in> set (ordered_claims skip sd) \<Longrightarrow> people_there skip sd s \<Longrightarrow> enrolled (cl_id c) s"
  by (auto simp: ordered_claims_def peer_claims_def member_claims_def people_there_def)

lemma does_touches:
  assumes "data_fit sd"
  shows "does id id (\<lambda>s. True) (people_there skip sd) (\<lambda>s. bindE (foldE (write_peer now) (filter (\<lambda>p. ip_id p \<notin> set skip) (sd_peers sd)) s)
    (foldE (\<lambda>m. imp_touch now (im_id m) None (im_lastSeen m)) (sd_members sd)))"
  unfolding people_there_def
proof (rule does_bind)
  show "does id id (\<lambda>s. True) (\<lambda>s. \<forall>p\<in>set (filter (\<lambda>p. ip_id p \<notin> set skip) (sd_peers sd)). enrolled (ip_id p) s) (foldE (write_peer now) (filter (\<lambda>p. ip_id p \<notin> set skip) (sd_peers sd)))"
    using assms by (intro does_all [where A = "\<lambda>x s. True"] lasts) (auto simp: write_peer_def [abs_def] data_fit_def intro!: does_touch)
  show "does id id (\<lambda>s. True \<and> (\<forall>p\<in>set (filter (\<lambda>p. ip_id p \<notin> set skip) (sd_peers sd)). enrolled (ip_id p) s)) (\<lambda>s. \<forall>m\<in>set (sd_members sd). enrolled (im_id m) s)
      (foldE (\<lambda>m. imp_touch now (im_id m) None (im_lastSeen m)) (sd_members sd))"
    using assms by (intro does_all [where A = "\<lambda>x s. True"] lasts) (auto simp: data_fit_def key_ok_def intro!: does_touch)
qed (intro lasts)+

lemma does_claims:
  assumes "names_fit v skip sd"
  shows "does id id (people_there skip sd) (\<lambda>s. True) (\<lambda>s. bindE (foldE (write_claim v now) (ordered_claims skip sd) ([], s)) (\<lambda>(named, s'). Inr s'))"
proof -
  have "does snd snd (people_there skip sd) (\<lambda>s. \<forall>c\<in>set (ordered_claims skip sd). True) (foldE (write_claim v now) (ordered_claims skip sd))"
    using assms by (intro does_all [where A = "\<lambda>c. enrolled (cl_id c)"] lasts does_claim claims_enrolled) (auto simp: names_fit_def)
  from does_from [OF this, of "Pair []" id]
  have "does id snd (people_there skip sd) (\<lambda>s. True) (\<lambda>s. foldE (write_claim v now) (ordered_claims skip sd) ([], s))" by simp
  then show ?thesis unfolding does_def by fastforce
qed

lemma does_messages:
  assumes "data_fit sd"
  shows "does id snd (\<lambda>s. True) (\<lambda>s. \<forall>m\<in>set (sd_messages sd). message_there v skip cutoff m s) (\<lambda>s. foldE (write_message v skip now cutoff) (sort_key ig_hubAt (sd_messages sd)) ([], s))"
proof -
  have "does snd snd (\<lambda>s. True) (\<lambda>s. \<forall>m\<in>set (sort_key ig_hubAt (sd_messages sd)). message_there v skip cutoff m s) (foldE (write_message v skip now cutoff) (sort_key ig_hubAt (sd_messages sd)))"
    using assms by (intro does_all [where A = "\<lambda>x s. True"] lasts does_message) (auto simp: data_fit_def)
  from does_from [OF this, of "Pair []" id] show ?thesis by simp
qed

lemma does_cursors:
  assumes "data_fit sd"
  shows "does snd id (\<lambda>s. True) (\<lambda>s. True) (\<lambda>(lasts, rep, d). bindE (foldE (write_cursor now) (concat (map (\<lambda>p. map (\<lambda>(room, k). (ip_id p, room, k)) lasts)
    (filter (\<lambda>p. ip_id p \<notin> set skip) (sd_peers sd)))) d) (\<lambda>d'. Inr (rep, d')))"
proof (rule doesI)
  fix s :: "(string \<times> int) list \<times> progress" assume s: "store_reach (snd (snd s))"
  obtain lasts rep d where sd: "s = (lasts, rep, d)" by (cases s)
  let ?xs = "concat (map (\<lambda>p. map (\<lambda>(room, k). (ip_id p, room, k)) lasts) (filter (\<lambda>p. ip_id p \<notin> set skip) (sd_peers sd)))"
  have "does (Pair rep) (Pair rep) (\<lambda>s. True) (\<lambda>s. \<forall>x\<in>set ?xs. True) (foldE (write_cursor now) ?xs)"
    using assms by (intro does_all [where A = "\<lambda>x s. True"] lasts) (auto simp: data_fit_def intro!: does_cursor)
  then obtain d' where "foldE (write_cursor now) ?xs d = Inr d'" "store_reach d'" "grown (rep, d) (rep, d')" "still (rep, d) (rep, d')"
    using s sd unfolding does_def by fastforce
  then show "\<exists>s'. (case s of (lasts, rep, d) \<Rightarrow> bindE (foldE (write_cursor now) (concat (map (\<lambda>p. map (\<lambda>(room, k). (ip_id p, room, k)) lasts)
      (filter (\<lambda>p. ip_id p \<notin> set skip) (sd_peers sd)))) d) (\<lambda>d'. Inr (rep, d'))) = Inr s' \<and> store_reach (snd (id s')) \<and> grown (snd s) (id s') \<and> True \<and> (True \<longrightarrow> still (snd s) (id s'))"
    by (simp add: sd)
qed

definition all_there :: "env \<Rightarrow> ident list \<Rightarrow> millis \<Rightarrow> sourceData \<Rightarrow> progress \<Rightarrow> bool" where
  "all_there v skip cutoff sd s \<longleftrightarrow> people_there skip sd s \<and> (\<forall>m\<in>set (sd_members sd). im_id m \<in> mb_Identity ` set (members (snd s))) \<and>
     (\<forall>r\<in>set (sd_rooms sd). room_there r s) \<and> (\<forall>m\<in>set (sd_messages sd). message_there v skip cutoff m s)"

lemma does_rest:
  assumes "data_fit sd"
  shows "does id id (people_there skip sd) (\<lambda>s. (\<forall>m\<in>set (sd_members sd). im_id m \<in> mb_Identity ` set (members (snd s))) \<and> (\<forall>r\<in>set (sd_rooms sd). room_there r s) \<and>
      (\<forall>i\<in>set (sd_bans sd). True) \<and> (\<forall>m\<in>set (sd_messages sd). message_there v skip cutoff m s) \<and> True)
    (\<lambda>s. bindE (foldE write_member (sd_members sd) s) (\<lambda>s. bindE (foldE (write_room now) (sd_rooms sd) s) (\<lambda>s. bindE (foldE (write_ban now) (sd_bans sd) s)
      (\<lambda>s. bindE (foldE (write_message v skip now cutoff) (sort_key ig_hubAt (sd_messages sd)) ([], s))
        (\<lambda>(lasts, rep, d). bindE (foldE (write_cursor now) (concat (map (\<lambda>p. map (\<lambda>(room, k). (ip_id p, room, k)) lasts)
          (filter (\<lambda>p. ip_id p \<notin> set skip) (sd_peers sd)))) d) (\<lambda>d'. Inr (rep, d')))))))"
proof (rule does_bind)
  show "does id id (people_there skip sd) (\<lambda>s. \<forall>m\<in>set (sd_members sd). im_id m \<in> mb_Identity ` set (members (snd s))) (foldE write_member (sd_members sd))"
    using assms by (intro does_all [where A = "\<lambda>m. enrolled (im_id m)"] lasts does_member) (auto simp: data_fit_def people_there_def)
  have ms: "does id id B (\<lambda>s. (\<forall>m\<in>set (sd_messages sd). message_there v skip cutoff m s) \<and> True)
      (\<lambda>s. bindE (foldE (write_message v skip now cutoff) (sort_key ig_hubAt (sd_messages sd)) ([], s))
        (\<lambda>(lasts, rep, d). bindE (foldE (write_cursor now) (concat (map (\<lambda>p. map (\<lambda>(room, k). (ip_id p, room, k)) lasts)
          (filter (\<lambda>p. ip_id p \<notin> set skip) (sd_peers sd)))) d) (\<lambda>d'. Inr (rep, d'))))" for B
    by (rule does_weaken [OF does_bind [OF does_messages [OF assms] does_weaken [OF does_cursors [OF assms]]]]) (intro TrueI lasts)+
  have bs: "does id id B (\<lambda>s. \<forall>i\<in>set (sd_bans sd). True) (foldE (write_ban now) (sd_bans sd))" if "lasting B" for B
    using assms that by (intro does_all [where A = "\<lambda>x s. True"] lasts does_ban) (auto simp: data_fit_def)
  have rs: "does id id B (\<lambda>s. \<forall>r\<in>set (sd_rooms sd). room_there r s) (foldE (write_room now) (sd_rooms sd))" if "lasting B" for B
    using assms that by (intro does_all [where A = "\<lambda>x s. True"] lasts does_room) (auto simp: data_fit_def)
  show "does id id (\<lambda>s. people_there skip sd s \<and> (\<forall>m\<in>set (sd_members sd). im_id m \<in> mb_Identity ` set (members (snd s))))
    (\<lambda>s. (\<forall>r\<in>set (sd_rooms sd). room_there r s) \<and> (\<forall>i\<in>set (sd_bans sd). True) \<and> (\<forall>m\<in>set (sd_messages sd). message_there v skip cutoff m s) \<and> True)
    (\<lambda>s. bindE (foldE (write_room now) (sd_rooms sd) s) (\<lambda>s. bindE (foldE (write_ban now) (sd_bans sd) s)
      (\<lambda>s. bindE (foldE (write_message v skip now cutoff) (sort_key ig_hubAt (sd_messages sd)) ([], s))
        (\<lambda>(lasts, rep, d). bindE (foldE (write_cursor now) (concat (map (\<lambda>p. map (\<lambda>(room, k). (ip_id p, room, k)) lasts)
          (filter (\<lambda>p. ip_id p \<notin> set skip) (sd_peers sd)))) d) (\<lambda>d'. Inr (rep, d'))))))"
    by (rule does_bind [OF rs does_bind [OF bs ms]]; intro lasts)
qed (intro lasts)+

lemma does_write:
  assumes "data_fit sd" "names_fit v skip sd"
  shows "does id id (\<lambda>s. True) (all_there v skip ((now_time - retention) div 1000000) sd) (sourceData_write v sd skip now_time retention)"
proof -
  let ?now = "now_time div 1000000" and ?cutoff = "(now_time - retention) div 1000000"
  let ?rest = "\<lambda>s. (\<forall>m\<in>set (sd_members sd). im_id m \<in> mb_Identity ` set (members (snd s))) \<and> (\<forall>r\<in>set (sd_rooms sd). room_there r s) \<and>
      (\<forall>i\<in>set (sd_bans sd). True) \<and> (\<forall>m\<in>set (sd_messages sd). message_there v skip ?cutoff m s) \<and> True"
  have c: "does id id (\<lambda>s. True \<and> people_there skip sd s) (\<lambda>s. True) (\<lambda>s. bindE (foldE (write_claim v ?now) (ordered_claims skip sd) ([], s)) (\<lambda>(named, s'). Inr s'))"
    by (rule does_weaken [OF does_claims [OF assms(2)]]) simp
  have l: "lasting (\<lambda>s. True \<and> people_there skip sd s)" "lasting ?rest" "lasting (\<lambda>s. True \<and> ?rest s)" by (intro lasts)+
  note rest = does_weaken [OF does_rest [OF assms(1), of skip v ?cutoff ?now], of "\<lambda>s. (True \<and> people_there skip sd s) \<and> True"]
  note chain = does_bind [OF does_touches [OF assms(1), of skip ?now] does_bind [OF c rest l(1) lasting_basic(1) l(2)] lasting_basic(1) lasting_people l(3)]
  have "all_there v skip ?cutoff sd = (\<lambda>s. people_there skip sd s \<and> True \<and> ?rest s)" by (auto simp: all_there_def fun_eq_iff)
  moreover have "sourceData_write v sd skip now_time retention = (\<lambda>s. bindE (bindE (foldE (write_peer ?now) (filter (\<lambda>p. ip_id p \<notin> set skip) (sd_peers sd)) s)
      (foldE (\<lambda>m. imp_touch ?now (im_id m) None (im_lastSeen m)) (sd_members sd)))
    (\<lambda>s. bindE (bindE (foldE (write_claim v ?now) (ordered_claims skip sd) ([], s)) (\<lambda>(named, s'). Inr s'))
    (\<lambda>s. bindE (foldE write_member (sd_members sd) s) (\<lambda>s. bindE (foldE (write_room ?now) (sd_rooms sd) s) (\<lambda>s. bindE (foldE (write_ban ?now) (sd_bans sd) s)
      (\<lambda>s. bindE (foldE (write_message v skip ?now ?cutoff) (sort_key ig_hubAt (sd_messages sd)) ([], s))
        (\<lambda>(lasts, rep, d). bindE (foldE (write_cursor ?now) (concat (map (\<lambda>p. map (\<lambda>(room, k). (ip_id p, room, k)) lasts)
          (filter (\<lambda>p. ip_id p \<notin> set skip) (sd_peers sd)))) d) (\<lambda>d'. Inr (rep, d')))))))))"
    by (simp add: sourceData_write_def [abs_def] Let_def bindE_assoc case_prod_beta')
  ultimately show ?thesis using chain by simp
qed

end
