(* ===== verification/ImportAgain.thy ===== *)
theory ImportAgain
  imports ImportWrite
begin

text \<open>
  The import writes whatever could be read, and a second run of it adds nobody and no message; and two runs that show what it does with bans and nicks.
\<close>

section \<open>What reading gives\<close>

definition uncounted :: "Report \<Rightarrow> bool" where
  "uncounted r \<longleftrightarrow> rp_Identities r = 0 \<and> rp_Members r = 0 \<and> rp_Messages r = 0"

definition read_ok :: "sourceData \<times> Report \<Rightarrow> bool" where
  "read_ok s \<longleftrightarrow> data_fit (fst s) \<and> uncounted (snd s)"

lemma uncounted_note [simp]: "uncounted (rp_note t r) = uncounted r"
  by (simp add: uncounted_def rp_note_def)

lemma hashOrNil_length: "hashOrNil s = Some b \<Longrightarrow> length b = 16"
  by (auto simp: hashOrNil_def split: option.splits if_splits)

lemma imp_hashes_ok:
  assumes "imp_hashes v place xs rep = (out, rep')"
  shows "(\<forall>i\<in>set out. length i = 16) \<and> uncounted rep' = uncounted rep"
proof -
  let ?f = "\<lambda>s (out, r). case hashOrNil s of Some b \<Rightarrow> (out @ [b], r) | None \<Rightarrow> (out, rp_note (place @ '': '' @ quote v s @ '' is not an identity hash; skipped'') r)"
  have "(\<lambda>p. (\<forall>i\<in>set (fst p). length i = 16) \<and> uncounted (snd p) = uncounted rep) (fold ?f xs ([], rep))"
    by (rule fold_invariant [where Q = "\<lambda>x. True"]) (auto dest: hashOrNil_length split: option.splits prod.splits)
  then show ?thesis using assms by (simp add: imp_hashes_def)
qed

lemma fold_read:
  assumes "read_ok s" "\<And>x s. x \<in> set xs \<Longrightarrow> read_ok s \<Longrightarrow> read_ok (f x s)"
  shows "read_ok (fold f xs s)"
  using assms by (induction xs arbitrary: s) auto

lemma readHistory_ok:
  "readHistory dec base room raw rep = (ms, rep') \<Longrightarrow> (\<forall>m\<in>set ms. length (ig_author m) = 16) \<and> uncounted rep' = uncounted rep"
proof (induction dec base room raw rep arbitrary: ms rep' rule: readHistory.induct)
  case (1 dec base room raw rep)
  show ?case
    using 1(3) 1(1,2) [OF _ _ refl refl]
    by (subst (asm) readHistory.simps)
      (auto simp: Let_def history_message_def split: if_splits option.splits prod.splits)
qed

lemma read_step_ok:
  "read_ok s \<Longrightarrow> read_ok (read_peer v p s)" "read_ok s \<Longrightarrow> read_ok (read_member m s)" "read_ok s \<Longrightarrow> read_ok (read_line v l s)"
  by (auto simp: read_ok_def read_peer_def read_member_def read_line_def data_fit_def key_ok_def Let_def dest: hashOrNil_length split: option.splits prod.splits if_splits)

lemma read_room_ok:
  assumes "read_ok s"
  shows "read_ok (read_room v r s)"
proof -
  obtain d rep where s: "s = (d, rep)" by (cases s)
  obtain ops rep1 where 1: "imp_hashes v (tr_name r) (tr_operators r) rep = (ops, rep1)" by fastforce
  obtain voiced rep2 where 2: "imp_hashes v (tr_name r) (tr_voiced r) rep1 = (voiced, rep2)" by fastforce
  obtain bs rep3 where 3: "imp_hashes v (tr_name r) (tr_bans r) rep2 = (bs, rep3)" by fastforce
  have "set (map fst (filter (\<lambda>(c, on). on r) toml_modes)) \<subseteq> set (map fst toml_modes)" by auto
  also have "\<dots> \<subseteq> set ''ikmnpt''" by (simp add: toml_modes_def)
  finally show ?thesis
    using assms imp_hashes_ok [OF 1] imp_hashes_ok [OF 2] imp_hashes_ok [OF 3]
    by (auto simp: s read_ok_def read_room_def 1 2 3 data_fit_def room_fit_def room_ids_def ball_Un dest: hashOrNil_length hashOrNil_length [OF sym] split: option.splits)
qed

lemma read_history_file_ok: "read_ok s \<Longrightarrow> read_history_file dec f s = Inr s' \<Longrightarrow> read_ok s'"
  by (auto simp: read_ok_def read_history_file_def data_fit_def dest!: readHistory_ok split: option.splits prod.splits source_file.splits)

lemma readRRCHub_ok:
  assumes "read_ok s" "readRRCHub v dec fs s = Inr s'"
  shows "read_ok s'"
proof -
  from assms(2) obtain ps rs ks d rep bs rep' where
      d: "fold (read_room v) rs (fold (read_peer v) ps s) = (d, rep)" and h: "imp_hashes v ''klines'' ks rep = (bs, rep')"
      and f: "foldE (read_history_file dec) (rf_history fs) (d\<lparr>sd_bans := sd_bans d @ bs\<rparr>, rep') = Inr s'"
    by (auto simp: readRRCHub_def Let_def split: prod.splits)
  have "read_ok (d, rep)" unfolding d [symmetric] by (intro fold_read assms(1) read_room_ok read_step_ok)
  with imp_hashes_ok [OF h] have "read_ok (d\<lparr>sd_bans := sd_bans d @ bs\<rparr>, rep')" by (auto simp: read_ok_def data_fit_def)
  with f show ?thesis by (rule foldE_invariant) (rule read_history_file_ok)
qed

lemma readBridge_ok:
  assumes "read_ok s" "readBridge v fs s = Inr s'"
  shows "read_ok s'"
proof -
  obtain ms ks where m: "(case bf_state fs of Missing \<Rightarrow> Inr ([], []) | Broken e \<Rightarrow> Inl (''bridge state.json: '' @ e) | Found x \<Rightarrow> Inr x) = Inr (ms, ks)"
    using assms(2) by (auto simp: readBridge_def)
  obtain d rep where d: "fold read_member ms s = (d, rep)" by fastforce
  have "read_ok (d, rep)" unfolding d [symmetric] by (intro fold_read assms(1) read_step_ok)
  then have ok: "read_ok (d\<lparr>sd_bans := sd_bans d @ List.map_filter hashOrNil ks\<rparr>, rep)"
    by (auto simp: read_ok_def data_fit_def List.map_filter_def dest: hashOrNil_length)
  have "read_ok (fold (read_line v) ls (d\<lparr>sd_bans := sd_bans d @ List.map_filter hashOrNil ks\<rparr>, rep))" for ls
    by (intro fold_read ok read_step_ok)
  with ok show ?thesis using assms(2) by (auto simp: readBridge_def m d Let_def split: source_file.splits option.splits prod.splits)
qed

lemma read_sources_ok:
  assumes "read_sources v dec hubfs bridge = Inr (sd, rep)"
  shows "data_fit sd" "uncounted rep"
proof -
  have "read_ok (no_data, empty_report)" by (simp add: read_ok_def no_data_def data_fit_def uncounted_def empty_report_def)
  then have "read_ok (sd, rep)" using assms
    by (auto simp: read_sources_def split: option.splits) (metis readRRCHub_ok readBridge_ok)+
  then show "data_fit sd" "uncounted rep" by (simp_all add: read_ok_def)
qed

section \<open>Importing, and importing again\<close>

lemma Import_runs:
  assumes "store_reach d" and read: "read_sources v dec hubfs bridge = Inr (sd, rep0)" and "names_fit v skip sd"
  obtains rep d1 where "Import v dec hubfs bridge skip now_time retention True d = (Imported rep, d)" "Import v dec hubfs bridge skip now_time retention False d = (Imported rep, d1)"
    "store_reach d1" "all_there v skip ((now_time - retention) div 1000000) sd (rep, d1)" "messages d1 = messages d \<or> \<not> all_there v skip ((now_time - retention) div 1000000) sd (rep0, d)"
    "all_there v skip ((now_time - retention) div 1000000) sd (rep0, d) \<longrightarrow> uncounted rep"
proof -
  let ?there = "all_there v skip ((now_time - retention) div 1000000) sd"
  obtain rep d' where w: "sourceData_write v sd skip now_time retention (rep0, d) = Inr (rep, d')" "store_reach d'" "?there (rep, d')" "?there (rep0, d) \<longrightarrow> still (rep0, d) (rep, d')"
    using does_write [OF read_sources_ok(1) [OF read] assms(3), of now_time retention] assms(1) unfolding does_def by fastforce
  let ?d1 = "Audit (now_time div 1000000) None ''import'' '''' (TrimSpace (Report_String rep)) d'"
  have "identities ?d1 = identities d'" "members ?d1 = members d'" "rooms ?d1 = rooms d'" and ms: "messages ?d1 = messages d'" by (simp_all add: Audit_def)
  with w(3) have "?there (rep, ?d1)" by (simp add: all_there_def people_there_def room_there_def message_there_def enrolled_def)
  moreover have "store_reach ?d1" using reach_step [OF w(2) step_Audit] .
  ultimately show thesis
    using that [of rep ?d1] w(1,4) ms read read_sources_ok(2) [OF read] by (auto simp: Import_def still_def uncounted_def)
qed

lemma all_there_later:
  assumes "all_there v skip c sd (rep, d)" "c \<le> c'"
  shows "all_there v skip c' sd (rep', d)"
  using assms by (fastforce simp: all_there_def people_there_def room_there_def message_there_def enrolled_def)


section \<open>Runs\<close>

definition old_peer :: "ident \<Rightarrow> string \<Rightarrow> rat \<Rightarrow> toml_peer" where
  "old_peer i nick seen = \<lparr>tp_key = hexID i, tp_public_key = '''', tp_nick = nick, tp_last_seen_ts = seen\<rparr>"

definition old_room :: toml_room where
  "old_room = \<lparr>tr_name = ''Loch'', tr_founder = hexID alice, tr_topic = ''boats'', tr_moderated = False, tr_invite_only = False, tr_topic_ops_only = True,
     tr_no_outside_msgs = True, tr_private = False, tr_operators = [hexID bob], tr_voiced = [], tr_bans = [], tr_last_used_ts = 3\<rparr>"

definition old_record :: rec_decoder where
  "old_record b = (if b = ''!'' then Some [(1, RUint 5000), (2, RBytes ''q''), (3, RBytes bob), (5, RUint 20), (6, RText ''halo'')] else None)"

definition old_history :: history_file where
  "old_history = \<lparr>hf_path = ''history/6c6f6368/1.log'', hf_base = ''1.log'', hf_dir = ''6c6f6368'',
     hf_raw = Found ([CHR 0x00, CHR 0x00, CHR 0x00, CHR 0x01] @ ''!'' @ [CHR 0x00, CHR 0x00, CHR 0x00, CHR 0x01] @ ''?'' @ [CHR 0x00, CHR 0x00])\<rparr>"

definition old_hub :: rrchub_files where
  "old_hub = \<lparr>rf_peers = Found [old_peer alice ''Ailsa'' 2], rf_rooms = Found [old_room], rf_klines = Found [hexID bob], rf_history = [old_history]\<rparr>"

definition old_member :: "ident \<Rightarrow> string \<Rightarrow> int \<Rightarrow> json_member" where
  "old_member i nick seen = \<lparr>jm_addr = ''addr'', jm_identity = hexID i, jm_nick = nick, jm_paused = True, jm_joined_at = 1000, jm_last_seen = seen\<rparr>"

definition old_bridge :: bridge_files where
  "old_bridge = \<lparr>bf_state = Found ([old_member bob [] 1000, old_member alice ''Ally'' 9000], []),
     bf_log = Found ([Some \<lparr>jn_said_at = 4000, jn_received_at = 4000, jn_source = ''lxmf'', jn_origin_id = ''z'', jn_author_identity = hexID alice, jn_author_name = ''Ailsa'', jn_body = ''* waves''\<rparr>, None], None)\<rparr>"

definition old_data :: "sourceData \<times> Report" where
  "old_data = okE (read_sources ascii_env old_record (Some old_hub) (Some old_bridge))"

lemma old_read: "read_sources ascii_env old_record (Some old_hub) (Some old_bridge) = Inr (fst old_data, snd old_data)"
  by code_simp

lemma old_claims: "map cl_name (ordered_claims [] (fst old_data)) = [''Ally'', ''Ailsa'']"
  by code_simp

lemma old_names: "names_fit ascii_env [] (fst old_data)"
proof -
  have "name_fit ascii_env ''Ally''" "name_fit ascii_env ''Ailsa''" by code_simp+
  then have "\<forall>n\<in>set (map cl_name (ordered_claims [] (fst old_data))). name_fit ascii_env n" by (simp add: old_claims del: set_map)
  then show ?thesis by (simp add: names_fit_def)
qed


definition banned_hub :: rrchub_files where
  "banned_hub = \<lparr>rf_peers = Missing, rf_rooms = Missing, rf_klines = Found [hexID bob], rf_history = []\<rparr>"

definition small_bridge :: "json_member list \<Rightarrow> bridge_files" where
  "small_bridge ms = \<lparr>bf_state = Found (ms, []), bf_log = Missing\<rparr>"

definition import_of :: "rrchub_files \<Rightarrow> json_member list \<Rightarrow> import_result \<times> db" where
  "import_of fs ms = Import ascii_env old_record (Some fs) (Some (small_bridge ms)) [] 10000000000 9000000000 False empty_db"

text \<open>An imported ban does not take its target out of the group, as the hub's own ban does.\<close>

lemma import_bans_member: "(case import_of banned_hub [old_member bob [] 1000] of (r, d) \<Rightarrow> IsBanned bob d \<and> IsMember bob d)"
  by code_simp

definition named_hub :: rrchub_files where
  "named_hub = \<lparr>rf_peers = Found [old_peer alice ''Ailsa'' 2], rf_rooms = Missing, rf_klines = Missing, rf_history = []\<rparr>"

text \<open>The nick of the bridge wins over rrc-hub's registry when it is the newer one.\<close>

lemma import_bridge_nick: "(case import_of named_hub [old_member alice ''Ally'' 9000] of (r, d) \<Rightarrow> map n_Name (names d) = [''Ally''])"
  by code_simp

end
