(* ===== verification/Spec2Isabelle.thy ===== *)
theory Spec2Isabelle
  imports HubLeftovers LxmfAttempts RrcJoin PageRun ImportAgain
begin

text \<open>
  \<^bold>\<open>ScotMesh chat: a verification development.\<close>

  ScotMesh chat is a chat hub for Reticulum networks, written in Go. One process holds the rooms, the people and the messages; people reach it over
  RRC links (internal/rrcsrv), by LXMF messages to a group (internal/lxmfgroup) or on a page (internal/nomadpage). All three are adapters of one core,
  the hub (internal/hub), which runs every request alone, one after the other, on a single goroutine, as a transaction of the store (internal/store, an SQLite
  database), and hands the adapters what happened as events in bounded queues. This development models the store, the hub and all three
  adapters, operation by operation, and proves what makes each of them and the whole correct.

  \<^bold>\<open>Common ground.\<close> \<open>Prelude\<close>: Go's types (strings and byte slices are char lists, int64 an int, a zero time 0 or \<open>None\<close>), the error values
  \<open>err\<close> and sequencing of code that may fail. \<open>Tables\<close>: SQL tables as lists of rows in rowid order, with insert, upsert, update and delete. \<open>GoStrings\<close>, \<open>GoText\<close>: what the code uses of
  Go's strings, utf8 and strconv packages, on bytes, with the UTF-8 facts the splitting code relies on.

  \<^bold>\<open>The store\<close> (internal/store). \<open>StoreDB\<close> has a record per row and the database \<open>db\<close> with its schema invariant \<open>db_inv\<close> (unique keys, foreign keys, checked
  columns). \<open>StorePeople\<close> (people.go, persons.go), \<open>StoreRooms\<close> (rooms.go), \<open>StoreMessages\<close> (messages.go), \<open>StoreGroup\<close> (group.go), \<open>StoreSocial\<close>
  (whispers.go) and \<open>StoreAdmin\<close> (admin.go) have one definition per method of \<^verbatim>\<open>*Tx\<close>: what the statement does to the tables, or the error the constraint gives. \<open>Store\<close>
  collects the writes in the step relation \<open>store_step\<close> and proves the invariant of every reachable database, the round trips of names and links, one-time
  link codes, cursors and the catch-up. \<open>StoreCalm\<close>: which writes can ban someone or add a group member.

  \<^bold>\<open>The hub\<close> (internal/hub). \<open>HubCore\<close> is the record \<open>hub\<close> (configuration, environment, clock, database, presence, limiters, subscribers), the monad of handlers
  and \<open>update\<close>: an error rolls the database back and drops the events; on success the in-memory changes and the events follow the commit. \<open>HubConfig\<close>, \<open>HubRanks\<close>, \<open>HubNames\<close>,
  \<open>HubPeople\<close>, \<open>HubRooms\<close>, \<open>HubPost\<close>, \<open>HubLinks\<close>, \<open>HubModeration\<close>, \<open>HubMaintain\<close>, \<open>HubWhispers\<close>, \<open>HubProfile\<close>, \<open>HubCmd\<close>, \<open>HubCmdRooms\<close>, \<open>HubCmdPeople\<close>,
  \<open>HubHelp\<close> and \<open>HubCommands\<close> translate the files of the same names. \<open>Hub\<close> has the step relation \<open>hub_step\<close> (every request of every adapter, a tick of the clock, maintenance, a
  subscriber reading its queue) and \<open>hub_reach\<close>, and proves the invariant \<open>sound\<close> of every reachable hub. On it rest \<open>HubBans\<close> (the banned stay out),
  \<open>HubOwners\<close> (owners are never banned), \<open>HubLimits\<close> (the token bucket's bound; forgetting idle limits cannot be seen), \<open>HubReads\<close>, \<open>HubPosting\<close> (what a post needs and
  does), \<open>HubPresence\<close> (presence refines a counter of links), \<open>HubUpkeep\<close> (maintenance exactly) and \<open>HubLeftovers\<close> (runs that show behaviour the
  comments do not announce).

  \<^bold>\<open>The wire\<close> (rrc/wire). \<open>WireNames\<close> (names.go) and \<open>Wire\<close> (constants.go, envelope.go, bodies.go): frames, their limits and the round trip of envelopes. The CBOR library is the
  parameter \<open>codec\<close>; the laws it documents are the hypothesis \<open>codec_laws\<close>, and \<open>tally_codec\<close> shows they can hold.

  \<^bold>\<open>The adapters.\<close> \<open>Adapter\<close> is their contract with the hub: an adapter holds a hub and changes it only by requests (\<open>calls\<close>), so its runs are runs of the hub.
  \<open>LxmfSplit\<close> (split.go) and \<open>LxmfGroup\<close> (group.go) are the LXMF group: incoming messages, replies, the delivery queue, the senders and their attempts, with the network as the
  parameter \<open>transport\<close>; \<open>LxmfDelivery\<close> and \<open>LxmfAttempts\<close> prove what a delivery goes through. \<open>RrcSplit\<close>, \<open>RrcServer\<close> and \<open>RrcHandle\<close> are the RRC server: sessions, job queues, every
  handler, the fan-out of events, keepalive and writers, with links, codec and message ids as the parameter \<open>net\<close>. A handler is atomic except JOIN, which the code runs beside the fan-out: it is three
  steps (\<open>join_begin\<close>, \<open>join_commit\<close>, \<open>finishJoin\<close>) between which anything may happen. \<open>RrcSafety\<close>, \<open>RrcRun\<close> and \<open>RrcJoin\<close> prove the invariant of every history, that nothing happens before
  HELLO, and that a JOIN loses and repeats nothing. \<open>PageText\<close> (page.go), \<open>PageChat\<close> (chat.go) and \<open>PageMe\<close> (me.go, profile.go, help.go) are the chat page: requests, tokens, the actions behind
  links and forms, and the Micron text of every page, with the time zone (\<open>london\<close>) and the random bytes as parameters. A request is one step. \<open>PageSafety\<close> and \<open>PageRun\<close> prove the invariant of the tokens in every
  history, that a link made elsewhere does nothing in the visitor's name, and that nobody's text carries formatting.

  \<^bold>\<open>The import\<close> (internal/importer). \<open>Importer\<close> is importer.go: reading the old services' files, and writing them by the store's operations in one transaction. \<open>ImportWrite\<close> has the contract of
  a writing step (\<open>does\<close>) and \<open>ImportAgain\<close> proves that the import always completes and that a second one adds nothing. The hub's histories start from a store without banned group
  members (\<open>hub_reach\<close>); \<open>import_bans_member\<close> shows that an import can leave one.

  \<^bold>\<open>Interfaces.\<close> The locales are \<open>upsert_table\<close> (a table whose rows have a key), \<open>plain_handler\<close> and \<open>hub_handler\<close> (what a hub handler must keep), \<open>adapter\<close> (interpreted for the LXMF group, the RRC server and the page), \<open>sending\<close> and \<open>handling\<close> (what a relation on server states must allow for every
  handler to stay within it; interpreted for the server's invariant and for the frame condition before HELLO), and \<open>paging\<close>, \<open>acting\<close> and \<open>refusing\<close> (the same for the page: what it shows, what its buttons
  do, and what it refuses; interpreted for the histories of the page and for requests without a valid token).

  \<^bold>\<open>Parameters, bounds, and what they stand for.\<close> \<open>env\<close>: Unicode tables, NFC, SHA-256 and the LXMF address of an identity; random link codes, message ids and the clock are arguments. The limiter's float64 is a rational. Loops whose end is not
  structural have a measure; \<open>splitText\<close> is a partial function to \<open>option\<close>, where \<open>None\<close> means that the loop does not end, and it is proved when it ends and when it does not. Queue
  sizes and limits are the code's constants. No fuel is used.

  \<^bold>\<open>Not modelled.\<close> the decoders of the importer's files (TOML, JSON, CBOR; a file is what its decoder made of it), internal/app and cmd (flags, files, wiring of the process), third_party
  (a vendored network stack), opening, migrating and backing up the database file, HelpWiki (prints the command table), logging, statistics endpoints, contexts and cancellation, recovery from
  panics: they are I/O, or have no state of the program's own.
\<close>

section \<open>The hub in any history\<close>

text \<open>
  C1. Whatever the adapters ask, in whatever order, and however the clock, the maintenance and the readers of
  the event queues interleave: the database always satisfies the schema invariant, presence has one entry per
  room and identity and only with at least one link, and no event queue outgrows its buffer.
\<close>

theorem hub_reach_invariant:
  assumes "hub_reach h"
  shows "db_inv (st h) \<and> presence_ok (presence h) \<and> queues_ok (subs h) \<and> fair_limits h"
  using hub_reach_sound [OF assms] hub_reach_fair [OF assms] by (simp add: sound_def hub_inv_def fair_def)

text \<open>A store with Bob banned, and the hub started on it.\<close>

definition ban_of_bob :: ban where
  "ban_of_bob = \<lparr>b_Identity = bob, b_Name = ''Bob'', b_Reason = ''spam'', b_BannedBy = Some alice, b_BannedAt = 60, b_ExpiresAt = 0\<rparr>"

definition town_banned :: db where
  "town_banned = town_db\<lparr>members := [], bans := [ban_of_bob]\<rparr>"

definition hub_banned :: hub where
  "hub_banned = projr (New Defaults ascii_env 100000000 town_banned)"

lemma town_banned_reach: "store_reach town_banned"
proof -
  have "RemoveMember bob town_db = (True, town_db\<lparr>members := []\<rparr>)" by code_simp
  then have "store_reach (town_db\<lparr>members := []\<rparr>)" using reach_step [OF town_reach step_RemoveMember] by (metis snd_conv)
  moreover have "AddBan ban_of_bob (town_db\<lparr>members := []\<rparr>) = Inr town_banned" by code_simp
  ultimately show ?thesis by (blast intro: reach_step step_AddBan)
qed

lemma hub_banned_reach: "hub_reach hub_banned"
proof (rule started [OF town_banned_reach])
  show "\<And>i. IsBanned i town_banned \<Longrightarrow> \<not> IsMember i town_banned" by (simp add: town_banned_def IsMember_def)
  have "isl (New Defaults ascii_env 100000000 town_banned) = False" by code_simp
  then show "New Defaults ascii_env 100000000 town_banned = Inr hub_banned"
    unfolding hub_banned_def by (cases "New Defaults ascii_env 100000000 town_banned") simp_all
qed

theorem hub_reach_invariant_witness: "db_inv (st hub_banned) \<and> presence_ok (presence hub_banned) \<and> fair_limits hub_banned"
  using hub_reach_invariant [OF hub_banned_reach] by blast



lemma Post_error:
  assumes "db_inv (st h)" "Post pr h = (Inl e, h')"
  shows "st h' = st h \<and> presence h' = presence h \<and> subs h' = subs h"
proof -
  obtain q h1 where u: "update (post pr) h = (q, h1)" by force
  with assms(2) have "q = Inl e" "st h' = st h1" "presence h' = presence h1" "subs h' = subs h1"
    by (auto simp: Post_def split: sum.splits)
  moreover have "handler (post pr)" by (intro handlerI hub_keeps)
  ultimately show ?thesis using update_error_atomic [OF _ assms(1)] u by metis
qed

lemma request_errors:
  assumes inv: "db_inv (st h)"
  shows "Join_request jr h = (Inl e, h') \<Longrightarrow> st h' = st h \<and> presence h' = presence h \<and> subs h' = subs h"
    and "Part i room h = (Inl e, h') \<Longrightarrow> st h' = st h \<and> presence h' = presence h \<and> subs h' = subs h"
    and "JoinGroup i name h = (Inl e, h') \<Longrightarrow> st h' = st h \<and> presence h' = presence h \<and> subs h' = subs h"
    and "LeaveGroup i h = (Inl e, h') \<Longrightarrow> st h' = st h \<and> presence h' = presence h \<and> subs h' = subs h"
    and "hub_ClaimName i name h = (Inl e, h') \<Longrightarrow> st h' = st h \<and> presence h' = presence h \<and> subs h' = subs h"
    and "Forget i h = (Inl e, h') \<Longrightarrow> st h' = st h \<and> presence h' = presence h \<and> subs h' = subs h"
    and "hub_SetLXMFMode i mode h = (Inl e, h') \<Longrightarrow> st h' = st h \<and> presence h' = presence h \<and> subs h' = subs h"
    and "hub_SetPrefs i change h = (Inl e, h') \<Longrightarrow> st h' = st h \<and> presence h' = presence h \<and> subs h' = subs h"
    and "RecordDelivery x outcome propagated retryAt awayUntil h = (Inl e, h') \<Longrightarrow> st h' = st h \<and> presence h' = presence h \<and> subs h' = subs h"
  unfolding Join_request_def JoinGroup_def request_defs
  by (erule update_error_atomic [OF _ inv, rotated], intro handlerI hub_keeps)+



end
